(* ===== verification/Prelude.thy ===== *)
theory Prelude
  imports Main "HOL-Library.Word"
begin

text \<open>
  What every theory of the development shares: the machine arithmetic of the
  source language (64-bit \<open>usize\<close>, written out on natural numbers), the
  error and result types, the state-and-error monad in which the stateful code is
  written, and the calculus of preserved state predicates that carries the
  invariant proofs through sequences, matches and loops.
\<close>

unbundle bit_operations_syntax

named_theorems arith_defs \<open>definitions of the fixed-width operations\<close>
named_theorems monad_simps \<open>unfolding of the state-and-error monad\<close>
named_theorems ok_iff \<open>when a program returns a value\<close>
named_theorems keeps_intro \<open>rules that carry a state predicate through a program\<close>

section \<open>Fixed-width arithmetic on natural numbers\<close>

text \<open>
  \<open>usize\<close> is 64 bits wide on the two targets of the program. Sizes, addresses
  and process identifiers are natural numbers below \<open>2 ^ 64\<close>; bit masks are
  words. \<open>saturating_sub\<close> is the subtraction of \<open>nat\<close>.
\<close>

type_synonym usize = nat
type_synonym byte = "8 word"

definition usize_max :: usize where
  [arith_defs]: "usize_max = 18446744073709551615"

definition u32_max :: nat where
  [arith_defs]: "u32_max = 4294967295"

definition sat_add :: "usize \<Rightarrow> usize \<Rightarrow> usize" where
  [arith_defs]: "sat_add a b = min (a + b) usize_max"

definition sat_sub :: "usize \<Rightarrow> usize \<Rightarrow> usize" where
  [arith_defs]: "sat_sub a b = a - b"

definition checked_add :: "usize \<Rightarrow> usize \<Rightarrow> usize option" where
  [arith_defs]: "checked_add a b = (if a + b \<le> usize_max then Some (a + b) else None)"

definition wrap_add :: "usize \<Rightarrow> usize \<Rightarrow> usize" where
  [arith_defs]: "wrap_add a b = (a + b) mod (usize_max + 1)"

definition wrap_mul :: "usize \<Rightarrow> usize \<Rightarrow> usize" where
  [arith_defs]: "wrap_mul a b = (a * b) mod (usize_max + 1)"

definition wrap_sub :: "usize \<Rightarrow> usize \<Rightarrow> usize" where
  [arith_defs]: "wrap_sub a b = (if b \<le> a then a - b else usize_max + 1 - (b - a) mod (usize_max + 1))"

definition u32_try_from :: "usize \<Rightarrow> nat option" where
  [arith_defs]: "u32_try_from a = (if a \<le> u32_max then Some a else None)"

definition u32_checked_add :: "nat \<Rightarrow> nat \<Rightarrow> nat option" where
  [arith_defs]: "u32_checked_add a b = (if a + b \<le> u32_max then Some (a + b) else None)"

definition u32_sat_add :: "nat \<Rightarrow> nat \<Rightarrow> nat" where
  [arith_defs]: "u32_sat_add a b = min (a + b) u32_max"

definition u32_wrap_add :: "nat \<Rightarrow> nat \<Rightarrow> nat" where
  [arith_defs]: "u32_wrap_add a b = (a + b) mod (u32_max + 1)"

lemma sat_add_small [simp]: "a + b \<le> usize_max \<Longrightarrow> sat_add a b = a + b"
  by (simp add: sat_add_def)

lemma sat_add_le_max [simp]: "sat_add a b \<le> usize_max"
  by (simp add: sat_add_def)

lemma sat_add_ge: "a \<le> usize_max \<Longrightarrow> a \<le> sat_add a b"
  by (simp add: sat_add_def)

lemma wrap_add_small [simp]: "a + b \<le> usize_max \<Longrightarrow> wrap_add a b = a + b"
  by (simp add: wrap_add_def)

lemma wrap_mul_small [simp]: "a * b \<le> usize_max \<Longrightarrow> wrap_mul a b = a * b"
  by (simp add: wrap_mul_def)

lemma wrap_sub_small [simp]: "b \<le> a \<Longrightarrow> wrap_sub a b = a - b"
  by (simp add: wrap_sub_def)

lemma checked_add_Some [simp]:
  "checked_add a b = Some c \<longleftrightarrow> c = a + b \<and> a + b \<le> usize_max"
  by (auto simp: checked_add_def)

lemma checked_add_None [simp]: "checked_add a b = None \<longleftrightarrow> usize_max < a + b"
  by (auto simp: checked_add_def)

lemma u32_try_from_Some [simp]: "u32_try_from a = Some b \<longleftrightarrow> b = a \<and> a \<le> u32_max"
  by (auto simp: u32_try_from_def)

lemma u32_try_from_None [simp]: "u32_try_from a = None \<longleftrightarrow> u32_max < a"
  by (auto simp: u32_try_from_def)

lemma u32_checked_add_Some [simp]:
  "u32_checked_add a b = Some c \<longleftrightarrow> c = a + b \<and> a + b \<le> u32_max"
  by (auto simp: u32_checked_add_def)

section \<open>Errors and results\<close>

text \<open>
  The error values of the service library that the source names; any other value
  an outer service may return is \<open>OtherError\<close> of its code. A result is a
  value, an error, or a panic of the whole service.
\<close>

datatype error =
    Success | NotFound | InvalidArgs | OutOfMemory | InvalidAddress | InvalidSlot
  | NotSupported | InvalidType | PermissionDenied | NotInitialized | MessageTooLong
  | IoError | InvalidCapability | AlreadyExists | InvalidConfig | WouldBlock
  | MappingFailed | InvalidProtocol | OtherError nat

datatype 'a res = Ok 'a | Err error | Panic

definition ok_or :: "'a option \<Rightarrow> error \<Rightarrow> 'a res" where
  "ok_or x e = (case x of Some v \<Rightarrow> Ok v | None \<Rightarrow> Err e)"

lemma ok_or_simps [simp]: "ok_or (Some v) e = Ok v" "ok_or None e = Err e"
  by (simp_all add: ok_or_def)

lemma ok_or_Ok [simp]: "ok_or x e = Ok v \<longleftrightarrow> x = Some v"
  by (cases x) auto

section \<open>The state-and-error monad\<close>

type_synonym ('s, 'a) prog = "'s \<Rightarrow> 'a res \<times> 's"

definition ret :: "'a \<Rightarrow> ('s, 'a) prog" where
  [monad_simps]: "ret x s = (Ok x, s)"

definition throw :: "error \<Rightarrow> ('s, 'a) prog" where
  [monad_simps]: "throw e s = (Err e, s)"

definition panic :: "('s, 'a) prog" where
  [monad_simps]: "panic s = (Panic, s)"

definition andThen :: "('s, 'a) prog \<Rightarrow> ('a \<Rightarrow> ('s, 'b) prog) \<Rightarrow> ('s, 'b) prog" where
  [monad_simps]: "andThen m f s =
     (case m s of
        (Ok x, s') \<Rightarrow> f x s'
      | (Err e, s') \<Rightarrow> (Err e, s')
      | (Panic, s') \<Rightarrow> (Panic, s'))"

text \<open>Handling a failing call: \<open>attempt\<close> hands the error over as a value.\<close>

definition attempt :: "('s, 'a) prog \<Rightarrow> ('s, error + 'a) prog" where
  [monad_simps]: "attempt m s =
     (case m s of
        (Ok x, s') \<Rightarrow> (Ok (Inr x), s')
      | (Err e, s') \<Rightarrow> (Ok (Inl e), s')
      | (Panic, s') \<Rightarrow> (Panic, s'))"

definition ignore :: "('s, 'a) prog \<Rightarrow> ('s, unit) prog" where
  [monad_simps]: "ignore m = andThen (attempt m) (\<lambda>_. ret ())"

definition gets :: "('s \<Rightarrow> 'a) \<Rightarrow> ('s, 'a) prog" where
  [monad_simps]: "gets f s = (Ok (f s), s)"

definition modify :: "('s \<Rightarrow> 's) \<Rightarrow> ('s, unit) prog" where
  [monad_simps]: "modify f s = (Ok (), f s)"

definition lift_res :: "'a res \<Rightarrow> ('s, 'a) prog" where
  [monad_simps]: "lift_res r s = (r, s)"

definition whenM :: "bool \<Rightarrow> ('s, unit) prog \<Rightarrow> ('s, unit) prog" where
  [monad_simps]: "whenM b m = (if b then m else ret ())"

fun forM :: "'a list \<Rightarrow> ('a \<Rightarrow> ('s, unit) prog) \<Rightarrow> ('s, unit) prog" where
  "forM [] f = ret ()"
| "forM (x # xs) f = andThen (f x) (\<lambda>_. forM xs f)"

lemma andThen_ret [simp]: "andThen (ret x) f = f x"
  by (rule ext) (simp add: andThen_def ret_def)

lemma andThen_ret_right [simp]: "andThen m ret = m"
  by (rule ext) (simp add: andThen_def ret_def split: prod.split res.split)

lemma andThen_assoc: "andThen (andThen m f) g = andThen m (\<lambda>x. andThen (f x) g)"
  by (rule ext) (simp add: andThen_def split: prod.split res.split)

lemma andThen_throw [simp]: "andThen (throw e) f = throw e"
  by (rule ext) (simp add: andThen_def throw_def)

lemma forM_append: "forM (xs @ ys) f = andThen (forM xs f) (\<lambda>_. forM ys f)"
  by (induction xs) (simp_all add: andThen_assoc)

lemma andThen_Ok [ok_iff]:
  "andThen m f s = (Ok y, s'') \<longleftrightarrow> (\<exists>x s'. m s = (Ok x, s') \<and> f x s' = (Ok y, s''))"
  by (auto simp: andThen_def split: prod.splits res.splits)

lemma basic_Ok [ok_iff]:
  "ret x s = (Ok y, s') \<longleftrightarrow> y = x \<and> s' = s"
  "gets f s = (Ok y, s') \<longleftrightarrow> y = f s \<and> s' = s"
  "modify g s = (Ok u, s') \<longleftrightarrow> s' = g s"
  "lift_res r s = (Ok y, s') \<longleftrightarrow> r = Ok y \<and> s' = s"
  "throw e s = (Ok y, s') \<longleftrightarrow> False"
  "panic s = (Ok y, s') \<longleftrightarrow> False"
  by (auto simp: monad_simps)

lemma attempt_Ok [ok_iff]:
  "attempt m s = (Ok z, s') \<longleftrightarrow>
   (\<exists>x. z = Inr x \<and> m s = (Ok x, s')) \<or> (\<exists>e. z = Inl e \<and> m s = (Err e, s'))"
  by (auto simp: attempt_def split: prod.splits res.splits)

lemma ignore_Ok [ok_iff]:
  "ignore m s = (Ok u, s') \<longleftrightarrow> (\<exists>r. r \<noteq> Panic \<and> m s = (r, s'))"
  by (auto simp: ignore_def andThen_Ok attempt_Ok ret_def)
    (metis res.exhaust)

lemma whenM_Ok [ok_iff]:
  "whenM b m s = (Ok u, s') \<longleftrightarrow> (if b then m s = (Ok u, s') else s' = s)"
  by (auto simp: whenM_def ret_def)

section \<open>Predicates kept by a program\<close>

text \<open>
  \<open>keeps P m\<close>: whatever \<open>m\<close> returns (a value, an error or a panic), it
  leaves a state in which \<open>P\<close> holds if it held before.
\<close>

definition keeps :: "('s \<Rightarrow> bool) \<Rightarrow> ('s, 'a) prog \<Rightarrow> bool" where
  "keeps P m \<longleftrightarrow> (\<forall>s. P s \<longrightarrow> P (snd (m s)))"

lemma keepsI: "(\<And>s. P s \<Longrightarrow> P (snd (m s))) \<Longrightarrow> keeps P m"
  by (simp add: keeps_def)

lemma keeps_state: "keeps P m \<Longrightarrow> P s \<Longrightarrow> P (snd (m s))"
  by (simp add: keeps_def)

lemma keepsD: "keeps P m \<Longrightarrow> P s \<Longrightarrow> m s = (r, s') \<Longrightarrow> P s'"
  unfolding keeps_def by (metis snd_conv)

lemma keeps_ret [keeps_intro]: "keeps P (ret x)"
  and keeps_throw [keeps_intro]: "keeps P (throw e)"
  and keeps_panic [keeps_intro]: "keeps P panic"
  and keeps_gets [keeps_intro]: "keeps P (gets f)"
  and keeps_lift_res [keeps_intro]: "keeps P (lift_res r)"
  by (simp_all add: keeps_def monad_simps)

lemma keeps_modify: "(\<And>s. P s \<Longrightarrow> P (f s)) \<Longrightarrow> keeps P (modify f)"
  by (simp add: keeps_def monad_simps)

lemma keeps_andThen [keeps_intro]:
  assumes "keeps P m" and "\<And>x. keeps P (f x)"
  shows "keeps P (andThen m f)"
  using assms unfolding keeps_def andThen_def
  by (fastforce split: prod.split res.split)

lemma keeps_attempt [keeps_intro]: "keeps P m \<Longrightarrow> keeps P (attempt m)"
  unfolding keeps_def attempt_def by (fastforce split: prod.split res.split)

lemma keeps_ignore [keeps_intro]: "keeps P m \<Longrightarrow> keeps P (ignore m)"
  by (simp add: ignore_def keeps_andThen keeps_attempt keeps_ret)

lemma keeps_whenM [keeps_intro]: "(b \<Longrightarrow> keeps P m) \<Longrightarrow> keeps P (whenM b m)"
  by (simp add: whenM_def keeps_ret)

lemma keeps_if [keeps_intro]:
  "(b \<Longrightarrow> keeps P m) \<Longrightarrow> (\<not> b \<Longrightarrow> keeps P n) \<Longrightarrow> keeps P (if b then m else n)"
  by simp

lemma keeps_case_option [keeps_intro]:
  "(x = None \<Longrightarrow> keeps P m) \<Longrightarrow> (\<And>v. x = Some v \<Longrightarrow> keeps P (f v)) \<Longrightarrow>
   keeps P (case x of None \<Rightarrow> m | Some v \<Rightarrow> f v)"
  by (cases x) simp_all

lemma keeps_case_sum [keeps_intro]:
  "(\<And>e. x = Inl e \<Longrightarrow> keeps P (f e)) \<Longrightarrow> (\<And>v. x = Inr v \<Longrightarrow> keeps P (g v)) \<Longrightarrow>
   keeps P (case x of Inl e \<Rightarrow> f e | Inr v \<Rightarrow> g v)"
  by (cases x) simp_all

lemma keeps_case_prod [keeps_intro]:
  "(\<And>a b. x = (a, b) \<Longrightarrow> keeps P (f a b)) \<Longrightarrow> keeps P (case x of (a, b) \<Rightarrow> f a b)"
  by (cases x) simp_all

lemma keeps_Let [keeps_intro]: "(\<And>x. x = t \<Longrightarrow> keeps P (f x)) \<Longrightarrow> keeps P (let x = t in f x)"
  by (simp add: Let_def)

lemma keeps_forM [keeps_intro]: "(\<And>x. x \<in> set xs \<Longrightarrow> keeps P (f x)) \<Longrightarrow> keeps P (forM xs f)"
  by (induction xs) (auto intro!: keeps_ret keeps_andThen)

section \<open>Lists\<close>

lemma filter_eq_self [simp]: "(\<forall>x \<in> set xs. P x) \<Longrightarrow> filter P xs = xs"
  by (induction xs) auto

text \<open>The index that \<open>iter().position\<close> finds, and removal at that index.\<close>

fun position :: "('a \<Rightarrow> bool) \<Rightarrow> 'a list \<Rightarrow> nat option" where
  "position P [] = None"
| "position P (x # xs) = (if P x then Some 0 else map_option Suc (position P xs))"

definition remove_at :: "nat \<Rightarrow> 'a list \<Rightarrow> 'a list" where
  "remove_at n xs = take n xs @ drop (Suc n) xs"

lemma position_Some:
  "position P xs = Some n \<Longrightarrow> n < length xs \<and> P (xs ! n) \<and> (\<forall>i<n. \<not> P (xs ! i))"
proof (induction xs arbitrary: n)
  case (Cons x xs)
  show ?case
  proof (cases "P x")
    case False
    with Cons.prems obtain m where m: "position P xs = Some m" "n = Suc m" by auto
    with Cons.IH[OF m(1)] False show ?thesis
      by (auto simp: nth_Cons split: nat.split)
  qed (use Cons.prems in auto)
qed simp

lemma position_None: "position P xs = None \<longleftrightarrow> (\<forall>x \<in> set xs. \<not> P x)"
  by (induction xs) auto

lemma remove_at_Cons [simp]:
  "remove_at 0 (x # xs) = xs" "remove_at (Suc n) (x # xs) = x # remove_at n xs"
  by (simp_all add: remove_at_def)

lemma position_remove_at:
  "position P xs = Some n \<Longrightarrow> n < length xs \<Longrightarrow>
   filter (\<lambda>x. \<not> P x) (remove_at n xs) = filter (\<lambda>x. \<not> P x) xs"
  by (induction P xs arbitrary: n rule: position.induct) (auto split: if_splits)

lemma length_remove_at: "n < length xs \<Longrightarrow> length (remove_at n xs) = length xs - 1"
  by (simp add: remove_at_def min_def)

end
