(* ===== verification/Btree.thy ===== *)
theory Btree
  imports Prelude
begin

text \<open>
  The ordered map of the standard library (\<open>BTreeMap\<close>), as the association
  list of its iteration: keys strictly ascending. Lookup, insertion and removal obey
  the laws of a map on every list; the order of iteration is the invariant
  \<open>bt_ok\<close>, which every operation keeps. The interface is the locale
  \<open>ordered_map\<close>, interpreted on this representation; client components use
  its laws.
\<close>

section \<open>The interface\<close>

locale ordered_map =
  fixes empty :: 'm
    and get :: "'m \<Rightarrow> 'k::linorder \<Rightarrow> 'v option"
    and ins :: "'k \<Rightarrow> 'v \<Rightarrow> 'm \<Rightarrow> 'm"
    and del :: "'k \<Rightarrow> 'm \<Rightarrow> 'm"
    and keys :: "'m \<Rightarrow> 'k list"
    and ok :: "'m \<Rightarrow> bool"
  assumes get_empty: "get empty = Map.empty"
    and get_ins: "get (ins k v m) = (get m)(k \<mapsto> v)"
    and get_del: "get (del k m) = (get m)(k := None)"
    and set_keys: "set (keys m) = dom (get m)"
    and keys_ascending: "ok m \<Longrightarrow> sorted_wrt (<) (keys m)"
    and ok_empty: "ok empty"
    and ok_ins: "ok m \<Longrightarrow> ok (ins k v m)"
    and ok_del: "ok m \<Longrightarrow> ok (del k m)"
begin

lemma get_ins_same: "get (ins k v m) k = Some v"
  by (simp add: get_ins)

lemma get_ins_other: "j \<noteq> k \<Longrightarrow> get (ins k v m) j = get m j"
  by (simp add: get_ins)

lemma del_after_ins: "get m k = None \<Longrightarrow> get (del k (ins k v m)) = get m"
  by (auto simp: get_ins get_del)

lemma finite_dom: "finite (dom (get m))"
  by (metis set_keys List.finite_set)

text \<open>Two maps with the same contents iterate in the same order.\<close>

lemma keys_canonical:
  assumes "ok m"
  shows "keys m = sorted_list_of_set (dom (get m))"
proof -
  from keys_ascending[OF assms] have "sorted (keys m)" and "distinct (keys m)"
    by (simp_all add: strict_sorted_iff)
  then show ?thesis
    by (metis set_keys sorted_list_of_set.idem_if_sorted_distinct)
qed

lemma keys_ins:
  assumes "ok m"
  shows "keys (ins k v m) = sorted_list_of_set (Set.insert k (dom (get m)))"
  using keys_canonical[OF ok_ins[OF assms]] by (simp add: get_ins)

lemma keys_del:
  assumes "ok m"
  shows "keys (del k m) = sorted_list_of_set (dom (get m) - {k})"
  using keys_canonical[OF ok_del[OF assms]] by (simp add: get_del)

end

section \<open>The representation\<close>

type_synonym ('k, 'v) btree = "('k \<times> 'v) list"

definition bt_get :: "('k, 'v) btree \<Rightarrow> 'k \<Rightarrow> 'v option" where
  "bt_get m = map_of m"

fun bt_insert :: "'k::linorder \<Rightarrow> 'v \<Rightarrow> ('k, 'v) btree \<Rightarrow> ('k, 'v) btree" where
  "bt_insert k v [] = [(k, v)]"
| "bt_insert k v ((k', v') # m) =
     (if k = k' then (k, v) # m
      else if k < k' then (k, v) # (k', v') # m
      else (k', v') # bt_insert k v m)"

definition bt_remove :: "'k \<Rightarrow> ('k, 'v) btree \<Rightarrow> ('k, 'v) btree" where
  "bt_remove k m = filter (\<lambda>e. fst e \<noteq> k) m"

definition bt_keys :: "('k, 'v) btree \<Rightarrow> 'k list" where
  "bt_keys m = map fst m"

definition bt_values :: "('k, 'v) btree \<Rightarrow> 'v list" where
  "bt_values m = map snd m"

definition bt_contains :: "('k, 'v) btree \<Rightarrow> 'k \<Rightarrow> bool" where
  "bt_contains m k = (bt_get m k \<noteq> None)"

text \<open>\<open>get_mut\<close> followed by an assignment through the reference.\<close>

definition bt_alter :: "'k::linorder \<Rightarrow> ('v \<Rightarrow> 'v) \<Rightarrow> ('k, 'v) btree \<Rightarrow> ('k, 'v) btree" where
  "bt_alter k f m = (case bt_get m k of None \<Rightarrow> m | Some v \<Rightarrow> bt_insert k (f v) m)"

text \<open>\<open>entry(k).or_insert(d)\<close> followed by an assignment through the reference.\<close>

definition bt_entry :: "'k::linorder \<Rightarrow> 'v \<Rightarrow> ('v \<Rightarrow> 'v) \<Rightarrow> ('k, 'v) btree \<Rightarrow> ('k, 'v) btree" where
  "bt_entry k d f m = bt_insert k (f (case bt_get m k of None \<Rightarrow> d | Some v \<Rightarrow> v)) m"

text \<open>\<open>range(..=k).next_back()\<close>: the entry with the greatest key up to \<open>k\<close>.\<close>

definition bt_last_le :: "('k::linorder, 'v) btree \<Rightarrow> 'k \<Rightarrow> 'v option" where
  "bt_last_le m k =
     (case filter (\<lambda>e. fst e \<le> k) m of [] \<Rightarrow> None | e # es \<Rightarrow> Some (snd (last (e # es))))"

definition bt_ok :: "('k::linorder, 'v) btree \<Rightarrow> bool" where
  "bt_ok m = sorted_wrt (<) (map fst m)"

section \<open>Laws\<close>

lemma bt_get_Nil [simp]: "bt_get [] k = None"
  by (simp add: bt_get_def)

lemma bt_get_insert [simp]: "bt_get (bt_insert k v m) = (bt_get m)(k \<mapsto> v)"
  by (induction k v m rule: bt_insert.induct) (auto simp: bt_get_def fun_eq_iff)

lemma bt_get_remove [simp]: "bt_get (bt_remove k m) = (bt_get m)(k := None)"
  by (induction m) (auto simp: bt_remove_def bt_get_def fun_eq_iff)

lemma bt_get_alter [simp]: "bt_get (bt_alter k f m) = (bt_get m)(k := map_option f (bt_get m k))"
  by (auto simp: bt_alter_def fun_eq_iff split: option.split)

lemma bt_get_entry [simp]:
  "bt_get (bt_entry k d f m) =
   (bt_get m)(k \<mapsto> f (case bt_get m k of None \<Rightarrow> d | Some v \<Rightarrow> v))"
  by (simp add: bt_entry_def)

lemma set_bt_keys: "set (bt_keys m) = dom (bt_get m)"
  by (simp add: bt_keys_def bt_get_def dom_map_of_conv_image_fst)

lemma bt_ok_Nil [simp]: "bt_ok []"
  by (simp add: bt_ok_def)

lemma bt_ok_Cons: "bt_ok ((k, v) # m) \<longleftrightarrow> (\<forall>e \<in> set m. k < fst e) \<and> bt_ok m"
  by (auto simp: bt_ok_def)

lemma bt_insert_keys: "fst ` set (bt_insert k v m) = insert k (fst ` set m)"
  by (induction k v m rule: bt_insert.induct) auto

lemma bt_ok_insert [simp]: "bt_ok m \<Longrightarrow> bt_ok (bt_insert k v m)"
proof (induction k v m rule: bt_insert.induct)
  case (2 k v k' v' m)
  have keys: "\<And>e. e \<in> set (bt_insert k v m) \<Longrightarrow> fst e = k \<or> fst e \<in> fst ` set m"
    using bt_insert_keys[of k v m] by (metis imageI insertE)
  from "2.prems" have ok: "bt_ok m" and low: "\<And>e. e \<in> set m \<Longrightarrow> k' < fst e"
    by (auto simp: bt_ok_Cons)
  consider "k = k'" | "k < k'" | "k' < k" by fastforce
  then show ?case
  proof cases
    case 3
    with "2.IH" ok have "bt_ok (bt_insert k v m)" by auto
    moreover have "\<forall>e \<in> set (bt_insert k v m). k' < fst e" using keys low 3 by fastforce
    moreover from 3 have "k \<noteq> k'" and "\<not> k < k'" by auto
    ultimately show ?thesis by (simp add: bt_ok_Cons)
  qed (use ok low in \<open>auto simp: bt_ok_Cons dest: less_trans\<close>)
qed (simp add: bt_ok_def)

lemma bt_ok_remove [simp]: "bt_ok m \<Longrightarrow> bt_ok (bt_remove k m)"
  by (induction m) (auto simp: bt_remove_def bt_ok_Cons)

lemma bt_ok_alter [simp]: "bt_ok m \<Longrightarrow> bt_ok (bt_alter k f m)"
  by (simp add: bt_alter_def split: option.split)

lemma bt_ok_entry [simp]: "bt_ok m \<Longrightarrow> bt_ok (bt_entry k d f m)"
  by (simp add: bt_entry_def)

interpretation bt: ordered_map "[]" bt_get bt_insert bt_remove bt_keys bt_ok
proof unfold_locales
  fix m :: "('k::linorder, 'v) btree"
  show "set (bt_keys m) = dom (bt_get m)" by (rule set_bt_keys)
  show "bt_ok m \<Longrightarrow> sorted_wrt (<) (bt_keys m)" by (simp add: bt_ok_def bt_keys_def)
qed (simp_all add: fun_eq_iff)

lemma bt_get_in_set: "bt_ok m \<Longrightarrow> bt_get m k = Some v \<longleftrightarrow> (k, v) \<in> set m"
  unfolding bt_get_def bt_ok_def
  by (metis map_of_is_SomeI map_of_SomeD strict_sorted_iff)

lemma bt_values_ran: "bt_ok m \<Longrightarrow> set (bt_values m) = ran (bt_get m)"
  by (force simp: bt_values_def ran_def bt_get_in_set)

lemma bt_keys_insert_present:
  "bt_ok m \<Longrightarrow> bt_contains m k \<Longrightarrow> bt_keys (bt_insert k v m) = bt_keys m"
  using bt.keys_ins[of m k v] bt.keys_canonical[of m]
  by (simp add: bt_contains_def insert_absorb domIff)

lemma bt_keys_alter [simp]: "bt_ok m \<Longrightarrow> bt_keys (bt_alter k f m) = bt_keys m"
  by (auto simp: bt_alter_def bt_contains_def bt_keys_insert_present split: option.split)

lemma bt_last_le_Some:
  assumes "bt_ok m" and "bt_last_le m k = Some v"
  obtains k' where "bt_get m k' = Some v" and "k' \<le> k"
    and "\<And>j. j \<le> k \<Longrightarrow> bt_contains m j \<Longrightarrow> j \<le> k'"
proof -
  let ?fs = "filter (\<lambda>e. fst e \<le> k) m"
  from assms(2) have ne: "?fs \<noteq> []" and v: "v = snd (last ?fs)"
    by (auto simp: bt_last_le_def split: list.splits)
  then obtain k' where last: "last ?fs = (k', v)" by (metis prod.collapse)
  with ne have mem: "(k', v) \<in> set ?fs" by (metis last_in_set)
  have srt: "sorted_wrt (\<lambda>a b. fst a < fst b) ?fs"
    using assms(1) by (simp add: bt_ok_def sorted_wrt_map sorted_wrt_filter)
  have max: "j \<le> k'" if "j \<le> k" "bt_contains m j" for j
  proof -
    from that obtain w where "(j, w) \<in> set ?fs"
      using assms(1) by (auto simp: bt_contains_def bt_get_in_set)
    then obtain i where i: "i < length ?fs" "?fs ! i = (j, w)" unfolding in_set_conv_nth by blast
    show ?thesis
    proof (cases "i = length ?fs - 1")
      case True
      with i last ne show ?thesis by (simp add: last_conv_nth)
    next
      case False
      with i have "i < length ?fs - 1" by simp
      from sorted_wrt_nth_less[OF srt this] ne have "fst (?fs ! i) < fst (last ?fs)"
        by (simp add: last_conv_nth)
      with i last show ?thesis by simp
    qed
  qed
  from mem assms(1) have "bt_get m k' = Some v" "k' \<le> k" by (auto simp: bt_get_in_set)
  then show thesis using max by (rule that)
qed

lemma bt_last_le_None: "bt_last_le m k = None \<longleftrightarrow> (\<forall>j. bt_contains m j \<longrightarrow> k < j)"
proof -
  have "bt_last_le m k = None \<longleftrightarrow> (\<forall>e \<in> set m. k < fst e)"
    by (metis (mono_tags, lifting) bt_last_le_def filter_empty_conv list.exhaust list.simps(4,5)
        not_le option.distinct(1))
  also have "\<dots> \<longleftrightarrow> (\<forall>j \<in> set (bt_keys m). k < j)" by (simp add: bt_keys_def)
  also have "\<dots> \<longleftrightarrow> (\<forall>j. bt_contains m j \<longrightarrow> k < j)"
    by (auto simp: set_bt_keys bt_contains_def)
  finally show ?thesis .
qed

end
