(* ===== verification/Linux_Abi.thy ===== *)
theory Linux_Abi
  imports Prelude
begin

text \<open>
  The numbers of the Linux user-space interface that the source takes from the
  bindings of the kernel headers. They are fixed by that interface and agree on the
  two targets of the program (RISC-V and x86-64).
\<close>

section \<open>Signals\<close>

abbreviation (input) SIGILL :: nat where "SIGILL \<equiv> 4"
abbreviation (input) SIGTRAP :: nat where "SIGTRAP \<equiv> 5"
abbreviation (input) SIGBUS :: nat where "SIGBUS \<equiv> 7"
abbreviation (input) SIGKILL :: nat where "SIGKILL \<equiv> 9"
abbreviation (input) SIGSEGV :: nat where "SIGSEGV \<equiv> 11"
abbreviation (input) SIGCHLD :: nat where "SIGCHLD \<equiv> 17"
abbreviation (input) SIGCONT :: nat where "SIGCONT \<equiv> 18"
abbreviation (input) SIGSTOP :: nat where "SIGSTOP \<equiv> 19"
abbreviation (input) SIGTSTP :: nat where "SIGTSTP \<equiv> 20"
abbreviation (input) SIGTTIN :: nat where "SIGTTIN \<equiv> 21"
abbreviation (input) SIGTTOU :: nat where "SIGTTOU \<equiv> 22"
abbreviation (input) SIGURG :: nat where "SIGURG \<equiv> 23"
abbreviation (input) SIGWINCH :: nat where "SIGWINCH \<equiv> 28"

abbreviation (input) SIG_BLOCK :: nat where "SIG_BLOCK \<equiv> 0"
abbreviation (input) SIG_UNBLOCK :: nat where "SIG_UNBLOCK \<equiv> 1"
abbreviation (input) SIG_SETMASK :: nat where "SIG_SETMASK \<equiv> 2"
abbreviation (input) SA_RESTART :: "64 word" where "SA_RESTART \<equiv> 0x10000000"

section \<open>Error numbers\<close>

abbreviation (input) EPERM :: int where "EPERM \<equiv> 1"
abbreviation (input) ESRCH :: int where "ESRCH \<equiv> 3"
abbreviation (input) EINTR :: int where "EINTR \<equiv> 4"
abbreviation (input) EBADF :: int where "EBADF \<equiv> 9"
abbreviation (input) ECHILD :: int where "ECHILD \<equiv> 10"
abbreviation (input) EAGAIN :: int where "EAGAIN \<equiv> 11"
abbreviation (input) EFAULT :: int where "EFAULT \<equiv> 14"
abbreviation (input) EINVAL :: int where "EINVAL \<equiv> 22"
abbreviation (input) ENOSYS :: int where "ENOSYS \<equiv> 38"
abbreviation (input) ENOMSG :: int where "ENOMSG \<equiv> 42"

section \<open>Processes\<close>

abbreviation (input) WNOHANG :: "64 word" where "WNOHANG \<equiv> 1"
abbreviation (input) WUNTRACED :: "64 word" where "WUNTRACED \<equiv> 2"
abbreviation (input) WCONTINUED :: "64 word" where "WCONTINUED \<equiv> 8"
abbreviation (input) CLONE_VM :: "64 word" where "CLONE_VM \<equiv> 0x100"
abbreviation (input) CLONE_VFORK :: "64 word" where "CLONE_VFORK \<equiv> 0x4000"
abbreviation (input) CLONE_PARENT_SETTID :: "64 word" where "CLONE_PARENT_SETTID \<equiv> 0x100000"
abbreviation (input) CLONE_CHILD_CLEARTID :: "64 word" where "CLONE_CHILD_CLEARTID \<equiv> 0x200000"
abbreviation (input) CLONE_CHILD_SETTID :: "64 word" where "CLONE_CHILD_SETTID \<equiv> 0x1000000"

section \<open>Memory\<close>

abbreviation (input) PROT_READ :: "32 word" where "PROT_READ \<equiv> 1"
abbreviation (input) PROT_WRITE :: "32 word" where "PROT_WRITE \<equiv> 2"
abbreviation (input) PROT_EXEC :: "32 word" where "PROT_EXEC \<equiv> 4"
abbreviation (input) MAP_PRIVATE :: "32 word" where "MAP_PRIVATE \<equiv> 2"
abbreviation (input) MAP_FIXED :: "32 word" where "MAP_FIXED \<equiv> 0x10"
abbreviation (input) MAP_ANONYMOUS :: "32 word" where "MAP_ANONYMOUS \<equiv> 0x20"
abbreviation (input) MREMAP_MAYMOVE :: "32 word" where "MREMAP_MAYMOVE \<equiv> 1"
abbreviation (input) MREMAP_FIXED :: "32 word" where "MREMAP_FIXED \<equiv> 2"
abbreviation (input) MREMAP_DONTUNMAP :: "32 word" where "MREMAP_DONTUNMAP \<equiv> 4"

section \<open>Files\<close>

abbreviation (input) F_DUPFD :: nat where "F_DUPFD \<equiv> 0"
abbreviation (input) F_GETFD :: nat where "F_GETFD \<equiv> 1"
abbreviation (input) F_SETFD :: nat where "F_SETFD \<equiv> 2"
abbreviation (input) F_GETFL :: nat where "F_GETFL \<equiv> 3"
abbreviation (input) F_SETFL :: nat where "F_SETFL \<equiv> 4"
abbreviation (input) F_DUPFD_CLOEXEC :: nat where "F_DUPFD_CLOEXEC \<equiv> 1030"
abbreviation (input) FD_CLOEXEC :: "64 word" where "FD_CLOEXEC \<equiv> 1"
abbreviation (input) O_CLOEXEC :: "64 word" where "O_CLOEXEC \<equiv> 0x80000"
abbreviation (input) O_NONBLOCK :: "64 word" where "O_NONBLOCK \<equiv> 0x800"

end
