(* ===== verification/Mm_State.thy ===== *)
theory Mm_State
  imports Btree Linux_Abi "HOL-Library.Product_Lexorder"
begin

text \<open>
  The memory map of a process (\<open>src/src/ape/mm.rs\<close>), the classification of
  page faults (\<open>src/src/ape/fault_policy.rs\<close>) and the searches that the
  memory system calls make in the map (the first half of
  \<open>src/src/mm/mod.rs\<close>). The page size, the alignment functions and the
  layout of the address space belong to the kernel library and are the parameter
  \<open>mem_params\<close>; \<open>mem_params_ok\<close> states what the code relies on.
\<close>

section \<open>Parameters\<close>

record mem_params =
  PGSIZE :: usize
  align_up :: "usize \<Rightarrow> usize \<Rightarrow> usize"
  align_down :: "usize \<Rightarrow> usize \<Rightarrow> usize"
  HEAP_VA :: usize
  STACK_BASE :: usize
  THREAD_AREA_BASE :: usize
  SHIFTS :: "nat list"

text \<open>Rounding to a multiple of the page size, for values where rounding up fits.\<close>

definition mem_params_ok :: "mem_params \<Rightarrow> bool" where
  "mem_params_ok M \<longleftrightarrow>
     0 < PGSIZE M \<and> PGSIZE M \<le> usize_max \<and>
     (\<forall>x. x + PGSIZE M \<le> usize_max \<longrightarrow>
        PGSIZE M dvd align_up M x (PGSIZE M) \<and> x \<le> align_up M x (PGSIZE M) \<and>
        align_up M x (PGSIZE M) < x + PGSIZE M) \<and>
     (\<forall>x. PGSIZE M dvd align_down M x (PGSIZE M) \<and> align_down M x (PGSIZE M) \<le> x \<and>
        x < align_down M x (PGSIZE M) + PGSIZE M)"

definition example_mem_params :: mem_params where
  "example_mem_params =
     \<lparr>PGSIZE = 4096,
      align_up = (\<lambda>x a. (x + (a - 1)) div a * a),
      align_down = (\<lambda>x a. x div a * a),
      HEAP_VA = 0x20000000, STACK_BASE = 0x3f00000000, THREAD_AREA_BASE = 0x3e00000000,
      SHIFTS = [12, 21, 30]\<rparr>"

section \<open>Data\<close>

type_synonym capptr = usize

datatype perm = PERM_READ | PERM_WRITE | PERM_EXECUTE

type_synonym perms = "perm set"

datatype memory_type = Image | Stack | Heap | Anonymous | FileBacked

record memory_map =
  map_vaddr :: usize
  map_paddr :: usize
  map_size :: usize
  map_flags :: perms
  mem_type :: memory_type
  map_cow :: bool
  frame_cap :: usize
  file_backing_fd :: "nat option"
  file_backing_offset :: usize

record mm_state =
  memory_maps :: "(usize, memory_map) btree"
  lazy_memory_maps :: "(usize, memory_map) btree"
  stack_bottom :: usize
  stack_size :: usize
  max_stack_size :: usize
  heap_start :: usize
  heap_brk :: usize
  heap_limit :: usize
  mmap_base :: usize
  mmap_next :: usize
  mmap_limit :: usize
  intermediate_page_tables :: "(usize \<times> usize, capptr) btree"

record mm_struct =
  mm_vspace :: capptr
  mm :: mm_state

section \<open>The layout of a new address space\<close>

definition DEFAULT_MAX_STACK_SIZE :: usize where
  "DEFAULT_MAX_STACK_SIZE = 8 * 1024 * 1024"

definition DEFAULT_MMAP_BASE :: "mem_params \<Rightarrow> usize" where
  "DEFAULT_MMAP_BASE M = HEAP_VA M + 16 * PGSIZE M"

definition DEFAULT_MMAP_LIMIT :: "mem_params \<Rightarrow> usize" where
  "DEFAULT_MMAP_LIMIT M = THREAD_AREA_BASE M - 16 * PGSIZE M"

definition DEFAULT_HEAP_LIMIT :: "mem_params \<Rightarrow> usize" where
  "DEFAULT_HEAP_LIMIT M = DEFAULT_MMAP_BASE M"

definition mm_struct_new :: "mem_params \<Rightarrow> capptr \<Rightarrow> mm_struct" where
  "mm_struct_new M vspace =
     \<lparr>mm_vspace = vspace,
      mm = \<lparr>memory_maps = [], lazy_memory_maps = [],
            stack_bottom = STACK_BASE M, stack_size = 0, max_stack_size = DEFAULT_MAX_STACK_SIZE,
            heap_start = HEAP_VA M, heap_brk = HEAP_VA M, heap_limit = DEFAULT_HEAP_LIMIT M,
            mmap_base = DEFAULT_MMAP_BASE M, mmap_next = DEFAULT_MMAP_BASE M,
            mmap_limit = DEFAULT_MMAP_LIMIT M, intermediate_page_tables = []\<rparr>\<rparr>"

section \<open>Lookups and updates\<close>

definition lookup_in :: "(usize, memory_map) btree \<Rightarrow> usize \<Rightarrow> memory_map option" where
  "lookup_in maps v =
     (case bt_last_le maps v of
        None \<Rightarrow> None
      | Some m \<Rightarrow> if v < wrap_add (map_vaddr m) (map_size m) then Some m else None)"

definition lookup_memory_map :: "mm_state \<Rightarrow> usize \<Rightarrow> memory_map option" where
  "lookup_memory_map st v = lookup_in (memory_maps st) v"

definition lookup_lazy_memory_map :: "mm_state \<Rightarrow> usize \<Rightarrow> memory_map option" where
  "lookup_lazy_memory_map st v = lookup_in (lazy_memory_maps st) v"

definition add_memory_map :: "memory_map \<Rightarrow> mm_state \<Rightarrow> mm_state" where
  "add_memory_map m st = st\<lparr>memory_maps := bt_insert (map_vaddr m) m (memory_maps st)\<rparr>"

definition add_lazy_memory_map :: "memory_map \<Rightarrow> mm_state \<Rightarrow> mm_state" where
  "add_lazy_memory_map m st = st\<lparr>lazy_memory_maps := bt_insert (map_vaddr m) m (lazy_memory_maps st)\<rparr>"

definition remove_lazy_memory_map :: "usize \<Rightarrow> mm_state \<Rightarrow> mm_state" where
  "remove_lazy_memory_map v st = st\<lparr>lazy_memory_maps := bt_remove v (lazy_memory_maps st)\<rparr>"

definition translate_addr :: "mm_state \<Rightarrow> usize \<Rightarrow> usize option" where
  "translate_addr st v =
     map_option (\<lambda>m. wrap_add (map_paddr m) (wrap_sub v (map_vaddr m))) (lookup_memory_map st v)"

definition has_intermediate_page_table :: "mm_state \<Rightarrow> nat \<Rightarrow> usize \<Rightarrow> bool" where
  "has_intermediate_page_table st level prefix =
     bt_contains (intermediate_page_tables st) (level, prefix)"

definition record_intermediate_page_table :: "nat \<Rightarrow> usize \<Rightarrow> capptr \<Rightarrow> mm_state \<Rightarrow> mm_state" where
  "record_intermediate_page_table level prefix c st =
     st\<lparr>intermediate_page_tables := bt_insert (level, prefix) c (intermediate_page_tables st)\<rparr>"

section \<open>Classification of a fault\<close>

datatype fault_action =
    StackGrowth usize usize
  | HeapLazy
  | LazyMmap memory_map
  | Unmanaged

definition classify_fault :: "mem_params \<Rightarrow> mm_state \<Rightarrow> usize \<Rightarrow> usize \<Rightarrow> fault_action" where
  "classify_fault M st addr page_addr =
     (case lookup_lazy_memory_map st addr of
        Some m \<Rightarrow> LazyMmap m
      | None \<Rightarrow>
          let stack_low = sat_sub (stack_bottom st) (max_stack_size st);
              current_stack_boundary = sat_sub (stack_bottom st) (stack_size st)
          in
          if addr \<ge> stack_low \<and> addr < current_stack_boundary then
            StackGrowth current_stack_boundary (wrap_sub current_stack_boundary page_addr div PGSIZE M)
          else if addr \<ge> heap_start st \<and> addr < heap_brk st then HeapLazy
          else Unmanaged)"

section \<open>Searches\<close>

definition prot_to_perms :: "32 word \<Rightarrow> perms" where
  "prot_to_perms prot =
     (if prot AND PROT_READ \<noteq> 0 then {PERM_READ} else {}) \<union>
     (if prot AND PROT_WRITE \<noteq> 0 then {PERM_WRITE} else {}) \<union>
     (if prot AND PROT_EXEC \<noteq> 0 then {PERM_EXECUTE} else {})"

definition has_overlap :: "usize \<Rightarrow> usize \<Rightarrow> usize \<Rightarrow> usize \<Rightarrow> bool" where
  "has_overlap start stop map_start map_sz =
     (let map_end = sat_add map_start map_sz in start < map_end \<and> map_start < stop)"

definition is_remappable_user_mapping :: "memory_type \<Rightarrow> bool" where
  "is_remappable_user_mapping t = (t = Anonymous \<or> t = FileBacked)"

definition map_pages :: "mem_params \<Rightarrow> memory_map \<Rightarrow> nat" where
  "map_pages M m = align_up M (map_size m) (PGSIZE M) div PGSIZE M"

definition split_partial_multi_page_targets ::
  "mem_params \<Rightarrow> mm_state \<Rightarrow> usize \<Rightarrow> usize \<Rightarrow> usize list" where
  "split_partial_multi_page_targets M st start stop =
     List.map_filter
       (\<lambda>m. if \<not> is_remappable_user_mapping (mem_type m) \<or> frame_cap m = 0 then None
            else if map_pages M m \<le> 1 then None
            else
              let map_end = sat_add (map_vaddr m) (map_pages M m * PGSIZE M) in
              if \<not> has_overlap start stop (map_vaddr m) (map_pages M m * PGSIZE M) then None
              else if start > map_vaddr m \<or> stop < map_end then Some (map_vaddr m) else None)
       (bt_values (memory_maps st))"

definition range_is_free :: "mm_state \<Rightarrow> usize \<Rightarrow> usize \<Rightarrow> bool" where
  "range_is_free st start stop =
     (if stop > mmap_limit st \<or> start < mmap_base st \<or> start \<ge> stop then False
      else if has_overlap start stop (heap_start st) (sat_sub (heap_brk st) (heap_start st)) then False
      else if has_overlap start stop (sat_sub (stack_bottom st) (max_stack_size st)) (max_stack_size st)
        then False
      else if \<exists>m \<in> set (bt_values (memory_maps st)). has_overlap start stop (map_vaddr m) (map_size m)
        then False
      else if \<exists>m \<in> set (bt_values (lazy_memory_maps st)). has_overlap start stop (map_vaddr m) (map_size m)
        then False
      else True)"

definition blocks_outside :: "usize \<Rightarrow> usize \<Rightarrow> usize \<Rightarrow> usize \<Rightarrow> memory_map \<Rightarrow> bool" where
  "blocks_outside start stop except_start except_end m =
     (has_overlap start stop (map_vaddr m) (map_size m) \<and>
      \<not> (map_vaddr m \<ge> except_start \<and> sat_add (map_vaddr m) (map_size m) \<le> except_end))"

definition range_is_free_excluding ::
  "mm_state \<Rightarrow> usize \<Rightarrow> usize \<Rightarrow> usize \<Rightarrow> usize \<Rightarrow> bool" where
  "range_is_free_excluding st start stop except_start except_end =
     (if stop > mmap_limit st \<or> start < mmap_base st \<or> start \<ge> stop then False
      else if has_overlap start stop (heap_start st) (sat_sub (heap_brk st) (heap_start st)) then False
      else if has_overlap start stop (sat_sub (stack_bottom st) (max_stack_size st)) (max_stack_size st)
        then False
      else if \<exists>m \<in> set (bt_values (memory_maps st)). blocks_outside start stop except_start except_end m
        then False
      else if \<exists>m \<in> set (bt_values (lazy_memory_maps st)). blocks_outside start stop except_start except_end m
        then False
      else True)"

datatype remap_page_state = Mapped usize perms | Lazy perms

fun remap_flags :: "remap_page_state \<Rightarrow> perms" where
  "remap_flags (Mapped f p) = p"
| "remap_flags (Lazy p) = p"

text \<open>\<open>(start..end).step_by(PGSIZE)\<close>.\<close>

definition pages_between :: "mem_params \<Rightarrow> usize \<Rightarrow> usize \<Rightarrow> usize list" where
  "pages_between M start stop =
     map (\<lambda>i. start + i * PGSIZE M) [0..<(stop - start + (PGSIZE M - 1)) div PGSIZE M]"

fun collect_remap_loop ::
  "mem_params \<Rightarrow> mm_state \<Rightarrow> usize list \<Rightarrow> remap_page_state list \<Rightarrow> remap_page_state list res" where
  "collect_remap_loop M st [] out = Ok out"
| "collect_remap_loop M st (page # pages) out =
     (case bt_get (memory_maps st) page of
        Some m \<Rightarrow>
          if mem_type m \<noteq> Anonymous \<or> map_size m \<noteq> PGSIZE M then Err InvalidArgs
          else collect_remap_loop M st pages (out @ [Mapped (frame_cap m) (map_flags m)])
      | None \<Rightarrow>
          (case bt_get (lazy_memory_maps st) page of
             Some m \<Rightarrow>
               if mem_type m \<noteq> Anonymous \<or> map_size m \<noteq> PGSIZE M then Err InvalidArgs
               else collect_remap_loop M st pages (out @ [Lazy (map_flags m)])
           | None \<Rightarrow> Err InvalidAddress))"

definition collect_remap_states ::
  "mem_params \<Rightarrow> mm_state \<Rightarrow> usize \<Rightarrow> usize \<Rightarrow> remap_page_state list res" where
  "collect_remap_states M st old_addr old_len =
     collect_remap_loop M st (pages_between M old_addr (wrap_add old_addr old_len)) []"

text \<open>
  First fit, upwards from a candidate address. The loop is cut off by a fuel; the
  number of pages below the limit is enough (\<open>find_gap_first_fit\<close>).
\<close>

fun find_gap :: "nat \<Rightarrow> mem_params \<Rightarrow> mm_state \<Rightarrow> usize \<Rightarrow> usize \<Rightarrow> usize option" where
  "find_gap 0 M st len cand = None"
| "find_gap (Suc fuel) M st len cand =
     (case checked_add cand len of
        None \<Rightarrow> None
      | Some e \<Rightarrow>
          if e > mmap_limit st then None
          else if range_is_free st cand e then Some cand
          else find_gap fuel M st len (sat_add cand (PGSIZE M)))"

definition gap_fuel :: "mem_params \<Rightarrow> mm_state \<Rightarrow> nat" where
  "gap_fuel M st = mmap_limit st div PGSIZE M + 2"

definition find_free_remap_target :: "mem_params \<Rightarrow> mm_state \<Rightarrow> usize \<Rightarrow> usize option" where
  "find_free_remap_target M st len_aligned =
     find_gap (gap_fuel M st) M st len_aligned (max (mmap_next st) (mmap_base st))"

section \<open>The invariant of the map\<close>

text \<open>The addresses of a map, and of all maps of a table.\<close>

definition covers :: "memory_map \<Rightarrow> usize \<Rightarrow> bool" where
  "covers m a \<longleftrightarrow> map_vaddr m \<le> a \<and> a < map_vaddr m + map_size m"

definition maps_ok :: "(usize, memory_map) btree \<Rightarrow> bool" where
  "maps_ok ms \<longleftrightarrow>
     bt_ok ms \<and>
     (\<forall>e \<in> set ms. map_vaddr (snd e) = fst e \<and> 0 < map_size (snd e) \<and>
        fst e + map_size (snd e) \<le> usize_max) \<and>
     sorted_wrt (\<lambda>a b. fst a + map_size (snd a) \<le> fst b) ms"

definition mm_ok :: "mm_state \<Rightarrow> bool" where
  "mm_ok st \<longleftrightarrow>
     maps_ok (memory_maps st) \<and> maps_ok (lazy_memory_maps st) \<and>
     (\<forall>e \<in> set (memory_maps st). \<forall>d \<in> set (lazy_memory_maps st).
        fst e + map_size (snd e) \<le> fst d \<or> fst d + map_size (snd d) \<le> fst e)"

lemma maps_ok_get:
  assumes "maps_ok ms" and "bt_get ms k = Some m"
  shows "map_vaddr m = k" and "0 < map_size m" and "k + map_size m \<le> usize_max"
proof -
  from assms have "(k, m) \<in> set ms" by (simp add: maps_ok_def bt_get_in_set)
  with assms(1) show "map_vaddr m = k" "0 < map_size m" "k + map_size m \<le> usize_max"
    by (auto simp: maps_ok_def)
qed

lemma maps_ok_separate:
  assumes "maps_ok ms" and "bt_get ms i = Some m" and "bt_get ms j = Some n" and "i < j"
  shows "i + map_size m \<le> j"
proof -
  from assms(1) have "bt_ok ms" and srt: "sorted_wrt (\<lambda>a b. fst a + map_size (snd a) \<le> fst b) ms"
    by (simp_all add: maps_ok_def)
  with assms(2,3) have "(i, m) \<in> set ms" "(j, n) \<in> set ms" by (simp_all add: bt_get_in_set)
  then obtain p q where p: "p < length ms" "ms ! p = (i, m)" and q: "q < length ms" "ms ! q = (j, n)"
    by (metis in_set_conv_nth)
  consider "p < q" | "q < p" | "p = q" by linarith
  then show ?thesis
  proof cases
    case 1
    from sorted_wrt_nth_less[OF srt this q(1)] p q show ?thesis by simp
  next
    case 2
    from sorted_wrt_nth_less[OF srt this p(1)] p q assms(4) show ?thesis by simp
  qed (use p q assms(4) in simp)
qed

lemma maps_ok_covers_unique:
  assumes "maps_ok ms" and "bt_get ms i = Some m" and "bt_get ms j = Some n"
    and "covers m a" and "covers n a"
  shows "m = n"
proof (rule ccontr)
  assume "m \<noteq> n"
  with assms(2,3) have "i < j \<or> j < i" by (metis linorder_neqE_nat option.inject)
  with maps_ok_separate[OF assms(1)] maps_ok_get(1)[OF assms(1)] assms(2-5)
  show False unfolding covers_def by (metis leD le_trans less_le_trans)
qed

lemma lookup_in_exact:
  assumes ok: "maps_ok ms"
  shows "lookup_in ms a = Some m \<longleftrightarrow> m \<in> set (bt_values ms) \<and> covers m a"
proof
  have bt: "bt_ok ms" using ok by (simp add: maps_ok_def)
  assume l: "lookup_in ms a = Some m"
  then have "bt_last_le ms a = Some m" and lt: "a < wrap_add (map_vaddr m) (map_size m)"
    by (auto simp: lookup_in_def split: option.splits if_splits)
  then obtain k where k: "bt_get ms k = Some m" "k \<le> a" using bt by (metis bt_last_le_Some)
  with maps_ok_get[OF ok k(1)] lt have "covers m a" by (simp add: covers_def)
  with k bt show "m \<in> set (bt_values ms) \<and> covers m a" by (auto simp: bt_values_ran ran_def)
next
  have bt: "bt_ok ms" using ok by (simp add: maps_ok_def)
  assume "m \<in> set (bt_values ms) \<and> covers m a"
  then obtain k where k: "bt_get ms k = Some m" and c: "covers m a"
    using bt by (auto simp: bt_values_ran ran_def)
  from maps_ok_get[OF ok k] c have ka: "k \<le> a" by (simp add: covers_def)
  have "bt_last_le ms a \<noteq> None"
    using ka k by (auto simp: bt_last_le_None bt_contains_def not_less)
  then obtain n where n: "bt_last_le ms a = Some n" by blast
  with bt obtain j where j: "bt_get ms j = Some n" "j \<le> a" "\<forall>i \<le> a. bt_contains ms i \<longrightarrow> i \<le> j"
    by (metis bt_last_le_Some)
  have "k \<le> j" using j(3) ka k by (simp add: bt_contains_def)
  moreover have "\<not> k < j"
    using maps_ok_separate[OF ok k j(1)] j(2) c maps_ok_get(1)[OF ok k] by (auto simp: covers_def)
  ultimately have "n = m" using k j(1) by simp
  with n c maps_ok_get[OF ok k] show "lookup_in ms a = Some m"
    by (simp add: lookup_in_def covers_def)
qed

section \<open>What a free range is\<close>

lemma has_overlap_disjoint:
  assumes "\<not> has_overlap start stop s n" and "start < stop" and "s + n \<le> usize_max"
  shows "s + n \<le> start \<or> stop \<le> s"
  using assms by (auto simp: has_overlap_def)

lemma has_overlap_iff:
  assumes "s + n \<le> usize_max"
  shows "has_overlap start stop s n \<longleftrightarrow> start < s + n \<and> s < stop"
  using assms by (auto simp: has_overlap_def)

lemma range_is_freeD:
  assumes "range_is_free st start stop"
  shows "start < stop" "stop \<le> mmap_limit st" "mmap_base st \<le> start"
    and "\<not> has_overlap start stop (heap_start st) (heap_brk st - heap_start st)"
    and "\<not> has_overlap start stop (stack_bottom st - max_stack_size st) (max_stack_size st)"
    and "m \<in> set (bt_values (memory_maps st)) \<Longrightarrow> \<not> has_overlap start stop (map_vaddr m) (map_size m)"
    and "m \<in> set (bt_values (lazy_memory_maps st)) \<Longrightarrow>
         \<not> has_overlap start stop (map_vaddr m) (map_size m)"
  using assms by (auto simp: range_is_free_def sat_sub_def split: if_splits)

text \<open>Inserting a map into a free range.\<close>

definition apart :: "(usize, memory_map) btree \<Rightarrow> memory_map \<Rightarrow> bool" where
  "apart ms m \<longleftrightarrow>
     (\<forall>e \<in> set ms. fst e + map_size (snd e) \<le> map_vaddr m \<or> map_vaddr m + map_size m \<le> fst e)"

lemma set_bt_insert_subset: "set (bt_insert k v m) \<subseteq> insert (k, v) (set m)"
  by (induction k v m rule: bt_insert.induct) auto

lemma sorted_wrt_insert_apart:
  assumes "sorted_wrt (\<lambda>a b. fst a + map_size (snd a) \<le> fst b) ms"
    and "apart ms m" and "\<forall>e \<in> set ms. 0 < map_size (snd e)" and "0 < map_size m"
  shows "sorted_wrt (\<lambda>a b. fst a + map_size (snd a) \<le> fst b) (bt_insert (map_vaddr m) m ms)"
  using assms
proof (induction "map_vaddr m" m ms rule: bt_insert.induct)
  case (2 v k' v' ms)
  have sub: "set (bt_insert (map_vaddr v) v ms) \<subseteq> insert (map_vaddr v, v) (set ms)"
    by (rule set_bt_insert_subset)
  from "2.prems" have gap: "k' + map_size v' \<le> map_vaddr v \<or> map_vaddr v + map_size v \<le> k'"
    by (auto simp: apart_def)
  have ne: "map_vaddr v \<noteq> k'" using gap "2.prems" by auto
  show ?case
  proof (cases "map_vaddr v < k'")
    case True
    with gap "2.prems" have le: "map_vaddr v + map_size v \<le> k'" by auto
    moreover have "k' \<le> fst b" if "b \<in> set ms" for b using "2.prems"(1) that by fastforce
    ultimately show ?thesis using True ne "2.prems"(1) by fastforce
  next
    case False
    with gap ne "2.prems" have le: "k' + map_size v' \<le> map_vaddr v" by auto
    have "sorted_wrt (\<lambda>a b. fst a + map_size (snd a) \<le> fst b) (bt_insert (map_vaddr v) v ms)"
      using "2.hyps" False ne "2.prems" by (simp add: apart_def)
    moreover have "k' + map_size v' \<le> fst b" if "b \<in> set (bt_insert (map_vaddr v) v ms)" for b
      using that sub le "2.prems"(1) by auto
    ultimately show ?thesis using False ne by auto
  qed
qed simp

lemma maps_ok_insert:
  assumes "maps_ok ms" and "apart ms m" and "0 < map_size m"
    and "map_vaddr m + map_size m \<le> usize_max"
  shows "maps_ok (bt_insert (map_vaddr m) m ms)"
proof -
  have "set (bt_insert (map_vaddr m) m ms) \<subseteq> insert (map_vaddr m, m) (set ms)"
    by (rule set_bt_insert_subset)
  with assms sorted_wrt_insert_apart[of ms m] show ?thesis
    unfolding maps_ok_def by auto
qed

lemma range_is_free_apart:
  assumes "mm_ok st" and "range_is_free st (map_vaddr m) (map_vaddr m + map_size m)"
  shows "apart (memory_maps st) m" and "apart (lazy_memory_maps st) m"
proof -
  note D = range_is_freeD[OF assms(2)]
  from assms(1) have ok: "maps_ok (memory_maps st)" "maps_ok (lazy_memory_maps st)"
    by (simp_all add: mm_ok_def)
  show "apart (memory_maps st) m"
    unfolding apart_def
  proof
    fix e assume e: "e \<in> set (memory_maps st)"
    with ok(1) have "map_vaddr (snd e) = fst e" "fst e + map_size (snd e) \<le> usize_max"
      by (auto simp: maps_ok_def)
    moreover from e have "snd e \<in> set (bt_values (memory_maps st))" by (simp add: bt_values_def)
    ultimately show "fst e + map_size (snd e) \<le> map_vaddr m \<or> map_vaddr m + map_size m \<le> fst e"
      using has_overlap_disjoint[OF D(6) D(1)] by metis
  qed
  show "apart (lazy_memory_maps st) m"
    unfolding apart_def
  proof
    fix e assume e: "e \<in> set (lazy_memory_maps st)"
    with ok(2) have "map_vaddr (snd e) = fst e" "fst e + map_size (snd e) \<le> usize_max"
      by (auto simp: maps_ok_def)
    moreover from e have "snd e \<in> set (bt_values (lazy_memory_maps st))" by (simp add: bt_values_def)
    ultimately show "fst e + map_size (snd e) \<le> map_vaddr m \<or> map_vaddr m + map_size m \<le> fst e"
      using has_overlap_disjoint[OF D(7) D(1)] by metis
  qed
qed

lemma mm_ok_add:
  assumes "mm_ok st" and "apart (memory_maps st) m" and "apart (lazy_memory_maps st) m"
    and "0 < map_size m" and "map_vaddr m + map_size m \<le> usize_max"
  shows "mm_ok (add_memory_map m st)" and "mm_ok (add_lazy_memory_map m st)"
proof -
  have sub: "set (bt_insert (map_vaddr m) m ms) \<subseteq> insert (map_vaddr m, m) (set ms)" for ms
    by (rule set_bt_insert_subset)
  show "mm_ok (add_memory_map m st)"
    using assms maps_ok_insert[of "memory_maps st" m] sub[of "memory_maps st"]
    unfolding mm_ok_def add_memory_map_def apart_def by fastforce
  show "mm_ok (add_lazy_memory_map m st)"
    using assms maps_ok_insert[of "lazy_memory_maps st" m] sub[of "lazy_memory_maps st"]
    unfolding mm_ok_def add_lazy_memory_map_def apart_def by fastforce
qed

section \<open>First fit\<close>

lemma find_gap_Some:
  assumes "find_gap fuel M st len c = Some a"
  shows "\<exists>k. a = c + k * PGSIZE M \<and> range_is_free st a (a + len) \<and>
     (\<forall>i<k. \<not> range_is_free st (c + i * PGSIZE M) (c + i * PGSIZE M + len))"
  using assms
proof (induction fuel arbitrary: c)
  case (Suc fuel)
  from Suc.prems have fits: "c + len \<le> usize_max" "c + len \<le> mmap_limit st"
    by (auto split: option.splits if_splits simp: checked_add_def)
  show ?case
  proof (cases "range_is_free st c (c + len)")
    case True
    with Suc.prems fits show ?thesis by (intro exI[of _ 0]) (auto simp: checked_add_def)
  next
    case False
    with Suc.prems fits have rest: "find_gap fuel M st len (sat_add c (PGSIZE M)) = Some a"
      by (auto simp: checked_add_def)
    from Suc.IH[OF rest] obtain k where
      k: "a = sat_add c (PGSIZE M) + k * PGSIZE M" "range_is_free st a (a + len)"
         "\<forall>i<k. \<not> range_is_free st (sat_add c (PGSIZE M) + i * PGSIZE M)
                  (sat_add c (PGSIZE M) + i * PGSIZE M + len)" by blast
    show ?thesis
    proof (cases "c + PGSIZE M \<le> usize_max")
      case True
      have "\<not> range_is_free st (c + i * PGSIZE M) (c + i * PGSIZE M + len)" if "i < Suc k" for i
        using that False True k(3) by (cases i) (auto simp: add.assoc)
      with k True show ?thesis by (intro exI[of _ "Suc k"]) simp
    next
      case over: False
      from k(1) have "usize_max \<le> a" using over by (simp add: sat_add_def)
      moreover from rest have "a + len \<le> usize_max \<and> range_is_free st a (a + len)"
      proof (induction fuel arbitrary: c)
        case (Suc fuel) then show ?case
          by (auto split: option.splits if_splits simp: checked_add_def)
      qed simp
      ultimately have "len = 0" and "range_is_free st a (a + len)" by auto
      then show ?thesis by (simp add: range_is_free_def)
    qed
  qed
qed simp

lemma find_gap_None:
  assumes "find_gap fuel M st len c = None" and "0 < PGSIZE M" and "mmap_limit st < usize_max"
    and "mmap_limit st < c + fuel * PGSIZE M" and "c \<le> usize_max"
  shows "\<not> range_is_free st (c + k * PGSIZE M) (c + k * PGSIZE M + len)"
  using assms
proof (induction fuel arbitrary: c k)
  case 0
  then have "mmap_limit st < c + k * PGSIZE M + len" by simp
  then show ?case by (simp add: range_is_free_def)
next
  case (Suc fuel)
  show ?case
  proof (cases "c + len \<le> mmap_limit st")
    case False
    then have "mmap_limit st < c + k * PGSIZE M + len" by simp
    then show ?thesis by (simp add: range_is_free_def)
  next
    case True
    with Suc.prems have "\<not> range_is_free st c (c + len)"
      and rest: "find_gap fuel M st len (sat_add c (PGSIZE M)) = None"
      by (auto split: option.splits if_splits simp: checked_add_def)
    show ?thesis
    proof (cases k)
      case 0
      with \<open>\<not> range_is_free st c (c + len)\<close> show ?thesis by simp
    next
      case (Suc j)
      show ?thesis
      proof (cases "c + PGSIZE M \<le> usize_max")
        case True
        with Suc.IH[OF rest, of j] Suc.prems Suc show ?thesis by (simp add: add.assoc)
      next
        case False
        with Suc Suc.prems(3) have "mmap_limit st < c + k * PGSIZE M + len" by simp
        then show ?thesis by (simp add: range_is_free_def)
      qed
    qed
  qed
qed

text \<open>Enough fuel: beyond \<open>gap_fuel\<close> the answer does not change.\<close>

lemma gap_fuel_enough:
  assumes "0 < PGSIZE M"
  shows "mmap_limit st < c + gap_fuel M st * PGSIZE M"
proof -
  have "mmap_limit st < (mmap_limit st div PGSIZE M + 1) * PGSIZE M"
    using assms by (metis Suc_eq_plus1 dividend_less_div_times mult.commute mult_Suc add.commute)
  then show ?thesis by (simp add: gap_fuel_def add_mult_distrib)
qed

section \<open>Example states\<close>

definition example_map :: "usize \<Rightarrow> usize \<Rightarrow> memory_map" where
  "example_map v n =
     \<lparr>map_vaddr = v, map_paddr = 0, map_size = n, map_flags = {PERM_READ}, mem_type = Anonymous,
      map_cow = False, frame_cap = 1, file_backing_fd = None, file_backing_offset = 0\<rparr>"

definition example_mm :: mm_state where
  "example_mm = add_memory_map (example_map 0x20012000 0x1000)
     (add_memory_map (example_map 0x20010000 0x1000) (mm (mm_struct_new example_mem_params 7)))"

lemmas example_mm_simps =
  example_mm_def example_map_def add_memory_map_def mm_struct_new_def example_mem_params_def
  DEFAULT_MMAP_BASE_def DEFAULT_MMAP_LIMIT_def DEFAULT_HEAP_LIMIT_def DEFAULT_MAX_STACK_SIZE_def

lemma example_mm_ok: "mm_ok example_mm"
  by (simp add: example_mm_simps mm_ok_def maps_ok_def bt_ok_def usize_max_def)

lemma example_mem_params_ok: "mem_params_ok example_mem_params"
proof -
  have "x \<le> (x + 4095) div 4096 * 4096 \<and> (x + 4095) div 4096 * 4096 < x + 4096" for x :: nat
    using div_mult_mod_eq[of "x + 4095" 4096] mod_less_divisor[of 4096 "x + 4095"] by linarith
  moreover have "x div 4096 * 4096 \<le> x \<and> x < x div 4096 * 4096 + 4096" for x :: nat
    using div_mult_mod_eq[of x 4096] mod_less_divisor[of 4096 x] by linarith
  ultimately show ?thesis
    by (simp add: mem_params_ok_def example_mem_params_def usize_max_def)
qed

section \<open>Properties\<close>

text \<open>
  C5: under the invariant of the map (keyed by start address, no two maps overlap) the
  lookup for an address, which only inspects the entry with the greatest start below it,
  returns exactly the map that covers the address, and nothing when none does.
\<close>

theorem lookup_memory_map_exact:
  assumes "mm_ok st"
  shows "(lookup_memory_map st a = Some m \<longleftrightarrow> m \<in> set (bt_values (memory_maps st)) \<and> covers m a) \<and>
    (lookup_lazy_memory_map st a = Some m \<longleftrightarrow>
         m \<in> set (bt_values (lazy_memory_maps st)) \<and> covers m a)"
  using assms by (simp_all add: lookup_memory_map_def lookup_lazy_memory_map_def mm_ok_def lookup_in_exact)

theorem lookup_memory_map_exact_witness:
  "lookup_memory_map example_mm 0x20012010 = Some (example_map 0x20012000 0x1000) \<and>
   \<not> covers (example_map 0x20012000 0x1000) 0x20013000"
  using lookup_memory_map_exact[OF example_mm_ok, of "0x20012010" "example_map 0x20012000 0x1000"]
  by (simp add: example_mm_simps bt_values_def covers_def)

text \<open>
  C32: the search for a free range is a first fit that always ends: with the fuel of the
  model it returns the lowest page-step candidate whose range is free, and when it returns
  nothing no candidate is free.
\<close>

theorem find_free_remap_target_first_fit:
  assumes "0 < PGSIZE M" and "mmap_limit st < usize_max"
    and "max (mmap_next st) (mmap_base st) \<le> usize_max"
  shows "case find_free_remap_target M st len of
      Some a \<Rightarrow> \<exists>k. a = max (mmap_next st) (mmap_base st) + k * PGSIZE M \<and>
        range_is_free st a (a + len) \<and>
        (\<forall>i<k. \<not> range_is_free st (max (mmap_next st) (mmap_base st) + i * PGSIZE M)
                 (max (mmap_next st) (mmap_base st) + i * PGSIZE M + len))
    | None \<Rightarrow> \<forall>k. \<not> range_is_free st (max (mmap_next st) (mmap_base st) + k * PGSIZE M)
                 (max (mmap_next st) (mmap_base st) + k * PGSIZE M + len)"
proof (cases "find_free_remap_target M st len")
  case None
  then show ?thesis
    using find_gap_None[OF _ assms(1,2) gap_fuel_enough[OF assms(1)] assms(3)]
    by (simp add: find_free_remap_target_def)
next
  case (Some a)
  with find_gap_Some[of "gap_fuel M st"] show ?thesis by (simp add: find_free_remap_target_def)
qed

theorem find_free_remap_target_first_fit_witness:
  "case find_free_remap_target example_mem_params example_mm 0x1000 of
      Some a \<Rightarrow> range_is_free example_mm a (a + 0x1000)
    | None \<Rightarrow> \<not> range_is_free example_mm 0x20011000 0x20012000"
proof -
  have "0 < PGSIZE example_mem_params" "mmap_limit example_mm < usize_max"
    "max (mmap_next example_mm) (mmap_base example_mm) \<le> usize_max"
    and base: "max (mmap_next example_mm) (mmap_base example_mm) = 0x20010000"
    "PGSIZE example_mem_params = 0x1000"
    by (simp_all add: example_mm_simps usize_max_def)
  from find_free_remap_target_first_fit[OF this(1-3), of "0x1000"] show ?thesis
    unfolding base by (force split: option.splits dest: spec[of _ 1])
qed

text \<open>
  A map placed in a range that \<open>range_is_free\<close> accepts keeps the invariant,
  whether it is entered as mapped or as lazy, leaves every other lookup as it was, and
  overlaps neither the heap nor the stack.
\<close>

theorem map_in_free_range_keeps_mm_ok:
  assumes "mm_ok st" and "range_is_free st (map_vaddr m) (map_vaddr m + map_size m)"
    and "map_vaddr m + map_size m \<le> usize_max"
  shows "mm_ok (add_memory_map m st) \<and> mm_ok (add_lazy_memory_map m st) \<and>
    (\<forall>a. lookup_memory_map (add_memory_map m st) a =
           (if covers m a then Some m else lookup_memory_map st a)) \<and>
    (\<forall>a. covers m a \<longrightarrow> \<not> (heap_start st \<le> a \<and> a < heap_brk st))"
proof (intro conjI allI impI)
  have sz: "0 < map_size m" using range_is_freeD(1)[OF assms(2)] by simp
  note add = mm_ok_add[OF assms(1) range_is_free_apart[OF assms(1,2)] sz assms(3)]
  show "mm_ok (add_memory_map m st)" and "mm_ok (add_lazy_memory_map m st)" by (fact add)+
  fix a
  have vals: "set (bt_values (memory_maps (add_memory_map m st))) =
      insert m (set (bt_values (memory_maps st)))"
  proof -
    have "bt_get (memory_maps st) (map_vaddr m) = None"
    proof (rule ccontr)
      assume "bt_get (memory_maps st) (map_vaddr m) \<noteq> None"
      then obtain n where n: "(map_vaddr m, n) \<in> set (memory_maps st)"
        using assms(1) by (auto simp: mm_ok_def maps_ok_def bt_get_in_set)
      with range_is_free_apart(1)[OF assms(1,2)] sz assms(1) show False
        by (fastforce simp: apart_def mm_ok_def maps_ok_def)
    qed
    then show ?thesis
      using assms(1) by (simp add: bt_values_ran mm_ok_def maps_ok_def add_memory_map_def)
  qed
  have iff: "lookup_memory_map (add_memory_map m st) a = Some n \<longleftrightarrow>
      (n = m \<or> n \<in> set (bt_values (memory_maps st))) \<and> covers n a" for n
    using add(1) vals by (simp add: lookup_memory_map_def lookup_in_exact mm_ok_def)
  have old: "lookup_memory_map st a = Some n \<longleftrightarrow> n \<in> set (bt_values (memory_maps st)) \<and> covers n a" for n
    using assms(1) by (simp add: lookup_memory_map_def lookup_in_exact mm_ok_def)
  show "lookup_memory_map (add_memory_map m st) a =
      (if covers m a then Some m else lookup_memory_map st a)"
  proof (cases "covers m a")
    case True
    with iff[of m] show ?thesis by simp
  next
    case False
    then have "lookup_memory_map (add_memory_map m st) a = Some n \<longleftrightarrow> lookup_memory_map st a = Some n"
      for n using iff[of n] old[of n] by auto
    with False show ?thesis by (metis not_None_eq)
  qed
  assume "covers m a"
  then show "\<not> (heap_start st \<le> a \<and> a < heap_brk st)"
    using range_is_freeD(4)[OF assms(2)] assms(3)
    by (auto simp: has_overlap_def covers_def sat_add_def)
qed

theorem map_in_free_range_keeps_mm_ok_witness:
  "mm_ok (add_memory_map (example_map 0x20011000 0x1000) example_mm)"
proof -
  have "range_is_free example_mm (map_vaddr (example_map 0x20011000 0x1000))
    (map_vaddr (example_map 0x20011000 0x1000) + map_size (example_map 0x20011000 0x1000))"
    by (simp add: example_mm_simps range_is_free_def has_overlap_def bt_values_def sat_add_def
        sat_sub_def usize_max_def)
  from map_in_free_range_keeps_mm_ok[OF example_mm_ok this] show ?thesis
    by (simp add: example_map_def usize_max_def)
qed

end
