(* ===== verification/Signal_State.thy ===== *)
theory Signal_State
  imports Btree Linux_Abi
begin

text \<open>
  The signal state of a process (\<open>src/src/ape/signal.rs\<close>): the blocked and
  pending sets as 64-bit masks, the saved mask of a \<open>sigsuspend\<close> wait and
  the request of a blocked \<open>wait4\<close>. The masks are atomics; each operation
  below is one atomic step, except \<open>pop_pending_signal_from_mask\<close>, a
  load followed by a \<open>fetch_and\<close> in a retry loop, whose interleavings with
  other threads are the step relation \<open>sig_step\<close>.
\<close>

section \<open>Data\<close>

definition SIGNAL_MIN :: usize where "SIGNAL_MIN = 1"
definition SIGNAL_MAX :: usize where "SIGNAL_MAX = 64"

definition SIGNAL_UNBLOCKABLE_MASK :: "64 word" where
  "SIGNAL_UNBLOCKABLE_MASK = push_bit (SIGKILL - 1) 1 OR push_bit (SIGSTOP - 1) 1"

record signal_action =
  sa_handler :: usize
  sa_flags :: "64 word"
  sa_restorer :: usize
  sa_mask :: "64 word"

definition signal_action_default :: signal_action where
  "signal_action_default = \<lparr>sa_handler = 0, sa_flags = 0, sa_restorer = 0, sa_mask = 0\<rparr>"

definition signal_bit :: "usize \<Rightarrow> (64 word) option" where
  "signal_bit signum =
     (if SIGNAL_MIN \<le> signum \<and> signum \<le> SIGNAL_MAX then Some (push_bit (signum - 1) 1) else None)"

record wait4_block_request =
  req_target_pid :: int
  req_caller_pgid :: usize

record signal_struct =
  signal_blocked :: "64 word"
  signal_pending :: "64 word"
  sigsuspend_saved_mask :: "(64 word) option"
  wait4_blocked :: "wait4_block_request option"
  clear_child_tid :: usize

type_synonym sighand_struct = "(usize, signal_action) btree"

section \<open>Operations\<close>

definition signal_struct_new :: signal_struct where
  "signal_struct_new =
     \<lparr>signal_blocked = 0, signal_pending = 0, sigsuspend_saved_mask = None,
      wait4_blocked = None, clear_child_tid = 0\<rparr>"

definition set_blocked :: "64 word \<Rightarrow> signal_struct \<Rightarrow> signal_struct" where
  "set_blocked msk s = s\<lparr>signal_blocked := msk AND NOT SIGNAL_UNBLOCKABLE_MASK\<rparr>"

definition get_blocked :: "signal_struct \<Rightarrow> 64 word" where
  "get_blocked s = signal_blocked s"

definition get_signal_action :: "sighand_struct \<Rightarrow> usize \<Rightarrow> signal_action" where
  "get_signal_action sh signum =
     (case bt_get sh signum of Some a \<Rightarrow> a | None \<Rightarrow> signal_action_default)"

definition queue_signal :: "usize \<Rightarrow> signal_struct \<Rightarrow> bool \<times> signal_struct" where
  "queue_signal signum s =
     (case signal_bit signum of
        Some b \<Rightarrow> (True, s\<lparr>signal_pending := signal_pending s OR b\<rparr>)
      | None \<Rightarrow> (False, s))"

definition arm_sigsuspend_wait :: "64 word \<Rightarrow> signal_struct \<Rightarrow> signal_struct" where
  "arm_sigsuspend_wait old_mask s = s\<lparr>sigsuspend_saved_mask := Some old_mask\<rparr>"

definition is_waiting_sigsuspend :: "signal_struct \<Rightarrow> bool" where
  "is_waiting_sigsuspend s = (sigsuspend_saved_mask s \<noteq> None)"

definition restore_mask_from_sigsuspend_wait :: "signal_struct \<Rightarrow> bool \<times> signal_struct" where
  "restore_mask_from_sigsuspend_wait s =
     (case sigsuspend_saved_mask s of
        Some old_mask \<Rightarrow>
          (True, s\<lparr>sigsuspend_saved_mask := None,
                   signal_blocked := old_mask AND NOT SIGNAL_UNBLOCKABLE_MASK\<rparr>)
      | None \<Rightarrow> (False, s))"

definition arm_wait4_block :: "int \<Rightarrow> usize \<Rightarrow> signal_struct \<Rightarrow> signal_struct" where
  "arm_wait4_block target pgid s =
     s\<lparr>wait4_blocked := Some \<lparr>req_target_pid = target, req_caller_pgid = pgid\<rparr>\<rparr>"

definition clear_wait4_block :: "signal_struct \<Rightarrow> signal_struct" where
  "clear_wait4_block s = s\<lparr>wait4_blocked := None\<rparr>"

definition matches_wait4_target :: "usize \<Rightarrow> usize \<Rightarrow> wait4_block_request \<Rightarrow> bool" where
  "matches_wait4_target child_pid child_pgid req =
     (if req_target_pid req = -1 then True
      else if req_target_pid req > 0 then child_pid = nat (req_target_pid req)
      else if req_target_pid req = 0 then child_pgid = req_caller_pgid req
      else child_pgid = nat \<bar>req_target_pid req\<bar>)"

definition wait4_block_matches :: "usize \<Rightarrow> usize \<Rightarrow> signal_struct \<Rightarrow> bool" where
  "wait4_block_matches child_pid child_pgid s =
     (case wait4_blocked s of
        Some req \<Rightarrow> matches_wait4_target child_pid child_pgid req
      | None \<Rightarrow> False)"

definition trailing_zeros :: "64 word \<Rightarrow> nat" where
  "trailing_zeros w = (case find (bit w) [0..<64] of Some n \<Rightarrow> n | None \<Rightarrow> 64)"

text \<open>
  The body of the retry loop: \<open>pending\<close> was loaded, the mask may have changed
  since. \<open>None\<close> sends the loop round again.
\<close>

definition pop_attempt ::
  "64 word \<Rightarrow> 64 word \<Rightarrow> signal_struct \<Rightarrow> (usize option) option \<times> signal_struct" where
  "pop_attempt pending msk s =
     (let ready = pending AND msk in
      if ready = 0 then (Some None, s)
      else
        let idx = trailing_zeros ready; b = push_bit idx 1 in
        (if signal_pending s AND b \<noteq> 0 then Some (Some (idx + 1)) else None,
         s\<lparr>signal_pending := signal_pending s AND NOT b\<rparr>))"

text \<open>Without a competing thread the first attempt decides.\<close>

definition pop_pending_signal_from_mask ::
  "64 word \<Rightarrow> signal_struct \<Rightarrow> usize option \<times> signal_struct" where
  "pop_pending_signal_from_mask msk s =
     (case pop_attempt (signal_pending s) msk s of
        (Some r, s') \<Rightarrow> (r, s')
      | (None, s') \<Rightarrow> (None, s'))"

section \<open>Interleavings\<close>

text \<open>
  Threads share the pending mask. A popping thread has loaded a value and not yet
  made its \<open>fetch_and\<close>; the environment queues signals. \<open>queued\<close>
  and \<open>popped\<close> count the events of each signal number.
\<close>

record sig_sys =
  shared :: signal_struct
  loaded :: "nat \<Rightarrow> (64 word) option"
  queued :: "usize \<Rightarrow> nat"
  popped :: "usize \<Rightarrow> nat"

definition sig_init :: sig_sys where
  "sig_init = \<lparr>shared = signal_struct_new, loaded = (\<lambda>_. None), queued = (\<lambda>_. 0), popped = (\<lambda>_. 0)\<rparr>"

inductive sig_step :: "sig_sys \<Rightarrow> sig_sys \<Rightarrow> bool" where
  sig_queue: "queue_signal n (shared c) = (True, s') \<Longrightarrow>
     sig_step c (c\<lparr>shared := s', queued := (queued c)(n := Suc (queued c n))\<rparr>)"
| sig_load: "sig_step c (c\<lparr>loaded := (loaded c)(t \<mapsto> signal_pending (shared c))\<rparr>)"
| sig_pop: "loaded c t = Some p \<Longrightarrow> pop_attempt p msk (shared c) = (Some (Some n), s') \<Longrightarrow>
     sig_step c (c\<lparr>shared := s', loaded := (loaded c)(t := None), popped := (popped c)(n := Suc (popped c n))\<rparr>)"
| sig_retry: "loaded c t = Some p \<Longrightarrow> pop_attempt p msk (shared c) = (None, s') \<Longrightarrow>
     sig_step c (c\<lparr>shared := s', loaded := (loaded c)(t := None)\<rparr>)"
| sig_none: "loaded c t = Some p \<Longrightarrow> pop_attempt p msk (shared c) = (Some None, s') \<Longrightarrow>
     sig_step c (c\<lparr>shared := s', loaded := (loaded c)(t := None)\<rparr>)"

inductive sig_reachable :: "sig_sys \<Rightarrow> bool" where
  sig_start: "sig_reachable sig_init"
| sig_next: "sig_reachable c \<Longrightarrow> sig_step c d \<Longrightarrow> sig_reachable d"

section \<open>Lemmas\<close>

lemma trailing_zeros_bit:
  assumes "w \<noteq> 0"
  shows "trailing_zeros w < 64 \<and> bit w (trailing_zeros w) \<and> (\<forall>i < trailing_zeros w. \<not> bit w i)"
proof -
  from assms obtain n where "bit w n" by (auto simp: bit_eq_iff)
  then have n: "bit w n" "n < 64" using bit_imp_le_length[of w n] by auto
  then have "find (bit w) [0..<64] \<noteq> None" by (auto simp: find_None_iff)
  then obtain k where k: "find (bit w) [0..<64] = Some k" by blast
  then obtain i where i: "i < 64" "[0..<64] ! i = k" "bit w k" "\<forall>j<i. \<not> bit w ([0..<64] ! j)"
    by (auto simp: find_Some_iff)
  then have "i = k" by simp
  with i k show ?thesis by (auto simp: trailing_zeros_def)
qed

lemma bit_single: "bit (2 ^ n :: 64 word) i \<longleftrightarrow> i = n \<and> n < 64"
  by (auto simp: bit_exp_iff)

lemma and_single: "(w AND 2 ^ n :: 64 word) = 0 \<longleftrightarrow> \<not> (n < 64 \<and> bit w n)"
proof
  assume "w AND 2 ^ n = 0"
  then have "bit (w AND 2 ^ n) n = bit (0 :: 64 word) n" by (simp only:)
  then show "\<not> (n < 64 \<and> bit w n)" by (auto simp: bit_and_iff bit_single)
next
  assume "\<not> (n < 64 \<and> bit w n)"
  then show "w AND 2 ^ n = 0" by (intro bit_word_eqI) (auto simp: bit_and_iff bit_single)
qed

lemma unblockable_bits:
  "bit SIGNAL_UNBLOCKABLE_MASK i \<longleftrightarrow> i = SIGKILL - 1 \<or> i = SIGSTOP - 1"
proof -
  have m: "SIGNAL_UNBLOCKABLE_MASK = 2 ^ 8 OR 2 ^ 18"
    by (simp add: SIGNAL_UNBLOCKABLE_MASK_def)
  show ?thesis unfolding m bit_or_iff bit_single by auto
qed

lemma pop_attempt_bits:
  "pop_attempt p msk s = (Some (Some n), s') \<Longrightarrow>
     0 < n \<and> n \<le> 64 \<and> bit p (n - 1) \<and> bit msk (n - 1) \<and> bit (signal_pending s) (n - 1) \<and>
     s' = s\<lparr>signal_pending := signal_pending s AND NOT (push_bit (n - 1) 1)\<rparr>"
proof -
  assume a: "pop_attempt p msk s = (Some (Some n), s')"
  then have ne: "p AND msk \<noteq> 0" by (auto simp: pop_attempt_def Let_def split: if_splits)
  from trailing_zeros_bit[OF ne] a ne show ?thesis
    by (auto simp: pop_attempt_def Let_def and_single bit_and_iff split: if_splits)
qed

lemma pop_attempt_other:
  "pop_attempt p msk s = (r, s') \<Longrightarrow> bit (signal_pending s') i \<Longrightarrow> bit (signal_pending s) i"
  by (auto simp: pop_attempt_def Let_def bit_and_iff split: if_splits)

lemma pop_pending_eq:
  "pop_pending_signal_from_mask msk s =
     (let ready = signal_pending s AND msk in
      if ready = 0 then (None, s)
      else (Some (trailing_zeros ready + 1),
            s\<lparr>signal_pending := signal_pending s AND NOT (push_bit (trailing_zeros ready) 1)\<rparr>))"
proof (cases "signal_pending s AND msk = 0")
  case False
  from trailing_zeros_bit[OF False]
  have "signal_pending s AND push_bit (trailing_zeros (signal_pending s AND msk)) 1 \<noteq> 0"
    by (simp add: and_single bit_and_iff)
  with False show ?thesis by (simp add: pop_pending_signal_from_mask_def pop_attempt_def Let_def)
qed (simp add: pop_pending_signal_from_mask_def pop_attempt_def)

lemma queue_signal_bits:
  "queue_signal n s = (b, s') \<Longrightarrow>
     b = (1 \<le> n \<and> n \<le> 64) \<and>
     (\<forall>i. bit (signal_pending s') i \<longleftrightarrow> bit (signal_pending s) i \<or> b \<and> i = n - 1)"
  by (auto simp: queue_signal_def signal_bit_def SIGNAL_MIN_def SIGNAL_MAX_def bit_or_iff bit_single
      split: if_splits)

section \<open>Properties\<close>

text \<open>
  The kill and stop signals can never be blocked: whatever mask a process asks
  for, and whatever mask a \<open>sigsuspend\<close> wait restores, the two bits stay clear,
  and every other signal is blocked exactly as asked.
\<close>

theorem unblockable_never_blocked:
  "bit (get_blocked (set_blocked msk s)) i = (bit msk i \<and> i \<noteq> SIGKILL - 1 \<and> i \<noteq> SIGSTOP - 1) \<and>
   (case sigsuspend_saved_mask s of
      None \<Rightarrow> snd (restore_mask_from_sigsuspend_wait s) = s
    | Some old \<Rightarrow> bit (get_blocked (snd (restore_mask_from_sigsuspend_wait s))) i =
                    (bit old i \<and> i \<noteq> SIGKILL - 1 \<and> i \<noteq> SIGSTOP - 1))"
proof -
  have "bit (w AND NOT SIGNAL_UNBLOCKABLE_MASK) i = (bit w i \<and> i \<noteq> SIGKILL - 1 \<and> i \<noteq> SIGSTOP - 1)"
    for w :: "64 word"
  proof (cases "i < 64")
    case True
    then show ?thesis by (auto simp: bit_and_iff bit_not_iff unblockable_bits)
  next
    case False
    then show ?thesis using bit_imp_le_length[of w i] by (auto simp: bit_and_iff)
  qed
  then show ?thesis
    by (simp add: set_blocked_def get_blocked_def restore_mask_from_sigsuspend_wait_def split: option.split)
qed

text \<open>
  Taking a pending signal returns the lowest-numbered pending signal of the mask,
  clears its bit and no other, and returns nothing exactly when no signal of the mask
  is pending.
\<close>

theorem pop_pending_lowest:
  "(case pop_pending_signal_from_mask msk s of
      (None, s') \<Rightarrow> s' = s \<and> (\<forall>i. \<not> (bit (signal_pending s) i \<and> bit msk i))
    | (Some n, s') \<Rightarrow>
        1 \<le> n \<and> n \<le> 64 \<and> bit (signal_pending s) (n - 1) \<and> bit msk (n - 1) \<and>
        (\<forall>i < n - 1. \<not> (bit (signal_pending s) i \<and> bit msk i)) \<and>
        (\<forall>i. bit (signal_pending s') i \<longleftrightarrow> bit (signal_pending s) i \<and> i \<noteq> n - 1))"
proof (cases "signal_pending s AND msk = 0")
  case True
  then have "\<forall>i. \<not> (bit (signal_pending s) i \<and> bit msk i)"
    by (metis bit_and_iff bit_0_eq bot_apply bot_bool_def)
  with True show ?thesis by (simp add: pop_pending_eq)
next
  case False
  let ?n = "trailing_zeros (signal_pending s AND msk)"
  have "\<forall>i. bit (signal_pending s AND NOT (push_bit ?n 1)) i \<longleftrightarrow> bit (signal_pending s) i \<and> i \<noteq> ?n"
    using trailing_zeros_bit[OF False] bit_imp_le_length[of "signal_pending s"]
    by (auto simp: bit_and_iff bit_not_iff bit_single)
  with trailing_zeros_bit[OF False] False show ?thesis
    by (auto simp: pop_pending_eq Let_def bit_and_iff)
qed

theorem pop_pending_lowest_witness:
  "fst (pop_pending_signal_from_mask (2 ^ 3) (signal_struct_new\<lparr>signal_pending := 12\<rparr>)) = Some 4"
proof -
  let ?s = "signal_struct_new\<lparr>signal_pending := 12\<rparr>"
  have one: "bit (2 ^ 3 :: 64 word) i \<longleftrightarrow> i = 3" for i using bit_single[of 3 i] by linarith
  have "bit (signal_pending ?s) 3" by simp
  then show ?thesis
    using pop_pending_lowest[of ?s "2 ^ 3"]
    by (cases "pop_pending_signal_from_mask (2 ^ 3) ?s"; cases "fst (pop_pending_signal_from_mask (2 ^ 3) ?s)")
      (auto simp only: one prod.case option.case fst_conv)
qed

text \<open>
  C31: no signal is delivered twice. However threads interleave their loads and
  \<open>fetch_and\<close>s with one another and with the queueing of signals, a signal is
  popped at most as often as it was queued.
\<close>

theorem signal_popped_at_most_queued:
  assumes "sig_reachable c"
  shows "popped c n \<le> queued c n"
proof -
  have "popped c n + (if 0 < n \<and> bit (signal_pending (shared c)) (n - 1) then 1 else 0) \<le> queued c n" for n
    using assms
  proof (induction arbitrary: n rule: sig_reachable.induct)
    case sig_start
    then show ?case by (simp add: sig_init_def signal_struct_new_def)
  next
    case (sig_next c d)
    from sig_next.hyps(2) show ?case
    proof (cases rule: sig_step.cases)
      case (sig_queue m s')
      with queue_signal_bits[OF sig_queue(2)] sig_next.IH[of n] show ?thesis
        by (auto split: if_splits)
    next
      case (sig_load t)
      with sig_next.IH[of n] show ?thesis by simp
    next
      case (sig_pop t p msk m s')
      with pop_attempt_bits[OF sig_pop(3)] sig_next.IH[of n] show ?thesis
        by (auto simp: bit_and_iff bit_not_iff bit_single split: if_splits)
    next
      case (sig_retry t p msk s')
      with pop_attempt_other[OF sig_retry(3)] sig_next.IH[of n] show ?thesis
        by (auto split: if_splits)
    next
      case (sig_none t p msk s')
      with pop_attempt_other[OF sig_none(3)] sig_next.IH[of n] show ?thesis
        by (auto split: if_splits)
    qed
  qed
  from this[of n] show ?thesis by simp
qed

text \<open>One thread queues signal 9; another loads the pending set and pops it.\<close>

lemma example_popped: "\<exists>c. sig_reachable c \<and> popped c 9 = 1"
proof -
  let ?s = "snd (queue_signal 9 signal_struct_new)"
  let ?c1 = "sig_init\<lparr>shared := ?s, queued := (queued sig_init)(9 := Suc (queued sig_init 9))\<rparr>"
  let ?c2 = "?c1\<lparr>loaded := (loaded ?c1)(0 \<mapsto> signal_pending (shared ?c1))\<rparr>"
  have q: "queue_signal 9 (shared sig_init) = (True, ?s)"
    by (simp add: queue_signal_def signal_bit_def SIGNAL_MIN_def SIGNAL_MAX_def sig_init_def)
  have pend: "signal_pending ?s = 2 ^ 8"
    by (simp add: queue_signal_def signal_bit_def SIGNAL_MIN_def SIGNAL_MAX_def signal_struct_new_def)
  have one: "bit (2 ^ 8 :: 64 word) i \<longleftrightarrow> i = 8" for i using bit_single[of 8 i] by linarith
  have tz: "trailing_zeros (2 ^ 8 :: 64 word) = 8"
    using trailing_zeros_bit[of "2 ^ 8"] one by auto
  obtain d where pop: "pop_attempt (2 ^ 8) (2 ^ 8) (shared ?c2) = (Some (Some 9), d)"
    using tz pend by (simp add: pop_attempt_def Let_def)
  have "sig_reachable ?c2" by (rule sig_next[OF sig_next[OF sig_start sig_queue[OF q]] sig_load])
  moreover have "loaded ?c2 0 = Some (2 ^ 8)" using pend by simp
  ultimately have "sig_reachable (?c2\<lparr>shared := d, loaded := (loaded ?c2)(0 := None), popped := (popped ?c2)(9 := Suc (popped ?c2 9))\<rparr>)"
    using sig_next sig_pop pop by blast
  then show ?thesis by (rule_tac exI, rule_tac conjI) (assumption, simp add: sig_init_def)
qed

theorem signal_popped_at_most_queued_witness:
  "\<exists>c. sig_reachable c \<and> popped c 9 = 1 \<and> 1 \<le> queued c 9"
proof -
  obtain c where "sig_reachable c" "popped c 9 = 1" using example_popped by blast
  with signal_popped_at_most_queued[of c 9] show ?thesis by auto
qed

end
