(* ===== verification/Task_State.thy ===== *)
theory Task_State
  imports Mm_State Signal_State "HOL-Library.Multiset"
begin

text \<open>
  A process and the table of processes: \<open>src/src/ape/task.rs\<close>,
  \<open>files.rs\<close>, \<open>fs.rs\<close>, \<open>cred.rs\<close> and the
  \<open>ApeTaskState\<close> part of \<open>state.rs\<close>. The reference-counted
  parts of a task (\<open>mm\<close>, \<open>files\<close>, ...) are owned by that task
  alone (a fork copies them), so they are fields by value. The identity record belongs
  to the authentication protocol and is a type parameter. The capability counters are
  related to an abstract counter by the locale \<open>shared_caps\<close>.
\<close>

section \<open>Open files\<close>

record async_io_state =
  aio_region_id :: usize
  aio_ring :: usize
  aio_data_vaddr :: usize
  aio_data_len :: usize
  aio_next_user_data :: usize

datatype normal_handle_backend = BackendFs

record normal_file_handle =
  nf_backend :: normal_handle_backend
  nf_fs_client :: capptr
  nf_fs_ep_slot :: capptr
  nf_offset :: usize
  nf_async_io :: "async_io_state option"

datatype file_type = Normal normal_file_handle

record fd_handle =
  file_type :: file_type

record files_state =
  fds :: "(nat, fd_handle) btree"
  fd_paths :: "(nat, string) btree"
  fd_cloexec :: "(nat, bool) btree"
  next_fd :: nat

definition files_struct_new :: files_state where
  "files_struct_new = \<lparr>fds = [], fd_paths = [], fd_cloexec = [], next_fd = 0\<rparr>"

record fs_state =
  root_dir :: string
  cwd :: string

definition DEFAULT_PROCESS_ROOT :: string where
  "DEFAULT_PROCESS_ROOT = ''/''"

definition fs_struct_new :: fs_state where
  "fs_struct_new = \<lparr>root_dir = DEFAULT_PROCESS_ROOT, cwd = DEFAULT_PROCESS_ROOT\<rparr>"

section \<open>A task\<close>

datatype task_lifecycle_state = Running | Stopped | Exiting | Exited

record 'i task_struct =
  task_pid :: usize
  parent_pid :: usize
  session_id :: usize
  process_group_id :: usize
  controlling_tty :: usize
  task_tcb :: capptr
  task_cspace :: capptr
  task_lifecycle :: task_lifecycle_state
  task_stopped :: bool
  task_mm :: mm_struct
  task_files :: files_state
  task_fs :: fs_state
  task_sighand :: sighand_struct
  task_signal :: signal_struct
  task_cred :: 'i

definition task_struct_new ::
  "usize \<Rightarrow> usize \<Rightarrow> capptr \<Rightarrow> capptr \<Rightarrow> mm_struct \<Rightarrow> files_state \<Rightarrow> fs_state \<Rightarrow>
   sighand_struct \<Rightarrow> signal_struct \<Rightarrow> 'i \<Rightarrow> 'i task_struct" where
  "task_struct_new p parent tcb cs m files fs sighand sig cred =
     \<lparr>task_pid = p, parent_pid = parent, session_id = p, process_group_id = p, controlling_tty = 0,
      task_tcb = tcb, task_cspace = cs, task_lifecycle = Running, task_stopped = False,
      task_mm = m, task_files = files, task_fs = fs, task_sighand = sighand, task_signal = sig,
      task_cred = cred\<rparr>"

definition set_lifecycle :: "task_lifecycle_state \<Rightarrow> 'i task_struct \<Rightarrow> 'i task_struct" where
  "set_lifecycle st t = t\<lparr>task_lifecycle := st\<rparr>"

definition is_stopped :: "'i task_struct \<Rightarrow> bool" where
  "is_stopped t = task_stopped t"

definition mark_stopped :: "'i task_struct \<Rightarrow> 'i task_struct" where
  "mark_stopped t = set_lifecycle Stopped (t\<lparr>task_stopped := True\<rparr>)"

definition mark_running :: "'i task_struct \<Rightarrow> 'i task_struct" where
  "mark_running t = set_lifecycle Running (t\<lparr>task_stopped := False\<rparr>)"

definition mark_exiting :: "'i task_struct \<Rightarrow> 'i task_struct" where
  "mark_exiting t = set_lifecycle Exiting t"

definition mark_exited :: "'i task_struct \<Rightarrow> 'i task_struct" where
  "mark_exited t = set_lifecycle Exited (t\<lparr>task_stopped := False\<rparr>)"

definition vspace :: "'i task_struct \<Rightarrow> capptr" where
  "vspace t = mm_vspace (task_mm t)"

definition task_mem :: "'i task_struct \<Rightarrow> mm_state" where
  "task_mem t = mm (task_mm t)"

definition upd_mem :: "(mm_state \<Rightarrow> mm_state) \<Rightarrow> 'i task_struct \<Rightarrow> 'i task_struct" where
  "upd_mem f t = t\<lparr>task_mm := (task_mm t)\<lparr>mm := f (task_mem t)\<rparr>\<rparr>"

definition upd_signal :: "(signal_struct \<Rightarrow> signal_struct) \<Rightarrow> 'i task_struct \<Rightarrow> 'i task_struct" where
  "upd_signal f t = t\<lparr>task_signal := f (task_signal t)\<rparr>"

definition upd_files :: "(files_state \<Rightarrow> files_state) \<Rightarrow> 'i task_struct \<Rightarrow> 'i task_struct" where
  "upd_files f t = t\<lparr>task_files := f (task_files t)\<rparr>"

section \<open>The table of processes\<close>

datatype child_state_event_kind = EvExited | EvStopped | EvContinued

record child_state_event =
  ev_child_pid :: usize
  ev_wait_status :: int
  ev_process_group_id :: usize
  ev_kind :: child_state_event_kind

record process_lifecycle_snapshot =
  snap_parent_pid :: usize
  snap_process_group_id :: usize
  snap_state :: task_lifecycle_state
  snap_wait_status :: "int option"

record pending_wait_reply =
  pw_reply_slot :: capptr
  pw_target_pid :: int
  pw_wstatus :: usize
  pw_options :: "64 word"
  pw_caller_pgid :: usize

record 'i ape_task_state =
  tasks :: "(usize, 'i task_struct) btree"
  host_pid_map :: "(usize, usize) btree"
  lifecycle :: "(usize, process_lifecycle_snapshot) btree"
  child_events :: "(usize, child_state_event list) btree"
  pending_wait_replies :: "(usize, pending_wait_reply) btree"
  frame_cap_refs :: "(capptr, usize) btree"
  next_pid :: usize

definition ape_task_state_new :: "usize \<Rightarrow> 'i ape_task_state" where
  "ape_task_state_new n =
     \<lparr>tasks = [], host_pid_map = [], lifecycle = [], child_events = [], pending_wait_replies = [],
      frame_cap_refs = [], next_pid = n\<rparr>"

subsection \<open>Shared frame capabilities\<close>

definition retain_frame_cap :: "capptr \<Rightarrow> 'i ape_task_state \<Rightarrow> 'i ape_task_state" where
  "retain_frame_cap slot st =
     st\<lparr>frame_cap_refs := bt_entry slot 1 (\<lambda>n. sat_add n 1) (frame_cap_refs st)\<rparr>"

definition release_frame_cap :: "capptr \<Rightarrow> 'i ape_task_state \<Rightarrow> bool \<times> 'i ape_task_state" where
  "release_frame_cap slot st =
     (case bt_get (frame_cap_refs st) slot of
        None \<Rightarrow> (True, st)
      | Some n \<Rightarrow>
          if n > 1 then (False, st\<lparr>frame_cap_refs := bt_insert slot (n - 1) (frame_cap_refs st)\<rparr>)
          else (True, st\<lparr>frame_cap_refs := bt_remove slot (frame_cap_refs st)\<rparr>))"

subsection \<open>Processes\<close>

definition alloc_pid :: "'i ape_task_state \<Rightarrow> usize \<times> 'i ape_task_state" where
  "alloc_pid st = (next_pid st, st\<lparr>next_pid := sat_add (next_pid st) 1\<rparr>)"

definition ts_register_process :: "usize \<Rightarrow> usize \<Rightarrow> 'i task_struct \<Rightarrow> 'i ape_task_state \<Rightarrow> 'i ape_task_state" where
  "ts_register_process p host t st =
     st\<lparr>tasks := bt_insert p t (tasks st),
        host_pid_map := bt_insert host p (host_pid_map st),
        lifecycle := bt_insert p
          \<lparr>snap_parent_pid = parent_pid t, snap_process_group_id = process_group_id t,
           snap_state = Running, snap_wait_status = None\<rparr> (lifecycle st)\<rparr>"

definition process :: "'i ape_task_state \<Rightarrow> usize \<Rightarrow> 'i task_struct option" where
  "process st p = bt_get (tasks st) p"

definition remove_process :: "usize \<Rightarrow> 'i ape_task_state \<Rightarrow> 'i ape_task_state" where
  "remove_process p st = st\<lparr>tasks := bt_remove p (tasks st)\<rparr>"

definition ts_set_process_lifecycle_state ::
  "usize \<Rightarrow> task_lifecycle_state \<Rightarrow> 'i ape_task_state \<Rightarrow> 'i ape_task_state" where
  "ts_set_process_lifecycle_state p new st =
     (case process st p of
        Some t \<Rightarrow>
          st\<lparr>lifecycle := bt_entry p
               \<lparr>snap_parent_pid = parent_pid t, snap_process_group_id = process_group_id t,
                snap_state = new, snap_wait_status = None\<rparr>
               (\<lambda>e. e\<lparr>snap_parent_pid := parent_pid t, snap_process_group_id := process_group_id t,
                       snap_state := new\<rparr>)
               (lifecycle st)\<rparr>
      | None \<Rightarrow> st\<lparr>lifecycle := bt_alter p (\<lambda>e. e\<lparr>snap_state := new\<rparr>) (lifecycle st)\<rparr>)"

definition mark_process_exited :: "usize \<Rightarrow> usize \<Rightarrow> usize \<Rightarrow> int \<Rightarrow> 'i ape_task_state \<Rightarrow> 'i ape_task_state" where
  "mark_process_exited p parent pgid status st =
     st\<lparr>lifecycle := bt_insert p
          \<lparr>snap_parent_pid = parent, snap_process_group_id = pgid, snap_state = Exited,
           snap_wait_status = Some status\<rparr> (lifecycle st)\<rparr>"

definition clear_process_lifecycle :: "usize \<Rightarrow> 'i ape_task_state \<Rightarrow> 'i ape_task_state" where
  "clear_process_lifecycle p st = st\<lparr>lifecycle := bt_remove p (lifecycle st)\<rparr>"

definition pid_by_host :: "'i ape_task_state \<Rightarrow> usize \<Rightarrow> usize option" where
  "pid_by_host st host = bt_get (host_pid_map st) host"

definition remove_host_pid :: "usize \<Rightarrow> 'i ape_task_state \<Rightarrow> 'i ape_task_state" where
  "remove_host_pid host st = st\<lparr>host_pid_map := bt_remove host (host_pid_map st)\<rparr>"

definition ts_host_pid_by_local :: "'i ape_task_state \<Rightarrow> usize \<Rightarrow> usize option" where
  "ts_host_pid_by_local st p = map_option fst (find (\<lambda>e. snd e = p) (host_pid_map st))"

definition list_pids :: "'i ape_task_state \<Rightarrow> usize list" where
  "list_pids st = bt_keys (tasks st)"

subsection \<open>Child events and \<open>wait4\<close>\<close>

definition push_child_event :: "usize \<Rightarrow> child_state_event \<Rightarrow> 'i ape_task_state \<Rightarrow> 'i ape_task_state" where
  "push_child_event parent e st =
     st\<lparr>child_events := bt_entry parent [] (\<lambda>q. q @ [e]) (child_events st)\<rparr>"

definition ts_record_child_exit :: "usize \<Rightarrow> usize \<Rightarrow> int \<Rightarrow> usize \<Rightarrow> 'i ape_task_state \<Rightarrow> 'i ape_task_state" where
  "ts_record_child_exit parent child status pgid =
     push_child_event parent \<lparr>ev_child_pid = child, ev_wait_status = status,
       ev_process_group_id = pgid, ev_kind = EvExited\<rparr>"

definition ts_record_child_stopped :: "usize \<Rightarrow> usize \<Rightarrow> int \<Rightarrow> usize \<Rightarrow> 'i ape_task_state \<Rightarrow> 'i ape_task_state" where
  "ts_record_child_stopped parent child status pgid =
     push_child_event parent \<lparr>ev_child_pid = child, ev_wait_status = status,
       ev_process_group_id = pgid, ev_kind = EvStopped\<rparr>"

definition ts_record_child_continued :: "usize \<Rightarrow> usize \<Rightarrow> usize \<Rightarrow> 'i ape_task_state \<Rightarrow> 'i ape_task_state" where
  "ts_record_child_continued parent child pgid =
     push_child_event parent \<lparr>ev_child_pid = child, ev_wait_status = 0xffff,
       ev_process_group_id = pgid, ev_kind = EvContinued\<rparr>"

definition has_pending_wait_reply :: "'i ape_task_state \<Rightarrow> usize \<Rightarrow> bool" where
  "has_pending_wait_reply st p = bt_contains (pending_wait_replies st) p"

definition insert_pending_wait_reply :: "usize \<Rightarrow> pending_wait_reply \<Rightarrow> 'i ape_task_state \<Rightarrow> 'i ape_task_state" where
  "insert_pending_wait_reply p w st =
     st\<lparr>pending_wait_replies := bt_insert p w (pending_wait_replies st)\<rparr>"

definition take_pending_wait_reply :: "usize \<Rightarrow> 'i ape_task_state \<Rightarrow> pending_wait_reply option \<times> 'i ape_task_state" where
  "take_pending_wait_reply p st =
     (bt_get (pending_wait_replies st) p,
      st\<lparr>pending_wait_replies := bt_remove p (pending_wait_replies st)\<rparr>)"

definition peek_pending_wait_reply :: "'i ape_task_state \<Rightarrow> usize \<Rightarrow> pending_wait_reply option" where
  "peek_pending_wait_reply st p = bt_get (pending_wait_replies st) p"

definition matches_wait_target :: "usize \<Rightarrow> usize \<Rightarrow> int \<Rightarrow> usize \<Rightarrow> bool" where
  "matches_wait_target child child_pgid target caller_pgid =
     (if target = -1 then True
      else if target > 0 then child = nat target
      else if target = 0 then child_pgid = caller_pgid
      else child_pgid = nat \<bar>target\<bar>)"

definition has_live_child_matching :: "'i ape_task_state \<Rightarrow> usize \<Rightarrow> int \<Rightarrow> usize \<Rightarrow> bool" where
  "has_live_child_matching st parent target pgid =
     (\<exists>t \<in> set (bt_values (tasks st)).
        parent_pid t = parent \<and> matches_wait_target (task_pid t) (process_group_id t) target pgid)"

definition first_stopped_child_matching :: "'i ape_task_state \<Rightarrow> usize \<Rightarrow> int \<Rightarrow> usize \<Rightarrow> usize option" where
  "first_stopped_child_matching st parent target pgid =
     map_option task_pid (find (\<lambda>t. parent_pid t = parent \<and> is_stopped t \<and>
        matches_wait_target (task_pid t) (process_group_id t) target pgid) (bt_values (tasks st)))"

definition event_kind_enabled :: "child_state_event_kind \<Rightarrow> 64 word \<Rightarrow> bool" where
  "event_kind_enabled k options =
     (case k of
        EvExited \<Rightarrow> True
      | EvStopped \<Rightarrow> options AND WUNTRACED \<noteq> 0
      | EvContinued \<Rightarrow> options AND WCONTINUED \<noteq> 0)"

definition event_matches :: "int \<Rightarrow> 64 word \<Rightarrow> usize \<Rightarrow> child_state_event \<Rightarrow> bool" where
  "event_matches target options pgid e =
     (event_kind_enabled (ev_kind e) options \<and>
      matches_wait_target (ev_child_pid e) (ev_process_group_id e) target pgid)"

definition has_child_event_matching :: "'i ape_task_state \<Rightarrow> usize \<Rightarrow> int \<Rightarrow> 64 word \<Rightarrow> usize \<Rightarrow> bool" where
  "has_child_event_matching st parent target options pgid =
     (case bt_get (child_events st) parent of
        Some q \<Rightarrow> \<exists>e \<in> set q. event_matches target options pgid e
      | None \<Rightarrow> False)"

definition pop_child_event_matching ::
  "usize \<Rightarrow> int \<Rightarrow> 64 word \<Rightarrow> usize \<Rightarrow> 'i ape_task_state \<Rightarrow> (usize \<times> int) option \<times> 'i ape_task_state" where
  "pop_child_event_matching parent target options pgid st =
     (case bt_get (child_events st) parent of
        None \<Rightarrow> (None, st)
      | Some q \<Rightarrow>
          (case position (event_matches target options pgid) q of
             None \<Rightarrow> (None, st)
           | Some pos \<Rightarrow>
               let e = q ! pos; q' = remove_at pos q in
               (Some (ev_child_pid e, ev_wait_status e),
                st\<lparr>child_events :=
                     (if q' = [] then bt_remove parent (child_events st)
                      else bt_insert parent q' (child_events st))\<rparr>)))"

section \<open>Owners of a frame capability\<close>

text \<open>
  The counters hold an entry only for a capability that is or was shared; an absent
  entry stands for one owner. The interface a client relies on: how many owners the
  table stands for, and that the call to release answers whether the caller was the last
  one. \<open>bound\<close> is the saturation of the counter.
\<close>

datatype 'c cap_op = AllocCap 'c | RetainCap 'c | ReleaseCap 'c

fun op_cap :: "'c cap_op \<Rightarrow> 'c" where
  "op_cap (AllocCap c) = c"
| "op_cap (RetainCap c) = c"
| "op_cap (ReleaseCap c) = c"

fun own_step :: "'c cap_op \<Rightarrow> ('c \<Rightarrow> nat) \<Rightarrow> 'c \<Rightarrow> nat" where
  "own_step (AllocCap c) f = f(c := 1)"
| "own_step (RetainCap c) f = f(c := f c + 1)"
| "own_step (ReleaseCap c) f = f(c := f c - 1)"

text \<open>A capability is allocated when nobody owns it, and kept or dropped by an owner.\<close>

fun own_ok :: "nat \<Rightarrow> 'c cap_op \<Rightarrow> ('c \<Rightarrow> nat) \<Rightarrow> bool" where
  "own_ok bound (AllocCap c) f = (f c = 0)"
| "own_ok bound (RetainCap c) f = (0 < f c \<and> f c < bound)"
| "own_ok bound (ReleaseCap c) f = (0 < f c)"

fun own_run :: "nat \<Rightarrow> 'c cap_op list \<Rightarrow> ('c \<Rightarrow> nat) \<Rightarrow> ('c \<Rightarrow> nat) option" where
  "own_run bound [] f = Some f"
| "own_run bound (x # xs) f = (if own_ok bound x f then own_run bound xs (own_step x f) else None)"

text \<open>The answers that the owners expect: freed when the last one drops it.\<close>

fun own_answers :: "'c cap_op list \<Rightarrow> ('c \<Rightarrow> nat) \<Rightarrow> bool list" where
  "own_answers [] f = []"
| "own_answers (x # xs) f =
     (case x of ReleaseCap c \<Rightarrow> f c = 1 | _ \<Rightarrow> False) # own_answers xs (own_step x f)"

fun cap_run ::
  "('c \<Rightarrow> 's \<Rightarrow> 's) \<Rightarrow> ('c \<Rightarrow> 's \<Rightarrow> bool \<times> 's) \<Rightarrow> 'c cap_op list \<Rightarrow> 's \<Rightarrow> bool list \<times> 's" where
  "cap_run retain release [] s = ([], s)"
| "cap_run retain release (x # xs) s =
     (let (b, s') = (case x of
          AllocCap c \<Rightarrow> (False, s)
        | RetainCap c \<Rightarrow> (False, retain c s)
        | ReleaseCap c \<Rightarrow> release c s);
        (bs, s'') = cap_run retain release xs s'
      in (b # bs, s''))"

locale shared_caps =
  fixes retain :: "'c \<Rightarrow> 's \<Rightarrow> 's"
    and release :: "'c \<Rightarrow> 's \<Rightarrow> bool \<times> 's"
    and refs :: "'s \<Rightarrow> 'c \<Rightarrow> nat"
    and bound :: nat
    and ok :: "'s \<Rightarrow> bool"
  assumes refs_pos: "ok s \<Longrightarrow> 0 < refs s c"
    and ok_retain: "ok s \<Longrightarrow> ok (retain c s)"
    and ok_release: "ok s \<Longrightarrow> ok (snd (release c s))"
    and refs_ret: "ok s \<Longrightarrow> refs s c < bound \<Longrightarrow> refs (retain c s) = (refs s)(c := refs s c + 1)"
    and rel_last: "ok s \<Longrightarrow> fst (release c s) \<longleftrightarrow> refs s c = 1"
    and refs_rel: "ok s \<Longrightarrow> refs (snd (release c s)) = (refs s)(c := max 1 (refs s c - 1))"
begin

definition stands_for :: "'s \<Rightarrow> ('c \<Rightarrow> nat) \<Rightarrow> bool" where
  "stands_for s f \<longleftrightarrow> ok s \<and> (\<forall>c. refs s c = max 1 (f c))"

lemma run_simulates:
  assumes "stands_for s f" and "own_run bound xs f = Some g"
  shows "fst (cap_run retain release xs s) = own_answers xs f \<and> stands_for (snd (cap_run retain release xs s)) g"
  using assms
proof (induction xs arbitrary: s f)
  case (Cons x xs)
  from Cons.prems have rel0: "refs s c = max 1 (f c)" and oks: "ok s" for c
    by (simp_all add: stands_for_def)
  from Cons.prems have ok: "own_ok bound x f" and rest: "own_run bound xs (own_step x f) = Some g"
    by (auto split: if_splits)
  show ?case
  proof (cases x)
    case (AllocCap c)
    with ok oks rel0 have "stands_for s (own_step x f)" by (simp add: stands_for_def)
    from Cons.IH[OF this rest] AllocCap show ?thesis by (auto simp: split_beta fun_upd_def)
  next
    case (RetainCap c)
    with ok oks rel0[of c] have "stands_for (retain c s) (own_step x f)"
      by (auto simp: stands_for_def refs_ret ok_retain rel0)
    from Cons.IH[OF this rest] RetainCap show ?thesis by (auto simp: split_beta fun_upd_def)
  next
    case (ReleaseCap c)
    with ok oks rel0[of c] have "stands_for (snd (release c s)) (own_step x f)"
      by (auto simp: stands_for_def refs_rel ok_release rel0)
    from Cons.IH[OF this rest] ReleaseCap ok oks rel0[of c] show ?thesis
      by (auto simp: split_beta rel_last max_def fun_upd_def)
  qed
qed simp

text \<open>Every capability is freed exactly as often as its count of owners returns to zero.\<close>

lemma frees_balance:
  assumes "own_run bound xs f = Some g"
  shows "length (filter (\<lambda>x. x = AllocCap c) xs) + (if 0 < f c then 1 else 0) =
         length (filter (\<lambda>(x, b). x = ReleaseCap c \<and> b) (zip xs (own_answers xs f))) +
         (if 0 < g c then 1 else 0)"
  using assms
proof (induction xs arbitrary: f)
  case (Cons x xs)
  then have ok: "own_ok bound x f" and rest: "own_run bound xs (own_step x f) = Some g"
    by (auto split: if_splits)
  from Cons.IH[OF rest] ok show ?case by (cases x) (auto simp: fun_upd_def split: if_splits)
qed simp

end

definition cap_refs :: "'i ape_task_state \<Rightarrow> capptr \<Rightarrow> nat" where
  "cap_refs st c = (case bt_get (frame_cap_refs st) c of None \<Rightarrow> 1 | Some n \<Rightarrow> n)"

definition cap_refs_ok :: "'i ape_task_state \<Rightarrow> bool" where
  "cap_refs_ok st \<longleftrightarrow> (\<forall>c n. bt_get (frame_cap_refs st) c = Some n \<longrightarrow> 0 < n)"

interpretation frame_caps:
  shared_caps retain_frame_cap release_frame_cap cap_refs usize_max cap_refs_ok
proof unfold_locales
  fix s :: "'i ape_task_state" and c
  assume ok: "cap_refs_ok s"
  then show "0 < cap_refs s c" by (auto simp: cap_refs_def cap_refs_ok_def split: option.split)
  from ok show "cap_refs_ok (retain_frame_cap c s)"
    by (auto simp: cap_refs_ok_def retain_frame_cap_def sat_add_def usize_max_def split: option.split)
  from ok show "cap_refs_ok (snd (release_frame_cap c s))"
    by (auto simp: cap_refs_ok_def release_frame_cap_def split: option.split)
  show "cap_refs s c < usize_max \<Longrightarrow>
    cap_refs (retain_frame_cap c s) = (cap_refs s)(c := cap_refs s c + 1)"
    by (auto simp: cap_refs_def retain_frame_cap_def fun_eq_iff split: option.splits)
  from ok show "fst (release_frame_cap c s) = (cap_refs s c = 1)"
    by (auto simp: release_frame_cap_def cap_refs_def cap_refs_ok_def not_less le_Suc_eq
        split: option.split)
  from ok show "cap_refs (snd (release_frame_cap c s)) = (cap_refs s)(c := max 1 (cap_refs s c - 1))"
    by (intro ext) (auto simp: release_frame_cap_def cap_refs_def split: option.split)
qed

section \<open>The queue of child events\<close>

definition events_of :: "'i ape_task_state \<Rightarrow> usize \<Rightarrow> child_state_event list" where
  "events_of st p = (case bt_get (child_events st) p of Some q \<Rightarrow> q | None \<Rightarrow> [])"

lemma events_of_push [simp]:
  "events_of (push_child_event p e st) = (events_of st)(p := events_of st p @ [e])"
  by (auto simp: events_of_def push_child_event_def fun_eq_iff split: option.split)

lemma has_child_event_matching_iff:
  "has_child_event_matching st p target options pgid \<longleftrightarrow>
   (\<exists>e \<in> set (events_of st p). event_matches target options pgid e)"
  by (auto simp: has_child_event_matching_def events_of_def split: option.split)

lemma pop_child_event_cases:
  "pop_child_event_matching p target options pgid st =
   (case position (event_matches target options pgid) (events_of st p) of
      None \<Rightarrow> (None, st)
    | Some i \<Rightarrow>
        (Some (ev_child_pid (events_of st p ! i), ev_wait_status (events_of st p ! i)),
         snd (pop_child_event_matching p target options pgid st)))"
  by (auto simp: pop_child_event_matching_def events_of_def Let_def split: option.splits)

lemma events_of_pop:
  assumes "position (event_matches target options pgid) (events_of st p) = Some i"
  shows "events_of (snd (pop_child_event_matching p target options pgid st)) =
         (events_of st)(p := remove_at i (events_of st p))"
  using assms by (auto simp: pop_child_event_matching_def events_of_def Let_def fun_eq_iff
      split: option.splits)

lemma pop_child_event_only_events:
  "\<exists>evs. snd (pop_child_event_matching p target options pgid st) = st\<lparr>child_events := evs\<rparr>"
proof -
  have same: "\<exists>evs. st = st\<lparr>child_events := evs\<rparr>" by (rule exI[of _ "child_events st"]) simp
  then show ?thesis
    unfolding pop_child_event_matching_def by (auto simp: Let_def split: option.split)
qed

lemma matches_wait_targets_agree:
  "matches_wait4_target child pgid req =
   matches_wait_target child pgid (req_target_pid req) (req_caller_pgid req)"
  by (simp add: matches_wait4_target_def matches_wait_target_def)

section \<open>Properties\<close>

text \<open>
  C13: from an empty table of counters, whatever valid sequence of allocations, shares and
  releases of frame capabilities the processes make (slots may be reused after they are
  freed), each release is told to free exactly when its caller is the last owner, and a
  slot is freed once for every time it was allocated unless it still has an owner.
\<close>

theorem frame_caps_freed_by_last_owner:
  assumes "own_run usize_max xs (\<lambda>_. 0) = Some owners"
  shows "fst (cap_run retain_frame_cap release_frame_cap xs (ape_task_state_new n :: 'i ape_task_state)) =
           own_answers xs (\<lambda>_. 0) \<and>
    length (filter (\<lambda>x. x = AllocCap c) xs) =
      length (filter (\<lambda>(x, freed). x = ReleaseCap c \<and> freed)
        (zip xs (fst (cap_run retain_frame_cap release_frame_cap xs
          (ape_task_state_new n :: 'i ape_task_state))))) +
      (if 0 < owners c then 1 else 0)"
proof -
  have "frame_caps.stands_for (ape_task_state_new n :: 'i ape_task_state) (\<lambda>_. 0)"
    by (simp add: frame_caps.stands_for_def cap_refs_def cap_refs_ok_def ape_task_state_new_def)
  from frame_caps.run_simulates[OF this assms]
  have "fst (cap_run retain_frame_cap release_frame_cap xs (ape_task_state_new n :: 'i ape_task_state)) =
      own_answers xs (\<lambda>_. 0)" by simp
  with frame_caps.frees_balance[OF assms, of c] show ?thesis by simp
qed

theorem frame_caps_freed_by_last_owner_witness:
  "fst (cap_run retain_frame_cap release_frame_cap
     [AllocCap 5, RetainCap 5, ReleaseCap 5, ReleaseCap 5, AllocCap 5]
     (ape_task_state_new 1 :: unit ape_task_state)) =
   [False, False, False, True, False]"
proof -
  let ?xs = "[AllocCap 5, RetainCap 5, ReleaseCap 5, ReleaseCap 5, AllocCap (5::nat)]"
  have "own_run usize_max ?xs (\<lambda>_. 0) = Some ((\<lambda>_. 0)(5 := 1))"
    by (simp add: usize_max_def fun_eq_iff)
  from frame_caps_freed_by_last_owner[OF this, of 1 5, where 'i = unit]
  have "fst (cap_run retain_frame_cap release_frame_cap ?xs (ape_task_state_new 1 :: unit ape_task_state)) =
    own_answers ?xs (\<lambda>_. 0)" by blast
  also have "\<dots> = [False, False, False, True, False]" by simp
  finally show ?thesis .
qed

text \<open>
  Taking a child event removes the oldest event of that parent that the wait accepts
  and nothing else, keeping the order of the rest and the queues of all other parents; it
  takes nothing exactly when the parent has no acceptable event.
\<close>

theorem pop_child_event_oldest:
  "case pop_child_event_matching p target options pgid st of
     (None, st') \<Rightarrow> st' = st \<and> \<not> has_child_event_matching st p target options pgid
   | (Some (child, status), st') \<Rightarrow>
       \<exists>before e after. events_of st p = before @ e # after \<and>
         events_of st' = (events_of st)(p := before @ after) \<and>
         event_matches target options pgid e \<and> child = ev_child_pid e \<and> status = ev_wait_status e \<and>
         filter (event_matches target options pgid) before = [] \<and>
         tasks st' = tasks st \<and> frame_cap_refs st' = frame_cap_refs st"
proof (cases "position (event_matches target options pgid) (events_of st p)")
  case None
  then have "pop_child_event_matching p target options pgid st = (None, st)"
    by (subst pop_child_event_cases) simp
  with None show ?thesis by (simp add: has_child_event_matching_iff position_None)
next
  case (Some i)
  let ?q = "events_of st p" and ?st' = "snd (pop_child_event_matching p target options pgid st)"
  from position_Some[OF Some] have i: "i < length ?q" "event_matches target options pgid (?q ! i)"
    "\<forall>j<i. \<not> event_matches target options pgid (?q ! j)" by auto
  obtain evs where only: "?st' = st\<lparr>child_events := evs\<rparr>" using pop_child_event_only_events by blast
  have ex: "\<exists>before e after. ?q = before @ e # after \<and> events_of ?st' = (events_of st)(p := before @ after) \<and>
      event_matches target options pgid e \<and> ev_child_pid (?q ! i) = ev_child_pid e \<and>
      ev_wait_status (?q ! i) = ev_wait_status e \<and>
      filter (event_matches target options pgid) before = [] \<and>
      tasks ?st' = tasks st \<and> frame_cap_refs ?st' = frame_cap_refs st"
  proof (rule exI[of _ "take i ?q"], rule exI[of _ "?q ! i"], rule exI[of _ "drop (Suc i) ?q"],
      intro conjI)
    show "?q = take i ?q @ ?q ! i # drop (Suc i) ?q" using i(1) by (rule id_take_nth_drop)
    show "filter (event_matches target options pgid) (take i ?q) = []"
      using i by (auto simp: filter_empty_conv in_set_conv_nth)
    show "events_of ?st' = (events_of st)(p := take i ?q @ drop (Suc i) ?q)"
      using events_of_pop[OF Some] by (simp add: remove_at_def)
  qed (simp_all add: only i(2))
  have pop: "pop_child_event_matching p target options pgid st =
      (Some (ev_child_pid (?q ! i), ev_wait_status (?q ! i)), ?st')"
    using Some by (subst pop_child_event_cases) simp
  show ?thesis using ex by (subst pop) (simp only: case_prod_conv option.case)
qed

end
