(* ===== verification/Tty_Ldisc.thy ===== *)
theory Tty_Ldisc
  imports Btree
begin

text \<open>
  The terminal state and its registry (\<open>src/src/ape/tty/state.rs\<close>) and the
  line discipline (\<open>src/src/ape/tty/ldisc.rs\<close>). The state keeps the raw
  termios bytes as the code does; the flags are read from them in the byte order of
  the two targets, which is little-endian. The escape-sequence parser of the state is
  of a type of its own library, a type parameter here.
\<close>

section \<open>State\<close>

definition TTY_TERMIOS_SIZE :: usize where
  "TTY_TERMIOS_SIZE = 44"

definition IFLAG_OFFSET :: usize where "IFLAG_OFFSET = 0"
definition OFLAG_OFFSET :: usize where "OFLAG_OFFSET = 4"
definition LFLAG_OFFSET :: usize where "LFLAG_OFFSET = 12"
definition CC_OFFSET :: usize where "CC_OFFSET = 17"
definition IFLAG_INLCR :: "32 word" where "IFLAG_INLCR = 0x40"
definition IFLAG_IGNCR :: "32 word" where "IFLAG_IGNCR = 0x80"
definition IFLAG_ICRNL :: "32 word" where "IFLAG_ICRNL = 0x100"
definition OFLAG_OPOST :: "32 word" where "OFLAG_OPOST = 0x1"
definition OFLAG_ONLCR :: "32 word" where "OFLAG_ONLCR = 0x4"
definition LFLAG_ISIG :: "32 word" where "LFLAG_ISIG = 0x1"
definition LFLAG_ICANON :: "32 word" where "LFLAG_ICANON = 0x2"
definition LFLAG_ECHO :: "32 word" where "LFLAG_ECHO = 0x8"
definition VINTR :: usize where "VINTR = 0"
definition VQUIT :: usize where "VQUIT = 1"
definition VERASE :: usize where "VERASE = 2"
definition VKILL :: usize where "VKILL = 3"
definition VEOF :: usize where "VEOF = 4"
definition VTIME :: usize where "VTIME = 5"
definition VMIN :: usize where "VMIN = 6"

lemmas tty_consts =
  TTY_TERMIOS_SIZE_def IFLAG_OFFSET_def OFLAG_OFFSET_def LFLAG_OFFSET_def CC_OFFSET_def
  IFLAG_INLCR_def IFLAG_IGNCR_def IFLAG_ICRNL_def OFLAG_OPOST_def OFLAG_ONLCR_def
  LFLAG_ISIG_def LFLAG_ICANON_def LFLAG_ECHO_def
  VINTR_def VQUIT_def VERASE_def VKILL_def VEOF_def VTIME_def VMIN_def

record window_size =
  ws_rows :: nat
  ws_cols :: nat
  ws_xpixel :: nat
  ws_ypixel :: nat

record 'p tty_state =
  termios :: "byte list"
  winsize :: window_size
  pgrp :: int
  canonical_line_buf :: "byte list"
  readable_buf :: "byte list"
  cursor_row :: nat
  cursor_col :: nat
  saved_cursor_row :: nat
  saved_cursor_col :: nat
  last_was_cr :: bool
  ansi_parser :: 'p

definition u32_to_bytes :: "32 word \<Rightarrow> byte list" where
  "u32_to_bytes w = [ucast w, ucast (drop_bit 8 w), ucast (drop_bit 16 w), ucast (drop_bit 24 w)]"

definition u32_from_bytes :: "byte list \<Rightarrow> 32 word" where
  "u32_from_bytes bs =
     ucast (bs ! 0) OR push_bit 8 (ucast (bs ! 1)) OR push_bit 16 (ucast (bs ! 2))
       OR push_bit 24 (ucast (bs ! 3))"

text \<open>Copying a slice over a range of the array.\<close>

definition put_slice :: "nat \<Rightarrow> byte list \<Rightarrow> byte list \<Rightarrow> byte list" where
  "put_slice off src t = take off t @ src @ drop (off + length src) t"

definition default_termios :: "byte list" where
  "default_termios =
     (let t0 = replicate TTY_TERMIOS_SIZE 0;
          t1 = put_slice IFLAG_OFFSET (u32_to_bytes IFLAG_ICRNL) t0;
          t2 = put_slice OFLAG_OFFSET (u32_to_bytes (OFLAG_OPOST OR OFLAG_ONLCR)) t1;
          t3 = put_slice LFLAG_OFFSET (u32_to_bytes (LFLAG_ISIG OR LFLAG_ICANON OR LFLAG_ECHO)) t2
      in t3[CC_OFFSET + VINTR := 0x03, CC_OFFSET + VQUIT := 0x1c, CC_OFFSET + VERASE := 0x7f,
            CC_OFFSET + VKILL := 0x15, CC_OFFSET + VEOF := 0x04, CC_OFFSET + VTIME := 0,
            CC_OFFSET + VMIN := 1])"

text \<open>The fresh parser is a value of the parser library.\<close>

definition tty_default :: "'p \<Rightarrow> 'p tty_state" where
  "tty_default parser_new =
     \<lparr>termios = default_termios,
      winsize = \<lparr>ws_rows = 25, ws_cols = 80, ws_xpixel = 800, ws_ypixel = 600\<rparr>,
      pgrp = 0, canonical_line_buf = [], readable_buf = [],
      cursor_row = 1, cursor_col = 1, saved_cursor_row = 1, saved_cursor_col = 1,
      last_was_cr = False, ansi_parser = parser_new\<rparr>"

section \<open>The registry\<close>

text \<open>Keyed by the capability bits of the terminal's endpoint.\<close>

type_synonym 'p tty_registry = "(usize, 'p tty_state) btree"

definition tty_registry_new :: "'p tty_registry" where
  "tty_registry_new = []"

definition tty_get :: "'p tty_registry \<Rightarrow> usize \<Rightarrow> 'p tty_state option" where
  "tty_get reg term = bt_get reg term"

definition has_readable :: "'p tty_registry \<Rightarrow> usize \<Rightarrow> bool" where
  "has_readable reg term =
     (case bt_get reg term of Some s \<Rightarrow> readable_buf s \<noteq> [] | None \<Rightarrow> False)"

definition tty_insert :: "usize \<Rightarrow> 'p tty_state \<Rightarrow> 'p tty_registry \<Rightarrow> 'p tty_registry" where
  "tty_insert term st reg = bt_insert term st reg"

definition update_termios :: "'p \<Rightarrow> usize \<Rightarrow> byte list \<Rightarrow> 'p tty_registry \<Rightarrow> 'p tty_registry" where
  "update_termios pn term t reg = bt_entry term (tty_default pn) (\<lambda>s. s\<lparr>termios := t\<rparr>) reg"

definition update_winsize :: "'p \<Rightarrow> usize \<Rightarrow> window_size \<Rightarrow> 'p tty_registry \<Rightarrow> 'p tty_registry" where
  "update_winsize pn term w reg = bt_entry term (tty_default pn) (\<lambda>s. s\<lparr>winsize := w\<rparr>) reg"

definition update_pgrp :: "'p \<Rightarrow> usize \<Rightarrow> int \<Rightarrow> 'p tty_registry \<Rightarrow> 'p tty_registry" where
  "update_pgrp pn term g reg = bt_entry term (tty_default pn) (\<lambda>s. s\<lparr>pgrp := g\<rparr>) reg"

definition tty_remove :: "usize \<Rightarrow> 'p tty_registry \<Rightarrow> 'p tty_registry" where
  "tty_remove term reg = bt_remove term reg"

section \<open>The line discipline\<close>

definition read_u32 :: "byte list \<Rightarrow> usize \<Rightarrow> 32 word" where
  "read_u32 t off = u32_from_bytes (take 4 (drop off t))"

definition read_cc :: "byte list \<Rightarrow> usize \<Rightarrow> byte \<Rightarrow> byte" where
  "read_cc t idx dflt = (if CC_OFFSET + idx < length t then t ! (CC_OFFSET + idx) else dflt)"

definition is_igncr :: "byte list \<Rightarrow> bool" where
  "is_igncr t = (read_u32 t IFLAG_OFFSET AND IFLAG_IGNCR \<noteq> 0)"

definition is_icrnl :: "byte list \<Rightarrow> bool" where
  "is_icrnl t = (read_u32 t IFLAG_OFFSET AND IFLAG_ICRNL \<noteq> 0)"

definition is_inlcr :: "byte list \<Rightarrow> bool" where
  "is_inlcr t = (read_u32 t IFLAG_OFFSET AND IFLAG_INLCR \<noteq> 0)"

definition is_icanon :: "byte list \<Rightarrow> bool" where
  "is_icanon t = (read_u32 t LFLAG_OFFSET AND LFLAG_ICANON \<noteq> 0)"

definition is_echo :: "byte list \<Rightarrow> bool" where
  "is_echo t = (read_u32 t LFLAG_OFFSET AND LFLAG_ECHO \<noteq> 0)"

definition erase_echo :: "byte list" where
  "erase_echo = [0x08, 0x20, 0x08]"

text \<open>\<open>VecDeque::pop_back\<close>: the last element and the rest.\<close>

definition canonical_erase :: "'p tty_state \<Rightarrow> byte list \<Rightarrow> 'p tty_state \<times> byte list" where
  "canonical_erase st echo =
     (if canonical_line_buf st = [] then (st, echo)
      else (st\<lparr>canonical_line_buf := butlast (canonical_line_buf st)\<rparr>, echo @ erase_echo))"

fun canonical_kill_loop :: "byte list \<Rightarrow> byte list \<Rightarrow> byte list \<times> byte list" where
  "canonical_kill_loop line echo =
     (if line = [] then ([], echo) else canonical_kill_loop (butlast line) (echo @ erase_echo))"

declare canonical_kill_loop.simps [simp del]

definition canonical_kill :: "'p tty_state \<Rightarrow> byte list \<Rightarrow> 'p tty_state \<times> byte list" where
  "canonical_kill st echo =
     (case canonical_kill_loop (canonical_line_buf st) echo of
        (line, echo') \<Rightarrow> (st\<lparr>canonical_line_buf := line\<rparr>, echo'))"

fun flush_loop :: "byte list \<Rightarrow> byte list \<Rightarrow> byte list" where
  "flush_loop [] rd = rd"
| "flush_loop (b # bs) rd = flush_loop bs (rd @ [b])"

definition flush_canonical_to_readable :: "'p tty_state \<Rightarrow> 'p tty_state" where
  "flush_canonical_to_readable st =
     st\<lparr>readable_buf := flush_loop (canonical_line_buf st) (readable_buf st), canonical_line_buf := []\<rparr>"

text \<open>
  One turn of the loop of \<open>feed_input\<close>: the translation of a raw byte
  (\<open>None\<close> is the \<open>continue\<close> of an ignored carriage return), the
  match of canonical mode, and the turn itself. The code reads the flags once before
  the loop; no turn changes the termios bytes they come from.
\<close>

definition translate :: "byte list \<Rightarrow> byte \<Rightarrow> byte option" where
  "translate t raw =
     (if raw = 13 \<and> is_igncr t then None
      else if raw = 13 \<and> is_icrnl t then Some 10
      else if raw = 10 \<and> is_inlcr t then Some 13
      else Some raw)"

definition feed_canonical :: "byte \<Rightarrow> 'p tty_state \<Rightarrow> byte list \<Rightarrow> 'p tty_state \<times> byte list" where
  "feed_canonical b st echo =
     (let t = termios st in
      if b = read_cc t VERASE 0x7f then
        (if is_echo t then canonical_erase st echo
         else (st\<lparr>canonical_line_buf := butlast (canonical_line_buf st)\<rparr>, echo))
      else if b = read_cc t VKILL 0x15 then
        (if is_echo t then canonical_kill st echo
         else (st\<lparr>canonical_line_buf := []\<rparr>, echo))
      else if b = read_cc t VEOF 0x04 then (flush_canonical_to_readable st, echo)
      else if b = 10 then
        (flush_canonical_to_readable (st\<lparr>canonical_line_buf := canonical_line_buf st @ [b]\<rparr>),
         if is_echo t then echo @ [b] else echo)
      else (st\<lparr>canonical_line_buf := canonical_line_buf st @ [b]\<rparr>,
            if is_echo t then echo @ [b] else echo))"

definition feed_byte :: "byte \<Rightarrow> 'p tty_state \<times> byte list \<Rightarrow> 'p tty_state \<times> byte list" where
  "feed_byte raw se = (case se of (st, echo) \<Rightarrow>
     if raw = 10 \<and> last_was_cr st then (st\<lparr>last_was_cr := False\<rparr>, echo)
     else
       let st = st\<lparr>last_was_cr := (raw = 13)\<rparr>; t = termios st in
       (case translate t raw of
          None \<Rightarrow> (st, echo)
        | Some b \<Rightarrow>
            if is_icanon t then feed_canonical b st echo
            else (st\<lparr>readable_buf := readable_buf st @ [b]\<rparr>, if is_echo t then echo @ [b] else echo)))"

definition feed_input :: "'p tty_state \<Rightarrow> byte list \<Rightarrow> 'p tty_state \<times> byte list" where
  "feed_input st input = fold feed_byte input (st, [])"

definition can_read_now :: "'p tty_state \<Rightarrow> bool" where
  "can_read_now st =
     (if readable_buf st = [] then False
      else if is_icanon (termios st) then True
      else let vmin = unat (read_cc (termios st) VMIN 1) in
        if vmin = 0 then readable_buf st \<noteq> [] else length (readable_buf st) \<ge> vmin)"

fun take_loop :: "nat \<Rightarrow> byte list \<Rightarrow> byte list \<Rightarrow> byte list \<times> byte list" where
  "take_loop 0 out q = (out, q)"
| "take_loop (Suc n) out [] = (out, [])"
| "take_loop (Suc n) out (b # q) = take_loop n (out @ [b]) q"

definition take_readable :: "'p tty_state \<Rightarrow> usize \<Rightarrow> byte list \<times> 'p tty_state" where
  "take_readable st max_len =
     (if max_len = 0 \<or> \<not> can_read_now st then ([], st)
      else
        let n = min max_len (length (readable_buf st)) in
        (case take_loop n [] (readable_buf st) of (out, q) \<Rightarrow> (out, st\<lparr>readable_buf := q\<rparr>)))"

section \<open>Reference definitions\<close>

text \<open>
  The discipline in two passes: first the translation of carriage returns and line
  feeds, then line editing. \<open>edit\<close> returns the bytes a reader may see and
  the line still being typed.
\<close>

fun cook :: "byte list \<Rightarrow> bool \<Rightarrow> byte list \<Rightarrow> byte list" where
  "cook t cr [] = []"
| "cook t cr (raw # rest) =
     (if raw = 10 \<and> cr then cook t False rest
      else (case translate t raw of None \<Rightarrow> [] | Some b \<Rightarrow> [b]) @ cook t (raw = 13) rest)"

fun edit :: "byte list \<Rightarrow> byte list \<Rightarrow> byte list \<Rightarrow> byte list \<times> byte list" where
  "edit t line [] = ([], line)"
| "edit t line (b # bs) =
     (if b = read_cc t VERASE 0x7f then edit t (butlast line) bs
      else if b = read_cc t VKILL 0x15 then edit t [] bs
      else if b = read_cc t VEOF 0x04 then (case edit t [] bs of (out, rest) \<Rightarrow> (line @ out, rest))
      else if b = 10 then (case edit t [] bs of (out, rest) \<Rightarrow> (line @ [10] @ out, rest))
      else edit t (line @ [b]) bs)"

section \<open>Lemmas\<close>

lemma kill_loop_simps [simp]:
  "canonical_kill_loop [] echo = ([], echo)"
  "canonical_kill_loop (line @ [b]) echo = canonical_kill_loop line (echo @ erase_echo)"
  by (subst canonical_kill_loop.simps, simp)+

lemma kill_loop_eq: "canonical_kill_loop line echo = ([], echo @ concat (replicate (length line) erase_echo))"
  by (induction line arbitrary: echo rule: rev_induct) simp_all

lemma flush_loop_eq: "flush_loop line rd = rd @ line"
  by (induction line rd rule: flush_loop.induct) auto

lemma take_loop_eq: "take_loop n out q = (out @ take n q, drop n q)"
  by (induction n out q rule: take_loop.induct) auto

lemmas line_defs =
  canonical_erase_def canonical_kill_def kill_loop_eq flush_canonical_to_readable_def flush_loop_eq

lemma feed_canonical_termios [simp]: "termios (fst (feed_canonical b st echo)) = termios st"
  by (simp add: feed_canonical_def line_defs Let_def)

lemma feed_canonical_cr [simp]: "last_was_cr (fst (feed_canonical b st echo)) = last_was_cr st"
  by (simp add: feed_canonical_def line_defs Let_def)

lemma feed_canonical_echo:
  "feed_canonical b st (e @ e') = (fst (feed_canonical b st e'), e @ snd (feed_canonical b st e'))"
  by (simp add: feed_canonical_def line_defs Let_def)

lemma feed_canonical_line:
  "canonical_line_buf (fst (feed_canonical b st echo)) = snd (edit (termios st) (canonical_line_buf st) [b])"
  "readable_buf (fst (feed_canonical b st echo)) =
     readable_buf st @ fst (edit (termios st) (canonical_line_buf st) [b])"
  by (simp_all add: feed_canonical_def line_defs Let_def)

lemma edit_Cons:
  "edit t line (b # bs) =
     (case edit t line [b] of (out, rest) \<Rightarrow>
        (case edit t rest bs of (out', rest') \<Rightarrow> (out @ out', rest')))"
  by (simp split: prod.split)

lemma feed_byte_termios [simp]: "termios (fst (feed_byte raw (st, echo))) = termios st"
  by (simp add: feed_byte_def Let_def split: option.split)

lemma feed_byte_echo:
  "feed_byte raw (st, e @ e') =
     (fst (feed_byte raw (st, e')), e @ snd (feed_byte raw (st, e')))"
  by (simp add: feed_byte_def Let_def feed_canonical_echo split: option.split)

lemma feed_byte_cr:
  "last_was_cr (fst (feed_byte raw (st, e))) = (raw = 13)"
  by (auto simp: feed_byte_def Let_def split: option.split)

lemma feed_byte_line:
  assumes "is_icanon (termios st)"
  shows "(case edit (termios st) (canonical_line_buf st) (cook (termios st) (last_was_cr st) [raw]) of
            (out, rest) \<Rightarrow> readable_buf (fst (feed_byte raw (st, e))) = readable_buf st @ out \<and>
                          canonical_line_buf (fst (feed_byte raw (st, e))) = rest)"
  using assms
  by (simp add: feed_byte_def Let_def feed_canonical_line case_prod_beta del: edit.simps(2) split: option.split)

lemma feed_echo:
  "fold feed_byte xs (st, e @ e') =
     (fst (fold feed_byte xs (st, e')), e @ snd (fold feed_byte xs (st, e')))"
proof (induction xs arbitrary: st e')
  case (Cons x xs)
  obtain st1 e1 where f: "feed_byte x (st, e') = (st1, e1)" by fastforce
  with Cons.IH[of st1 e1] feed_byte_echo[of x st e e'] show ?case by simp
qed simp

lemma list_update_numeral: "(x # xs)[numeral k := v] = x # xs[pred_numeral k := v]"
  by (simp add: numeral_eq_Suc)

lemma replicate_numeral: "replicate (numeral k) x = x # replicate (pred_numeral k) x"
  by (simp add: numeral_eq_Suc)

lemma default_termios_list:
  "default_termios = [0, 1, 0, 0, 5, 0, 0, 0, 0, 0, 0, 0, 11, 0, 0, 0, 0, 3, 0x1c, 0x7f, 0x15, 4, 0, 1,
     0, 0, 0, 0, 0, 0, 0, 0, 0, 0, 0, 0, 0, 0, 0, 0, 0, 0, 0, 0]"
  by (simp add: default_termios_def tty_consts u32_to_bytes_def put_slice_def Let_def
      list_update_numeral replicate_numeral)

lemma default_termios_flags [simp]:
  "is_icanon default_termios" "is_echo default_termios" "is_icrnl default_termios"
  "\<not> is_igncr default_termios" "\<not> is_inlcr default_termios"
  by (simp_all add: is_icanon_def is_echo_def is_icrnl_def is_igncr_def is_inlcr_def read_u32_def
      u32_from_bytes_def default_termios_list tty_consts)

lemma default_termios_cc [simp]:
  "read_cc default_termios VERASE 0x7f = 0x7f" "read_cc default_termios VKILL 0x15 = 0x15"
  "read_cc default_termios VEOF 0x04 = 0x04"
  by (simp_all add: read_cc_def default_termios_list tty_consts)

lemma edit_append:
  "edit t line (xs @ ys) =
     (case edit t line xs of (out, rest) \<Rightarrow>
        (case edit t rest ys of (out', rest') \<Rightarrow> (out @ out', rest')))"
proof (induction xs arbitrary: line)
  case (Cons x xs)
  show ?case
    unfolding append_Cons edit_Cons[of t line x "xs @ ys"] edit_Cons[of t line x xs]
    by (simp add: Cons case_prod_beta del: edit.simps(2))
qed simp

lemma cook_Cons: "cook t cr (x # xs) = cook t cr [x] @ cook t (x = 13) xs"
  by auto

lemma feed_edits:
  assumes "is_icanon (termios st)"
  shows "(case edit (termios st) (canonical_line_buf st) (cook (termios st) (last_was_cr st) xs) of
            (out, rest) \<Rightarrow>
              readable_buf (fst (fold feed_byte xs (st, e))) = readable_buf st @ out \<and>
              canonical_line_buf (fst (fold feed_byte xs (st, e))) = rest)"
  using assms
proof (induction xs arbitrary: st e)
  case (Cons x xs)
  obtain st1 e1 where f: "feed_byte x (st, e) = (st1, e1)" by fastforce
  then have t: "termios st1 = termios st" and cr: "last_was_cr st1 = (x = 13)"
    using feed_byte_termios[of x st e] feed_byte_cr[of x st e] by simp_all
  from feed_byte_line[OF Cons.prems, of x e] f Cons.IH[of st1 e1] Cons.prems t cr show ?case
    unfolding cook_Cons[of _ _ x xs] edit_append
    by (simp add: case_prod_beta del: edit.simps(2) cook.simps(2))
qed simp

lemma cook_plain:
  "10 \<notin> set bs \<Longrightarrow> 13 \<notin> set bs \<Longrightarrow> cook default_termios cr (bs @ [10]) = bs @ (if bs = [] \<and> cr then [] else [10])"
  by (induction bs arbitrary: cr) (auto simp: translate_def)

lemma edit_plain:
  assumes "set bs \<inter> {0x7f, 0x15, 0x04, 10} = {}"
  shows "edit default_termios line (bs @ cs) = edit default_termios (line @ bs) cs"
  using assms by (induction bs arbitrary: line) auto

lemma edit_erases:
  "edit default_termios line (replicate k 0x7f @ cs) =
   edit default_termios (take (length line - k) line) cs"
proof (induction k arbitrary: line)
  case (Suc k)
  have "take (length (butlast line) - k) (butlast line) = take (length line - Suc k) line"
    by (simp add: butlast_conv_take min_def)
  with Suc[of "butlast line"] show ?case by simp
qed simp

section \<open>Properties\<close>

text \<open>
  The line discipline does not depend on how the input is cut into reads: feeding
  two chunks one after the other, even between a carriage return and its line feed,
  gives the state and the echo of feeding them at once.
\<close>

theorem feed_input_chunks:
  "feed_input st (xs @ ys) =
     (case feed_input st xs of (st1, e1) \<Rightarrow>
        (case feed_input st1 ys of (st2, e2) \<Rightarrow> (st2, e1 @ e2)))"
proof -
  obtain st1 e1 where f: "fold feed_byte xs (st, []) = (st1, e1)" by fastforce
  with feed_echo[of ys st1 e1 "[]"] show ?thesis
    by (simp add: feed_input_def split: prod.split)
qed

text \<open>
  C21: in canonical mode the one-pass loop of the code computes what the reference does
  in two: after the translation of line ends, line editing decides which bytes a
  reader may see, and only a line feed or the end-of-file character releases a line.
\<close>

theorem feed_input_canonical_edits:
  assumes "is_icanon (termios st)"
    and "edit (termios st) (canonical_line_buf st) (cook (termios st) (last_was_cr st) input) = (out, rest)"
  shows "readable_buf (fst (feed_input st input)) = readable_buf st @ out \<and>
         canonical_line_buf (fst (feed_input st input)) = rest"
  using feed_edits[OF assms(1), of input "[]"] assms(2) by (simp add: feed_input_def)

theorem feed_input_canonical_edits_witness:
  "readable_buf (fst (feed_input (tty_default ()) [97, 98, 0x7f, 99, 13, 10, 100])) = [] @ [97, 99, 10] \<and>
   canonical_line_buf (fst (feed_input (tty_default ()) [97, 98, 0x7f, 99, 13, 10, 100])) = [100]"
  using feed_input_canonical_edits[of "tty_default ()" "[97, 98, 0x7f, 99, 13, 10, 100]" "[97, 99, 10]" "[100]"]
  by (simp add: tty_default_def translate_def)

text \<open>
  C22: with the default settings, typing a text without control characters, then
  pressing erase \<open>k\<close> times and return, makes exactly the text without its
  last \<open>k\<close> bytes readable, as one line.
\<close>

theorem typed_line_is_read:
  assumes "set text_bytes \<inter> {0x7f, 0x15, 0x04, 10, 13} = {}" and "text_bytes \<noteq> []"
    and "termios st = default_termios" and "canonical_line_buf st = []"
  shows "readable_buf (fst (feed_input st (text_bytes @ replicate k 0x7f @ [10]))) =
           readable_buf st @ take (length text_bytes - k) text_bytes @ [10]"
proof -
  have "cook default_termios (last_was_cr st) ((text_bytes @ replicate k 0x7f) @ [10]) =
      text_bytes @ replicate k 0x7f @ [10]"
    using assms(1,2) by (subst cook_plain) auto
  moreover have "edit default_termios [] (text_bytes @ replicate k 0x7f @ [10]) =
      (take (length text_bytes - k) text_bytes @ [10], [])"
    using assms(1) by (subst edit_plain) (auto simp: edit_erases)
  ultimately show ?thesis
    using feed_edits[of st "text_bytes @ replicate k 0x7f @ [10]" "[]"] assms(3,4)
    by (simp add: feed_input_def)
qed

theorem typed_line_is_read_witness:
  "readable_buf (fst (feed_input (tty_default ()) ([104, 105, 106] @ replicate 1 0x7f @ [10]))) = [104, 105, 10]"
  using typed_line_is_read[of "[104, 105, 106]" "tty_default ()" 1] by (simp add: tty_default_def)

text \<open>
  C22: a terminal read takes bytes from the front of the readable queue and loses
  none; it returns nothing when reading would have to wait (an empty queue, or fewer
  bytes than the minimum of non-canonical mode), and otherwise as many bytes as asked
  for and available.
\<close>

theorem take_readable_spec:
  "take_readable st n = (out, st') \<Longrightarrow>
     out @ readable_buf st' = readable_buf st \<and>
     length out = (if can_read_now st then min n (length (readable_buf st)) else 0) \<and>
     st' = st\<lparr>readable_buf := readable_buf st'\<rparr>"
  by (auto simp: take_readable_def take_loop_eq Let_def split: if_splits)

theorem take_readable_spec_witness:
  "length [104, 105 :: byte] =
     (if can_read_now ((tty_default ())\<lparr>readable_buf := [104, 105, 10]\<rparr>) then min 2 3 else 0)"
  using take_readable_spec[of "(tty_default ())\<lparr>readable_buf := [104, 105, 10]\<rparr>" 2 "[104, 105]"
      "(tty_default ())\<lparr>readable_buf := [10]\<rparr>"]
  by (simp add: take_readable_def take_loop_eq can_read_now_def tty_default_def)

end
