(* ===== verification/Vfs_Base.thy ===== *)
theory Vfs_Base
  imports Prelude
begin

text \<open>
  What the file systems served by APE share: path strings, the decimal numerals of
  \<open>Display\<close> and \<open>parse\<close>, the stat record of the file protocol, and the
  contract of a file handle (\<open>FileHandleService\<close>) as the locale
  \<open>file_handle\<close>. The pipe ends, the device files and the tmpfs handle are
  its instances, in their own theories.
\<close>

section \<open>Strings\<close>

fun trim_start :: "char \<Rightarrow> string \<Rightarrow> string" where
  "trim_start c [] = []"
| "trim_start c (x # xs) = (if x = c then trim_start c xs else x # xs)"

fun split_on :: "char \<Rightarrow> string \<Rightarrow> string list" where
  "split_on c [] = [[]]"
| "split_on c (x # xs) =
     (if x = c then [] # split_on c xs
      else case split_on c xs of [] \<Rightarrow> [[x]] | p # ps \<Rightarrow> (x # p) # ps)"

definition digit_val :: "char \<Rightarrow> nat option" where
  "digit_val c = (let n = of_char c in if 48 \<le> n \<and> n \<le> 57 then Some (n - 48) else None)"

text \<open>\<open>usize::from_str\<close>: an optional plus sign, at least one digit, no overflow.\<close>

fun parse_digits :: "nat \<Rightarrow> string \<Rightarrow> usize option" where
  "parse_digits acc [] = Some acc"
| "parse_digits acc (c # cs) =
     (case digit_val c of
        None \<Rightarrow> None
      | Some d \<Rightarrow> if acc * 10 + d \<le> usize_max then parse_digits (acc * 10 + d) cs else None)"

definition parse_usize :: "string \<Rightarrow> usize option" where
  "parse_usize s =
     (case s of
        [] \<Rightarrow> None
      | c # cs \<Rightarrow>
          if c = CHR ''+'' then (if cs = [] then None else parse_digits 0 cs)
          else parse_digits 0 (c # cs))"

text \<open>\<open>Display\<close> of an unsigned integer.\<close>

definition digit_char :: "nat \<Rightarrow> char" where
  "digit_char d = char_of (48 + d)"

fun show_usize :: "usize \<Rightarrow> string" where
  "show_usize n =
     (if n < 10 then [digit_char n] else show_usize (n div 10) @ [digit_char (n mod 10)])"

declare show_usize.simps [simp del]

lemma digit_val_char [simp]: "d < 10 \<Longrightarrow> digit_val (digit_char d) = Some d"
  by (simp add: digit_val_def digit_char_def)

lemma digit_val_slash [simp]: "digit_val (CHR ''/'') = None" "digit_val (CHR ''+'') = None"
  by (simp_all add: digit_val_def)

lemma digit_char_neq [simp]:
  "d < 10 \<Longrightarrow> digit_char d \<noteq> CHR ''/''" "d < 10 \<Longrightarrow> digit_char d \<noteq> CHR ''+''"
  by (metis digit_val_char digit_val_slash(1) option.distinct(1),
      metis digit_val_char digit_val_slash(2) option.distinct(1))

lemma show_usize_digits: "\<forall>c \<in> set (show_usize n). \<exists>d<10. c = digit_char d"
proof (induction n rule: show_usize.induct)
  case (1 n)
  show ?case
    using 1 by (cases "n < 10") (auto simp: show_usize.simps[of n] intro: exI[of _ "n mod 10"])
qed

lemma show_usize_ne [simp]: "show_usize n \<noteq> []"
  by (simp add: show_usize.simps[of n])

lemma show_usize_no_slash: "CHR ''/'' \<notin> set (show_usize n)"
  using show_usize_digits[of n] digit_char_neq(1) by metis

lemma parse_digits_append:
  "parse_digits acc (xs @ ys) =
     (case parse_digits acc xs of None \<Rightarrow> None | Some a \<Rightarrow> parse_digits a ys)"
  by (induction xs arbitrary: acc) (auto split: option.split)

lemma parse_digits_show: "n \<le> usize_max \<Longrightarrow> parse_digits 0 (show_usize n) = Some n"
proof (induction n rule: show_usize.induct)
  case (1 n)
  show ?case
  proof (cases "n < 10")
    case True
    with 1 show ?thesis by (simp add: show_usize.simps[of n])
  next
    case False
    with 1 have "parse_digits 0 (show_usize (n div 10)) = Some (n div 10)" by simp
    with False 1 show ?thesis
      by (simp add: show_usize.simps[of n] parse_digits_append)
  qed
qed

lemma parse_show_usize: "n \<le> usize_max \<Longrightarrow> parse_usize (show_usize n) = Some n"
proof -
  assume n: "n \<le> usize_max"
  obtain c cs where s: "show_usize n = c # cs" by (cases "show_usize n") auto
  from show_usize_digits[of n] s have "c \<noteq> CHR ''+''" by (auto simp: digit_char_neq)
  with s parse_digits_show[OF n] show ?thesis by (simp add: parse_usize_def)
qed

lemma split_on_ne [simp]: "split_on c s \<noteq> []"
  by (induction s) (auto split: list.split)

lemma split_on_no: "c \<notin> set s \<Longrightarrow> split_on c s = [s]"
  by (induction s) auto

lemma split_on_append: "c \<notin> set s \<Longrightarrow> split_on c (s @ c # t) = s # split_on c t"
  by (induction s) auto

lemma trim_start_id: "(s \<noteq> [] \<Longrightarrow> hd s \<noteq> c) \<Longrightarrow> trim_start c s = s"
  by (cases s) auto

section \<open>The file protocol\<close>

record fs_stat =
  dev :: nat
  ino :: nat
  st_mode :: "32 word"
  nlink :: nat
  uid :: nat
  gid :: nat
  rdev :: nat
  st_size :: nat
  blksize :: nat
  blocks :: nat
  atime :: nat
  mtime :: nat
  ctime :: nat

text \<open>
  The stat record of the application interface. Its fields keep the values; the widths
  of the C structure are those of the layout that turns the record into bytes, which
  belongs to the interface library (\<open>stat_bytes\<close> of the environment).
\<close>

record linux_stat =
  l_dev :: nat
  l_ino :: nat
  l_mode :: "32 word"
  l_nlink :: nat
  l_uid :: nat
  l_gid :: nat
  l_rdev :: nat
  l_size :: nat
  l_blksize :: nat
  l_blocks :: nat
  l_atime :: nat
  l_atime_nsec :: nat
  l_mtime :: nat
  l_mtime_nsec :: nat
  l_ctime :: nat
  l_ctime_nsec :: nat

definition fs_stat_to_linux_stat :: "fs_stat \<Rightarrow> linux_stat" where
  "fs_stat_to_linux_stat st =
     \<lparr>l_dev = dev st, l_ino = ino st, l_mode = st_mode st, l_nlink = nlink st, l_uid = uid st,
      l_gid = gid st, l_rdev = rdev st, l_size = st_size st, l_blksize = blksize st,
      l_blocks = blocks st, l_atime = atime st, l_atime_nsec = 0, l_mtime = mtime st,
      l_mtime_nsec = 0, l_ctime = ctime st, l_ctime_nsec = 0\<rparr>"

definition make_linux_char_device_stat :: "nat \<Rightarrow> linux_stat" where
  "make_linux_char_device_stat i =
     \<lparr>l_dev = 0, l_ino = i, l_mode = 0x2000 OR 438, l_nlink = 1, l_uid = 0, l_gid = 0, l_rdev = 0,
      l_size = 0, l_blksize = 4096, l_blocks = 0, l_atime = 0, l_atime_nsec = 0, l_mtime = 0,
      l_mtime_nsec = 0, l_ctime = 0, l_ctime_nsec = 0\<rparr>"

text \<open>
  The default stat record and the file-type bits are constants of the protocol
  library; they are parameters of the operations that use them.
\<close>

record fs_proto =
  stat_default :: fs_stat
  s_ifchr :: "32 word"
  s_ifdir :: "32 word"
  s_ifmt :: "32 word"

section \<open>The contract of a file handle\<close>

text \<open>
  A read stores what it returns at the front of the caller's buffer and leaves the
  rest of the buffer alone; a write never claims more bytes than it was given.
\<close>

locale file_handle =
  fixes rd :: "'h \<Rightarrow> usize \<Rightarrow> byte list \<Rightarrow> 's \<Rightarrow> (nat \<times> byte list) res \<times> 's"
    and wr :: "'h \<Rightarrow> usize \<Rightarrow> byte list \<Rightarrow> 's \<Rightarrow> nat res \<times> 's"
  assumes rd_short: "rd h off dst s = (Ok (n, dst'), s') \<Longrightarrow>
      n \<le> length dst \<and> length dst' = length dst \<and> drop n dst' = drop n dst"
    and wr_short: "wr h off src s = (Ok n, s') \<Longrightarrow> n \<le> length src"
begin

lemma rd_rest_untouched:
  assumes "rd h off dst s = (Ok (n, dst'), s')" and "n \<le> i" and "i < length dst"
  shows "dst' ! i = dst ! i"
proof -
  from rd_short[OF assms(1)] assms(2,3)
  have eq: "drop n dst' = drop n dst" and len: "length dst' = length dst" by auto
  from len assms(2,3) have "dst' ! i = drop n dst' ! (i - n)" by simp
  also have "\<dots> = dst ! i" using assms(2,3) by (simp add: eq)
  finally show ?thesis .
qed

lemma rd_empty: "rd h off [] s = (Ok (n, dst'), s') \<Longrightarrow> n = 0 \<and> dst' = []"
  using rd_short by fastforce

lemma rd_splits:
  assumes "rd h off dst s = (Ok (n, dst'), s')"
  shows "dst' = take n dst' @ drop n dst"
  using rd_short[OF assms] by (metis append_take_drop_id)

end

end
