(* ===== verification/Ape_State.thy ===== *)
theory Ape_State
  imports Task_State Tty_Ldisc Vfs_Base
begin

text \<open>
  The manager and its state: the resource ledger, the file-system state and the runtime
  state of \<open>src/src/ape/state.rs\<close>, and the \<open>ApeManager\<close> of
  \<open>src/src/ape/mod.rs\<close> with its helpers. The kernel and the other services
  of the system are not part of the repository: they are the records of operations
  below (\<open>env\<close>), state transformers of an arbitrary world type
  \<open>'w\<close>, and every definition that calls them takes them as an argument.
  A system call runs to its end before the next one starts (one dispatcher thread), so a
  handler is one state transformer.
\<close>

section \<open>The resource ledger\<close>

record ape_process_ledger =
  alloc_frames :: usize
  free_frames :: usize
  alloc_pages :: usize
  free_pages :: usize
  alloc_pagetables :: usize
  free_pagetables :: usize
  fd_opened :: usize
  fd_closed :: usize
  async_regions_allocated :: usize
  async_regions_reused :: usize
  peak_live_frames :: usize
  live_frames :: "capptr set"
  live_pagetables :: "capptr set"

definition ledger_default :: ape_process_ledger where
  "ledger_default =
     \<lparr>alloc_frames = 0, free_frames = 0, alloc_pages = 0, free_pages = 0, alloc_pagetables = 0,
      free_pagetables = 0, fd_opened = 0, fd_closed = 0, async_regions_allocated = 0,
      async_regions_reused = 0, peak_live_frames = 0, live_frames = {}, live_pagetables = {}\<rparr>"

type_synonym ape_resource_ledger = "(usize, ape_process_ledger) btree"

definition touch_peak :: "ape_process_ledger \<Rightarrow> ape_process_ledger" where
  "touch_peak l = l\<lparr>peak_live_frames := max (peak_live_frames l) (card (live_frames l))\<rparr>"

definition process_mut ::
  "usize \<Rightarrow> (ape_process_ledger \<Rightarrow> ape_process_ledger) \<Rightarrow> ape_resource_ledger \<Rightarrow> ape_resource_ledger" where
  "process_mut p f = bt_entry p ledger_default f"

definition record_frame_alloc :: "usize \<Rightarrow> capptr \<Rightarrow> usize \<Rightarrow> ape_resource_ledger \<Rightarrow> ape_resource_ledger" where
  "record_frame_alloc p slot pages = process_mut p (\<lambda>l. touch_peak (l\<lparr>
     alloc_frames := wrap_add (alloc_frames l) 1, alloc_pages := sat_add (alloc_pages l) pages,
     live_frames := insert slot (live_frames l)\<rparr>))"

definition record_frame_free :: "usize \<Rightarrow> capptr \<Rightarrow> usize \<Rightarrow> ape_resource_ledger \<Rightarrow> ape_resource_ledger" where
  "record_frame_free p slot pages = process_mut p (\<lambda>l. l\<lparr>
     free_frames := wrap_add (free_frames l) 1, free_pages := sat_add (free_pages l) pages,
     live_frames := live_frames l - {slot}\<rparr>)"

definition record_pagetable_alloc :: "usize \<Rightarrow> capptr \<Rightarrow> ape_resource_ledger \<Rightarrow> ape_resource_ledger" where
  "record_pagetable_alloc p slot = process_mut p (\<lambda>l. l\<lparr>
     alloc_pagetables := wrap_add (alloc_pagetables l) 1,
     live_pagetables := insert slot (live_pagetables l)\<rparr>)"

definition record_pagetable_free :: "usize \<Rightarrow> capptr \<Rightarrow> ape_resource_ledger \<Rightarrow> ape_resource_ledger" where
  "record_pagetable_free p slot = process_mut p (\<lambda>l. l\<lparr>
     free_pagetables := wrap_add (free_pagetables l) 1,
     live_pagetables := live_pagetables l - {slot}\<rparr>)"

definition record_fd_open :: "usize \<Rightarrow> ape_resource_ledger \<Rightarrow> ape_resource_ledger" where
  "record_fd_open p = process_mut p (\<lambda>l. l\<lparr>fd_opened := wrap_add (fd_opened l) 1\<rparr>)"

definition record_fd_close :: "usize \<Rightarrow> ape_resource_ledger \<Rightarrow> ape_resource_ledger" where
  "record_fd_close p = process_mut p (\<lambda>l. l\<lparr>fd_closed := wrap_add (fd_closed l) 1\<rparr>)"

definition record_async_region_allocated :: "usize \<Rightarrow> ape_resource_ledger \<Rightarrow> ape_resource_ledger" where
  "record_async_region_allocated p =
     process_mut p (\<lambda>l. l\<lparr>async_regions_allocated := wrap_add (async_regions_allocated l) 1\<rparr>)"

definition record_async_region_reused :: "usize \<Rightarrow> ape_resource_ledger \<Rightarrow> ape_resource_ledger" where
  "record_async_region_reused p =
     process_mut p (\<lambda>l. l\<lparr>async_regions_reused := wrap_add (async_regions_reused l) 1\<rparr>)"

definition take_process :: "usize \<Rightarrow> ape_resource_ledger \<Rightarrow> ape_process_ledger \<times> ape_resource_ledger" where
  "take_process p led =
     ((case bt_get led p of Some l \<Rightarrow> l | None \<Rightarrow> ledger_default), bt_remove p led)"

section \<open>The file-system state\<close>

record async_io_region =
  reg_id :: usize
  reg_frame_slot :: capptr
  reg_vaddr :: usize
  reg_size :: usize

record ape_fs_state =
  async_regions :: "async_io_region list"
  async_free :: "usize list"
  next_async_vaddr :: usize
  next_handle_badge :: usize
  iouring_supported :: "bool option"
  dev_vfs_endpoint :: "capptr option"
  tmp_vfs_endpoint :: "capptr option"
  pipe_vfs_endpoint :: "capptr option"

definition ape_fs_state_new :: "usize \<Rightarrow> usize \<Rightarrow> ape_fs_state" where
  "ape_fs_state_new vaddr badge =
     \<lparr>async_regions = [], async_free = [], next_async_vaddr = vaddr, next_handle_badge = badge,
      iouring_supported = None, dev_vfs_endpoint = None, tmp_vfs_endpoint = None,
      pipe_vfs_endpoint = None\<rparr>"

definition should_try_iouring :: "ape_fs_state \<Rightarrow> bool" where
  "should_try_iouring f = (iouring_supported f \<noteq> Some False)"

definition mark_iouring_supported :: "ape_fs_state \<Rightarrow> ape_fs_state" where
  "mark_iouring_supported f = f\<lparr>iouring_supported := Some True\<rparr>"

definition mark_iouring_unsupported :: "ape_fs_state \<Rightarrow> ape_fs_state" where
  "mark_iouring_unsupported f = f\<lparr>iouring_supported := Some False\<rparr>"

definition take_next_handle_badge :: "ape_fs_state \<Rightarrow> usize \<times> ape_fs_state" where
  "take_next_handle_badge f =
     (next_handle_badge f, f\<lparr>next_handle_badge := wrap_add (next_handle_badge f) 1\<rparr>)"

text \<open>\<open>pop\<close> takes the last free identifier, also when it names no region.\<close>

definition try_reuse_region :: "ape_fs_state \<Rightarrow> async_io_region option \<times> ape_fs_state" where
  "try_reuse_region f =
     (if async_free f = [] then (None, f)
      else
        let i = last (async_free f) in
        (if i < length (async_regions f) then Some (async_regions f ! i) else None,
         f\<lparr>async_free := butlast (async_free f)\<rparr>))"

definition region_count :: "ape_fs_state \<Rightarrow> usize" where
  "region_count f = length (async_regions f)"

definition reserve_async_vaddr :: "usize \<Rightarrow> ape_fs_state \<Rightarrow> usize option \<times> ape_fs_state" where
  "reserve_async_vaddr sz f =
     (case checked_add (next_async_vaddr f) sz of
        None \<Rightarrow> (None, f)
      | Some n \<Rightarrow> (Some (next_async_vaddr f), f\<lparr>next_async_vaddr := n\<rparr>))"

definition push_region :: "async_io_region \<Rightarrow> ape_fs_state \<Rightarrow> ape_fs_state" where
  "push_region r f = f\<lparr>async_regions := async_regions f @ [r]\<rparr>"

definition recycle_region :: "usize \<Rightarrow> ape_fs_state \<Rightarrow> ape_fs_state" where
  "recycle_region i f =
     (if i < length (async_regions f) \<and> i \<notin> set (async_free f)
      then f\<lparr>async_free := async_free f @ [i]\<rparr> else f)"

section \<open>Runtime and service state\<close>

record ape_stdio_config =
  vt_name :: string
  seat_id :: usize
  devices :: "string list"

record ape_config =
  init_path :: string
  root_partition :: string
  stdio :: ape_stdio_config

definition ape_stdio_config_default :: ape_stdio_config where
  "ape_stdio_config_default = \<lparr>vt_name = ''vt0'', seat_id = 0, devices = [''uart0'']\<rparr>"

definition ape_config_default :: ape_config where
  "ape_config_default =
     \<lparr>init_path = ''/bin/sh'', root_partition = ''disk0p0'', stdio = ape_stdio_config_default\<rparr>"

record 'p ape_runtime_state =
  config :: ape_config
  stdio_term :: "capptr option"
  tty_registry :: "'p tty_registry"

definition ape_runtime_state_new :: "ape_config \<Rightarrow> 'p ape_runtime_state" where
  "ape_runtime_state_new c = \<lparr>config = c, stdio_term = None, tty_registry = tty_registry_new\<rparr>"

record pending_sleep_reply =
  ps_reply_slot :: capptr
  ps_rem_ptr :: usize
  ps_deadline_ns :: usize
  ps_request_id :: usize

record sleep_completion =
  sc_pid :: usize
  sc_request_id :: usize

datatype ape_async_event = Sleep sleep_completion

text \<open>The completion channel is the queue of the events that were sent and not received.\<close>

record ape_async_runtime =
  completion_queue :: "ape_async_event list"
  next_request_id :: usize
  pending_sleep_replies :: "(usize, pending_sleep_reply) btree"

record ape_ipc =
  running :: bool
  endpoint :: capptr
  recv :: capptr
  reply :: capptr
  active_caller_pid :: "usize option"

record ('i, 'p, 'w) ape =
  ipc :: ape_ipc
  async_runtime :: "ape_async_runtime option"
  ts :: "'i ape_task_state"
  runtime :: "'p ape_runtime_state"
  fs_sub :: ape_fs_state
  resources :: ape_resource_ledger
  world :: 'w

type_synonym ('i, 'p, 'w, 'a) ape_prog = "('i, 'p, 'w) ape \<Rightarrow> 'a res \<times> ('i, 'p, 'w) ape"

section \<open>The kernel and the other services\<close>

datatype cap_type = CapPage | CapPageTable | CapEndpoint

record 'w cap_env =
  cspace_alloc :: "('w, capptr) prog"
  cspace_free :: "capptr \<Rightarrow> 'w \<Rightarrow> 'w"
  cap_delete :: "capptr \<Rightarrow> ('w, unit) prog"
  cap_revoke :: "capptr \<Rightarrow> ('w, unit) prog"
  cap_transfer_self :: "capptr \<Rightarrow> capptr \<Rightarrow> ('w, unit) prog"
  cap_mint :: "capptr \<Rightarrow> capptr \<Rightarrow> capptr \<Rightarrow> usize \<Rightarrow> ('w, unit) prog"
  cap_concat :: "capptr \<Rightarrow> capptr \<Rightarrow> capptr"
  res_alloc :: "cap_type \<Rightarrow> usize \<Rightarrow> capptr \<Rightarrow> ('w, unit) prog"
  res_free :: "capptr \<Rightarrow> ('w, unit) prog"
  page_pages_to_level :: "usize \<Rightarrow> usize option"

record 'w vm_env =
  vs_map_table :: "capptr \<Rightarrow> capptr \<Rightarrow> usize \<Rightarrow> usize \<Rightarrow> ('w, unit) prog"
  vs_map :: "capptr \<Rightarrow> capptr \<Rightarrow> usize \<Rightarrow> perms \<Rightarrow> usize \<Rightarrow> ('w, unit) prog"
  vs_unmap :: "capptr \<Rightarrow> usize \<Rightarrow> usize \<Rightarrow> ('w, unit) prog"
  vm_map_page :: "capptr \<Rightarrow> usize \<Rightarrow> perms \<Rightarrow> usize \<Rightarrow> ('w, unit) prog"
  vm_map_scratch :: "capptr \<Rightarrow> perms \<Rightarrow> usize \<Rightarrow> ('w, usize) prog"
  vm_unmap :: "usize \<Rightarrow> usize \<Rightarrow> ('w, unit) prog"
  mem_load :: "usize \<Rightarrow> usize \<Rightarrow> 'w \<Rightarrow> byte list"
  mem_store :: "usize \<Rightarrow> byte list \<Rightarrow> 'w \<Rightarrow> 'w"

record ('i, 'w) proc_env =
  tcb_suspend :: "capptr \<Rightarrow> ('w, unit) prog"
  tcb_resume :: "capptr \<Rightarrow> ('w, unit) prog"
  tcb_deliver_upcall :: "capptr \<Rightarrow> usize \<Rightarrow> usize \<Rightarrow> ('w, unit) prog"
  tcb_set_fault_handler :: "capptr \<Rightarrow> capptr \<Rightarrow> ('w, unit) prog"
  tcb_set_entrypoint :: "capptr \<Rightarrow> usize \<Rightarrow> usize \<Rightarrow> usize \<Rightarrow> ('w, unit) prog"
  tcb_fork_from :: "capptr \<Rightarrow> capptr \<Rightarrow> ('w, unit) prog"
  proc_kill :: "usize \<Rightarrow> ('w, unit) prog"
  proc_create :: "string \<Rightarrow> ('w, usize) prog"
  proc_get_cnode :: "usize \<Rightarrow> capptr \<Rightarrow> ('w, capptr) prog"
  auth_set_identity :: "usize \<Rightarrow> 'i \<Rightarrow> ('w, unit) prog"
  auth_get_identity :: "usize \<Rightarrow> ('w, 'i) prog"
  identity_default :: 'i
  identity_uid :: "'i \<Rightarrow> nat"
  identity_euid :: "'i \<Rightarrow> nat"
  identity_gid :: "'i \<Rightarrow> nat"
  identity_egid :: "'i \<Rightarrow> nat"
  reply_send :: "capptr \<Rightarrow> int \<Rightarrow> ('w, unit) prog"
  mono_now :: "('w, usize) prog"
  time_now :: "('w, usize) prog"
  time_sleep :: "usize \<Rightarrow> ('w, unit) prog"
  executor_spawn_sleep :: "usize \<Rightarrow> usize \<Rightarrow> usize \<Rightarrow> 'w \<Rightarrow> 'w"
  threadpool_build :: "(usize \<times> capptr) list \<Rightarrow> ('w, unit) prog"

record dirent =
  d_ino :: usize
  d_off :: int
  d_type :: byte
  d_name :: "byte list"

record 'w fs_env =
  fs_endpoint :: capptr
  fs_open :: "capptr \<Rightarrow> string \<Rightarrow> usize \<Rightarrow> usize \<Rightarrow> capptr \<Rightarrow> ('w, unit) prog"
  fs_close :: "capptr \<Rightarrow> ('w, unit) prog"
  fs_setup_iouring :: "capptr \<Rightarrow> usize \<Rightarrow> usize \<Rightarrow> capptr \<Rightarrow> ('w, unit) prog"
  fs_map_pages :: "capptr \<Rightarrow> usize \<Rightarrow> usize \<Rightarrow> capptr \<Rightarrow> ('w, usize) prog"
  fs_read :: "capptr \<Rightarrow> usize \<Rightarrow> usize \<Rightarrow> ('w, byte list) prog"
  fs_write :: "capptr \<Rightarrow> usize \<Rightarrow> byte list \<Rightarrow> ('w, usize) prog"
  fs_fstat :: "capptr \<Rightarrow> ('w, fs_stat) prog"
  fs_getdents :: "capptr \<Rightarrow> usize \<Rightarrow> ('w, dirent list) prog"
  fs_ioctl_ex :: "capptr \<Rightarrow> 32 word \<Rightarrow> usize \<Rightarrow> byte list option \<Rightarrow> usize \<Rightarrow> ('w, usize \<times> byte list) prog"
  fs_poll :: "capptr \<Rightarrow> 32 word \<Rightarrow> ('w, 32 word) prog"
  pipe_create_call :: "capptr \<Rightarrow> ('w, usize) prog"

record 'w path_env =
  path_stat :: "string \<Rightarrow> ('w, fs_stat) prog"
  path_lstat :: "string \<Rightarrow> ('w, fs_stat) prog"
  path_readlink :: "string \<Rightarrow> ('w, string) prog"
  path_mkdir :: "string \<Rightarrow> nat \<Rightarrow> ('w, unit) prog"
  path_unlink :: "string \<Rightarrow> ('w, unit) prog"
  path_link :: "string \<Rightarrow> string \<Rightarrow> ('w, unit) prog"
  path_mount :: "string \<Rightarrow> capptr \<Rightarrow> ('w, unit) prog"
  path_unmount :: "string \<Rightarrow> ('w, unit) prog"
  vol_mount_partition :: "string \<Rightarrow> capptr \<Rightarrow> ('w, capptr) prog"

text \<open>The classes of futex operations and the system calls that the dispatcher names.\<close>

datatype futex_op_class = FutexWake | FutexWait | FutexOther

datatype ape_syscall =
    SysDup | SysDup3 | SysRead | SysWrite | SysReadv | SysWritev | SysOpenAt | SysReadlinkAt
  | SysNewFstatAt | SysFstat | SysGetdents64 | SysMkdirAt | SysUnlinkAt | SysLinkAt | SysUtimensat
  | SysMount | SysUmount2 | SysPipe2 | SysClose | SysGetCwd | SysChdir | SysFchdir | SysChroot
  | SysExit | SysExitGroup | SysUname | SysGetPid | SysGetTid | SysGetPpid | SysSetTidAddress
  | SysBrk | SysMmap | SysMprotect | SysMunmap | SysMremap | SysLseek | SysFcntl | SysIoctl
  | SysExecve | SysRtSigaction | SysRtSigsuspend | SysRtSigprocmask | SysRtSigpending
  | SysRtSigtimedwait | SysRtSigreturn | SysPrlimit64 | SysClockGettime | SysGettimeofday | SysTimes
  | SysNanosleep | SysPpoll | SysGetrandom | SysGetuid | SysGeteuid | SysGetgid | SysGetegid
  | SysClone | SysWait4 | SysSetsid | SysGetsid | SysSetpgid | SysGetpgid | SysKill | SysReboot
  | SysSchedYield | SysPrctl | SysFutex | SysUnsupported | SysStubBypass | SysStubKill | SysStubOpen
  | SysStubNOMSG | SysStubSRCH | SysStubFAULT | SysStubINVAL | SysStubBADF | SysStubPERM | SysOther

record lib_env =
  resolve_path :: "string \<Rightarrow> string \<Rightarrow> string \<Rightarrow> string"
  path_inside_root :: "string \<Rightarrow> string \<Rightarrow> string option"
  map_error_to_errno :: "error \<Rightarrow> int"
  open_flags_from_bits :: "usize \<Rightarrow> usize"
  OPEN_RDONLY :: usize
  OPEN_WRONLY :: usize
  VSPACE_SLOT :: capptr
  TCB_SLOT :: capptr
  TRAMPOLINE_VA :: usize
  utcb_va0 :: usize
  trapframe_va0 :: usize
  proto :: fs_proto
  stat_bytes :: "linux_stat \<Rightarrow> byte list"
  uts_names :: "string list"
  classify_futex_op :: "usize \<Rightarrow> futex_op_class"
  decode_ape_syscall :: "usize \<Rightarrow> ape_syscall"

record ('i, 'w) env =
  mp :: mem_params
  caps :: "'w cap_env"
  vm :: "'w vm_env"
  procs :: "('i, 'w) proc_env"
  fss :: "'w fs_env"
  paths :: "'w path_env"
  lib :: lib_env

text \<open>A call of another service changes the world only.\<close>

definition ext :: "('w, 'a) prog \<Rightarrow> ('i, 'p, 'w, 'a) ape_prog" where
  [monad_simps]: "ext m s = (let (r, w) = m (world s) in (r, s\<lparr>world := w\<rparr>))"

definition ext_do :: "('w \<Rightarrow> 'w) \<Rightarrow> ('i, 'p, 'w, unit) ape_prog" where
  [monad_simps]: "ext_do f s = (Ok (), s\<lparr>world := f (world s)\<rparr>)"

section \<open>Access to the parts of the state\<close>

definition upd_ts :: "('i ape_task_state \<Rightarrow> 'i ape_task_state) \<Rightarrow> ('i, 'p, 'w) ape \<Rightarrow> ('i, 'p, 'w) ape" where
  "upd_ts f s = s\<lparr>ts := f (ts s)\<rparr>"

definition upd_fs_sub :: "(ape_fs_state \<Rightarrow> ape_fs_state) \<Rightarrow> ('i, 'p, 'w) ape \<Rightarrow> ('i, 'p, 'w) ape" where
  "upd_fs_sub f s = s\<lparr>fs_sub := f (fs_sub s)\<rparr>"

definition upd_resources ::
  "(ape_resource_ledger \<Rightarrow> ape_resource_ledger) \<Rightarrow> ('i, 'p, 'w) ape \<Rightarrow> ('i, 'p, 'w) ape" where
  "upd_resources f s = s\<lparr>resources := f (resources s)\<rparr>"

text \<open>Assignments through the reference of a live task.\<close>

definition upd_task :: "usize \<Rightarrow> ('i task_struct \<Rightarrow> 'i task_struct) \<Rightarrow> ('i, 'p, 'w) ape \<Rightarrow> ('i, 'p, 'w) ape" where
  "upd_task p f = upd_ts (\<lambda>t. t\<lparr>tasks := bt_alter p f (tasks t)\<rparr>)"

definition get_process :: "('i, 'p, 'w) ape \<Rightarrow> usize \<Rightarrow> 'i task_struct option" where
  "get_process s p = process (ts s) p"

text \<open>\<open>get_process(pid).ok_or(e)?\<close>\<close>

definition task_or :: "error \<Rightarrow> usize \<Rightarrow> ('i, 'p, 'w, 'i task_struct) ape_prog" where
  [monad_simps]: "task_or e p s = (ok_or (get_process s p) e, s)"

end
