(* ===== verification/Manager.thy ===== *)
theory Manager
  imports Ape_State
begin

text \<open>
  The operations of \<open>ApeManager\<close> in \<open>src/src/ape/mod.rs\<close>:
  registration of processes, the wrappers of the table of processes, release of frame
  slots through the shared counters, deferred replies, and the pool of regions for
  asynchronous I/O.
\<close>

section \<open>Programs and the parts of the state they leave alone\<close>

lemma keeps_ext: "(\<And>s w. P s \<Longrightarrow> P (s\<lparr>world := w\<rparr>)) \<Longrightarrow> keeps P (ext m)"
  by (auto simp: keeps_def ext_def Let_def split: prod.split)

lemma keeps_ext_do: "(\<And>s w. P s \<Longrightarrow> P (s\<lparr>world := w\<rparr>)) \<Longrightarrow> keeps P (ext_do f)"
  by (auto simp: keeps_def ext_do_def)

lemma keeps_task_or [keeps_intro]: "keeps P (task_or e p)"
  by (simp add: keeps_def task_or_def)

lemma get_process_world [simp]: "get_process (s\<lparr>world := w\<rparr>) p = get_process s p"
  by (simp add: get_process_def)

lemma get_process_upd_task [simp]:
  "get_process (upd_task p f s) q = (if q = p then map_option f (get_process s p) else get_process s q)"
  by (simp add: get_process_def upd_task_def upd_ts_def process_def)

lemma get_process_upd_fs_sub [simp]: "get_process (upd_fs_sub f s) p = get_process s p"
  and get_process_upd_resources [simp]: "get_process (upd_resources g s) p = get_process s p"
  by (simp_all add: get_process_def upd_fs_sub_def upd_resources_def)

lemma ext_Ok [ok_iff]:
  "ext m s = (Ok x, s') \<longleftrightarrow> (\<exists>w. m (world s) = (Ok x, w) \<and> s' = s\<lparr>world := w\<rparr>)"
  by (auto simp: ext_def Let_def split: prod.split)

lemma ext_Err [ok_iff]:
  "ext m s = (Err e, s') \<longleftrightarrow> (\<exists>w. m (world s) = (Err e, w) \<and> s' = s\<lparr>world := w\<rparr>)"
  by (auto simp: ext_def Let_def split: prod.split)

lemma ext_do_Ok [ok_iff]: "ext_do f s = (Ok u, s') \<longleftrightarrow> s' = s\<lparr>world := f (world s)\<rparr>"
  by (auto simp: ext_do_def)

lemma task_or_Ok [ok_iff]:
  "task_or e p s = (Ok t, s') \<longleftrightarrow> get_process s p = Some t \<and> s' = s"
  by (auto simp: task_or_def)

lemma ts_upd_task [simp]: "ts (upd_task p f s) = (ts s)\<lparr>tasks := bt_alter p f (tasks (ts s))\<rparr>"
  and upd_task_others [simp]:
    "ipc (upd_task p f s) = ipc s" "async_runtime (upd_task p f s) = async_runtime s"
    "runtime (upd_task p f s) = runtime s" "fs_sub (upd_task p f s) = fs_sub s"
    "resources (upd_task p f s) = resources s" "world (upd_task p f s) = world s"
  by (simp_all add: upd_task_def upd_ts_def)

lemma ts_upd_ts [simp]: "ts (upd_ts f s) = f (ts s)"
  and upd_ts_others [simp]:
    "ipc (upd_ts f s) = ipc s" "async_runtime (upd_ts f s) = async_runtime s"
    "runtime (upd_ts f s) = runtime s" "fs_sub (upd_ts f s) = fs_sub s"
    "resources (upd_ts f s) = resources s" "world (upd_ts f s) = world s"
  by (simp_all add: upd_ts_def)

lemma upd_resources_others [simp]:
  "ts (upd_resources g s) = ts s" "ipc (upd_resources g s) = ipc s"
  "async_runtime (upd_resources g s) = async_runtime s" "runtime (upd_resources g s) = runtime s"
  "fs_sub (upd_resources g s) = fs_sub s" "world (upd_resources g s) = world s"
  by (simp_all add: upd_resources_def)

lemma upd_fs_sub_others [simp]:
  "ts (upd_fs_sub h s) = ts s" "ipc (upd_fs_sub h s) = ipc s"
  "async_runtime (upd_fs_sub h s) = async_runtime s" "runtime (upd_fs_sub h s) = runtime s"
  "resources (upd_fs_sub h s) = resources s" "world (upd_fs_sub h s) = world s"
  "fs_sub (upd_fs_sub h s) = h (fs_sub s)"
  by (simp_all add: upd_fs_sub_def)

section \<open>Layout\<close>

definition FS_ASYNC_POOL_BASE_VADDR :: usize where "FS_ASYNC_POOL_BASE_VADDR = 0x58000000"
definition FS_ASYNC_POOL_MAX_REGIONS :: usize where "FS_ASYNC_POOL_MAX_REGIONS = 64"
definition APE_SLOT :: capptr where "APE_SLOT = 11"
definition FS_ASYNC_RING_SIZE :: usize where "FS_ASYNC_RING_SIZE = 4096"
definition FS_ASYNC_DATA_OFFSET :: usize where "FS_ASYNC_DATA_OFFSET = FS_ASYNC_RING_SIZE"

section \<open>Creation and registration\<close>

definition ape_new :: "'w \<Rightarrow> ('i, 'p, 'w) ape" where
  "ape_new w =
     \<lparr>ipc = \<lparr>running = False, endpoint = 0, recv = 0, reply = 0, active_caller_pid = None\<rparr>,
      async_runtime = None, ts = ape_task_state_new 1,
      runtime = ape_runtime_state_new ape_config_default,
      fs_sub = ape_fs_state_new FS_ASYNC_POOL_BASE_VADDR 0x10000, resources = [], world = w\<rparr>"

definition seed_paths :: "('i, 'w) env \<Rightarrow> (nat \<times> usize) list" where
  "seed_paths E =
     concat (map (\<lambda>v. map (\<lambda>level. (level, drop_bit (SHIFTS (mp E) ! level) v))
                       (rev [1..<length (SHIFTS (mp E))]))
       [TRAMPOLINE_VA (lib E), utcb_va0 (lib E), trapframe_va0 (lib E)])"

definition seed_initial_pagetable_paths :: "('i, 'w) env \<Rightarrow> 'i task_struct \<Rightarrow> 'i task_struct" where
  "seed_initial_pagetable_paths E =
     upd_mem (fold (\<lambda>(level, prefix). record_intermediate_page_table level prefix 0) (seed_paths E))"

definition ledger_take_process :: "usize \<Rightarrow> ('i, 'p, 'w, ape_process_ledger) ape_prog" where
  "ledger_take_process p s =
     (let (l, led) = take_process p (resources s) in (Ok l, s\<lparr>resources := led\<rparr>))"

definition new_task :: "('i, 'w) env \<Rightarrow> usize \<Rightarrow> usize \<Rightarrow> capptr \<Rightarrow> 'i task_struct" where
  "new_task E p parent cnode =
     seed_initial_pagetable_paths E
       (task_struct_new p parent (cap_concat (caps E) cnode (TCB_SLOT (lib E))) cnode
          (mm_struct_new (mp E) (cap_concat (caps E) cnode (VSPACE_SLOT (lib E))))
          files_struct_new fs_struct_new [] signal_struct_new (identity_default (procs E)))"

definition register_process :: "('i, 'w) env \<Rightarrow> usize \<Rightarrow> usize \<Rightarrow> capptr \<Rightarrow> ('i, 'p, 'w, usize) ape_prog" where
  "register_process E parent host cnode =
     andThen (\<lambda>s. let (p, t) = alloc_pid (ts s) in (Ok p, s\<lparr>ts := t\<rparr>)) (\<lambda>p.
     andThen (gets (\<lambda>s. endpoint (ipc s))) (\<lambda>ep.
     andThen (ignore (ext (cap_mint (caps E) ep cnode APE_SLOT p))) (\<lambda>_.
     andThen (modify (upd_ts (ts_register_process p host (new_task E p parent cnode)))) (\<lambda>_.
     andThen (ledger_take_process p) (\<lambda>_.
     andThen (ignore (ext (auth_set_identity (procs E) p (identity_default (procs E))))) (\<lambda>_.
     ret p))))))"

definition resolve_path_for_process :: "('i, 'w) env \<Rightarrow> usize \<Rightarrow> string \<Rightarrow> ('i, 'p, 'w, string) ape_prog" where
  "resolve_path_for_process E p raw =
     andThen (task_or NotFound p) (\<lambda>t.
     ret (resolve_path (lib E) raw (root_dir (task_fs t)) (cwd (task_fs t))))"

section \<open>Wrappers of the table of processes\<close>

definition local_pids :: "('i, 'p, 'w) ape \<Rightarrow> usize list" where
  "local_pids s = list_pids (ts s)"

definition record_child_exit :: "usize \<Rightarrow> usize \<Rightarrow> int \<Rightarrow> usize \<Rightarrow> ('i, 'p, 'w) ape \<Rightarrow> ('i, 'p, 'w) ape" where
  "record_child_exit parent child status pgid = upd_ts (ts_record_child_exit parent child status pgid)"

definition record_child_stopped :: "usize \<Rightarrow> usize \<Rightarrow> int \<Rightarrow> usize \<Rightarrow> ('i, 'p, 'w) ape \<Rightarrow> ('i, 'p, 'w) ape" where
  "record_child_stopped parent child status pgid =
     upd_ts (ts_record_child_stopped parent child status pgid)"

definition record_child_continued :: "usize \<Rightarrow> usize \<Rightarrow> usize \<Rightarrow> ('i, 'p, 'w) ape \<Rightarrow> ('i, 'p, 'w) ape" where
  "record_child_continued parent child pgid = upd_ts (ts_record_child_continued parent child pgid)"

definition has_waitable_child :: "('i, 'p, 'w) ape \<Rightarrow> usize \<Rightarrow> int \<Rightarrow> 64 word \<Rightarrow> usize \<Rightarrow> bool" where
  "has_waitable_child s parent target options pgid =
     (has_live_child_matching (ts s) parent target pgid \<or>
      has_child_event_matching (ts s) parent target options pgid)"

definition pop_waitable_child_event ::
  "usize \<Rightarrow> int \<Rightarrow> 64 word \<Rightarrow> usize \<Rightarrow> ('i, 'p, 'w, (usize \<times> int) option) ape_prog" where
  "pop_waitable_child_event parent target options pgid s =
     (let (r, t) = pop_child_event_matching parent target options pgid (ts s)
      in (Ok r, s\<lparr>ts := t\<rparr>))"

definition host_pid_by_local :: "('i, 'p, 'w) ape \<Rightarrow> usize \<Rightarrow> usize option" where
  "host_pid_by_local s p = ts_host_pid_by_local (ts s) p"

definition remove_host_pid_mapping :: "usize \<Rightarrow> ('i, 'p, 'w) ape \<Rightarrow> ('i, 'p, 'w) ape" where
  "remove_host_pid_mapping host = upd_ts (remove_host_pid host)"

definition remove_process_record :: "usize \<Rightarrow> ('i, 'p, 'w) ape \<Rightarrow> ('i, 'p, 'w) ape" where
  "remove_process_record p = upd_ts (remove_process p)"

definition set_process_lifecycle_state :: "usize \<Rightarrow> task_lifecycle_state \<Rightarrow> ('i, 'p, 'w) ape \<Rightarrow> ('i, 'p, 'w) ape" where
  "set_process_lifecycle_state p st = upd_ts (ts_set_process_lifecycle_state p st)"

definition mark_process_exited_snapshot :: "usize \<Rightarrow> usize \<Rightarrow> usize \<Rightarrow> int \<Rightarrow> ('i, 'p, 'w) ape \<Rightarrow> ('i, 'p, 'w) ape" where
  "mark_process_exited_snapshot p parent pgid status = upd_ts (mark_process_exited p parent pgid status)"

definition clear_process_lifecycle_snapshot :: "usize \<Rightarrow> ('i, 'p, 'w) ape \<Rightarrow> ('i, 'p, 'w) ape" where
  "clear_process_lifecycle_snapshot p = upd_ts (clear_process_lifecycle p)"

definition set_active_caller_pid :: "usize \<Rightarrow> ('i, 'p, 'w) ape \<Rightarrow> ('i, 'p, 'w) ape" where
  "set_active_caller_pid p s = s\<lparr>ipc := (ipc s)\<lparr>active_caller_pid := Some p\<rparr>\<rparr>"

definition clear_active_caller_pid :: "('i, 'p, 'w) ape \<Rightarrow> ('i, 'p, 'w) ape" where
  "clear_active_caller_pid s = s\<lparr>ipc := (ipc s)\<lparr>active_caller_pid := None\<rparr>\<rparr>"

section \<open>Frame slots\<close>

definition ledger_record_frame_alloc :: "usize \<Rightarrow> capptr \<Rightarrow> usize \<Rightarrow> ('i, 'p, 'w) ape \<Rightarrow> ('i, 'p, 'w) ape" where
  "ledger_record_frame_alloc p slot pages = upd_resources (record_frame_alloc p slot pages)"

definition ledger_record_frame_free :: "usize \<Rightarrow> capptr \<Rightarrow> usize \<Rightarrow> ('i, 'p, 'w) ape \<Rightarrow> ('i, 'p, 'w) ape" where
  "ledger_record_frame_free p slot pages = upd_resources (record_frame_free p slot pages)"

definition ledger_record_pagetable_alloc :: "usize \<Rightarrow> capptr \<Rightarrow> ('i, 'p, 'w) ape \<Rightarrow> ('i, 'p, 'w) ape" where
  "ledger_record_pagetable_alloc p slot = upd_resources (record_pagetable_alloc p slot)"

definition ledger_record_pagetable_free :: "usize \<Rightarrow> capptr \<Rightarrow> ('i, 'p, 'w) ape \<Rightarrow> ('i, 'p, 'w) ape" where
  "ledger_record_pagetable_free p slot = upd_resources (record_pagetable_free p slot)"

definition ledger_record_fd_open :: "usize \<Rightarrow> ('i, 'p, 'w) ape \<Rightarrow> ('i, 'p, 'w) ape" where
  "ledger_record_fd_open p = upd_resources (record_fd_open p)"

definition ledger_record_fd_close :: "usize \<Rightarrow> ('i, 'p, 'w) ape \<Rightarrow> ('i, 'p, 'w) ape" where
  "ledger_record_fd_close p = upd_resources (record_fd_close p)"

definition release_shared_frame_cap :: "capptr \<Rightarrow> ('i, 'p, 'w, bool) ape_prog" where
  "release_shared_frame_cap slot s =
     (let (b, t) = release_frame_cap slot (ts s) in (Ok b, s\<lparr>ts := t\<rparr>))"

definition retain_shared_frame_cap :: "capptr \<Rightarrow> ('i, 'p, 'w) ape \<Rightarrow> ('i, 'p, 'w) ape" where
  "retain_shared_frame_cap slot = upd_ts (retain_frame_cap slot)"

definition release_process_frame_slot ::
  "('i, 'w) env \<Rightarrow> usize \<Rightarrow> capptr \<Rightarrow> usize \<Rightarrow> ('i, 'p, 'w, unit) ape_prog" where
  "release_process_frame_slot E p slot pages =
     andThen (release_shared_frame_cap slot) (\<lambda>last.
     whenM last (
       andThen (ignore (ext (res_free (caps E) slot))) (\<lambda>_.
       andThen (ignore (ext (cap_delete (caps E) slot))) (\<lambda>_.
       andThen (ext_do (cspace_free (caps E) slot)) (\<lambda>_.
       modify (ledger_record_frame_free p slot pages))))))"

section \<open>Deferred replies\<close>

text \<open>The loop gives up at the sixty-fifth slot that equals the fixed reply slot.\<close>

fun reserve_slot_loop :: "nat \<Rightarrow> ('i, 'w) env \<Rightarrow> capptr \<Rightarrow> ('i, 'p, 'w, capptr) ape_prog" where
  "reserve_slot_loop 0 E src = throw OutOfMemory"
| "reserve_slot_loop (Suc n) E src =
     andThen (ext (cspace_alloc (caps E))) (\<lambda>slot.
     if slot = src then andThen (ext_do (cspace_free (caps E) slot)) (\<lambda>_. reserve_slot_loop n E src)
     else ret slot)"

definition reserve_pending_reply_slot :: "('i, 'w) env \<Rightarrow> ('i, 'p, 'w, capptr) ape_prog" where
  "reserve_pending_reply_slot E =
     andThen (gets (\<lambda>s. reply (ipc s))) (\<lambda>src.
     if src = 0 then throw InvalidCapability
     else
       andThen (reserve_slot_loop 65 E src) (\<lambda>slot.
       andThen (attempt (ext (cap_transfer_self (caps E) src slot))) (\<lambda>r.
       case r of
         Inl e \<Rightarrow> andThen (ext_do (cspace_free (caps E) slot)) (\<lambda>_. throw e)
       | Inr _ \<Rightarrow> ret slot)))"

definition queue_wait4_reply ::
  "('i, 'w) env \<Rightarrow> usize \<Rightarrow> int \<Rightarrow> usize \<Rightarrow> 64 word \<Rightarrow> usize \<Rightarrow> ('i, 'p, 'w, unit) ape_prog" where
  "queue_wait4_reply E p target wstatus options pgid =
     andThen (gets (\<lambda>s. has_pending_wait_reply (ts s) p)) (\<lambda>pending.
     if pending then throw WouldBlock
     else
       andThen (reserve_pending_reply_slot E) (\<lambda>slot.
       modify (upd_ts (insert_pending_wait_reply p
         \<lparr>pw_reply_slot = slot, pw_target_pid = target, pw_wstatus = wstatus,
          pw_options = options, pw_caller_pgid = pgid\<rparr>))))"

definition take_wait4_reply :: "usize \<Rightarrow> ('i, 'p, 'w, pending_wait_reply option) ape_prog" where
  "take_wait4_reply p s =
     (let (r, t) = take_pending_wait_reply p (ts s) in (Ok r, s\<lparr>ts := t\<rparr>))"

definition peek_wait4_reply :: "('i, 'p, 'w) ape \<Rightarrow> usize \<Rightarrow> pending_wait_reply option" where
  "peek_wait4_reply s p = peek_pending_wait_reply (ts s) p"

definition drop_wait4_reply :: "('i, 'w) env \<Rightarrow> usize \<Rightarrow> ('i, 'p, 'w, unit) ape_prog" where
  "drop_wait4_reply E p =
     andThen (take_wait4_reply p) (\<lambda>r.
     case r of
       None \<Rightarrow> ret ()
     | Some w \<Rightarrow>
         andThen (ignore (ext (cap_delete (caps E) (pw_reply_slot w)))) (\<lambda>_.
         ext_do (cspace_free (caps E) (pw_reply_slot w))))"

section \<open>Regions for asynchronous I/O\<close>

definition fs_op :: "(ape_fs_state \<Rightarrow> 'a \<times> ape_fs_state) \<Rightarrow> ('i, 'p, 'w, 'a) ape_prog" where
  [monad_simps]: "fs_op f s = (let (r, x) = f (fs_sub s) in (Ok r, s\<lparr>fs_sub := x\<rparr>))"

lemma fs_op_Ok [ok_iff]:
  "fs_op f s = (Ok x, s') \<longleftrightarrow> (\<exists>y. f (fs_sub s) = (x, y) \<and> s' = s\<lparr>fs_sub := y\<rparr>)"
  by (auto simp: fs_op_def Let_def split: prod.split)

definition take_next_fs_handle_badge :: "('i, 'p, 'w, usize) ape_prog" where
  "take_next_fs_handle_badge = fs_op take_next_handle_badge"

definition allocate_new_region :: "('i, 'w) env \<Rightarrow> usize \<Rightarrow> usize \<Rightarrow> ('i, 'p, 'w, async_io_region) ape_prog" where
  "allocate_new_region E p size_aligned =
     andThen (ext (cspace_alloc (caps E))) (\<lambda>slot.
     let pages = size_aligned div PGSIZE (mp E) in
     andThen (lift_res (ok_or (page_pages_to_level (caps E) pages) InvalidArgs)) (\<lambda>level.
     andThen (ext (res_alloc (caps E) CapPage level slot)) (\<lambda>_.
     andThen (modify (upd_resources (record_async_region_allocated p))) (\<lambda>_.
     andThen (fs_op (reserve_async_vaddr size_aligned)) (\<lambda>v.
     andThen (lift_res (ok_or v OutOfMemory)) (\<lambda>vaddr.
     andThen (ext (vm_map_page (vm E) slot vaddr {PERM_READ, PERM_WRITE} pages)) (\<lambda>_.
     andThen (gets (\<lambda>s. region_count (fs_sub s))) (\<lambda>n.
     let region = \<lparr>reg_id = n, reg_frame_slot = slot, reg_vaddr = vaddr, reg_size = size_aligned\<rparr> in
     andThen (modify (upd_fs_sub (push_region region))) (\<lambda>_.
     ret region)))))))))"

definition allocate_fs_async_region :: "('i, 'w) env \<Rightarrow> usize \<Rightarrow> usize \<Rightarrow> ('i, 'p, 'w, async_io_region) ape_prog" where
  "allocate_fs_async_region E p sz =
     (let size_aligned = align_up (mp E) sz (PGSIZE (mp E)) in
      andThen (fs_op try_reuse_region) (\<lambda>r.
      case r of
        Some region \<Rightarrow>
          andThen (modify (upd_resources (record_async_region_reused p))) (\<lambda>_. ret region)
      | None \<Rightarrow>
          andThen (gets (\<lambda>s. region_count (fs_sub s))) (\<lambda>n.
          if n \<ge> FS_ASYNC_POOL_MAX_REGIONS then throw OutOfMemory
          else allocate_new_region E p size_aligned)))"

definition recycle_fs_async_region :: "usize \<Rightarrow> ('i, 'p, 'w) ape \<Rightarrow> ('i, 'p, 'w) ape" where
  "recycle_fs_async_region i = upd_fs_sub (recycle_region i)"

definition should_try_fs_iouring :: "('i, 'p, 'w) ape \<Rightarrow> bool" where
  "should_try_fs_iouring s = should_try_iouring (fs_sub s)"

definition create_pipe_id :: "('i, 'w) env \<Rightarrow> ('i, 'p, 'w, usize) ape_prog" where
  "create_pipe_id E =
     andThen (gets (\<lambda>s. pipe_vfs_endpoint (fs_sub s))) (\<lambda>ep.
     case ep of
       None \<Rightarrow> ret 0
     | Some c \<Rightarrow>
         andThen (attempt (ext (pipe_create_call (fss E) c))) (\<lambda>r.
         case r of Inl _ \<Rightarrow> ret 0 | Inr n \<Rightarrow> ret n))"

text \<open>
  The ring buffer handed to the client is the start of the region. The outcome of the
  setup is remembered only when the service says that it has no such operation.
\<close>

definition setup_region ::
  "('i, 'w) env \<Rightarrow> capptr \<Rightarrow> async_io_region \<Rightarrow> ('i, 'p, 'w, async_io_state option) ape_prog" where
  "setup_region E client region =
     andThen (attempt (ext (fs_setup_iouring (fss E) client (reg_vaddr region) (reg_size region)
                (reg_frame_slot region)))) (\<lambda>r.
     case r of
       Inr _ \<Rightarrow>
         andThen (modify (upd_fs_sub mark_iouring_supported)) (\<lambda>_.
         let data_vaddr = wrap_add (reg_vaddr region) FS_ASYNC_DATA_OFFSET in
         if data_vaddr < wrap_add (reg_vaddr region) (reg_size region) then
           ret (Some \<lparr>aio_region_id = reg_id region, aio_ring = reg_vaddr region,
                      aio_data_vaddr = data_vaddr,
                      aio_data_len = wrap_sub (reg_size region) FS_ASYNC_DATA_OFFSET,
                      aio_next_user_data = 1\<rparr>)
         else andThen (modify (recycle_fs_async_region (reg_id region))) (\<lambda>_. ret None))
     | Inl e \<Rightarrow>
         andThen (whenM (e = NotSupported) (modify (upd_fs_sub mark_iouring_unsupported))) (\<lambda>_.
         andThen (modify (recycle_fs_async_region (reg_id region))) (\<lambda>_. ret None)))"

definition try_enable_fs_async_io ::
  "('i, 'w) env \<Rightarrow> usize \<Rightarrow> normal_file_handle \<Rightarrow> ('i, 'p, 'w, bool \<times> normal_file_handle) ape_prog" where
  "try_enable_fs_async_io E p normal =
     andThen (gets should_try_fs_iouring) (\<lambda>try.
     if nf_async_io normal \<noteq> None \<or> \<not> try then ret (nf_async_io normal \<noteq> None, normal)
     else
       andThen (attempt (allocate_fs_async_region E p (16 * 1024))) (\<lambda>r.
       case r of
         Inl e \<Rightarrow> if e = OutOfMemory then ret (False, normal) else throw e
       | Inr region \<Rightarrow>
           andThen (setup_region E (nf_fs_client normal) region) (\<lambda>aio.
           case aio of
             Some a \<Rightarrow> ret (True, normal\<lparr>nf_async_io := Some a\<rparr>)
           | None \<Rightarrow> ret (False, normal))))"

section \<open>An example environment\<close>

text \<open>
  Services that always succeed. The world counts the slots handed out; memory reads as
  zero. It instantiates the parameters in the concrete instances of the properties.
\<close>

definition ok_call :: "('w, unit) prog" where
  "ok_call w = (Ok (), w)"

definition example_caps :: "nat cap_env" where
  "example_caps =
     \<lparr>cspace_alloc = (\<lambda>w. (Ok w, Suc w)), cspace_free = (\<lambda>_ w. w), cap_delete = (\<lambda>_. ok_call),
      cap_revoke = (\<lambda>_. ok_call), cap_transfer_self = (\<lambda>_ _. ok_call),
      cap_mint = (\<lambda>_ _ _ _. ok_call), cap_concat = (\<lambda>a b. a * 256 + b),
      res_alloc = (\<lambda>_ _ _. ok_call), res_free = (\<lambda>_. ok_call), page_pages_to_level = Some\<rparr>"

definition example_vm :: "nat vm_env" where
  "example_vm =
     \<lparr>vs_map_table = (\<lambda>_ _ _ _. ok_call), vs_map = (\<lambda>_ _ _ _ _. ok_call), vs_unmap = (\<lambda>_ _ _. ok_call),
      vm_map_page = (\<lambda>_ _ _ _. ok_call), vm_map_scratch = (\<lambda>_ _ _ w. (Ok 0x70000000, w)),
      vm_unmap = (\<lambda>_ _. ok_call), mem_load = (\<lambda>_ n _. replicate n 0), mem_store = (\<lambda>_ _ w. w)\<rparr>"

definition example_procs :: "(unit, nat) proc_env" where
  "example_procs =
     \<lparr>tcb_suspend = (\<lambda>_. ok_call), tcb_resume = (\<lambda>_. ok_call), tcb_deliver_upcall = (\<lambda>_ _ _. ok_call),
      tcb_set_fault_handler = (\<lambda>_ _. ok_call), tcb_set_entrypoint = (\<lambda>_ _ _ _. ok_call), tcb_fork_from = (\<lambda>_ _. ok_call), proc_kill = (\<lambda>_. ok_call),
      proc_create = (\<lambda>_ w. (Ok w, Suc w)), proc_get_cnode = (\<lambda>_ c w. (Ok c, w)),
      auth_set_identity = (\<lambda>_ _. ok_call), auth_get_identity = (\<lambda>_ w. (Ok (), w)),
      identity_default = (), identity_uid = (\<lambda>_. 0), identity_euid = (\<lambda>_. 0), identity_gid = (\<lambda>_. 0),
      identity_egid = (\<lambda>_. 0), reply_send = (\<lambda>_ _. ok_call), mono_now = (\<lambda>w. (Ok 0, w)),
      time_now = (\<lambda>w. (Ok 0, w)),
      time_sleep = (\<lambda>_. ok_call), executor_spawn_sleep = (\<lambda>_ _ _ w. w),
      threadpool_build = (\<lambda>_. ok_call)\<rparr>"

definition example_stat :: fs_stat where
  "example_stat =
     \<lparr>dev = 0, ino = 1, st_mode = 16384, nlink = 1, uid = 0, gid = 0, rdev = 0, st_size = 0, blksize = 4096,
      blocks = 0, atime = 0, mtime = 0, ctime = 0\<rparr>"

definition example_paths :: "nat path_env" where
  "example_paths =
     \<lparr>path_stat = (\<lambda>_ w. (Ok example_stat, w)), path_lstat = (\<lambda>_ w. (Ok example_stat, w)),
      path_readlink = (\<lambda>_ w. (Ok ''/'', w)), path_mkdir = (\<lambda>_ _. ok_call), path_unlink = (\<lambda>_. ok_call),
      path_link = (\<lambda>_ _. ok_call), path_mount = (\<lambda>_ _. ok_call), path_unmount = (\<lambda>_. ok_call),
      vol_mount_partition = (\<lambda>_ c w. (Ok c, w))\<rparr>"

definition example_fss :: "nat fs_env" where
  "example_fss =
     \<lparr>fs_endpoint = 11, fs_open = (\<lambda>_ _ _ _ _. ok_call), fs_close = (\<lambda>_. ok_call),
      fs_setup_iouring = (\<lambda>_ _ _ _. ok_call), fs_map_pages = (\<lambda>_ _ _ _ w. (Ok 0, w)),
      fs_read = (\<lambda>_ off n w. (Ok (take n (drop off [1, 2, 3])), w)), fs_write = (\<lambda>_ _ bs w. (Ok (length bs), w)),
      fs_fstat = (\<lambda>_ w. (Ok example_stat, w)), fs_getdents = (\<lambda>_ _ w. (Ok [], w)),
      fs_ioctl_ex = (\<lambda>_ _ _ _ _ w. (Ok (0, []), w)), fs_poll = (\<lambda>_ e w. (Ok e, w)),
      pipe_create_call = (\<lambda>_ w. (Ok 1, w))\<rparr>"

definition example_lib :: lib_env where
  "example_lib =
     \<lparr>resolve_path = (\<lambda>p _ _. p), path_inside_root = (\<lambda>p _. Some p), map_error_to_errno = (\<lambda>_. -22),
      open_flags_from_bits = (\<lambda>b. b), OPEN_RDONLY = 0, OPEN_WRONLY = 1, VSPACE_SLOT = 1, TCB_SLOT = 2,
      TRAMPOLINE_VA = 0x3ffffff000, utcb_va0 = 0x3e00000000, trapframe_va0 = 0x3e00001000,
      proto = \<lparr>stat_default = example_stat, s_ifchr = 0x2000, s_ifdir = 0x4000, s_ifmt = 0xf000\<rparr>,
      stat_bytes = (\<lambda>st. replicate 128 0), uts_names = replicate 6 ''APE'',
      classify_futex_op = (\<lambda>_. FutexOther), decode_ape_syscall = (\<lambda>_. SysOther)\<rparr>"

definition example_env :: "(unit, nat) env" where
  "example_env =
     \<lparr>mp = example_mem_params, caps = example_caps, vm = example_vm, procs = example_procs,
      fss = example_fss, paths = example_paths, lib = example_lib\<rparr>"

lemmas example_env_simps =
  example_env_def example_caps_def example_vm_def example_procs_def example_fss_def example_paths_def example_stat_def example_lib_def
  ok_call_def

lemma example_params [simp]:
  "mp example_env = example_mem_params" "lib example_env = example_lib"
  by (simp_all add: example_env_def)

lemma ok_call_apply [simp]: "ok_call w = (Ok (), w)"
  by (simp add: ok_call_def)

lemma example_caps_calls [simp]:
  "cspace_alloc (caps example_env) w = (Ok w, Suc w)" "cspace_free (caps example_env) c w = w"
  "cap_delete (caps example_env) c = ok_call" "cap_revoke (caps example_env) c = ok_call"
  "cap_transfer_self (caps example_env) c d = ok_call" "cap_mint (caps example_env) c d i b = ok_call"
  "cap_concat (caps example_env) c d = c * 256 + d" "res_alloc (caps example_env) ty n c = ok_call"
  "res_free (caps example_env) c = ok_call" "page_pages_to_level (caps example_env) n = Some n"
  by (simp_all add: example_env_def example_caps_def)

lemma example_vm_calls [simp]:
  "vs_map_table (vm example_env) c d v l = ok_call" "vs_map (vm example_env) c d v prm n = ok_call"
  "vs_unmap (vm example_env) c v n = ok_call" "vm_map_page (vm example_env) c v prm n = ok_call"
  "vm_map_scratch (vm example_env) c prm n w = (Ok 0x70000000, w)" "vm_unmap (vm example_env) v n = ok_call"
  "mem_load (vm example_env) v n w = replicate n 0" "mem_store (vm example_env) v bs w = w"
  by (simp_all add: example_env_def example_vm_def)

lemma example_procs_calls [simp]:
  "tcb_suspend (procs example_env) c = ok_call" "tcb_resume (procs example_env) c = ok_call"
  "tcb_deliver_upcall (procs example_env) c h sig = ok_call"
  "tcb_set_fault_handler (procs example_env) c d = ok_call" "tcb_fork_from (procs example_env) c d = ok_call"
  "proc_kill (procs example_env) h = ok_call" "proc_create (procs example_env) nm w = (Ok w, Suc w)"
  "proc_get_cnode (procs example_env) h c w = (Ok c, w)" "auth_set_identity (procs example_env) q idn = ok_call"
  "identity_default (procs example_env) = ()" "reply_send (procs example_env) c r = ok_call"
  "mono_now (procs example_env) w = (Ok 0, w)" "time_sleep (procs example_env) n = ok_call"
  by (simp_all add: example_env_def example_procs_def)

lemma example_fss_calls [simp]:
  "fs_endpoint (fss example_env) = 11" "fs_open (fss example_env) c path fl md d = ok_call"
  "fs_close (fss example_env) c = ok_call" "fs_setup_iouring (fss example_env) c v n d = ok_call"
  "fs_map_pages (fss example_env) c off n d w = (Ok 0, w)" "fs_read (fss example_env) c off n w = (Ok (take n (drop off [1, 2, 3])), w)"
  "fs_getdents (fss example_env) c n w = (Ok [], w)" "pipe_create_call (fss example_env) c w = (Ok 1, w)"
  by (simp_all add: example_env_def example_fss_def)

lemma ext_simps:
  "ext ok_call s = (Ok (), s)" "ext m s = (case m (world s) of (r, w) \<Rightarrow> (r, s\<lparr>world := w\<rparr>))"
  "ext_do f s = (Ok (), s\<lparr>world := f (world s)\<rparr>)"
  by (simp_all add: ext_def ext_do_def Let_def split: prod.split)

text \<open>A manager with one registered process, whose identifier is 1.\<close>

definition example_task :: "usize \<Rightarrow> usize \<Rightarrow> unit task_struct" where
  "example_task p parent =
     task_struct_new p parent (p * 256 + 2) p (mm_struct_new example_mem_params (p * 256 + 1))
       files_struct_new fs_struct_new [] signal_struct_new ()"

definition example_ape :: "unit task_struct list \<Rightarrow> (unit, unit, nat) ape" where
  "example_ape tsk =
     (ape_new 100)\<lparr>ts := fold (\<lambda>t. ts_register_process (task_pid t) (1000 + task_pid t) t) tsk
        (ape_task_state_new (Suc (length tsk)))\<rparr>"

lemma get_process_example [simp]:
  "get_process (example_ape []) q = None"
  "get_process (example_ape [t]) q = (if q = task_pid t then Some t else None)"
  "get_process (example_ape [t, u]) q =
     (if q = task_pid u then Some u else if q = task_pid t then Some t else None)"
  by (simp_all add: get_process_def example_ape_def process_def ts_register_process_def
      ape_task_state_new_def bt_get_def)

end
