(* ===== verification/Vspace.thy ===== *)
theory Vspace
  imports Manager
begin

text \<open>
  The address space of a process as the kernel sees it (the first half of
  \<open>src/src/ape/fault.rs\<close>): intermediate page tables, created on demand and
  recorded per level and prefix, and the mapping and unmapping of frames.
\<close>

section \<open>Operations\<close>

definition L1_HUGE_PAGES :: "('i, 'w) env \<Rightarrow> usize" where
  "L1_HUGE_PAGES E = 2 ^ (SHIFTS (mp E) ! 1 - SHIFTS (mp E) ! 0)"

definition L1_HUGE_SIZE :: "('i, 'w) env \<Rightarrow> usize" where
  "L1_HUGE_SIZE E = L1_HUGE_PAGES E * PGSIZE (mp E)"

definition cow_fault_perms :: "perms \<Rightarrow> perms" where
  "cow_fault_perms p = p - {PERM_WRITE}"

definition pt_path_prefix :: "('i, 'w) env \<Rightarrow> usize \<Rightarrow> usize \<Rightarrow> usize" where
  "pt_path_prefix E vaddr level = drop_bit (SHIFTS (mp E) ! level) vaddr"

definition release_pagetable_slot :: "('i, 'w) env \<Rightarrow> usize \<Rightarrow> capptr \<Rightarrow> ('i, 'p, 'w, unit) ape_prog" where
  "release_pagetable_slot E p slot =
     andThen (attempt (ext (res_free (caps E) slot))) (\<lambda>r.
     let released = (case r of
           Inr _ \<Rightarrow> True
         | Inl e \<Rightarrow> e = InvalidCapability \<or> e = InvalidSlot \<or> e = NotSupported) in
     whenM released (
       andThen (ignore (ext (cap_delete (caps E) slot))) (\<lambda>_.
       andThen (ext_do (cspace_free (caps E) slot)) (\<lambda>_.
       modify (ledger_record_pagetable_free p slot)))))"

definition release_process_intermediate_page_tables :: "('i, 'w) env \<Rightarrow> usize \<Rightarrow> ('i, 'p, 'w, unit) ape_prog" where
  "release_process_intermediate_page_tables E p =
     andThen (task_or NotFound p) (\<lambda>t.
     let slots = filter (\<lambda>c. c \<noteq> 0) (bt_values (intermediate_page_tables (task_mem t))) in
     andThen (modify (upd_task p (upd_mem (\<lambda>m. m\<lparr>intermediate_page_tables := []\<rparr>)))) (\<lambda>_.
     forM slots (release_pagetable_slot E p)))"

definition missing_paths :: "('i, 'w) env \<Rightarrow> 'i task_struct \<Rightarrow> usize \<Rightarrow> usize \<Rightarrow> (usize \<times> usize) list" where
  "missing_paths E t page_addr leaf =
     filter (\<lambda>(level, prefix). \<not> has_intermediate_page_table (task_mem t) level prefix)
       (map (\<lambda>level. (level, pt_path_prefix E page_addr level))
         (rev [leaf..<length (SHIFTS (mp E))]))"

definition add_page_table ::
  "('i, 'w) env \<Rightarrow> usize \<Rightarrow> capptr \<Rightarrow> usize \<Rightarrow> usize \<times> usize \<Rightarrow> ('i, 'p, 'w, unit) ape_prog" where
  "add_page_table E p vs page_addr path =
     (case path of (level, prefix) \<Rightarrow>
        andThen (ext (cspace_alloc (caps E))) (\<lambda>slot.
        andThen (attempt (ext (res_alloc (caps E) CapPageTable 0 slot))) (\<lambda>r.
        case r of
          Inl e \<Rightarrow> andThen (ext_do (cspace_free (caps E) slot)) (\<lambda>_. throw e)
        | Inr _ \<Rightarrow>
            andThen (modify (ledger_record_pagetable_alloc p slot)) (\<lambda>_.
            andThen (attempt (ext (vs_map_table (vm E) vs slot page_addr level))) (\<lambda>r2.
            case r2 of
              Inr _ \<Rightarrow> modify (upd_task p (upd_mem (record_intermediate_page_table level prefix slot)))
            | Inl e \<Rightarrow>
                if e = AlreadyExists then
                  andThen (release_pagetable_slot E p slot) (\<lambda>_.
                  modify (upd_task p (upd_mem (record_intermediate_page_table level prefix 0))))
                else andThen (release_pagetable_slot E p slot) (\<lambda>_. throw e))))))"

definition ensure_intermediate_page_tables_with_leaf ::
  "('i, 'w) env \<Rightarrow> usize \<Rightarrow> usize \<Rightarrow> usize \<Rightarrow> ('i, 'p, 'w, unit) ape_prog" where
  "ensure_intermediate_page_tables_with_leaf E p page_addr leaf =
     andThen (task_or NotFound p) (\<lambda>t.
     forM (missing_paths E t page_addr leaf) (add_page_table E p (vspace t) page_addr))"

definition ensure_intermediate_page_tables :: "('i, 'w) env \<Rightarrow> usize \<Rightarrow> usize \<Rightarrow> ('i, 'p, 'w, unit) ape_prog" where
  "ensure_intermediate_page_tables E p page_addr =
     ensure_intermediate_page_tables_with_leaf E p page_addr 1"

text \<open>The tables for a run of pages: a huge page is one leaf a level higher.\<close>

function ensure_tables_loop ::
  "('i, 'w) env \<Rightarrow> usize \<Rightarrow> usize \<Rightarrow> usize \<Rightarrow> usize \<Rightarrow> ('i, 'p, 'w, unit) ape_prog" where
  "ensure_tables_loop E p vaddr pages i =
     (if i < pages then
        let curr = wrap_add vaddr (wrap_mul i (PGSIZE (mp E))) in
        if curr mod L1_HUGE_SIZE E = 0 \<and> pages - i \<ge> L1_HUGE_PAGES E then
          andThen (ensure_intermediate_page_tables_with_leaf E p curr 2) (\<lambda>_.
          ensure_tables_loop E p vaddr pages (i + L1_HUGE_PAGES E))
        else
          andThen (ensure_intermediate_page_tables_with_leaf E p curr 1) (\<lambda>_.
          ensure_tables_loop E p vaddr pages (i + 1))
      else ret ())"
  by pat_completeness auto
termination
  by (relation "measure (\<lambda>(E, p, v, pages, i). pages - i)")
    (auto simp: L1_HUGE_PAGES_def intro: diff_less_mono2)

declare ensure_tables_loop.simps [simp del]

definition map_process_frame ::
  "('i, 'w) env \<Rightarrow> usize \<Rightarrow> capptr \<Rightarrow> usize \<Rightarrow> perms \<Rightarrow> usize \<Rightarrow> ('i, 'p, 'w, unit) ape_prog" where
  "map_process_frame E p frame vaddr prm pages =
     andThen (ensure_tables_loop E p vaddr pages 0) (\<lambda>_.
     andThen (task_or NotFound p) (\<lambda>t.
     andThen (attempt (ext (vs_map (vm E) (vspace t) frame vaddr prm pages))) (\<lambda>r.
     case r of
       Inr _ \<Rightarrow> ret ()
     | Inl e \<Rightarrow>
         if e = MappingFailed then
           andThen (ignore (ext (vs_unmap (vm E) (vspace t) vaddr (wrap_mul pages (PGSIZE (mp E)))))) (\<lambda>_.
           andThen (forM [0..<pages] (\<lambda>j.
             ensure_intermediate_page_tables_with_leaf E p
               (wrap_add vaddr (wrap_mul j (PGSIZE (mp E)))) 1)) (\<lambda>_.
           ext (vs_map (vm E) (vspace t) frame vaddr prm pages)))
         else throw e)))"

definition unmap_process_pages :: "('i, 'w) env \<Rightarrow> usize \<Rightarrow> usize \<Rightarrow> usize \<Rightarrow> ('i, 'p, 'w, unit) ape_prog" where
  "unmap_process_pages E p vaddr pages =
     andThen (task_or NotFound p) (\<lambda>t.
     ext (vs_unmap (vm E) (vspace t) vaddr (wrap_mul pages (PGSIZE (mp E)))))"

section \<open>What mapping a frame can change\<close>

text \<open>
  Two states that differ at most in the world, in the ledger and in the recorded page
  tables of process \<open>p\<close>.
\<close>

definition tables_only :: "usize \<Rightarrow> ('i, 'p, 'w) ape \<Rightarrow> ('i, 'p, 'w) ape \<Rightarrow> bool" where
  "tables_only p s0 s \<longleftrightarrow>
     ipc s = ipc s0 \<and> async_runtime s = async_runtime s0 \<and> runtime s = runtime s0 \<and>
     fs_sub s = fs_sub s0 \<and> (ts s)\<lparr>tasks := []\<rparr> = (ts s0)\<lparr>tasks := []\<rparr> \<and>
     (bt_ok (tasks (ts s0)) \<longrightarrow> bt_ok (tasks (ts s)) \<and> bt_keys (tasks (ts s)) = bt_keys (tasks (ts s0))) \<and>
     (\<forall>q. q \<noteq> p \<longrightarrow> get_process s q = get_process s0 q) \<and>
     (\<exists>f. get_process s p = map_option (upd_mem (intermediate_page_tables_update f)) (get_process s0 p))"

lemma tables_only_refl [simp]: "tables_only p s s"
  by (cases "get_process s p")
    (auto simp: tables_only_def upd_mem_def task_mem_def intro!: exI[of _ "\<lambda>x. x"])

lemma tables_only_world [simp]: "tables_only p s0 (s\<lparr>world := w\<rparr>) = tables_only p s0 s"
  by (simp add: tables_only_def)

lemma tables_only_resources [simp]: "tables_only p s0 (upd_resources f s) = tables_only p s0 s"
  by (simp add: tables_only_def)

lemma tables_only_record:
  assumes "tables_only p s0 s"
  shows "tables_only p s0 (upd_task p (upd_mem (intermediate_page_tables_update g)) s)"
proof -
  from assms obtain f where
    f: "get_process s p = map_option (upd_mem (intermediate_page_tables_update f)) (get_process s0 p)"
    by (auto simp: tables_only_def)
  then have "get_process (upd_task p (upd_mem (intermediate_page_tables_update g)) s) p =
      map_option (upd_mem (intermediate_page_tables_update (g \<circ> f))) (get_process s0 p)"
    by (cases "get_process s0 p") (simp_all add: upd_mem_def task_mem_def)
  with assms show ?thesis
    unfolding tables_only_def by auto
qed

lemma record_as_update:
  "record_intermediate_page_table l pre c = intermediate_page_tables_update (bt_insert (l, pre) c)"
  by (rule ext) (simp add: record_intermediate_page_table_def)

lemmas keeps_tables =
  keeps_ext keeps_ext_do keeps_modify

lemma release_pagetable_slot_tables [keeps_intro]: "keeps (tables_only p s0) (release_pagetable_slot E q c)"
  unfolding release_pagetable_slot_def ledger_record_pagetable_free_def
  by (auto intro!: keeps_intro keeps_tables)

lemma add_page_table_tables: "keeps (tables_only p s0) (add_page_table E p vs a path)"
  unfolding add_page_table_def ledger_record_pagetable_alloc_def record_as_update
  by (auto intro!: keeps_intro keeps_tables simp: tables_only_record split: prod.split)

lemma ensure_tables [keeps_intro]:
  "keeps (tables_only p s0) (ensure_intermediate_page_tables_with_leaf E p a leaf)"
  unfolding ensure_intermediate_page_tables_with_leaf_def
  by (auto intro!: keeps_intro add_page_table_tables)

lemma ensure_tables_loop_tables [keeps_intro]: "keeps (tables_only p s0) (ensure_tables_loop E p v pages i)"
proof (induction E p v pages i rule: ensure_tables_loop.induct)
  case (1 E p v pages i)
  then show ?case
    by (subst ensure_tables_loop.simps) (auto intro!: keeps_intro simp: Let_def)
qed

lemma map_process_frame_tables [keeps_intro]:
  "keeps (tables_only p s0) (map_process_frame E p frame v prm pages)"
  unfolding map_process_frame_def by (auto intro!: keeps_intro keeps_tables)

lemma unmap_process_pages_tables [keeps_intro]: "keeps (tables_only p s0) (unmap_process_pages E q v pages)"
  unfolding unmap_process_pages_def by (auto intro!: keeps_intro keeps_tables)

section \<open>The tables of an address\<close>

lemma release_pagetable_slot_process [simp]:
  "get_process (snd (release_pagetable_slot E q c s)) p = get_process s p"
proof -
  have "keeps (\<lambda>s'. get_process s' p = get_process s p) (release_pagetable_slot E q c)"
    unfolding release_pagetable_slot_def ledger_record_pagetable_free_def
    by (auto intro!: keeps_intro keeps_tables)
  then show ?thesis unfolding keeps_def by blast
qed

lemma add_page_table_Ok:
  assumes "add_page_table E p vs a (l, pre) s = (Ok u, s')" and "get_process s p = Some t"
  shows "\<exists>c. get_process s' p = Some (upd_mem (record_intermediate_page_table l pre c) t)"
proof -
  have rel: "get_process s2 p = get_process s1 p" if "release_pagetable_slot E p c s1 = (r, s2)" for c s1 s2 r
    using release_pagetable_slot_process[of E p c s1 p] that by simp
  from assms show ?thesis
    unfolding add_page_table_def ledger_record_pagetable_alloc_def
    by (auto simp: ok_iff dest!: rel split: if_splits) (rule exI, rule refl)+
qed

lemma has_table_record [simp]:
  "has_intermediate_page_table (task_mem (upd_mem (record_intermediate_page_table l pre c) t)) l' pre' \<longleftrightarrow>
   (l', pre') = (l, pre) \<or> has_intermediate_page_table (task_mem t) l' pre'"
  by (auto simp: has_intermediate_page_table_def upd_mem_def task_mem_def bt_contains_def
      record_intermediate_page_table_def)

lemma forM_add_page_table_Ok:
  assumes "forM pths (add_page_table E p vs a) s = (Ok u, s')" and "get_process s p = Some t"
  shows "\<exists>t'. get_process s' p = Some t' \<and>
    (\<forall>l pre. has_intermediate_page_table (task_mem t') l pre \<longleftrightarrow>
      (l, pre) \<in> set pths \<or> has_intermediate_page_table (task_mem t) l pre)"
  using assms
proof (induction pths arbitrary: s t)
  case (Cons path pths)
  obtain l pre where path: "path = (l, pre)" by fastforce
  from Cons.prems(1) obtain s1 where s1: "add_page_table E p vs a (l, pre) s = (Ok (), s1)"
    and rest: "forM pths (add_page_table E p vs a) s1 = (Ok u, s')"
    by (auto simp: ok_iff path)
  from add_page_table_Ok[OF s1 Cons.prems(2)] obtain c where
    "get_process s1 p = Some (upd_mem (record_intermediate_page_table l pre c) t)" by blast
  from Cons.IH[OF rest this] show ?case by (auto simp: path)
qed (auto simp: ok_iff)

lemma missing_paths_set:
  "(l, pre) \<in> set (missing_paths E t a leaf) \<longleftrightarrow>
   leaf \<le> l \<and> l < length (SHIFTS (mp E)) \<and> pre = pt_path_prefix E a l \<and>
   \<not> has_intermediate_page_table (task_mem t) l pre"
  by (auto simp: missing_paths_def)

section \<open>Properties\<close>

text \<open>
  C23: when the intermediate page tables of an address have been ensured, every level from
  the leaf up has a recorded table; nothing else than the recorded tables of that process,
  the ledger and the kernel has changed; and ensuring the same address again allocates
  nothing.
\<close>

theorem ensure_page_tables_complete:
  assumes "ensure_intermediate_page_tables_with_leaf E p a leaf s = (Ok u, s')"
  shows "tables_only p s s' \<and>
    (\<exists>t. get_process s' p = Some t \<and>
       (\<forall>l. leaf \<le> l \<and> l < length (SHIFTS (mp E)) \<longrightarrow>
          has_intermediate_page_table (task_mem t) l (pt_path_prefix E a l))) \<and>
    ensure_intermediate_page_tables_with_leaf E p a leaf s' = (Ok (), s')"
proof -
  from assms obtain t where t: "get_process s p = Some t"
    and run: "forM (missing_paths E t a leaf) (add_page_table E p (vspace t) a) s = (Ok u, s')"
    by (auto simp: ensure_intermediate_page_tables_with_leaf_def ok_iff)
  from forM_add_page_table_Ok[OF run t] obtain t' where t': "get_process s' p = Some t'"
    "\<forall>l. leaf \<le> l \<and> l < length (SHIFTS (mp E)) \<longrightarrow>
       has_intermediate_page_table (task_mem t') l (pt_path_prefix E a l)"
    by (auto simp: missing_paths_set)
  then have none: "missing_paths E t' a leaf = []"
    by (auto simp: missing_paths_def filter_empty_conv)
  have "tables_only p s s'"
    using keepsD[OF ensure_tables tables_only_refl assms] .
  with t' none show ?thesis
    by (auto simp: ensure_intermediate_page_tables_with_leaf_def andThen_def task_or_def ret_def)
qed

theorem ensure_page_tables_complete_witness:
  "\<exists>s'. ensure_intermediate_page_tables_with_leaf example_env 1 0x20010000 1 (example_ape [example_task 1 0]) =
     (Ok (), s') \<and> tables_only 1 (example_ape [example_task 1 0]) s'"
proof -
  let ?s = "example_ape [example_task 1 0]"
  have "\<exists>s'. ensure_intermediate_page_tables_with_leaf example_env 1 0x20010000 1 ?s = (Ok (), s')"
    by (simp add: ensure_intermediate_page_tables_with_leaf_def andThen_def task_or_def get_process_def
        process_def example_ape_def ts_register_process_def example_task_def task_struct_new_def
        ape_task_state_new_def bt_get_def missing_paths_def example_env_simps example_mem_params_def
        has_intermediate_page_table_def bt_contains_def task_mem_def mm_struct_new_def
        add_page_table_def ext_def Let_def attempt_def modify_def ret_def upt_rec)
  then obtain s' where s': "ensure_intermediate_page_tables_with_leaf example_env 1 0x20010000 1 ?s = (Ok (), s')"
    by blast
  from ensure_page_tables_complete[OF s'] s' show ?thesis by blast
qed

text \<open>
  Mapping or unmapping frames of a process, whatever the kernel answers, changes none of
  the recorded maps: the memory maps, lazy maps and layout of every process, and every
  other part of the manager's state, are as before.
\<close>

theorem map_process_frame_confined:
  "tables_only p s (snd (map_process_frame E p frame v prm pages s)) \<and>
   tables_only p s (snd (unmap_process_pages E p v pages s)) \<and>
   (\<forall>q. map_option (\<lambda>t. memory_maps (task_mem t)) (get_process (snd (map_process_frame E p frame v prm pages s)) q)
      = map_option (\<lambda>t. memory_maps (task_mem t)) (get_process s q))"
proof -
  have m: "tables_only p s (snd (map_process_frame E p frame v prm pages s))"
    by (rule keeps_state[OF map_process_frame_tables tables_only_refl])
  have u: "tables_only p s (snd (unmap_process_pages E p v pages s))"
    by (rule keeps_state[OF unmap_process_pages_tables tables_only_refl])
  have "map_option (\<lambda>t. memory_maps (task_mem t)) (get_process (snd (map_process_frame E p frame v prm pages s)) q)
      = map_option (\<lambda>t. memory_maps (task_mem t)) (get_process s q)" for q
    using m by (cases "q = p") (auto simp: tables_only_def option.map_comp comp_def upd_mem_def task_mem_def)
  with m u show ?thesis by blast
qed

end
