(* ===== verification/Page_Policy.thy ===== *)
theory Page_Policy
  imports Prelude
begin

text \<open>
  The replacement policy of the shared page pool: the interface
  \<open>SharedPagePoolPolicy\<close> (\<open>src/src/ape/policy/mod.rs\<close>) as the locale
  \<open>page_policy\<close>, and its least-recently-used implementation
  (\<open>src/src/ape/policy/lru.rs\<close>). The pool of \<open>src/src/ape/user.rs\<close>
  is generic in the policy; the part of it that chooses a slot is modelled here with
  the policy as an argument, and its lemmas are proved from the interface alone.
\<close>

section \<open>The policy interface\<close>

text \<open>
  A victim is an occupied slot, one is found whenever some slot is occupied, and none
  is invented when the pool is empty.
\<close>

locale page_policy =
  fixes touch :: "usize \<Rightarrow> 'p \<Rightarrow> 'p"
    and remove :: "usize \<Rightarrow> 'p \<Rightarrow> 'p"
    and victim :: "bool list \<Rightarrow> 'p \<Rightarrow> usize option \<times> 'p"
  assumes victim_occupied: "victim occ p = (Some s, p') \<Longrightarrow> s < length occ \<and> occ ! s"
    and victim_exists: "True \<in> set occ \<Longrightarrow> \<exists>s p'. victim occ p = (Some s, p')"

section \<open>Choosing a slot of the pool\<close>

definition pick_slot ::
  "(bool list \<Rightarrow> 'p \<Rightarrow> usize option \<times> 'p) \<Rightarrow> bool list \<Rightarrow> 'p \<Rightarrow> usize res \<times> 'p" where
  "pick_slot victim occ p =
     (case position Not occ of
        Some i \<Rightarrow> (Ok i, p)
      | None \<Rightarrow> (case victim occ p of (v, p') \<Rightarrow> (ok_or v OutOfMemory, p')))"

context page_policy
begin

lemma victim_none: "victim occ p = (None, p') \<Longrightarrow> True \<notin> set occ"
  using victim_exists[of occ p] by auto

lemma pick_slot_total:
  assumes "occ \<noteq> []"
  shows "\<exists>i p'. pick_slot victim occ p = (Ok i, p') \<and> i < length occ"
proof (cases "position Not occ")
  case None
  then have "\<forall>b \<in> set occ. b" by (simp add: position_None)
  with assms have "True \<in> set occ" by (cases occ) auto
  then obtain s p' where v: "victim occ p = (Some s, p')" using victim_exists by blast
  with None victim_occupied[OF v] show ?thesis by (simp add: pick_slot_def)
next
  case (Some i)
  with position_Some[OF Some] show ?thesis by (simp add: pick_slot_def)
qed

text \<open>A slot in use is only evicted when no slot is free.\<close>

lemma pick_slot_evicts_last:
  assumes "pick_slot victim occ p = (Ok i, p')" and "occ ! i" and "j < length occ"
  shows "occ ! j"
proof (cases "position Not occ")
  case None
  then have "\<forall>b \<in> set occ. b" by (simp add: position_None)
  with assms(3) show ?thesis by (metis nth_mem)
next
  case (Some k)
  with assms position_Some[OF Some] show ?thesis by (simp add: pick_slot_def)
qed

end

section \<open>Least recently used\<close>

record lru_policy =
  order :: "usize list"

definition lru_new :: lru_policy where
  "lru_new = \<lparr>order = []\<rparr>"

definition make_mru :: "usize \<Rightarrow> lru_policy \<Rightarrow> lru_policy" where
  "make_mru slot p =
     (let p' = (case position (\<lambda>x. x = slot) (order p) of
                  Some pos \<Rightarrow> p\<lparr>order := remove_at pos (order p)\<rparr>
                | None \<Rightarrow> p)
      in p'\<lparr>order := order p' @ [slot]\<rparr>)"

definition lru_touch :: "usize \<Rightarrow> lru_policy \<Rightarrow> lru_policy" where
  "lru_touch slot p = make_mru slot p"

definition lru_insert :: "usize \<Rightarrow> lru_policy \<Rightarrow> lru_policy" where
  "lru_insert slot p = make_mru slot p"

definition lru_remove :: "usize \<Rightarrow> lru_policy \<Rightarrow> lru_policy" where
  "lru_remove slot p =
     (case position (\<lambda>x. x = slot) (order p) of
        Some pos \<Rightarrow> p\<lparr>order := remove_at pos (order p)\<rparr>
      | None \<Rightarrow> p)"

text \<open>The queue is drained up to the first slot that is still occupied.\<close>

fun victim_loop :: "bool list \<Rightarrow> usize list \<Rightarrow> usize option \<times> usize list" where
  "victim_loop occ [] = (None, [])"
| "victim_loop occ (slot # rest) =
     (if slot < length occ \<and> occ ! slot then (Some slot, slot # rest) else victim_loop occ rest)"

definition lru_victim :: "bool list \<Rightarrow> lru_policy \<Rightarrow> usize option \<times> lru_policy" where
  "lru_victim occ p =
     (case victim_loop occ (order p) of
        (Some slot, q) \<Rightarrow> (Some slot, p\<lparr>order := q\<rparr>)
      | (None, q) \<Rightarrow> (position (\<lambda>used. used) occ, p\<lparr>order := q\<rparr>))"

section \<open>Lemmas\<close>

lemma remove_first_distinct:
  "distinct xs \<Longrightarrow> position (\<lambda>x. x = s) xs = Some n \<Longrightarrow> remove_at n xs = filter (\<lambda>x. x \<noteq> s) xs"
  by (induction xs arbitrary: n) (auto split: if_splits intro!: filter_eq_self[symmetric])

lemma make_mru_order:
  assumes "distinct (order p)"
  shows "order (make_mru s p) = filter (\<lambda>x. x \<noteq> s) (order p) @ [s]"
proof (cases "position (\<lambda>x. x = s) (order p)")
  case None
  then have "\<forall>x \<in> set (order p). x \<noteq> s" by (simp add: position_None)
  with None show ?thesis by (simp add: make_mru_def)
next
  case (Some n)
  with remove_first_distinct[OF assms Some] show ?thesis by (simp add: make_mru_def)
qed

lemma filter_remdups_snoc: "remdups (xs @ [s]) = filter (\<lambda>x. x \<noteq> s) (remdups xs) @ [s]"
  by (induction xs) auto

lemma victim_loop_Some:
  "victim_loop occ q = (Some s, q') \<Longrightarrow>
   s < length occ \<and> occ ! s \<and> find (\<lambda>x. x < length occ \<and> occ ! x) q = Some s"
  by (induction occ q rule: victim_loop.induct) (auto split: if_splits)

lemma victim_loop_None:
  "victim_loop occ q = (None, q') \<Longrightarrow> find (\<lambda>x. x < length occ \<and> occ ! x) q = None"
  by (induction occ q rule: victim_loop.induct) (auto split: if_splits)

interpretation lru: page_policy lru_touch lru_remove lru_victim
proof unfold_locales
  fix occ p s p'
  assume "lru_victim occ p = (Some s, p')"
  then show "s < length occ \<and> occ ! s"
    by (auto simp: lru_victim_def dest: victim_loop_Some position_Some split: prod.splits option.splits)
next
  fix occ :: "bool list" and p
  assume t: "True \<in> set occ"
  then have "position (\<lambda>used. used) occ \<noteq> None" by (auto simp: position_None)
  then show "\<exists>s p'. lru_victim occ p = (Some s, p')"
    by (auto simp: lru_victim_def split: prod.split option.split)
qed

section \<open>Properties\<close>

text \<open>
  The queue of the policy is the order of last use. After any sequence of touches
  the queue lists each slot once, the one touched longest ago first, and the victim
  is the first slot of that order that is occupied, or the lowest occupied slot when
  none of the touched slots is.
\<close>

theorem lru_victim_least_recent:
  "order (fold lru_touch ts lru_new) = remdups ts \<and>
   fst (lru_victim occ (fold lru_touch ts lru_new)) =
     (case find (\<lambda>s. s < length occ \<and> occ ! s) (remdups ts) of
        Some s \<Rightarrow> Some s
      | None \<Rightarrow> position (\<lambda>used. used) occ)"
proof -
  have ord: "order (fold lru_touch ts lru_new) = remdups ts" for ts
  proof (induction ts rule: rev_induct)
    case (snoc t ts)
    then have "distinct (order (fold lru_touch ts lru_new))" by simp
    from make_mru_order[OF this, of t]
    have "order (lru_touch t (fold lru_touch ts lru_new)) = filter (\<lambda>x. x \<noteq> t) (remdups ts) @ [t]"
      by (simp add: lru_touch_def[of t] snoc)
    then show ?case by (simp add: filter_remdups_snoc)
  qed (simp add: lru_new_def)
  show ?thesis
    by (cases "victim_loop occ (remdups ts)")
      (auto simp: ord lru_victim_def dest: victim_loop_Some victim_loop_None split: option.splits)
qed

text \<open>
  C18: the pool always finds a slot of its table under the least-recently-used policy,
  and evicts a slot in use only when every slot is in use.
\<close>

theorem pool_pick_slot_lru:
  assumes "occ \<noteq> []"
  shows "\<exists>i p'. pick_slot lru_victim occ p = (Ok i, p') \<and> i < length occ \<and>
           (occ ! i \<longrightarrow> (\<forall>j < length occ. occ ! j))"
proof -
  from lru.pick_slot_total[OF assms] obtain i p'
    where i: "pick_slot lru_victim occ p = (Ok i, p')" "i < length occ" by blast
  with lru.pick_slot_evicts_last[OF i(1)] show ?thesis by blast
qed

theorem pool_pick_slot_lru_witness:
  "\<exists>i p'. pick_slot lru_victim [True, False] lru_new = (Ok i, p') \<and> i < 2"
  using pool_pick_slot_lru[of "[True, False]" lru_new] by force

end
