(* ===== verification/User_Access.thy ===== *)
theory User_Access
  imports Vspace Page_Policy
begin

text \<open>
  Access to the memory of a process from the service (\<open>src/src/ape/user.rs\<close>).
  A session keeps a pool of scratch mappings of user frames with least-recently-used
  replacement; copies run over it chunk by chunk, one map at a time, growing the stack on
  demand. The frames' bytes live in the world and are reached through the raw loads and
  stores of the environment. Strings are their UTF-8 bytes.
\<close>

section \<open>Bytes\<close>

definition usize_to_bytes :: "usize \<Rightarrow> byte list" where
  "usize_to_bytes n = map (\<lambda>i. word_of_nat (n div 256 ^ i)) [0..<8]"

definition bytes_to_nat :: "byte list \<Rightarrow> nat" where
  "bytes_to_nat bs = foldr (\<lambda>b acc. unat b + 256 * acc) bs 0"

text \<open>The cast of an unsigned value to a signed one of 64 bits.\<close>

definition i64_of_nat :: "nat \<Rightarrow> int" where
  "i64_of_nat n = sint (word_of_nat n :: 64 word)"

text \<open>\<open>i32::to_ne_bytes\<close>, on the value's residue.\<close>

definition i32_to_bytes :: "int \<Rightarrow> byte list" where
  "i32_to_bytes n = map (\<lambda>i. word_of_nat (nat (n mod 2 ^ 32) div 256 ^ i)) [0..<4]"

definition cont_byte :: "byte \<Rightarrow> bool" where
  "cont_byte b \<longleftrightarrow> 0x80 \<le> b \<and> b \<le> 0xbf"

fun utf8_valid :: "byte list \<Rightarrow> bool" where
  "utf8_valid [] = True"
| "utf8_valid (b # bs) =
     (if b \<le> 0x7f then utf8_valid bs
      else if 0xc2 \<le> b \<and> b \<le> 0xdf then
        (case bs of c # r \<Rightarrow> cont_byte c \<and> utf8_valid r | _ \<Rightarrow> False)
      else if 0xe0 \<le> b \<and> b \<le> 0xef then
        (case bs of c # d # r \<Rightarrow>
           cont_byte c \<and> cont_byte d \<and> (b = 0xe0 \<longrightarrow> 0xa0 \<le> c) \<and> (b = 0xed \<longrightarrow> c \<le> 0x9f) \<and> utf8_valid r
         | _ \<Rightarrow> False)
      else if 0xf0 \<le> b \<and> b \<le> 0xf4 then
        (case bs of c # d # e # r \<Rightarrow>
           cont_byte c \<and> cont_byte d \<and> cont_byte e \<and> (b = 0xf0 \<longrightarrow> 0x90 \<le> c) \<and>
           (b = 0xf4 \<longrightarrow> c \<le> 0x8f) \<and> utf8_valid r
         | _ \<Rightarrow> False)
      else False)"

definition string_from_utf8 :: "byte list \<Rightarrow> string option" where
  "string_from_utf8 bs = (if utf8_valid bs then Some (map (\<lambda>b. char_of (unat b)) bs) else None)"

section \<open>The pool\<close>

definition USER_PATH_MAX :: usize where "USER_PATH_MAX = 4096"
definition USER_EXEC_ARGV_MAX :: usize where "USER_EXEC_ARGV_MAX = 256"
definition USER_EXEC_ENVP_MAX :: usize where "USER_EXEC_ENVP_MAX = 256"
definition USER_EXEC_STRING_MAX :: usize where "USER_EXEC_STRING_MAX = 4096"
definition USER_SHARED_PAGE_POOL_SLOTS :: usize where "USER_SHARED_PAGE_POOL_SLOTS = 16"

record execve_user_input =
  ex_filename :: string
  ex_argv :: "string list"
  ex_envp :: "string list"

record pool_entry =
  pe_map_vaddr :: usize
  pe_scratch_vaddr :: usize
  pe_pages :: usize
  pe_frame_cap :: usize
  pe_perms :: perms

record page_pool =
  pool_entries :: "pool_entry option list"
  pool_occupied :: "bool list"
  pool_policy :: lru_policy

definition page_pool_new :: page_pool where
  "page_pool_new =
     \<lparr>pool_entries = replicate USER_SHARED_PAGE_POOL_SLOTS None,
      pool_occupied = replicate USER_SHARED_PAGE_POOL_SLOTS False, pool_policy = lru_new\<rparr>"

type_synonym ('i, 'p, 'w, 'a) sess_prog = "(page_pool \<times> ('i, 'p, 'w) ape, 'a) prog"

definition on_mgr :: "('i, 'p, 'w, 'a) ape_prog \<Rightarrow> ('x \<times> ('i, 'p, 'w) ape, 'a) prog" where
  [monad_simps]: "on_mgr m = (\<lambda>(q, s). case m s of (r, s') \<Rightarrow> (r, (q, s')))"

definition get_pool :: "('i, 'p, 'w, page_pool) sess_prog" where
  [monad_simps]: "get_pool = gets fst"

definition upd_pool :: "(page_pool \<Rightarrow> page_pool) \<Rightarrow> ('i, 'p, 'w, unit) sess_prog" where
  [monad_simps]: "upd_pool f = modify (\<lambda>(q, s). (f q, s))"

text \<open>The first occupied slot with the frame and enough permissions; an occupied slot
  without an entry is a panic of \<open>unwrap\<close>.\<close>

fun find_hit_loop :: "nat list \<Rightarrow> page_pool \<Rightarrow> memory_map \<Rightarrow> perms \<Rightarrow> nat option res" where
  "find_hit_loop [] q m prm = Ok None"
| "find_hit_loop (i # is) q m prm =
     (if pool_occupied q ! i then
        (case pool_entries q ! i of
           None \<Rightarrow> Panic
         | Some e \<Rightarrow>
             if pe_frame_cap e = frame_cap m \<and> prm \<subseteq> pe_perms e then Ok (Some i)
             else find_hit_loop is q m prm)
      else find_hit_loop is q m prm)"

definition find_hit :: "page_pool \<Rightarrow> memory_map \<Rightarrow> perms \<Rightarrow> nat option res" where
  "find_hit q m prm = find_hit_loop [0..<USER_SHARED_PAGE_POOL_SLOTS] q m prm"

definition pool_pick_slot :: "('i, 'p, 'w, usize) sess_prog" where
  "pool_pick_slot = (\<lambda>(q, s).
     case pick_slot lru_victim (pool_occupied q) (pool_policy q) of
       (r, pol) \<Rightarrow> (r, (q\<lparr>pool_policy := pol\<rparr>, s)))"

definition unmap_slot :: "('i, 'w) env \<Rightarrow> usize \<Rightarrow> ('i, 'p, 'w, unit) sess_prog" where
  "unmap_slot E slot =
     andThen get_pool (\<lambda>q.
     case pool_entries q ! slot of
       None \<Rightarrow> ret ()
     | Some e \<Rightarrow>
         andThen (upd_pool (\<lambda>q. q\<lparr>pool_entries := (pool_entries q)[slot := None]\<rparr>)) (\<lambda>_.
         andThen (on_mgr (ext (vm_unmap (vm E) (pe_scratch_vaddr e) (pe_pages e)))) (\<lambda>_.
         upd_pool (\<lambda>q. q\<lparr>pool_occupied := (pool_occupied q)[slot := False]\<rparr>))))"

definition acquire :: "('i, 'w) env \<Rightarrow> memory_map \<Rightarrow> perms \<Rightarrow> ('i, 'p, 'w, usize) sess_prog" where
  "acquire E m prm =
     andThen get_pool (\<lambda>q.
     andThen (lift_res (find_hit q m prm)) (\<lambda>hit.
     case hit of
       Some slot \<Rightarrow>
         andThen (upd_pool (\<lambda>q. q\<lparr>pool_policy := lru_touch slot (pool_policy q)\<rparr>)) (\<lambda>_.
         case pool_entries q ! slot of None \<Rightarrow> panic | Some e \<Rightarrow> ret (pe_scratch_vaddr e))
     | None \<Rightarrow>
         andThen pool_pick_slot (\<lambda>slot.
         andThen get_pool (\<lambda>q.
         andThen (whenM (pool_occupied q ! slot) (unmap_slot E slot)) (\<lambda>_.
         let pages = map_pages (mp E) m in
         andThen (on_mgr (ext (vm_map_scratch (vm E) (frame_cap m) prm pages))) (\<lambda>scratch.
         andThen (upd_pool (\<lambda>q. q\<lparr>
           pool_entries := (pool_entries q)[slot := Some \<lparr>pe_map_vaddr = map_vaddr m,
             pe_scratch_vaddr = scratch, pe_pages = pages, pe_frame_cap = frame_cap m,
             pe_perms = prm\<rparr>],
           pool_occupied := (pool_occupied q)[slot := True],
           pool_policy := lru_touch slot (pool_policy q)\<rparr>)) (\<lambda>_.
         ret scratch)))))))"

definition release_all :: "('i, 'w) env \<Rightarrow> ('i, 'p, 'w, unit) sess_prog" where
  "release_all E =
     forM [0..<USER_SHARED_PAGE_POOL_SLOTS] (\<lambda>i.
       andThen get_pool (\<lambda>q. whenM (pool_occupied q ! i) (unmap_slot E i)))"

section \<open>Finding the map of an address\<close>

definition grow_stack_page :: "('i, 'w) env \<Rightarrow> usize \<Rightarrow> usize \<Rightarrow> ('i, 'p, 'w, unit) ape_prog" where
  "grow_stack_page E p vaddr =
     andThen (ext (cspace_alloc (caps E))) (\<lambda>slot.
     andThen (ext (res_alloc (caps E) CapPage 1 slot)) (\<lambda>_.
     andThen (modify (ledger_record_frame_alloc p slot 1)) (\<lambda>_.
     andThen (map_process_frame E p slot vaddr {PERM_READ, PERM_WRITE} 1) (\<lambda>_.
     andThen (task_or NotFound p) (\<lambda>t.
     modify (upd_task p (upd_mem (\<lambda>m.
       (add_memory_map \<lparr>map_vaddr = vaddr, map_paddr = 0, map_size = PGSIZE (mp E),
          map_flags = {PERM_READ, PERM_WRITE}, mem_type = Stack, map_cow = False, frame_cap = slot,
          file_backing_fd = None, file_backing_offset = 0\<rparr> m)
       \<lparr>stack_size := sat_add (stack_size m) (PGSIZE (mp E))\<rparr>))))))))"

definition try_grow_stack_for_user_addr :: "('i, 'w) env \<Rightarrow> usize \<Rightarrow> usize \<Rightarrow> ('i, 'p, 'w, bool) ape_prog" where
  "try_grow_stack_for_user_addr E p addr =
     (let page_addr = align_down (mp E) addr (PGSIZE (mp E)) in
      andThen (task_or NotFound p) (\<lambda>t.
      let st = task_mem t;
          stack_low_limit = sat_sub (stack_bottom st) (max_stack_size st);
          current_stack_low = sat_sub (stack_bottom st) (stack_size st);
          pages_to_map = (current_stack_low - page_addr) div PGSIZE (mp E) in
      if \<not> (addr < stack_bottom st \<and> addr \<ge> stack_low_limit) then ret False
      else if page_addr \<ge> current_stack_low then ret False
      else if pages_to_map = 0 then ret False
      else
        andThen (forM [0..<pages_to_map] (\<lambda>idx.
          grow_stack_page E p (wrap_sub current_stack_low ((idx + 1) * PGSIZE (mp E))))) (\<lambda>_.
        ret True)))"

definition lookup_map :: "('i, 'w) env \<Rightarrow> usize \<Rightarrow> usize \<Rightarrow> perms \<Rightarrow> ('i, 'p, 'w, memory_map) ape_prog" where
  "lookup_map E p addr required =
     andThen (task_or NotFound p) (\<lambda>t.
     andThen
       (case lookup_memory_map (task_mem t) addr of
          Some m \<Rightarrow> ret (Some m)
        | None \<Rightarrow>
            andThen (attempt (try_grow_stack_for_user_addr E p addr)) (\<lambda>r.
            if r = Inr True then
              gets (\<lambda>s. Option.bind (get_process s p) (\<lambda>t. lookup_memory_map (task_mem t) addr))
            else ret None)) (\<lambda>found.
     andThen (lift_res (ok_or found InvalidAddress)) (\<lambda>m.
     if frame_cap m = 0 \<or> \<not> required \<subseteq> map_flags m then throw InvalidAddress
     else if addr < map_vaddr m \<or> addr \<ge> sat_add (map_vaddr m) (map_size m) then throw InvalidAddress
     else ret m)))"

section \<open>Copies\<close>

function copy_from_loop :: "('i, 'w) env \<Rightarrow> usize \<Rightarrow> usize \<Rightarrow> nat \<Rightarrow> ('i, 'p, 'w, byte list) sess_prog" where
  "copy_from_loop E p cursor remaining =
     (if remaining = 0 then ret []
      else
        andThen (on_mgr (lookup_map E p cursor {PERM_READ})) (\<lambda>m.
        let start = cursor - map_vaddr m; chunk = min (map_size m - start) remaining in
        if chunk = 0 then throw InvalidAddress
        else
          andThen (acquire E m {PERM_READ}) (\<lambda>scratch.
          andThen (on_mgr (gets (\<lambda>s. mem_load (vm E) (wrap_add scratch start) chunk (world s)))) (\<lambda>bs.
          andThen (copy_from_loop E p (sat_add cursor chunk) (remaining - chunk)) (\<lambda>rest.
          ret (bs @ rest))))))"
  by pat_completeness auto
termination by (relation "measure (\<lambda>(E, p, c, n). n)") (auto simp: Let_def)

declare copy_from_loop.simps [simp del]

definition sess_copy_from_user :: "('i, 'w) env \<Rightarrow> usize \<Rightarrow> usize \<Rightarrow> nat \<Rightarrow> ('i, 'p, 'w, byte list) sess_prog" where
  "sess_copy_from_user E p src len =
     (if len = 0 then ret [] else if src = 0 then throw InvalidAddress else copy_from_loop E p src len)"

function copy_to_loop :: "('i, 'w) env \<Rightarrow> usize \<Rightarrow> usize \<Rightarrow> byte list \<Rightarrow> ('i, 'p, 'w, unit) sess_prog" where
  "copy_to_loop E p cursor src =
     (if src = [] then ret ()
      else
        andThen (on_mgr (lookup_map E p cursor {PERM_WRITE})) (\<lambda>m.
        let start = cursor - map_vaddr m; chunk = min (map_size m - start) (length src) in
        if chunk = 0 then throw InvalidAddress
        else
          andThen (acquire E m {PERM_READ, PERM_WRITE}) (\<lambda>scratch.
          andThen (on_mgr (ext_do (mem_store (vm E) (wrap_add scratch start) (take chunk src)))) (\<lambda>_.
          copy_to_loop E p (sat_add cursor chunk) (drop chunk src)))))"
  by pat_completeness auto
termination by (relation "measure (\<lambda>(E, p, c, src). length src)") (auto simp: Let_def)

declare copy_to_loop.simps [simp del]

definition sess_copy_to_user :: "('i, 'w) env \<Rightarrow> usize \<Rightarrow> usize \<Rightarrow> byte list \<Rightarrow> ('i, 'p, 'w, unit) sess_prog" where
  "sess_copy_to_user E p dst src =
     (if src = [] then ret () else if dst = 0 then throw InvalidAddress else copy_to_loop E p dst src)"

text \<open>The bytes before the first NUL, and whether there is one.\<close>

definition until_nul :: "byte list \<Rightarrow> byte list \<times> bool" where
  "until_nul bs = (takeWhile (\<lambda>b. b \<noteq> 0) bs, 0 \<in> set bs)"

function strncpy_loop :: "('i, 'w) env \<Rightarrow> usize \<Rightarrow> usize \<Rightarrow> nat \<Rightarrow> byte list \<Rightarrow> ('i, 'p, 'w, string) sess_prog" where
  "strncpy_loop E p cursor left out =
     (if left = 0 then throw MessageTooLong
      else
        andThen (on_mgr (lookup_map E p cursor {PERM_READ})) (\<lambda>m.
        let start = cursor - map_vaddr m; available = min (map_size m - start) left in
        if available = 0 then throw MessageTooLong
        else
          andThen (acquire E m {PERM_READ}) (\<lambda>scratch.
          andThen (on_mgr (gets (\<lambda>s. mem_load (vm E) (wrap_add scratch start) available (world s)))) (\<lambda>bs.
          case until_nul bs of
            (found, nul) \<Rightarrow>
              if nul then lift_res (ok_or (string_from_utf8 (out @ found)) InvalidArgs)
              else strncpy_loop E p (sat_add cursor available) (left - available) (out @ found)))))"
  by pat_completeness auto
termination by (relation "measure (\<lambda>(E, p, c, n, out). n)") (auto simp: Let_def)

declare strncpy_loop.simps [simp del]

definition sess_strncpy_from_user :: "('i, 'w) env \<Rightarrow> usize \<Rightarrow> usize \<Rightarrow> usize \<Rightarrow> ('i, 'p, 'w, string) sess_prog" where
  "sess_strncpy_from_user E p src max_len =
     (if src = 0 then throw InvalidAddress
      else if max_len = 0 then throw InvalidArgs
      else strncpy_loop E p src max_len [])"

definition read_user_usize :: "('i, 'w) env \<Rightarrow> usize \<Rightarrow> usize \<Rightarrow> ('i, 'p, 'w, usize) sess_prog" where
  "read_user_usize E p src =
     andThen (sess_copy_from_user E p src 8) (\<lambda>bs. ret (bytes_to_nat bs))"

fun read_strings_loop ::
  "nat list \<Rightarrow> ('i, 'w) env \<Rightarrow> usize \<Rightarrow> usize \<Rightarrow> usize \<Rightarrow> string list \<Rightarrow> ('i, 'p, 'w, string list) sess_prog" where
  "read_strings_loop [] E p array max_str out = throw MessageTooLong"
| "read_strings_loop (i # is) E p array max_str out =
     andThen (lift_res (ok_or (if i * 8 \<le> usize_max then checked_add array (i * 8) else None) InvalidAddress)) (\<lambda>addr.
     andThen (read_user_usize E p addr) (\<lambda>elem.
     if elem = 0 then ret out
     else
       andThen (sess_strncpy_from_user E p elem max_str) (\<lambda>str.
       read_strings_loop is E p array max_str (out @ [str]))))"

definition read_user_string_array ::
  "('i, 'w) env \<Rightarrow> usize \<Rightarrow> usize \<Rightarrow> usize \<Rightarrow> usize \<Rightarrow> ('i, 'p, 'w, string list) sess_prog" where
  "read_user_string_array E p array max_count max_str =
     (if array = 0 then ret [] else read_strings_loop [0..<max_count] E p array max_str [])"

definition sess_parse_execve_user_input ::
  "('i, 'w) env \<Rightarrow> usize \<Rightarrow> usize \<Rightarrow> usize \<Rightarrow> usize \<Rightarrow> ('i, 'p, 'w, execve_user_input) sess_prog" where
  "sess_parse_execve_user_input E p fname argv envp =
     andThen (sess_strncpy_from_user E p fname USER_PATH_MAX) (\<lambda>f.
     andThen (read_user_string_array E p argv USER_EXEC_ARGV_MAX USER_EXEC_STRING_MAX) (\<lambda>av.
     andThen (read_user_string_array E p envp USER_EXEC_ENVP_MAX USER_EXEC_STRING_MAX) (\<lambda>ev.
     ret \<lparr>ex_filename = f, ex_argv = av, ex_envp = ev\<rparr>)))"

section \<open>Sessions\<close>

text \<open>The pool is released whatever the body returned; the body's error wins.\<close>

definition with_user_session ::
  "('i, 'w) env \<Rightarrow> ('i, 'p, 'w, 'a) sess_prog \<Rightarrow> ('i, 'p, 'w, 'a) ape_prog" where
  "with_user_session E f s =
     (case f (page_pool_new, s) of
        (Panic, (q, s')) \<Rightarrow> (Panic, s')
      | (r, (q, s')) \<Rightarrow>
          (case release_all E (q, s') of
             (cleanup, (_, s'')) \<Rightarrow>
               ((case (r, cleanup) of
                   (_, Panic) \<Rightarrow> Panic
                 | (Err e, _) \<Rightarrow> Err e
                 | (Ok _, Err e) \<Rightarrow> Err e
                 | (Ok v, Ok _) \<Rightarrow> Ok v
                 | (Panic, _) \<Rightarrow> Panic), s'')))"

definition copy_from_user :: "('i, 'w) env \<Rightarrow> usize \<Rightarrow> usize \<Rightarrow> nat \<Rightarrow> ('i, 'p, 'w, byte list) ape_prog" where
  "copy_from_user E p src len = with_user_session E (sess_copy_from_user E p src len)"

definition copy_to_user :: "('i, 'w) env \<Rightarrow> usize \<Rightarrow> usize \<Rightarrow> byte list \<Rightarrow> ('i, 'p, 'w, unit) ape_prog" where
  "copy_to_user E p dst src = with_user_session E (sess_copy_to_user E p dst src)"

function write_zeros_loop :: "('i, 'w) env \<Rightarrow> usize \<Rightarrow> usize \<Rightarrow> nat \<Rightarrow> nat \<Rightarrow> ('i, 'p, 'w, unit) ape_prog" where
  "write_zeros_loop E p ptr len done =
     (if done < len then
        let chunk = min (len - done) 64 in
        andThen (copy_to_user E p (wrap_add ptr done) (replicate chunk 0)) (\<lambda>_.
        write_zeros_loop E p ptr len (done + chunk))
      else ret ())"
  by pat_completeness auto
termination by (relation "measure (\<lambda>(E, p, ptr, len, d). len - d)") auto

declare write_zeros_loop.simps [simp del]

definition write_zeros_to_user :: "('i, 'w) env \<Rightarrow> usize \<Rightarrow> usize \<Rightarrow> usize \<Rightarrow> ('i, 'p, 'w, unit) ape_prog" where
  "write_zeros_to_user E p ptr len =
     (if ptr = 0 \<or> len = 0 then ret () else write_zeros_loop E p ptr len 0)"

definition strncpy_from_user :: "('i, 'w) env \<Rightarrow> usize \<Rightarrow> usize \<Rightarrow> usize \<Rightarrow> ('i, 'p, 'w, string) ape_prog" where
  "strncpy_from_user E p src max_len = with_user_session E (sess_strncpy_from_user E p src max_len)"

definition parse_execve_user_input ::
  "('i, 'w) env \<Rightarrow> usize \<Rightarrow> usize \<Rightarrow> usize \<Rightarrow> usize \<Rightarrow> ('i, 'p, 'w, execve_user_input) ape_prog" where
  "parse_execve_user_input E p fname argv envp =
     with_user_session E (sess_parse_execve_user_input E p fname argv envp)"

text \<open>An object is written as its bytes.\<close>

definition write_obj_to_user :: "('i, 'w) env \<Rightarrow> usize \<Rightarrow> usize \<Rightarrow> byte list \<Rightarrow> ('i, 'p, 'w, unit) ape_prog" where
  "write_obj_to_user E p ptr bytes = copy_to_user E p ptr bytes"

section \<open>What an access can change\<close>

text \<open>
  Two states that differ at most in the world, in the ledger and in the memory map of
  process \<open>p\<close> (a copy may grow its stack).
\<close>

definition mem_only :: "usize \<Rightarrow> ('i, 'p, 'w) ape \<Rightarrow> ('i, 'p, 'w) ape \<Rightarrow> bool" where
  "mem_only p s0 s \<longleftrightarrow>
     ipc s = ipc s0 \<and> async_runtime s = async_runtime s0 \<and> runtime s = runtime s0 \<and>
     fs_sub s = fs_sub s0 \<and> (ts s)\<lparr>tasks := []\<rparr> = (ts s0)\<lparr>tasks := []\<rparr> \<and>
     (bt_ok (tasks (ts s0)) \<longrightarrow> bt_ok (tasks (ts s)) \<and> bt_keys (tasks (ts s)) = bt_keys (tasks (ts s0))) \<and>
     (\<forall>q. q \<noteq> p \<longrightarrow> get_process s q = get_process s0 q) \<and>
     (\<exists>f. get_process s p = map_option (upd_mem f) (get_process s0 p))"

lemma upd_mem_id [simp]: "upd_mem (\<lambda>m. m) t = t"
  by (simp add: upd_mem_def task_mem_def)

lemma upd_mem_comp [simp]: "upd_mem g (upd_mem f t) = upd_mem (\<lambda>m. g (f m)) t"
  by (simp add: upd_mem_def task_mem_def)

lemma task_mem_upd_mem [simp]: "task_mem (upd_mem f t) = f (task_mem t)"
  by (simp add: upd_mem_def task_mem_def)

lemma mem_only_refl [simp]: "mem_only p s s"
  by (cases "get_process s p") (auto simp: mem_only_def intro!: exI[of _ "\<lambda>m. m"])

lemma mem_only_world [simp]: "mem_only p s0 (s\<lparr>world := w\<rparr>) = mem_only p s0 s"
  by (simp add: mem_only_def)

lemma mem_only_resources [simp]: "mem_only p s0 (upd_resources f s) = mem_only p s0 s"
  by (simp add: mem_only_def)

lemma mem_only_upd_mem [simp]: "mem_only p s0 s \<Longrightarrow> mem_only p s0 (upd_task p (upd_mem g) s)"
proof -
  assume a: "mem_only p s0 s"
  then obtain f where "get_process s p = map_option (upd_mem f) (get_process s0 p)"
    by (auto simp: mem_only_def)
  then have "get_process (upd_task p (upd_mem g) s) p = map_option (upd_mem (\<lambda>m. g (f m))) (get_process s0 p)"
    by (cases "get_process s0 p") simp_all
  with a show ?thesis unfolding mem_only_def by auto
qed

lemma mem_only_tables: "mem_only p s0 s \<Longrightarrow> tables_only p s s' \<Longrightarrow> mem_only p s0 s'"
proof -
  assume a: "mem_only p s0 s" and b: "tables_only p s s'"
  from a obtain f where f: "get_process s p = map_option (upd_mem f) (get_process s0 p)"
    by (auto simp: mem_only_def)
  from b obtain g where "get_process s' p = map_option (upd_mem (intermediate_page_tables_update g)) (get_process s p)"
    by (auto simp: tables_only_def)
  with f have "get_process s' p =
      map_option (upd_mem (\<lambda>m. intermediate_page_tables_update g (f m))) (get_process s0 p)"
    by (cases "get_process s0 p") simp_all
  with a b show ?thesis unfolding mem_only_def tables_only_def by auto
qed

lemma keeps_mem_only_tables:
  assumes "\<And>s. keeps (tables_only p s) m"
  shows "keeps (mem_only p s0) m"
  by (rule keepsI, erule mem_only_tables, rule keeps_state[OF assms]) simp

lemmas keeps_user = keeps_ext keeps_ext_do keeps_modify

lemma map_process_frame_mem [keeps_intro]: "keeps (mem_only p s0) (map_process_frame E p frame v prm pages)"
  by (rule keeps_mem_only_tables) (rule map_process_frame_tables)

lemma unmap_process_pages_mem [keeps_intro]: "keeps (mem_only p s0) (unmap_process_pages E p v pages)"
  by (rule keeps_mem_only_tables) (rule unmap_process_pages_tables)

lemma lookup_map_mem [keeps_intro]: "keeps (mem_only p s0) (lookup_map E p addr required)"
  unfolding lookup_map_def try_grow_stack_for_user_addr_def grow_stack_page_def
    ledger_record_frame_alloc_def
  by (auto intro!: keeps_intro keeps_user)

text \<open>The same for programs of a session, on the manager's half of the state.\<close>

abbreviation mem_snd :: "usize \<Rightarrow> ('i, 'p, 'w) ape \<Rightarrow> page_pool \<times> ('i, 'p, 'w) ape \<Rightarrow> bool" where
  "mem_snd p s0 x \<equiv> mem_only p s0 (snd x)"

lemma keeps_on_mgr [keeps_intro]: "keeps P m \<Longrightarrow> keeps (\<lambda>x. P (snd x)) (on_mgr m)"
  by (auto simp: keeps_def on_mgr_def split: prod.splits)

lemma keeps_upd_pool [keeps_intro]: "keeps (\<lambda>x. P (snd x)) (upd_pool f)"
  by (auto simp: keeps_def upd_pool_def modify_def)

lemma keeps_get_pool [keeps_intro]: "keeps P get_pool"
  by (simp add: get_pool_def keeps_intro)

lemma unmap_slot_mem [keeps_intro]: "keeps (mem_snd p s0) (unmap_slot E slot)"
  unfolding unmap_slot_def by (auto intro!: keeps_intro keeps_user)

lemma pool_pick_slot_mem [keeps_intro]: "keeps (mem_snd p s0) pool_pick_slot"
  by (auto simp: keeps_def pool_pick_slot_def split: prod.splits)

lemma acquire_mem [keeps_intro]: "keeps (mem_snd p s0) (acquire E m prm)"
  unfolding acquire_def by (auto intro!: keeps_intro keeps_user)

lemma release_all_mem [keeps_intro]: "keeps (mem_snd p s0) (release_all E)"
  unfolding release_all_def by (auto intro!: keeps_intro)

lemma copy_from_loop_mem [keeps_intro]: "keeps (mem_snd p s0) (copy_from_loop E p c n)"
proof (induction E p c n rule: copy_from_loop.induct)
  case (1 E p c n)
  show ?case
    by (subst copy_from_loop.simps) (auto intro!: keeps_intro keeps_user 1 simp: Let_def)
qed

lemma copy_to_loop_mem [keeps_intro]: "keeps (mem_snd p s0) (copy_to_loop E p c src)"
proof (induction E p c src rule: copy_to_loop.induct)
  case (1 E p c src)
  show ?case
    by (subst copy_to_loop.simps) (auto intro!: keeps_intro keeps_user 1 simp: Let_def)
qed

lemma strncpy_loop_mem [keeps_intro]: "keeps (mem_snd p s0) (strncpy_loop E p c n out)"
proof (induction E p c n out rule: strncpy_loop.induct)
  case (1 E p c n out)
  show ?case
    by (subst strncpy_loop.simps) (auto intro!: keeps_intro keeps_user intro: 1 sym simp: Let_def)
qed

lemma read_user_string_array_mem [keeps_intro]: "keeps (mem_snd p s0) (read_user_string_array E p a n m)"
proof -
  have "keeps (mem_snd p s0) (read_strings_loop is E p a m out)" for "is" out
    by (induction "is" arbitrary: out)
      (auto intro!: keeps_intro simp: read_user_usize_def sess_copy_from_user_def sess_strncpy_from_user_def)
  then show ?thesis by (auto simp: read_user_string_array_def intro!: keeps_intro)
qed

lemma with_user_session_mem:
  assumes "keeps (mem_snd p s0) f"
  shows "keeps (mem_only p s0) (with_user_session E f)"
proof (rule keepsI)
  fix s assume "mem_only p s0 s"
  then have a: "mem_snd p s0 (snd (f (page_pool_new, s)))"
    using keeps_state[OF assms, of "(page_pool_new, s)"] by simp
  have b: "mem_snd p s0 (snd (release_all E x))" if "mem_snd p s0 x" for x
    using keeps_state[OF release_all_mem that] .
  show "mem_only p s0 (snd (with_user_session E f s))"
    using a b unfolding with_user_session_def
    by (auto split: prod.split res.split) (metis snd_conv)+
qed

lemma user_access_mem [keeps_intro]:
  "keeps (mem_only p s0) (copy_from_user E p src n)"
  "keeps (mem_only p s0) (copy_to_user E p dst bytes)"
  "keeps (mem_only p s0) (strncpy_from_user E p src n)"
  "keeps (mem_only p s0) (parse_execve_user_input E p a b c)"
  "keeps (mem_only p s0) (write_obj_to_user E p dst bytes)"
  unfolding copy_from_user_def copy_to_user_def strncpy_from_user_def parse_execve_user_input_def
    write_obj_to_user_def sess_copy_from_user_def sess_copy_to_user_def sess_strncpy_from_user_def
    sess_parse_execve_user_input_def
  by (auto intro!: with_user_session_mem keeps_intro)

lemma write_zeros_mem [keeps_intro]: "keeps (mem_only p s0) (write_zeros_to_user E p ptr len)"
proof -
  have "keeps (mem_only p s0) (write_zeros_loop E p ptr len d)" for d
  proof (induction E p ptr len d rule: write_zeros_loop.induct)
    case (1 E p ptr len d)
    then show ?case by (subst write_zeros_loop.simps) (auto intro!: keeps_intro simp: Let_def)
  qed
  then show ?thesis by (auto simp: write_zeros_to_user_def intro!: keeps_intro)
qed

section \<open>Permissions of a copy\<close>

text \<open>A range that the growth of the stack does not concern.\<close>

definition off_stack :: "mm_state \<Rightarrow> usize \<Rightarrow> nat \<Rightarrow> bool" where
  "off_stack st a n \<longleftrightarrow>
     a + n \<le> sat_sub (stack_bottom st) (max_stack_size st) \<or> stack_bottom st \<le> a"

definition permits :: "mm_state \<Rightarrow> perm \<Rightarrow> usize \<Rightarrow> bool" where
  "permits st prm a \<longleftrightarrow>
     (\<exists>m \<in> set (bt_values (memory_maps st)). covers m a \<and> prm \<in> map_flags m \<and> frame_cap m \<noteq> 0)"

lemma on_mgr_Ok [ok_iff]:
  "on_mgr m (q, s) = (Ok x, z) \<longleftrightarrow> (\<exists>s'. m s = (Ok x, s') \<and> z = (q, s'))"
  by (auto simp: on_mgr_def split: prod.splits)

lemma lookup_map_off_stack:
  assumes "lookup_map E p a req s = (Ok m, s')" and "get_process s p = Some t"
    and "off_stack (task_mem t) a n" and "0 < n"
  shows "s' = s \<and> lookup_memory_map (task_mem t) a = Some m \<and> frame_cap m \<noteq> 0 \<and> req \<subseteq> map_flags m"
proof (cases "lookup_memory_map (task_mem t) a")
  case (Some m')
  with assms(1,2) show ?thesis
    by (auto simp: lookup_map_def ok_iff split: if_splits)
next
  case None
  from assms(3,4) have out: "\<not> (a < stack_bottom (task_mem t) \<and>
      sat_sub (stack_bottom (task_mem t)) (max_stack_size (task_mem t)) \<le> a)"
    by (auto simp: off_stack_def)
  have "try_grow_stack_for_user_addr E p a s = (Ok False, s)"
    using assms(2) out
    by (simp add: try_grow_stack_for_user_addr_def monad_simps task_or_def Let_def)
  with None assms(1,2) show ?thesis
    by (auto simp: lookup_map_def ok_iff)
qed

lemma acquire_process:
  assumes "acquire E m prm x = (r, x')"
  shows "get_process (snd x') p = get_process (snd x) p"
proof -
  have unmap: "keeps (\<lambda>z. get_process (snd z) p = y) (unmap_slot E slot)" for y slot
    unfolding unmap_slot_def
    by (auto intro!: keeps_intro keeps_user keeps_on_mgr[where P = "\<lambda>s. get_process s p = y"]
        keeps_upd_pool[where P = "\<lambda>s. get_process s p = y"])
  have pick: "keeps (\<lambda>z. get_process (snd z) p = y) pool_pick_slot" for y
    by (auto simp: keeps_def pool_pick_slot_def split: prod.splits)
  have "keeps (\<lambda>z. get_process (snd z) p = get_process (snd x) p) (acquire E m prm)"
    unfolding acquire_def
    by (auto intro!: keeps_intro keeps_user unmap pick
        keeps_on_mgr[where P = "\<lambda>s. get_process s p = get_process (snd x) p"]
        keeps_upd_pool[where P = "\<lambda>s. get_process s p = get_process (snd x) p"])
  from keepsD[OF this _ assms] show ?thesis by simp
qed

lemma off_stack_step:
  "off_stack st a n \<Longrightarrow> k \<le> n \<Longrightarrow> off_stack st (a + k) (n - k)"
  by (auto simp: off_stack_def)

text \<open>One round of a copy loop: the bytes of its chunk lie in the map that was found.\<close>

lemma chunk_permitted:
  assumes ok: "mm_ok st" and l: "lookup_memory_map st c = Some m" and "frame_cap m \<noteq> 0" and "prm \<in> map_flags m"
    and chunk: "chunk \<le> map_size m - (c - map_vaddr m)"
  shows "\<forall>i<chunk. permits st prm (c + i)" and "sat_add c chunk = c + chunk"
proof -
  from ok l have m: "m \<in> set (bt_values (memory_maps st))" "covers m c"
    by (simp_all add: lookup_memory_map_def mm_ok_def lookup_in_exact)
  then have "covers m (c + i)" if "i < chunk" for i
    using that chunk by (auto simp: covers_def)
  with m assms(3,4) show "\<forall>i<chunk. permits st prm (c + i)" by (auto simp: permits_def)
  from m(1) ok have "map_vaddr m + map_size m \<le> usize_max"
    by (auto simp: mm_ok_def maps_ok_def bt_values_def)
  with m(2) chunk show "sat_add c chunk = c + chunk" by (auto simp: covers_def sat_add_def)
qed

lemma permits_append:
  assumes "\<forall>i<k. permits st prm (c + i)" and "\<forall>i<n - k. permits st prm (c + k + i)"
  shows "\<forall>i<n. permits st prm (c + i)"
proof (intro allI impI)
  fix i assume "i < n"
  show "permits st prm (c + i)"
  proof (cases "i < k")
    case False
    with \<open>i < n\<close> assms(2)[rule_format, of "i - k"] show ?thesis by simp
  qed (use assms(1) in simp)
qed

lemma copy_to_loop_permitted:
  assumes "copy_to_loop E p c src (q, s) = (Ok u, z)" and "get_process s p = Some t"
    and "mm_ok (task_mem t)" and "off_stack (task_mem t) c (length src)"
  shows "(\<forall>i<length src. permits (task_mem t) PERM_WRITE (c + i)) \<and> get_process (snd z) p = Some t"
  using assms
proof (induction E p c src arbitrary: q s rule: copy_to_loop.induct)
  case (1 E p c src)
  show ?case
  proof (cases "src = []")
    case False
    with "1.prems"(1) obtain m s1 scr x2 x3 where
      l: "lookup_map E p c {PERM_WRITE} s = (Ok m, s1)"
      and ne: "min (map_size m - (c - map_vaddr m)) (length src) \<noteq> 0"
      and acq: "acquire E m {PERM_READ, PERM_WRITE} (q, s1) = (Ok scr, x2)"
      and st: "on_mgr (ext_do (mem_store (vm E) (wrap_add scr (c - map_vaddr m))
          (take (min (map_size m - (c - map_vaddr m)) (length src)) src))) x2 = (Ok (), x3)"
      and rest: "copy_to_loop E p (sat_add c (min (map_size m - (c - map_vaddr m)) (length src)))
          (drop (min (map_size m - (c - map_vaddr m)) (length src)) src) x3 = (Ok u, z)"
      by (subst (asm) copy_to_loop.simps) (auto simp: ok_iff Let_def split: if_splits)
    let ?k = "min (map_size m - (c - map_vaddr m)) (length src)"
    from lookup_map_off_stack[OF l "1.prems"(2,4)] False
    have s1: "s1 = s" "lookup_memory_map (task_mem t) c = Some m" "frame_cap m \<noteq> 0" "PERM_WRITE \<in> map_flags m"
      by auto
    obtain q3 s3 where x3: "x3 = (q3, s3)" by fastforce
    have p3: "get_process s3 p = Some t"
      using acquire_process[OF acq, of p] st "1.prems"(2) s1(1) x3
      by (cases x2) (auto simp: ok_iff)
    note ch = chunk_permitted[OF "1.prems"(3) s1(2-4), of ?k, OF min.cobounded1]
    have off: "off_stack (task_mem t) (sat_add c ?k) (length (drop ?k src))"
      using off_stack_step[OF "1.prems"(4), of ?k] ch(2) by simp
    note ih = "1.IH"[OF False refl refl ne rest[unfolded x3] p3 "1.prems"(3) off]
    have tail: "\<forall>i<length src - ?k. permits (task_mem t) PERM_WRITE (c + ?k + i)"
      and fin: "get_process (snd z) p = Some t"
      using ih unfolding ch(2) length_drop by blast+
    show ?thesis using permits_append[OF ch(1) tail] fin by blast
  qed (use "1.prems" in \<open>simp add: copy_to_loop.simps ok_iff\<close>)
qed

lemma copy_from_loop_permitted:
  assumes "copy_from_loop E p c n (q, s) = (Ok bs, z)" and "get_process s p = Some t"
    and "mm_ok (task_mem t)" and "off_stack (task_mem t) c n"
  shows "(\<forall>i<n. permits (task_mem t) PERM_READ (c + i)) \<and> get_process (snd z) p = Some t"
  using assms
proof (induction E p c n arbitrary: q s bs rule: copy_from_loop.induct)
  case (1 E p c n)
  show ?case
  proof (cases "n = 0")
    case False
    with "1.prems"(1) obtain m s1 scr x2 bs' where
      l: "lookup_map E p c {PERM_READ} s = (Ok m, s1)"
      and ne: "min (map_size m - (c - map_vaddr m)) n \<noteq> 0"
      and acq: "acquire E m {PERM_READ} (q, s1) = (Ok scr, x2)"
      and rest: "copy_from_loop E p (sat_add c (min (map_size m - (c - map_vaddr m)) n))
          (n - min (map_size m - (c - map_vaddr m)) n) x2 = (Ok bs', z)"
      by (subst (asm) copy_from_loop.simps)
        (auto simp: ok_iff Let_def split: if_splits)
    let ?k = "min (map_size m - (c - map_vaddr m)) n"
    from lookup_map_off_stack[OF l "1.prems"(2,4)] False
    have s1: "s1 = s" "lookup_memory_map (task_mem t) c = Some m" "frame_cap m \<noteq> 0" "PERM_READ \<in> map_flags m"
      by auto
    obtain q2 s2 where x2: "x2 = (q2, s2)" by fastforce
    have p2: "get_process s2 p = Some t"
      using acquire_process[OF acq, of p] "1.prems"(2) s1(1) x2 by simp
    note ch = chunk_permitted[OF "1.prems"(3) s1(2-4), of ?k, OF min.cobounded1]
    have off: "off_stack (task_mem t) (sat_add c ?k) (n - ?k)"
      using off_stack_step[OF "1.prems"(4), of ?k] ch(2) by simp
    note ih = "1.IH"[OF False refl refl ne rest[unfolded x2] p2 "1.prems"(3) off]
    have tail: "\<forall>i<n - ?k. permits (task_mem t) PERM_READ (c + ?k + i)"
      and fin: "get_process (snd z) p = Some t"
      using ih unfolding ch(2) by blast+
    show ?thesis using permits_append[OF ch(1) tail] fin by blast
  qed (use "1.prems" in \<open>simp add: copy_from_loop.simps ok_iff\<close>)
qed

lemma release_all_process: "get_process (snd (snd (release_all E x))) p = get_process (snd x) p"
proof -
  have unmap: "keeps (\<lambda>z. get_process (snd z) p = y) (unmap_slot E slot)" for y slot
    unfolding unmap_slot_def
    by (auto intro!: keeps_intro keeps_user keeps_on_mgr[where P = "\<lambda>s. get_process s p = y"]
        keeps_upd_pool[where P = "\<lambda>s. get_process s p = y"])
  have "keeps (\<lambda>z. get_process (snd z) p = get_process (snd x) p) (release_all E)"
    unfolding release_all_def by (auto intro!: keeps_intro unmap)
  from keeps_state[OF this, of x] show ?thesis by simp
qed

lemma with_user_session_Ok:
  assumes "with_user_session E f s = (Ok v, s')"
  shows "\<exists>z. f (page_pool_new, s) = (Ok v, z) \<and> get_process s' p = get_process (snd z) p"
proof -
  from assms obtain q z c q2 where
    "f (page_pool_new, s) = (Ok v, (q, z))" "release_all E (q, z) = (c, (q2, s'))"
    unfolding with_user_session_def by (auto split: prod.splits res.splits)
  with release_all_process[of E "(q, z)" p] show ?thesis by auto
qed

section \<open>Properties\<close>

text \<open>
  C11: whatever addresses a process hands to the service, whatever the kernel answers and
  however the copy ends, copying to or from the memory of a process changes nothing in the
  manager but the memory map of that process (its stack may grow) and the ledger.
\<close>

theorem user_copy_confined:
  "mem_only p s (snd (copy_from_user E p src n s)) \<and>
   mem_only p s (snd (copy_to_user E p dst bytes s)) \<and>
   mem_only p s (snd (write_zeros_to_user E p dst n s)) \<and>
   mem_only p s (snd (strncpy_from_user E p src n s)) \<and>
   mem_only p s (snd (parse_execve_user_input E p fname argv envp s))"
  by (intro conjI keeps_state[where P = "mem_only p s"] keeps_intro mem_only_refl)

text \<open>
  C4: outside the window in which the stack may grow, a copy into the memory of a process
  succeeds only when every single byte of the range lies in a map that is writable and
  backed by a frame, a copy out of it only when every byte lies in a readable one, and
  neither changes the process.
\<close>

theorem user_copy_needs_permission:
  assumes "get_process s p = Some t" and "mm_ok (task_mem t)" and "off_stack (task_mem t) a n"
  shows "(\<forall>bytes s'. length bytes = n \<and> copy_to_user E p a bytes s = (Ok (), s') \<longrightarrow>
            (\<forall>i<n. permits (task_mem t) PERM_WRITE (a + i)) \<and> get_process s' p = Some t) \<and>
         (\<forall>bytes s'. copy_from_user E p a n s = (Ok bytes, s') \<longrightarrow>
            (\<forall>i<n. permits (task_mem t) PERM_READ (a + i)) \<and> get_process s' p = Some t)"
proof (intro conjI; intro allI impI)
  fix bytes :: "byte list" and s' assume c: "length bytes = n \<and> copy_to_user E p a bytes s = (Ok (), s')"
  then obtain z where z: "sess_copy_to_user E p a bytes (page_pool_new, s) = (Ok (), z)"
    "get_process s' p = get_process (snd z) p"
    using with_user_session_Ok[of E "sess_copy_to_user E p a bytes" s "()" s' p] by (auto simp: copy_to_user_def)
  show "(\<forall>i<n. permits (task_mem t) PERM_WRITE (a + i)) \<and> get_process s' p = Some t"
    using z assms c copy_to_loop_permitted[of E p a bytes page_pool_new s "()" z t]
    by (auto simp: sess_copy_to_user_def ok_iff split: if_splits)
next
  fix bytes :: "byte list" and s' assume c: "copy_from_user E p a n s = (Ok bytes, s')"
  then obtain z where z: "sess_copy_from_user E p a n (page_pool_new, s) = (Ok bytes, z)"
    "get_process s' p = get_process (snd z) p"
    using with_user_session_Ok[of E "sess_copy_from_user E p a n" s bytes s' p] by (auto simp: copy_from_user_def)
  show "(\<forall>i<n. permits (task_mem t) PERM_READ (a + i)) \<and> get_process s' p = Some t"
    using z assms copy_from_loop_permitted[of E p a n page_pool_new s bytes z t]
    by (auto simp: sess_copy_from_user_def ok_iff split: if_splits)
qed

text \<open>A process with one writable page.\<close>

definition example_page :: memory_map where
  "example_page =
     \<lparr>map_vaddr = 0x20010000, map_paddr = 0, map_size = 0x1000, map_flags = {PERM_READ, PERM_WRITE},
      mem_type = Anonymous, map_cow = False, frame_cap = 5, file_backing_fd = None, file_backing_offset = 0\<rparr>"

definition example_mem_task :: "unit task_struct" where
  "example_mem_task = upd_mem (add_memory_map example_page) (example_task 1 0)"

lemmas example_mem_task_simps =
  example_mem_task_def example_page_def example_task_def task_struct_new_def add_memory_map_def
  mm_struct_new_def example_mem_params_def DEFAULT_MMAP_BASE_def DEFAULT_MMAP_LIMIT_def
  DEFAULT_HEAP_LIMIT_def DEFAULT_MAX_STACK_SIZE_def

lemma example_mem_task_ok:
  "mm_ok (task_mem example_mem_task)" "off_stack (task_mem example_mem_task) 0x20010ff8 8"
  "get_process (example_ape [example_mem_task]) 1 = Some example_mem_task"
  by (simp_all add: example_mem_task_simps task_mem_def upd_mem_def mm_ok_def maps_ok_def bt_ok_def
      usize_max_def off_stack_def sat_sub_def)

text \<open>A copy within one map, with the services of the example.\<close>

lemma find_hit_free: "\<forall>i \<in> set is. \<not> pool_occupied q ! i \<Longrightarrow> find_hit_loop is q m prm = Ok None"
  by (induction "is") auto

lemma release_free:
  "\<forall>i \<in> set is. \<not> pool_occupied q ! i \<Longrightarrow>
   forM is (\<lambda>i. andThen get_pool (\<lambda>q. whenM (pool_occupied q ! i) (unmap_slot E i))) (q, s) = (Ok (), (q, s))"
  by (induction "is") (auto simp: monad_simps)

lemma slots_Cons: "[0..<USER_SHARED_PAGE_POOL_SLOTS] = 0 # [1..<USER_SHARED_PAGE_POOL_SLOTS]"
  by (simp add: USER_SHARED_PAGE_POOL_SLOTS_def upt_conv_Cons)

lemma pool_new_Cons:
  "pool_entries page_pool_new = None # replicate 15 None"
  "pool_occupied page_pool_new = False # replicate 15 False"
  by (simp_all add: page_pool_new_def USER_SHARED_PAGE_POOL_SLOTS_def numeral_eq_Suc)

lemma pool_new_free: "i < USER_SHARED_PAGE_POOL_SLOTS \<Longrightarrow> \<not> pool_occupied page_pool_new ! i"
  by (simp add: page_pool_new_def)

lemma example_acquire:
  "\<exists>q. acquire example_env m prm (page_pool_new, s) = (Ok 0x70000000, (q, s)) \<and>
     (\<exists>q'. release_all example_env (q, s) = (Ok (), (q', s)))"
proof -
  let ?e = "\<lparr>pe_map_vaddr = map_vaddr m, pe_scratch_vaddr = 0x70000000, pe_pages = map_pages example_mem_params m,
      pe_frame_cap = frame_cap m, pe_perms = prm\<rparr>"
  let ?q = "page_pool_new\<lparr>pool_entries := Some ?e # replicate 15 None,
      pool_occupied := True # replicate 15 False, pool_policy := lru_touch 0 (pool_policy page_pool_new)\<rparr>"
  let ?r = "?q\<lparr>pool_entries := None # replicate 15 None, pool_occupied := False # replicate 15 False\<rparr>"
  have "find_hit page_pool_new m prm = Ok None"
    by (simp add: find_hit_def find_hit_free pool_new_free)
  then have "acquire example_env m prm (page_pool_new, s) = (Ok 0x70000000, (?q, s))"
    by (simp add: acquire_def monad_simps pool_pick_slot_def pick_slot_def pool_new_Cons ext_simps)
  moreover have "unmap_slot example_env 0 (?q, s) = (Ok (), (?r, s))"
    by (simp add: unmap_slot_def monad_simps ext_simps)
  moreover have "\<forall>i \<in> set [1..<USER_SHARED_PAGE_POOL_SLOTS]. \<not> pool_occupied ?r ! i"
    by (auto simp: USER_SHARED_PAGE_POOL_SLOTS_def nth_Cons split: nat.split)
  then have "forM [1..<USER_SHARED_PAGE_POOL_SLOTS]
      (\<lambda>i. andThen get_pool (\<lambda>q. whenM (pool_occupied q ! i) (unmap_slot example_env i))) (?r, s) =
      (Ok (), (?r, s))" by (rule release_free)
  ultimately show ?thesis
    unfolding release_all_def slots_Cons by (simp add: monad_simps)
qed

lemma example_release_new: "release_all example_env (page_pool_new, s) = (Ok (), (page_pool_new, s))"
  unfolding release_all_def by (rule release_free) (simp add: pool_new_free)

lemma example_copy_to:
  assumes "lookup_map example_env p a {PERM_WRITE} s = (Ok m, s)" and "a \<noteq> 0"
    and "length bytes \<le> map_size m - (a - map_vaddr m)"
  shows "copy_to_user example_env p a bytes s = (Ok (), s)"
proof (cases "bytes = []")
  case False
  from example_acquire[of m "{PERM_READ, PERM_WRITE}" s] obtain q q' where
    q: "acquire example_env m {PERM_READ, PERM_WRITE} (page_pool_new, s) = (Ok 0x70000000, (q, s))"
    "release_all example_env (q, s) = (Ok (), (q', s))" by blast
  have "copy_to_loop example_env p a bytes (page_pool_new, s) = (Ok (), (q, s))"
    using False assms q(1)
    by (subst copy_to_loop.simps)
      (simp add: monad_simps Let_def ext_simps min_def copy_to_loop.simps[of _ _ _ "[]"])
  with False assms(2) q(2) show ?thesis
    by (simp add: copy_to_user_def with_user_session_def sess_copy_to_user_def)
qed (simp add: copy_to_user_def with_user_session_def sess_copy_to_user_def monad_simps example_release_new)

lemma example_copy_from:
  assumes "lookup_map example_env p a {PERM_READ} s = (Ok m, s)" and "a \<noteq> 0"
    and "n \<le> map_size m - (a - map_vaddr m)"
  shows "copy_from_user example_env p a n s = (Ok (replicate n 0), s)"
proof (cases "n = 0")
  case False
  from example_acquire[of m "{PERM_READ}" s] obtain q q' where
    q: "acquire example_env m {PERM_READ} (page_pool_new, s) = (Ok 0x70000000, (q, s))"
    "release_all example_env (q, s) = (Ok (), (q', s))" by blast
  have "copy_from_loop example_env p a n (page_pool_new, s) = (Ok (replicate n 0), (q, s))"
    using False assms q(1)
    by (subst copy_from_loop.simps)
      (simp add: monad_simps Let_def ext_simps min_def copy_from_loop.simps[of _ _ _ 0])
  with False assms(2) q(2) show ?thesis
    by (simp add: copy_from_user_def with_user_session_def sess_copy_from_user_def)
qed (simp add: copy_from_user_def with_user_session_def sess_copy_from_user_def monad_simps example_release_new)

lemma example_lookup_map:
  assumes "get_process s p = Some t" and "lookup_memory_map (task_mem t) a = Some m"
    and "frame_cap m \<noteq> 0" and "req \<subseteq> map_flags m" and "covers m a" and "map_vaddr m + map_size m \<le> usize_max"
  shows "lookup_map E p a req s = (Ok m, s)"
  using assms
  by (auto simp: lookup_map_def monad_simps task_or_def covers_def sat_add_def)

theorem user_copy_needs_permission_witness:
  "(\<exists>s'. copy_to_user example_env 1 0x20010ff8 [1, 2] (example_ape [example_mem_task]) = (Ok (), s')) \<and>
   permits (task_mem example_mem_task) PERM_WRITE (0x20010ff8 + 1)"
proof -
  have "lookup_memory_map (task_mem example_mem_task) 0x20010ff8 = Some example_page"
    by (simp add: example_mem_task_simps lookup_memory_map_def lookup_in_def bt_last_le_def usize_max_def
        task_mem_def upd_mem_def)
  then have "lookup_map example_env 1 0x20010ff8 {PERM_WRITE} (example_ape [example_mem_task]) =
      (Ok example_page, example_ape [example_mem_task])"
    by (rule example_lookup_map[OF example_mem_task_ok(3)])
      (simp_all add: example_page_def covers_def usize_max_def)
  from example_copy_to[OF this, of "[1, 2]"]
  have c: "copy_to_user example_env 1 0x20010ff8 [1, 2] (example_ape [example_mem_task]) =
      (Ok (), example_ape [example_mem_task])"
    by (simp add: example_page_def)
  have "off_stack (task_mem example_mem_task) 0x20010ff8 2"
    by (simp add: example_mem_task_simps off_stack_def sat_sub_def task_mem_def upd_mem_def)
  from user_copy_needs_permission[OF example_mem_task_ok(3,1) this] c
  have "\<forall>i<2. permits (task_mem example_mem_task) PERM_WRITE (0x20010ff8 + i)"
    by (metis length_Cons list.size(3) numeral_2_eq_2)
  then have "permits (task_mem example_mem_task) PERM_WRITE (0x20010ff8 + 1)"
    by (metis one_less_numeral_iff semiring_norm(76))
  with c show ?thesis by blast
qed

end
