(* ===== verification/Linux_Io_Abi.thy ===== *)
theory Linux_Io_Abi
  imports Prelude
begin

text \<open>
  Constants of the Linux interface (the \<open>linux-raw-sys\<close> crate) that the file,
  clock, polling, program-loading and power calls use.
\<close>

section \<open>Files\<close>

abbreviation (input) SEEK_SET :: nat where "SEEK_SET \<equiv> 0"
abbreviation (input) SEEK_CUR :: nat where "SEEK_CUR \<equiv> 1"
abbreviation (input) SEEK_END :: nat where "SEEK_END \<equiv> 2"
abbreviation (input) AT_FDCWD :: int where "AT_FDCWD \<equiv> -100"
abbreviation (input) AT_SYMLINK_NOFOLLOW :: "32 word" where "AT_SYMLINK_NOFOLLOW \<equiv> 0x100"
abbreviation (input) AT_REMOVEDIR :: "32 word" where "AT_REMOVEDIR \<equiv> 0x200"
abbreviation (input) AT_SYMLINK_FOLLOW :: "32 word" where "AT_SYMLINK_FOLLOW \<equiv> 0x400"
abbreviation (input) AT_NO_AUTOMOUNT :: "32 word" where "AT_NO_AUTOMOUNT \<equiv> 0x800"
abbreviation (input) AT_EMPTY_PATH :: "32 word" where "AT_EMPTY_PATH \<equiv> 0x1000"
abbreviation (input) MNT_FORCE :: "32 word" where "MNT_FORCE \<equiv> 1"
abbreviation (input) MNT_DETACH :: "32 word" where "MNT_DETACH \<equiv> 2"
abbreviation (input) MNT_EXPIRE :: "32 word" where "MNT_EXPIRE \<equiv> 4"
abbreviation (input) UMOUNT_NOFOLLOW :: "32 word" where "UMOUNT_NOFOLLOW \<equiv> 8"
abbreviation (input) S_IFMT :: "32 word" where "S_IFMT \<equiv> 0xf000"
abbreviation (input) S_IFDIR :: "32 word" where "S_IFDIR \<equiv> 0x4000"

section \<open>Terminals and polling\<close>

abbreviation (input) TCGETS :: "32 word" where "TCGETS \<equiv> 0x5401"
abbreviation (input) TCSETS :: "32 word" where "TCSETS \<equiv> 0x5402"
abbreviation (input) TCSETSW :: "32 word" where "TCSETSW \<equiv> 0x5403"
abbreviation (input) TCSETSF :: "32 word" where "TCSETSF \<equiv> 0x5404"
abbreviation (input) TIOCSCTTY :: "32 word" where "TIOCSCTTY \<equiv> 0x540e"
abbreviation (input) TIOCGPGRP :: "32 word" where "TIOCGPGRP \<equiv> 0x540f"
abbreviation (input) TIOCSPGRP :: "32 word" where "TIOCSPGRP \<equiv> 0x5410"
abbreviation (input) TIOCGWINSZ :: "32 word" where "TIOCGWINSZ \<equiv> 0x5413"
abbreviation (input) TIOCSWINSZ :: "32 word" where "TIOCSWINSZ \<equiv> 0x5414"
abbreviation (input) TIOCNOTTY :: "32 word" where "TIOCNOTTY \<equiv> 0x5422"
abbreviation (input) TIOCGSID :: "32 word" where "TIOCGSID \<equiv> 0x5429"
abbreviation (input) POLLIN :: "32 word" where "POLLIN \<equiv> 1"
abbreviation (input) POLLPRI :: "32 word" where "POLLPRI \<equiv> 2"
abbreviation (input) POLLOUT :: "32 word" where "POLLOUT \<equiv> 4"
abbreviation (input) POLLNVAL :: nat where "POLLNVAL \<equiv> 0x20"

section \<open>Clocks\<close>

abbreviation (input) CLOCK_REALTIME :: nat where "CLOCK_REALTIME \<equiv> 0"
abbreviation (input) CLOCK_MONOTONIC :: nat where "CLOCK_MONOTONIC \<equiv> 1"
abbreviation (input) CLOCK_PROCESS_CPUTIME_ID :: nat where "CLOCK_PROCESS_CPUTIME_ID \<equiv> 2"
abbreviation (input) CLOCK_THREAD_CPUTIME_ID :: nat where "CLOCK_THREAD_CPUTIME_ID \<equiv> 3"
abbreviation (input) CLOCK_MONOTONIC_RAW :: nat where "CLOCK_MONOTONIC_RAW \<equiv> 4"
abbreviation (input) CLOCK_REALTIME_COARSE :: nat where "CLOCK_REALTIME_COARSE \<equiv> 5"
abbreviation (input) CLOCK_MONOTONIC_COARSE :: nat where "CLOCK_MONOTONIC_COARSE \<equiv> 6"
abbreviation (input) CLOCK_BOOTTIME :: nat where "CLOCK_BOOTTIME \<equiv> 7"
abbreviation (input) CLOCK_REALTIME_ALARM :: nat where "CLOCK_REALTIME_ALARM \<equiv> 8"
abbreviation (input) CLOCK_BOOTTIME_ALARM :: nat where "CLOCK_BOOTTIME_ALARM \<equiv> 9"
abbreviation (input) CLOCK_TAI :: nat where "CLOCK_TAI \<equiv> 11"

section \<open>Programs\<close>

abbreviation (input) ET_EXEC :: nat where "ET_EXEC \<equiv> 2"
abbreviation (input) ET_DYN :: nat where "ET_DYN \<equiv> 3"
abbreviation (input) PT_LOAD :: nat where "PT_LOAD \<equiv> 1"
abbreviation (input) PT_INTERP :: nat where "PT_INTERP \<equiv> 3"
abbreviation (input) PT_PHDR :: nat where "PT_PHDR \<equiv> 6"
abbreviation (input) PF_X :: "32 word" where "PF_X \<equiv> 1"
abbreviation (input) PF_W :: "32 word" where "PF_W \<equiv> 2"
abbreviation (input) AT_PHDR :: nat where "AT_PHDR \<equiv> 3"
abbreviation (input) AT_PHENT :: nat where "AT_PHENT \<equiv> 4"
abbreviation (input) AT_PHNUM :: nat where "AT_PHNUM \<equiv> 5"
abbreviation (input) AT_PAGESZ :: nat where "AT_PAGESZ \<equiv> 6"
abbreviation (input) AT_BASE :: nat where "AT_BASE \<equiv> 7"
abbreviation (input) AT_ENTRY :: nat where "AT_ENTRY \<equiv> 9"

section \<open>Power\<close>

abbreviation (input) LINUX_REBOOT_MAGIC1 :: nat where "LINUX_REBOOT_MAGIC1 \<equiv> 0xfee1dead"
abbreviation (input) LINUX_REBOOT_MAGIC2 :: nat where "LINUX_REBOOT_MAGIC2 \<equiv> 672274793"
abbreviation (input) LINUX_REBOOT_MAGIC2A :: nat where "LINUX_REBOOT_MAGIC2A \<equiv> 85072278"
abbreviation (input) LINUX_REBOOT_MAGIC2B :: nat where "LINUX_REBOOT_MAGIC2B \<equiv> 369367448"
abbreviation (input) LINUX_REBOOT_MAGIC2C :: nat where "LINUX_REBOOT_MAGIC2C \<equiv> 537993216"
abbreviation (input) LINUX_REBOOT_CMD_RESTART :: nat where "LINUX_REBOOT_CMD_RESTART \<equiv> 0x01234567"
abbreviation (input) LINUX_REBOOT_CMD_HALT :: nat where "LINUX_REBOOT_CMD_HALT \<equiv> 0xcdef0123"
abbreviation (input) LINUX_REBOOT_CMD_CAD_ON :: nat where "LINUX_REBOOT_CMD_CAD_ON \<equiv> 0x89abcdef"
abbreviation (input) LINUX_REBOOT_CMD_CAD_OFF :: nat where "LINUX_REBOOT_CMD_CAD_OFF \<equiv> 0"
abbreviation (input) LINUX_REBOOT_CMD_POWER_OFF :: nat where "LINUX_REBOOT_CMD_POWER_OFF \<equiv> 0x4321fedc"
abbreviation (input) LINUX_REBOOT_CMD_RESTART2 :: nat where "LINUX_REBOOT_CMD_RESTART2 \<equiv> 0xa1b2c3d4"

end
