(* ===== verification/Strace_Format.thy ===== *)
theory Strace_Format
  imports User_Access Vfs_Base Linux_Io_Abi
begin

text \<open>
  The formatting half of the call tracer (\<open>src/src/ape/utils/strace.rs\<close>): names of calls,
  errors, signals and flags, numbers and escaped strings. The source matches on the
  constants of the kernel interface; a match that maps constants to names is a table here,
  in the order of the arms, with the values of the RISC-V target.
\<close>

section \<open>Numbers of the system calls\<close>

abbreviation (input) NR_set_tid_address :: usize where "NR_set_tid_address \<equiv> 96"
abbreviation (input) NR_gettid :: usize where "NR_gettid \<equiv> 178"
abbreviation (input) NR_getpid :: usize where "NR_getpid \<equiv> 172"
abbreviation (input) NR_getppid :: usize where "NR_getppid \<equiv> 173"
abbreviation (input) NR_exit :: usize where "NR_exit \<equiv> 93"
abbreviation (input) NR_exit_group :: usize where "NR_exit_group \<equiv> 94"
abbreviation (input) NR_brk :: usize where "NR_brk \<equiv> 214"
abbreviation (input) NR_mmap :: usize where "NR_mmap \<equiv> 222"
abbreviation (input) NR_mprotect :: usize where "NR_mprotect \<equiv> 226"
abbreviation (input) NR_munmap :: usize where "NR_munmap \<equiv> 215"
abbreviation (input) NR_mremap :: usize where "NR_mremap \<equiv> 216"
abbreviation (input) NR_lseek :: usize where "NR_lseek \<equiv> 62"
abbreviation (input) NR_fcntl :: usize where "NR_fcntl \<equiv> 25"
abbreviation (input) NR_ioctl :: usize where "NR_ioctl \<equiv> 29"
abbreviation (input) NR_read :: usize where "NR_read \<equiv> 63"
abbreviation (input) NR_write :: usize where "NR_write \<equiv> 64"
abbreviation (input) NR_readv :: usize where "NR_readv \<equiv> 65"
abbreviation (input) NR_writev :: usize where "NR_writev \<equiv> 66"
abbreviation (input) NR_openat :: usize where "NR_openat \<equiv> 56"
abbreviation (input) NR_pipe2 :: usize where "NR_pipe2 \<equiv> 59"
abbreviation (input) NR_linkat :: usize where "NR_linkat \<equiv> 37"
abbreviation (input) NR_mount :: usize where "NR_mount \<equiv> 40"
abbreviation (input) NR_umount2 :: usize where "NR_umount2 \<equiv> 39"
abbreviation (input) NR_newfstatat :: usize where "NR_newfstatat \<equiv> 79"
abbreviation (input) NR_close :: usize where "NR_close \<equiv> 57"
abbreviation (input) NR_getcwd :: usize where "NR_getcwd \<equiv> 17"
abbreviation (input) NR_chdir :: usize where "NR_chdir \<equiv> 49"
abbreviation (input) NR_fchdir :: usize where "NR_fchdir \<equiv> 50"
abbreviation (input) NR_chroot :: usize where "NR_chroot \<equiv> 51"
abbreviation (input) NR_uname :: usize where "NR_uname \<equiv> 160"
abbreviation (input) NR_rt_sigsuspend :: usize where "NR_rt_sigsuspend \<equiv> 133"
abbreviation (input) NR_rt_sigaction :: usize where "NR_rt_sigaction \<equiv> 134"
abbreviation (input) NR_rt_sigprocmask :: usize where "NR_rt_sigprocmask \<equiv> 135"
abbreviation (input) NR_rt_sigpending :: usize where "NR_rt_sigpending \<equiv> 136"
abbreviation (input) NR_rt_sigtimedwait :: usize where "NR_rt_sigtimedwait \<equiv> 137"
abbreviation (input) NR_rt_sigreturn :: usize where "NR_rt_sigreturn \<equiv> 139"
abbreviation (input) NR_set_robust_list :: usize where "NR_set_robust_list \<equiv> 99"
abbreviation (input) NR_prlimit64 :: usize where "NR_prlimit64 \<equiv> 261"
abbreviation (input) NR_clock_gettime :: usize where "NR_clock_gettime \<equiv> 113"
abbreviation (input) NR_gettimeofday :: usize where "NR_gettimeofday \<equiv> 169"
abbreviation (input) NR_nanosleep :: usize where "NR_nanosleep \<equiv> 101"
abbreviation (input) NR_ppoll :: usize where "NR_ppoll \<equiv> 73"
abbreviation (input) NR_getrandom :: usize where "NR_getrandom \<equiv> 278"
abbreviation (input) NR_getuid :: usize where "NR_getuid \<equiv> 174"
abbreviation (input) NR_geteuid :: usize where "NR_geteuid \<equiv> 175"
abbreviation (input) NR_getgid :: usize where "NR_getgid \<equiv> 176"
abbreviation (input) NR_getegid :: usize where "NR_getegid \<equiv> 177"
abbreviation (input) NR_execve :: usize where "NR_execve \<equiv> 221"
abbreviation (input) NR_clone :: usize where "NR_clone \<equiv> 220"
abbreviation (input) NR_wait4 :: usize where "NR_wait4 \<equiv> 260"
abbreviation (input) NR_setsid :: usize where "NR_setsid \<equiv> 157"
abbreviation (input) NR_getsid :: usize where "NR_getsid \<equiv> 156"
abbreviation (input) NR_setpgid :: usize where "NR_setpgid \<equiv> 154"
abbreviation (input) NR_getpgid :: usize where "NR_getpgid \<equiv> 155"
abbreviation (input) NR_kill :: usize where "NR_kill \<equiv> 129"
abbreviation (input) NR_reboot :: usize where "NR_reboot \<equiv> 142"
abbreviation (input) NR_sched_yield :: usize where "NR_sched_yield \<equiv> 124"
abbreviation (input) NR_prctl :: usize where "NR_prctl \<equiv> 167"
abbreviation (input) NR_futex :: usize where "NR_futex \<equiv> 98"

section \<open>Tables of names\<close>

definition name_in :: "(nat \<times> string) list \<Rightarrow> string \<Rightarrow> nat \<Rightarrow> string" where
  "name_in tab other n = (case map_of tab n of Some s \<Rightarrow> s | None \<Rightarrow> other)"

definition syscall_names :: "(nat \<times> string) list" where
  "syscall_names =
     [(NR_set_tid_address, ''set_tid_address''), (NR_gettid, ''gettid''), (NR_getpid, ''getpid''),
      (NR_getppid, ''getppid''), (NR_exit, ''exit''), (NR_exit_group, ''exit_group''), (NR_brk, ''brk''),
      (NR_mmap, ''mmap''), (NR_mprotect, ''mprotect''), (NR_munmap, ''munmap''), (NR_mremap, ''mremap''),
      (NR_lseek, ''lseek''), (NR_fcntl, ''fcntl''), (NR_ioctl, ''ioctl''), (NR_read, ''read''),
      (NR_write, ''write''), (NR_readv, ''readv''), (NR_writev, ''writev''), (NR_openat, ''openat''),
      (NR_pipe2, ''pipe2''), (NR_linkat, ''linkat''), (NR_mount, ''mount''), (NR_umount2, ''umount2''),
      (NR_newfstatat, ''newfstatat''), (NR_close, ''close''), (NR_getcwd, ''getcwd''),
      (NR_chdir, ''chdir''), (NR_fchdir, ''fchdir''), (NR_chroot, ''chroot''), (NR_uname, ''uname''),
      (NR_rt_sigsuspend, ''rt_sigsuspend''), (NR_rt_sigaction, ''rt_sigaction''),
      (NR_rt_sigprocmask, ''rt_sigprocmask''), (NR_rt_sigpending, ''rt_sigpending''),
      (NR_rt_sigtimedwait, ''rt_sigtimedwait''), (NR_rt_sigreturn, ''rt_sigreturn''),
      (NR_set_robust_list, ''set_robust_list''), (NR_prlimit64, ''prlimit64''),
      (NR_clock_gettime, ''clock_gettime''), (NR_gettimeofday, ''gettimeofday''),
      (NR_nanosleep, ''nanosleep''), (NR_ppoll, ''ppoll''), (NR_getrandom, ''getrandom''),
      (NR_getuid, ''getuid''), (NR_geteuid, ''geteuid''), (NR_getgid, ''getgid''),
      (NR_getegid, ''getegid''), (NR_execve, ''execve''), (NR_clone, ''clone''), (NR_wait4, ''wait4''),
      (NR_setsid, ''setsid''), (NR_getsid, ''getsid''), (NR_setpgid, ''setpgid''),
      (NR_getpgid, ''getpgid''), (NR_kill, ''kill''), (NR_reboot, ''reboot''),
      (NR_sched_yield, ''sched_yield''), (NR_prctl, ''prctl''), (NR_futex, ''futex'')]"

definition syscall_name :: "usize \<Rightarrow> string" where
  "syscall_name n = name_in syscall_names ''unknown'' n"

definition errno_names :: "(nat \<times> string \<times> string) list" where
  "errno_names =
     [(1, ''EPERM'', ''Operation not permitted''), (2, ''ENOENT'', ''No such file or directory''),
      (3, ''ESRCH'', ''No such process''), (4, ''EINTR'', ''Interrupted system call''),
      (5, ''EIO'', ''I/O error''), (6, ''ENXIO'', ''No such device or address''),
      (7, ''E2BIG'', ''Argument list too long''), (8, ''ENOEXEC'', ''Exec format error''),
      (9, ''EBADF'', ''Bad file descriptor''), (10, ''ECHILD'', ''No child processes''),
      (11, ''EAGAIN'', ''Resource temporarily unavailable''),
      (12, ''ENOMEM'', ''Cannot allocate memory''), (13, ''EACCES'', ''Permission denied''),
      (14, ''EFAULT'', ''Bad address''), (16, ''EBUSY'', ''Device or resource busy''),
      (17, ''EEXIST'', ''File exists''), (19, ''ENODEV'', ''No such device''),
      (20, ''ENOTDIR'', ''Not a directory''), (21, ''EISDIR'', ''Is a directory''),
      (22, ''EINVAL'', ''Invalid argument''), (23, ''ENFILE'', ''Too many open files in system''),
      (24, ''EMFILE'', ''Too many open files''), (25, ''ENOTTY'', ''Inappropriate ioctl for device''),
      (26, ''ETXTBSY'', ''Text file busy''), (27, ''EFBIG'', ''File too large''),
      (28, ''ENOSPC'', ''No space left on device''), (29, ''ESPIPE'', ''Illegal seek''),
      (30, ''EROFS'', ''Read-only file system''), (31, ''EMLINK'', ''Too many links''),
      (32, ''EPIPE'', ''Broken pipe''), (33, ''EDOM'', ''Numerical argument out of domain''),
      (34, ''ERANGE'', ''Numerical result out of range''), (38, ''ENOSYS'', ''Function not implemented''),
      (110, ''ETIMEDOUT'', ''Connection timed out'')]"

definition errno_name_desc :: "nat \<Rightarrow> (string \<times> string) option" where
  "errno_name_desc n = map_of errno_names n"

definition signal_names :: "(nat \<times> string) list" where
  "signal_names =
     [(0, ''0''), (1, ''SIGHUP''), (2, ''SIGINT''), (3, ''SIGQUIT''), (4, ''SIGILL''), (5, ''SIGTRAP''),
      (6, ''SIGABRT''), (7, ''SIGBUS''), (8, ''SIGFPE''), (9, ''SIGKILL''), (10, ''SIGUSR1''),
      (11, ''SIGSEGV''), (12, ''SIGUSR2''), (13, ''SIGPIPE''), (14, ''SIGALRM''), (15, ''SIGTERM''),
      (16, ''SIGSTKFLT''), (17, ''SIGCHLD''), (18, ''SIGCONT''), (19, ''SIGSTOP''), (20, ''SIGTSTP''),
      (21, ''SIGTTIN''), (22, ''SIGTTOU''), (23, ''SIGURG''), (24, ''SIGXCPU''), (25, ''SIGXFSZ''),
      (26, ''SIGVTALRM''), (27, ''SIGPROF''), (28, ''SIGWINCH''), (29, ''SIGIO''), (30, ''SIGPWR''),
      (31, ''SIGSYS'')]"

definition whence_names :: "(nat \<times> string) list" where
  "whence_names =
     [(0, ''SEEK_SET''), (1, ''SEEK_CUR''), (2, ''SEEK_END'')]"

definition fcntl_names :: "(nat \<times> string) list" where
  "fcntl_names =
     [(0, ''F_DUPFD''), (1, ''F_GETFD''), (2, ''F_SETFD''), (3, ''F_GETFL''), (4, ''F_SETFL''),
      (1030, ''F_DUPFD_CLOEXEC'')]"

definition ioctl_names :: "(nat \<times> string) list" where
  "ioctl_names =
     [(0x5401, ''TCGETS''), (0x5402, ''TCSETS''), (0x5403, ''TCSETSW''), (0x5404, ''TCSETSF''),
      (0x540f, ''TIOCGPGRP''), (0x5410, ''TIOCSPGRP''), (0x5413, ''TIOCGWINSZ''),
      (0x5414, ''TIOCSWINSZ''), (0x80045430, ''TIOCGPTN''), (0x40045431, ''TIOCSPTLCK'')]"

definition sigmask_names :: "(nat \<times> string) list" where
  "sigmask_names =
     [(0, ''SIG_BLOCK''), (1, ''SIG_UNBLOCK''), (2, ''SIG_SETMASK'')]"

definition clock_names :: "(nat \<times> string) list" where
  "clock_names =
     [(0, ''CLOCK_REALTIME''), (1, ''CLOCK_MONOTONIC''), (2, ''CLOCK_PROCESS_CPUTIME_ID''),
      (3, ''CLOCK_THREAD_CPUTIME_ID''), (4, ''CLOCK_MONOTONIC_RAW''), (5, ''CLOCK_REALTIME_COARSE''),
      (6, ''CLOCK_MONOTONIC_COARSE''), (7, ''CLOCK_BOOTTIME''), (8, ''CLOCK_REALTIME_ALARM''),
      (9, ''CLOCK_BOOTTIME_ALARM''), (11, ''CLOCK_TAI'')]"

definition futex_names :: "(nat \<times> string) list" where
  "futex_names =
     [(0, ''FUTEX_WAIT''), (1, ''FUTEX_WAKE''), (2, ''FUTEX_FD''), (3, ''FUTEX_REQUEUE''),
      (4, ''FUTEX_CMP_REQUEUE''), (5, ''FUTEX_WAKE_OP''), (6, ''FUTEX_LOCK_PI''),
      (7, ''FUTEX_UNLOCK_PI''), (8, ''FUTEX_TRYLOCK_PI''), (9, ''FUTEX_WAIT_BITSET''),
      (10, ''FUTEX_WAKE_BITSET''), (11, ''FUTEX_WAIT_REQUEUE_PI''), (12, ''FUTEX_CMP_REQUEUE_PI'')]"

definition rlimit_names :: "(nat \<times> string) list" where
  "rlimit_names =
     [(0, ''RLIMIT_CPU''), (1, ''RLIMIT_FSIZE''), (2, ''RLIMIT_DATA''), (3, ''RLIMIT_STACK''),
      (4, ''RLIMIT_CORE''), (5, ''RLIMIT_RSS''), (6, ''RLIMIT_NPROC''), (7, ''RLIMIT_NOFILE''),
      (8, ''RLIMIT_MEMLOCK''), (9, ''RLIMIT_AS''), (10, ''RLIMIT_LOCKS''), (11, ''RLIMIT_SIGPENDING''),
      (12, ''RLIMIT_MSGQUEUE''), (13, ''RLIMIT_NICE''), (14, ''RLIMIT_RTPRIO''), (15, ''RLIMIT_RTTIME'')]"

definition as_u32 :: "usize \<Rightarrow> nat" where
  "as_u32 n = n mod (u32_max + 1)"

definition format_signal :: "int \<Rightarrow> string" where
  "format_signal sig = (if sig < 0 then ''SIG_?'' else name_in signal_names ''SIG_?'' (nat sig))"

definition format_whence :: "nat \<Rightarrow> string" where
  "format_whence whence = name_in whence_names ''UNKNOWN'' whence"

definition format_fcntl_cmd :: "usize \<Rightarrow> string" where
  "format_fcntl_cmd cmd = name_in fcntl_names ''F_?'' (as_u32 cmd)"

definition format_ioctl_req :: "usize \<Rightarrow> string" where
  "format_ioctl_req req = name_in ioctl_names ''IOCTL_?'' (as_u32 req)"

text \<open>The cast of a signed word to 32 bits takes the residue.\<close>

definition isize_as_u32 :: "int \<Rightarrow> nat" where
  "isize_as_u32 n = nat (n mod 2 ^ 32)"

definition format_sigmask_how :: "int \<Rightarrow> string" where
  "format_sigmask_how how = name_in sigmask_names ''SIGMASK_?'' (isize_as_u32 how)"

definition format_clockid :: "int \<Rightarrow> string" where
  "format_clockid clockid = name_in clock_names ''CLOCK_?'' (isize_as_u32 clockid)"

definition format_rlimit_resource :: "nat \<Rightarrow> string" where
  "format_rlimit_resource resource = name_in rlimit_names ''RLIMIT_?'' resource"

section \<open>Numbers and strings\<close>

definition hex_digit :: "nat \<Rightarrow> char" where
  "hex_digit d = (if d < 10 then char_of (48 + d) else char_of (87 + d))"

text \<open>\<open>{:x}\<close> and \<open>{:o}\<close>: digits to a base of 2 to 16, the most significant first.\<close>

fun show_base :: "nat \<Rightarrow> nat \<Rightarrow> string" where
  "show_base b n =
     (if n < b \<or> b < 2 then [hex_digit n] else show_base b (n div b) @ [hex_digit (n mod b)])"

declare show_base.simps [simp del]

definition hex :: "nat \<Rightarrow> string" where
  "hex n = ''0x'' @ show_base 16 n"

definition oct :: "nat \<Rightarrow> string" where
  "oct n = ''0o'' @ show_base 8 n"

definition show_isize :: "int \<Rightarrow> string" where
  "show_isize n = (if n < 0 then ''-'' @ show_usize (nat (- n)) else show_usize (nat n))"

text \<open>\<open>{:02x}\<close> of a byte.\<close>

definition hex2 :: "byte \<Rightarrow> string" where
  "hex2 b = [hex_digit (unat b div 16), hex_digit (unat b mod 16)]"

abbreviation (input) DQ :: char where "DQ \<equiv> CHR 0x22"
abbreviation (input) BACKSLASH :: char where "BACKSLASH \<equiv> CHR 0x5C"

definition escape_byte :: "byte \<Rightarrow> string" where
  "escape_byte b =
     (if b = 0x5C then [BACKSLASH, BACKSLASH]
      else if b = 0x22 then [BACKSLASH, DQ]
      else if b = 10 then [BACKSLASH, CHR ''n'']
      else if b = 13 then [BACKSLASH, CHR ''r'']
      else if b = 9 then [BACKSLASH, CHR ''t'']
      else if 0x20 \<le> b \<and> b \<le> 0x7e then [char_of (unat b)]
      else [BACKSLASH, CHR ''x''] @ hex2 b)"

definition escape_bytes :: "byte list \<Rightarrow> string" where
  "escape_bytes bs = concat (map escape_byte bs)"

definition quote_string :: "string \<Rightarrow> string" where
  "quote_string s = [DQ] @ escape_bytes (map of_char s) @ [DQ]"

text \<open>Joining with a separator.\<close>

fun join :: "string \<Rightarrow> string list \<Rightarrow> string" where
  "join sep [] = []"
| "join sep [x] = x"
| "join sep (x # y # xs) = x @ sep @ join sep (y # xs)"

definition format_string_array :: "string list \<Rightarrow> nat \<Rightarrow> string" where
  "format_string_array items max_show =
     (let show = min (length items) max_show;
          shown = join '', '' (map quote_string (take show items)) in
      ''['' @ shown @
      (if length items > show then (if show > 0 then '', '' else []) @ ''...'' else []) @ '']'')"

text \<open>Every line has the shape of a call.\<close>

definition call :: "string \<Rightarrow> string list \<Rightarrow> string" where
  "call name args = name @ ''('' @ join '', '' args @ '')''"

definition format_result :: "usize \<Rightarrow> int \<Rightarrow> string" where
  "format_result sys_num r =
     (if r \<ge> 0 then
        if sys_num \<in> {NR_brk, NR_mmap, NR_mremap} then hex (nat r) else show_isize r
      else
        case errno_name_desc (isize_as_u32 (- r)) of
          Some (name, desc) \<Rightarrow> ''-1 '' @ name @ '' ('' @ desc @ '')''
        | None \<Rightarrow> show_isize r)"

section \<open>Flags\<close>

definition join_flags :: "string list \<Rightarrow> string" where
  "join_flags parts = (if parts = [] then ''0'' else join ''|'' parts)"

text \<open>The names whose bit is set, in the order of the tests.\<close>

definition set_flags :: "(32 word \<times> string) list \<Rightarrow> 32 word \<Rightarrow> string list" where
  "set_flags tab flags = map snd (filter (\<lambda>(m, _). flags AND m \<noteq> 0) tab)"

definition format_dirfd :: "usize \<Rightarrow> string" where
  "format_dirfd dirfd =
     (if i64_of_nat dirfd = AT_FDCWD then ''AT_FDCWD'' else show_isize (i64_of_nat dirfd))"

definition format_ptr :: "usize \<Rightarrow> string" where
  "format_ptr ptr = (if ptr = 0 then ''NULL'' else hex ptr)"

definition open_flag_names :: "(32 word \<times> string) list" where
  "open_flag_names =
     [(0x80000, ''O_CLOEXEC''), (0x40, ''O_CREAT''), (0x200, ''O_TRUNC''), (0x400, ''O_APPEND''),
      (0x80, ''O_EXCL''), (0x800, ''O_NONBLOCK''), (0x10000, ''O_DIRECTORY''), (0x20000, ''O_NOFOLLOW'')]"

definition at_flag_names :: "(32 word \<times> string) list" where
  "at_flag_names =
     [(0x100, ''AT_SYMLINK_NOFOLLOW''), (0x1000, ''AT_EMPTY_PATH''), (0x800, ''AT_NO_AUTOMOUNT''),
      (0x200, ''AT_REMOVEDIR''), (0x400, ''AT_SYMLINK_FOLLOW'')]"

definition linkat_flag_names :: "(32 word \<times> string) list" where
  "linkat_flag_names =
     [(0x400, ''AT_SYMLINK_FOLLOW''), (0x1000, ''AT_EMPTY_PATH'')]"

definition pipe2_flag_names :: "(32 word \<times> string) list" where
  "pipe2_flag_names =
     [(0x80000, ''O_CLOEXEC''), (0x800, ''O_NONBLOCK'')]"

definition umount_flag_names :: "(32 word \<times> string) list" where
  "umount_flag_names =
     [(0x1, ''MNT_FORCE''), (0x2, ''MNT_DETACH''), (0x4, ''MNT_EXPIRE''), (0x8, ''UMOUNT_NOFOLLOW'')]"

definition prot_flag_names :: "(32 word \<times> string) list" where
  "prot_flag_names =
     [(0x1, ''PROT_READ''), (0x2, ''PROT_WRITE''), (0x4, ''PROT_EXEC'')]"

definition mmap_flag_names :: "(32 word \<times> string) list" where
  "mmap_flag_names =
     [(0x1, ''MAP_SHARED''), (0x2, ''MAP_PRIVATE''), (0x10, ''MAP_FIXED''), (0x20, ''MAP_ANONYMOUS''),
      (0x800, ''MAP_DENYWRITE'')]"

definition mremap_flag_names :: "(32 word \<times> string) list" where
  "mremap_flag_names =
     [(0x1, ''MREMAP_MAYMOVE''), (0x2, ''MREMAP_FIXED''), (0x4, ''MREMAP_DONTUNMAP'')]"

definition getrandom_flag_names :: "(32 word \<times> string) list" where
  "getrandom_flag_names =
     [(0x1, ''GRND_NONBLOCK''), (0x2, ''GRND_RANDOM'')]"

definition format_open_flags :: "32 word \<Rightarrow> string" where
  "format_open_flags flags =
     join_flags
       ((if flags AND 3 = 0 then [''O_RDONLY'']
         else if flags AND 3 = 1 then [''O_WRONLY'']
         else if flags AND 3 = 2 then [''O_RDWR''] else []) @
        set_flags open_flag_names flags)"

definition format_at_flags :: "32 word \<Rightarrow> string" where
  "format_at_flags flags = (if flags = 0 then ''0'' else join_flags (set_flags at_flag_names flags))"

definition format_linkat_flags :: "32 word \<Rightarrow> string" where
  "format_linkat_flags flags = (if flags = 0 then ''0'' else join_flags (set_flags linkat_flag_names flags))"

definition format_pipe2_flags :: "32 word \<Rightarrow> string" where
  "format_pipe2_flags flags = (if flags = 0 then ''0'' else join_flags (set_flags pipe2_flag_names flags))"

definition format_mount_flags :: "32 word \<Rightarrow> string" where
  "format_mount_flags flags = (if flags = 0 then ''0'' else hex (unat flags))"

definition format_umount_flags :: "32 word \<Rightarrow> string" where
  "format_umount_flags flags = (if flags = 0 then ''0'' else join_flags (set_flags umount_flag_names flags))"

definition format_prot_flags :: "32 word \<Rightarrow> string" where
  "format_prot_flags prot = (if prot = 0 then ''PROT_NONE'' else join_flags (set_flags prot_flag_names prot))"

definition format_mmap_flags :: "32 word \<Rightarrow> string" where
  "format_mmap_flags flags = join_flags (set_flags mmap_flag_names flags)"

definition format_mremap_flags :: "32 word \<Rightarrow> string" where
  "format_mremap_flags flags = (if flags = 0 then ''0'' else join_flags (set_flags mremap_flag_names flags))"

definition format_getrandom_flags :: "32 word \<Rightarrow> string" where
  "format_getrandom_flags flags = (if flags = 0 then ''0'' else join_flags (set_flags getrandom_flag_names flags))"

text \<open>The command is what the two option bits leave.\<close>

definition format_futex_op :: "usize \<Rightarrow> string" where
  "format_futex_op op =
     (let w = word_of_nat op :: 32 word in
      join_flags
        ([name_in futex_names ''FUTEX_?'' (unat (w AND NOT (0x80 OR 0x100)))] @
         set_flags [(0x80, ''FUTEX_PRIVATE_FLAG''), (0x100, ''FUTEX_CLOCK_REALTIME'')] w))"

section \<open>Escaped text\<close>

text \<open>The code of a byte in numbers.\<close>

definition digit_code :: "nat \<Rightarrow> nat" where
  "digit_code d = (if d < 10 then 48 + d else 87 + d)"

definition escape_code :: "nat \<Rightarrow> nat list" where
  "escape_code n =
     (if n = 92 then [92, 92] else if n = 34 then [92, 34] else if n = 10 then [92, 110]
      else if n = 13 then [92, 114] else if n = 9 then [92, 116]
      else if 32 \<le> n \<and> n \<le> 126 then [n] else [92, 120, digit_code (n div 16), digit_code (n mod 16)])"

lemma hex_digit_code: "d < 16 \<Longrightarrow> of_char (hex_digit d) = digit_code d"
  by (simp add: hex_digit_def digit_code_def)

lemma escape_byte_code: "map of_char (escape_byte b) = escape_code (unat b)"
proof -
  have n: "unat b < 256" using unsigned_less[of b, where 'a = nat] by simp
  have "(b = k) = (unat b = unat k)" for k by (simp add: word_unat_eq_iff)
  then show ?thesis
    using n by (simp add: escape_byte_def escape_code_def hex2_def hex_digit_code word_le_nat_alt)
qed

lemma digit_code_inj: "digit_code d = digit_code e \<Longrightarrow> d < 16 \<Longrightarrow> e < 16 \<Longrightarrow> d = e"
  by (auto simp: digit_code_def split: if_splits)

text \<open>The codes are a prefix code.\<close>

lemma escape_code_prefix:
  assumes "escape_code m @ xs = escape_code n @ ys" and "m < 256" and "n < 256"
  shows "m = n \<and> xs = ys"
proof -
  have hex: "m = n" if "digit_code (m div 16) = digit_code (n div 16)" "digit_code (m mod 16) = digit_code (n mod 16)"
  proof -
    from that assms(2,3) have "m div 16 = n div 16" "m mod 16 = n mod 16"
      by (auto dest!: digit_code_inj)
    then show ?thesis by (metis div_mult_mod_eq)
  qed
  show ?thesis
    using assms(1) hex by (auto simp: escape_code_def split: if_splits)
qed

lemma escape_byte_prefix:
  assumes "escape_byte b @ xs = escape_byte c @ ys"
  shows "b = c \<and> xs = ys"
proof -
  from arg_cong[OF assms, of "map (of_char :: char \<Rightarrow> nat)"]
  have "escape_code (unat b) @ map of_char xs = escape_code (unat c) @ map of_char ys"
    by (simp add: escape_byte_code)
  from escape_code_prefix[OF this] have "unat b = unat c" "map of_char xs = (map of_char ys :: nat list)"
    using unsigned_less[of b, where 'a = nat] unsigned_less[of c, where 'a = nat] by simp_all
  then show ?thesis by (simp add: word_unat_eq_iff inj_map_eq_map inj_of_char)
qed

lemma escape_byte_ne: "escape_byte b \<noteq> []"
  by (simp add: escape_byte_def)

lemma escape_byte_printable: "c \<in> set (escape_byte b) \<Longrightarrow> 0x20 \<le> (of_char c :: nat) \<and> (of_char c :: nat) \<le> 0x7e"
proof -
  assume "c \<in> set (escape_byte b)"
  then have "of_char c \<in> set (escape_code (unat b))"
    by (metis escape_byte_code image_eqI list.set_map)
  moreover have "unat b div 16 < 16" using unsigned_less[of b, where 'a = nat] by simp
  ultimately show ?thesis
    by (auto simp: escape_code_def digit_code_def split: if_splits)
qed

text \<open>
  C37: the trace is unambiguous and safe to print: two buffers with the same escaped text
  are equal, and the text holds printable characters only, whatever bytes a program
  passes.
\<close>

theorem escaped_text_faithful:
  "(escape_bytes bs = escape_bytes cs) = (bs = cs) \<and>
   list_all (\<lambda>c. 0x20 \<le> (of_char c :: nat) \<and> (of_char c :: nat) \<le> 0x7e) (escape_bytes bs)"
proof
  have "escape_bytes bs = escape_bytes cs \<Longrightarrow> bs = cs"
  proof (induction bs arbitrary: cs)
    case Nil
    then show ?case by (cases cs) (auto simp: escape_bytes_def escape_byte_ne)
  next
    case (Cons b bs)
    then show ?case
      by (cases cs) (auto simp: escape_bytes_def escape_byte_ne dest!: escape_byte_prefix)
  qed
  then show "(escape_bytes bs = escape_bytes cs) = (bs = cs)" by auto
qed (auto simp: list_all_iff escape_bytes_def dest: escape_byte_printable)

text \<open>A flag word without a known bit is shown as zero.\<close>

lemma unknown_flags_shown_as_zero: "format_at_flags 0x8000 = ''0''"
  by (simp add: format_at_flags_def set_flags_def at_flag_names_def join_flags_def)

end
