(* ===== verification/Async_Sleep.thy ===== *)
theory Async_Sleep
  imports User_Access
begin

text \<open>
  Deferred sleeps (\<open>src/src/ape/async_runtime.rs\<close>): a sleeping caller is
  parked with a pending reply, a worker thread sends a completion, and the dispatcher
  answers it when it drains the completion channel, or earlier when a signal interrupts
  the sleep. Request identifiers tell a stale completion from the current one.
\<close>

definition APE_ASYNC_WORKER_COUNT :: usize where "APE_ASYNC_WORKER_COUNT = 1"
definition APE_ASYNC_WORKER_STACK_SIZE :: usize where "APE_ASYNC_WORKER_STACK_SIZE = 64 * 1024"
definition APE_ASYNC_WORKER_STACK0_BASE :: usize where "APE_ASYNC_WORKER_STACK0_BASE = 0x57600000"
definition APE_ASYNC_WORKER_STACK_SPAN :: usize where "APE_ASYNC_WORKER_STACK_SPAN = 0x20000"
definition NSEC_PER_SEC :: usize where "NSEC_PER_SEC = 1000000000"

record timespec =
  tv_sec :: int
  tv_nsec :: int

definition i64_max :: int where "i64_max = 9223372036854775807"

definition ns_to_timespec :: "usize \<Rightarrow> timespec" where
  "ns_to_timespec ns =
     \<lparr>tv_sec = (let q = int (ns div NSEC_PER_SEC) in if q \<le> i64_max then q else i64_max),
      tv_nsec = (let r = int (ns mod NSEC_PER_SEC) in if r \<le> i64_max then r else 0)\<rparr>"

definition timespec_bytes :: "timespec \<Rightarrow> byte list" where
  "timespec_bytes t =
     usize_to_bytes (nat (tv_sec t mod 2 ^ 64)) @ usize_to_bytes (nat (tv_nsec t mod 2 ^ 64))"

section \<open>Workers\<close>

definition alloc_async_worker_stack :: "('i, 'w) env \<Rightarrow> usize \<Rightarrow> ('i, 'p, 'w, usize) ape_prog" where
  "alloc_async_worker_stack E base =
     andThen (ext (cspace_alloc (caps E))) (\<lambda>slot.
     let pages = APE_ASYNC_WORKER_STACK_SIZE div PGSIZE (mp E) in
     andThen (lift_res (ok_or (page_pages_to_level (caps E) pages) InvalidArgs)) (\<lambda>level.
     andThen (ext (res_alloc (caps E) CapPage level slot)) (\<lambda>_.
     andThen (ext (vm_map_page (vm E) slot base {PERM_READ, PERM_WRITE} pages)) (\<lambda>_.
     ret (wrap_add base APE_ASYNC_WORKER_STACK_SIZE)))))"

definition alloc_async_worker_spec :: "('i, 'w) env \<Rightarrow> usize \<Rightarrow> ('i, 'p, 'w, usize \<times> capptr) ape_prog" where
  "alloc_async_worker_spec E worker_id =
     andThen (ext (cspace_alloc (caps E))) (\<lambda>park.
     andThen (ext (res_alloc (caps E) CapEndpoint 0 park)) (\<lambda>_.
     andThen (alloc_async_worker_stack E
        (wrap_add APE_ASYNC_WORKER_STACK0_BASE (wrap_mul worker_id APE_ASYNC_WORKER_STACK_SPAN))) (\<lambda>top.
     ret (top, park))))"

fun alloc_worker_specs :: "('i, 'w) env \<Rightarrow> nat list \<Rightarrow> (usize \<times> capptr) list \<Rightarrow> ('i, 'p, 'w, (usize \<times> capptr) list) ape_prog" where
  "alloc_worker_specs E [] out = ret out"
| "alloc_worker_specs E (i # is) out =
     andThen (alloc_async_worker_spec E i) (\<lambda>spec. alloc_worker_specs E is (out @ [spec]))"

definition start_async_runtime :: "('i, 'w) env \<Rightarrow> ('i, 'p, 'w, unit) ape_prog" where
  "start_async_runtime E =
     andThen (gets async_runtime) (\<lambda>rt.
     if rt \<noteq> None then ret ()
     else
       andThen (alloc_worker_specs E [0..<APE_ASYNC_WORKER_COUNT] []) (\<lambda>specs.
       andThen (ext (threadpool_build (procs E) specs)) (\<lambda>_.
       modify (\<lambda>s. s\<lparr>async_runtime := Some
         \<lparr>completion_queue = [], next_request_id = 1, pending_sleep_replies = []\<rparr>\<rparr>))))"

section \<open>Sleeping\<close>

definition div_ceil :: "usize \<Rightarrow> usize \<Rightarrow> usize" where
  "div_ceil a b = a div b + (if a mod b \<noteq> 0 then 1 else 0)"

definition schedule_nanosleep_async :: "('i, 'w) env \<Rightarrow> usize \<Rightarrow> usize \<Rightarrow> usize \<Rightarrow> ('i, 'p, 'w, unit) ape_prog" where
  "schedule_nanosleep_async E p req_ns rem_ptr =
     andThen (ext (mono_now (procs E))) (\<lambda>now.
     let deadline = sat_add now req_ns in
     andThen (reserve_pending_reply_slot E) (\<lambda>slot.
     let sleep_ms = div_ceil req_ns 1000000 in
     andThen (gets async_runtime) (\<lambda>rt.
     case rt of
       None \<Rightarrow> throw NotInitialized
     | Some r \<Rightarrow>
         let request_id = next_request_id r in
         andThen (modify (\<lambda>s. s\<lparr>async_runtime := Some (r\<lparr>
           next_request_id := sat_add request_id 1,
           pending_sleep_replies := bt_insert p
             \<lparr>ps_reply_slot = slot, ps_rem_ptr = rem_ptr, ps_deadline_ns = deadline,
              ps_request_id = request_id\<rparr> (pending_sleep_replies r)\<rparr>)\<rparr>)) (\<lambda>_.
         ext_do (executor_spawn_sleep (procs E) p request_id (max 1 sleep_ms))))))"

definition take_pending_sleep_reply :: "usize \<Rightarrow> ('i, 'p, 'w, pending_sleep_reply option) ape_prog" where
  "take_pending_sleep_reply p s =
     (case async_runtime s of
        None \<Rightarrow> (Ok None, s)
      | Some r \<Rightarrow>
          (Ok (bt_get (pending_sleep_replies r) p),
           s\<lparr>async_runtime := Some (r\<lparr>pending_sleep_replies := bt_remove p (pending_sleep_replies r)\<rparr>)\<rparr>))"

definition drop_pending_sleep_reply :: "('i, 'w) env \<Rightarrow> usize \<Rightarrow> ('i, 'p, 'w, unit) ape_prog" where
  "drop_pending_sleep_reply E p =
     andThen (take_pending_sleep_reply p) (\<lambda>r.
     case r of
       None \<Rightarrow> ret ()
     | Some pending \<Rightarrow>
         andThen (ignore (ext (cap_delete (caps E) (ps_reply_slot pending)))) (\<lambda>_.
         ext_do (cspace_free (caps E) (ps_reply_slot pending))))"

definition reply_pending_sleep ::
  "('i, 'w) env \<Rightarrow> usize \<Rightarrow> pending_sleep_reply \<Rightarrow> int \<Rightarrow> usize option \<Rightarrow> ('i, 'p, 'w, unit) ape_prog" where
  "reply_pending_sleep E p pending r remain =
     andThen
       (if ps_rem_ptr pending \<noteq> 0 then
          andThen (attempt (write_obj_to_user E p (ps_rem_ptr pending)
             (timespec_bytes (ns_to_timespec (case remain of Some n \<Rightarrow> n | None \<Rightarrow> 0))))) (\<lambda>w.
          ret (case w of Inl e \<Rightarrow> map_error_to_errno (lib E) e | Inr _ \<Rightarrow> r))
        else ret r) (\<lambda>final_ret.
     andThen (attempt (ext (reply_send (procs E) (ps_reply_slot pending) final_ret))) (\<lambda>sent.
     andThen (ignore (ext (cap_delete (caps E) (ps_reply_slot pending)))) (\<lambda>_.
     andThen (ext_do (cspace_free (caps E) (ps_reply_slot pending))) (\<lambda>_.
     case sent of Inl e \<Rightarrow> throw e | Inr _ \<Rightarrow> ret ()))))"

definition interrupt_pending_sleep_reply :: "('i, 'w) env \<Rightarrow> usize \<Rightarrow> ('i, 'p, 'w, bool) ape_prog" where
  "interrupt_pending_sleep_reply E p =
     andThen (take_pending_sleep_reply p) (\<lambda>r.
     case r of
       None \<Rightarrow> ret False
     | Some pending \<Rightarrow>
         andThen (attempt (ext (mono_now (procs E)))) (\<lambda>t.
         let now = (case t of Inl _ \<Rightarrow> 0 | Inr n \<Rightarrow> n) in
         andThen (ignore (reply_pending_sleep E p pending (- EINTR)
            (Some (sat_sub (ps_deadline_ns pending) now)))) (\<lambda>_.
         ret True)))"

definition complete_sleep_reply :: "('i, 'w) env \<Rightarrow> sleep_completion \<Rightarrow> ('i, 'p, 'w, unit) ape_prog" where
  "complete_sleep_reply E c =
     andThen (gets async_runtime) (\<lambda>rt.
     case rt of
       None \<Rightarrow> ret ()
     | Some r \<Rightarrow>
         (case bt_get (pending_sleep_replies r) (sc_pid c) of
            None \<Rightarrow> ret ()
          | Some current \<Rightarrow>
              if ps_request_id current \<noteq> sc_request_id c then ret ()
              else
                andThen (modify (\<lambda>s. s\<lparr>async_runtime := Some (r\<lparr>pending_sleep_replies :=
                   bt_remove (sc_pid c) (pending_sleep_replies r)\<rparr>)\<rparr>)) (\<lambda>_.
                reply_pending_sleep E (sc_pid c) current 0 (Some 0))))"

text \<open>One turn per event of the channel; the fuel is the length of the queue.\<close>

fun drain_loop :: "nat \<Rightarrow> ('i, 'w) env \<Rightarrow> ('i, 'p, 'w, unit) ape_prog" where
  "drain_loop 0 E = ret ()"
| "drain_loop (Suc n) E =
     andThen (gets async_runtime) (\<lambda>rt.
     case rt of
       None \<Rightarrow> ret ()
     | Some r \<Rightarrow>
         (case completion_queue r of
            [] \<Rightarrow> ret ()
          | Sleep c # q \<Rightarrow>
              andThen (modify (\<lambda>s. s\<lparr>async_runtime := Some (r\<lparr>completion_queue := q\<rparr>)\<rparr>)) (\<lambda>_.
              andThen (complete_sleep_reply E c) (\<lambda>_.
              drain_loop n E))))"

definition drain_async_events :: "('i, 'w) env \<Rightarrow> ('i, 'p, 'w, unit) ape_prog" where
  "drain_async_events E s =
     drain_loop (case async_runtime s of None \<Rightarrow> 0 | Some r \<Rightarrow> length (completion_queue r)) E s"

end
