(* ===== verification/Sys_Signal.thy ===== *)
theory Sys_Signal
  imports Async_Sleep
begin

text \<open>
  Signals (\<open>src/src/system/signal.rs\<close>): queueing a signal and waking what it
  interrupts, the signal taken at the return of a system call, and the
  \<open>rt_sig*\<close> system calls.
\<close>

section \<open>Encodings\<close>

definition SIGACTION_HEAD_LEN :: usize where "SIGACTION_HEAD_LEN = 8 * 3"
definition SIGINFO_COMPAT_SIZE :: usize where "SIGINFO_COMPAT_SIZE = 128"
definition SIGSET_BYTES :: usize where "SIGSET_BYTES = 8"
definition SIGNAL_WAIT_POLL_MS :: usize where "SIGNAL_WAIT_POLL_MS = 1"
definition SIGNAL_WAIT_FALLBACK_NS :: usize where "SIGNAL_WAIT_FALLBACK_NS = 2 * NSEC_PER_SEC"
definition SIG_DFL_HANDLER :: usize where "SIG_DFL_HANDLER = 0"
definition SIG_IGN_HANDLER :: usize where "SIG_IGN_HANDLER = 1"

definition encode_wait_stopped_status :: "usize \<Rightarrow> int" where
  "encode_wait_stopped_status sig = sint (push_bit 8 (word_of_nat sig :: 32 word) OR 0x7f)"

datatype pending_signal_action = NoAction | Interrupt bool | Terminate usize

definition get_exit_code_for_signal :: "usize \<Rightarrow> usize" where
  "get_exit_code_for_signal signal = 128 + signal"

definition is_valid_signal :: "usize \<Rightarrow> bool" where
  "is_valid_signal n \<longleftrightarrow> 1 \<le> n \<and> n \<le> SIGNAL_MAX"

definition has_valid_sigset_size :: "usize \<Rightarrow> bool" where
  "has_valid_sigset_size n \<longleftrightarrow> n = SIGSET_BYTES"

definition default_ignored_signal :: "usize \<Rightarrow> bool" where
  "default_ignored_signal n \<longleftrightarrow> n = SIGCHLD \<or> n = SIGURG \<or> n = SIGWINCH"

definition default_stop_signal :: "usize \<Rightarrow> bool" where
  "default_stop_signal n \<longleftrightarrow> n = SIGSTOP \<or> n = SIGTSTP \<or> n = SIGTTIN \<or> n = SIGTTOU"

definition read_usize_from :: "byte list \<Rightarrow> usize \<Rightarrow> usize res" where
  "read_usize_from bytes start =
     (case checked_add start 8 of
        None \<Rightarrow> Err OutOfMemory
      | Some e \<Rightarrow>
          if e > length bytes then Err InvalidArgs
          else Ok (bytes_to_nat (take 8 (drop start bytes))))"

definition write_usize_to :: "byte list \<Rightarrow> usize \<Rightarrow> usize \<Rightarrow> byte list res" where
  "write_usize_to bytes start v =
     (case checked_add start 8 of
        None \<Rightarrow> Err OutOfMemory
      | Some e \<Rightarrow>
          if e > length bytes then Err InvalidArgs
          else Ok (take start bytes @ usize_to_bytes v @ drop e bytes))"

definition import_sigset :: "('i, 'w) env \<Rightarrow> usize \<Rightarrow> usize \<Rightarrow> usize \<Rightarrow> ('i, 'p, 'w, 64 word) ape_prog" where
  "import_sigset E p ptr sz =
     (if \<not> has_valid_sigset_size sz then throw InvalidArgs
      else if ptr = 0 then throw InvalidAddress
      else andThen (copy_from_user E p ptr sz) (\<lambda>buf.
           ret (word_of_nat (bytes_to_nat (take 8 buf)))))"

definition export_sigset :: "64 word \<Rightarrow> usize \<Rightarrow> byte list res" where
  "export_sigset msk sz =
     (if \<not> has_valid_sigset_size sz then Err InvalidArgs
      else Ok (let n = min 8 sz in take n (usize_to_bytes (unat msk)) @ replicate (sz - n) 0))"

definition read_user_timespec :: "('i, 'w) env \<Rightarrow> usize \<Rightarrow> usize \<Rightarrow> ('i, 'p, 'w, timespec) ape_prog" where
  "read_user_timespec E p ptr =
     andThen (copy_from_user E p ptr 16) (\<lambda>raw.
     ret \<lparr>tv_sec = i64_of_nat (bytes_to_nat (take 8 raw)),
          tv_nsec = i64_of_nat (bytes_to_nat (take 8 (drop 8 raw)))\<rparr>)"

definition timespec_to_ns :: "timespec \<Rightarrow> usize res" where
  "timespec_to_ns t =
     (if tv_sec t < 0 \<or> \<not> (0 \<le> tv_nsec t \<and> tv_nsec t < 1000000000) then Err InvalidArgs
      else
        let v = nat (tv_sec t) * NSEC_PER_SEC in
        if v > usize_max then Err OutOfMemory
        else ok_or (checked_add v (nat (tv_nsec t))) OutOfMemory)"

definition wait_tick :: "('i, 'w) env \<Rightarrow> ('i, 'p, 'w, unit) ape_prog" where
  "wait_tick E = ignore (ext (time_sleep (procs E) SIGNAL_WAIT_POLL_MS))"

definition parse_timeout_deadline :: "('i, 'w) env \<Rightarrow> usize \<Rightarrow> usize \<Rightarrow> ('i, 'p, 'w, usize) ape_prog" where
  "parse_timeout_deadline E p ptr =
     andThen (ext (mono_now (procs E))) (\<lambda>now.
     if ptr = 0 then ret (sat_add now SIGNAL_WAIT_FALLBACK_NS)
     else
       andThen (read_user_timespec E p ptr) (\<lambda>t.
       andThen (lift_res (timespec_to_ns t)) (\<lambda>ns.
       ret (sat_add now ns))))"

definition decode_sigaction :: "byte list \<Rightarrow> signal_action res" where
  "decode_sigaction raw =
     (case (read_usize_from raw 0, read_usize_from raw 8, read_usize_from raw 16) of
        (Ok h, Ok f, Ok r) \<Rightarrow>
          Ok \<lparr>sa_handler = h, sa_flags = word_of_nat f, sa_restorer = r,
              sa_mask = word_of_nat (bytes_to_nat (take 8 (drop SIGACTION_HEAD_LEN raw)))\<rparr>
      | (Err e, _, _) \<Rightarrow> Err e
      | (Ok _, Err e, _) \<Rightarrow> Err e
      | (Ok _, Ok _, Err e) \<Rightarrow> Err e
      | _ \<Rightarrow> Panic)"

definition read_sigaction :: "('i, 'w) env \<Rightarrow> usize \<Rightarrow> usize \<Rightarrow> usize \<Rightarrow> ('i, 'p, 'w, signal_action) ape_prog" where
  "read_sigaction E p act sz =
     (if act = 0 then throw InvalidAddress
      else
        andThen (lift_res (ok_or (checked_add SIGACTION_HEAD_LEN sz) OutOfMemory)) (\<lambda>total.
        andThen (copy_from_user E p act total) (\<lambda>raw.
        lift_res (decode_sigaction raw))))"

definition encode_sigaction :: "signal_action \<Rightarrow> usize \<Rightarrow> byte list" where
  "encode_sigaction a sz =
     usize_to_bytes (sa_handler a) @ usize_to_bytes (unat (sa_flags a)) @ usize_to_bytes (sa_restorer a) @
     (let n = min 8 sz in take n (usize_to_bytes (unat (sa_mask a))) @ replicate (sz - n) 0)"

definition write_sigaction ::
  "('i, 'w) env \<Rightarrow> usize \<Rightarrow> usize \<Rightarrow> signal_action \<Rightarrow> usize \<Rightarrow> ('i, 'p, 'w, unit) ape_prog" where
  "write_sigaction E p oldact a sz =
     (if oldact = 0 then ret ()
      else
        andThen (lift_res (ok_or (checked_add SIGACTION_HEAD_LEN sz) OutOfMemory)) (\<lambda>total.
        copy_to_user E p oldact (encode_sigaction a sz)))"

section \<open>Queueing\<close>

definition deliverable :: "signal_struct \<Rightarrow> 64 word" where
  "deliverable sg = signal_pending sg AND NOT (get_blocked sg)"

definition wake_sigsuspend :: "('i, 'w) env \<Rightarrow> usize \<Rightarrow> ('i, 'p, 'w, unit) ape_prog" where
  "wake_sigsuspend E p =
     andThen (gets (\<lambda>s. get_process s p)) (\<lambda>t.
     case t of
       None \<Rightarrow> ret ()
     | Some t \<Rightarrow>
         let sg = task_signal t in
         if is_waiting_sigsuspend sg \<and> deliverable sg \<noteq> 0 then
           let (restored, sg') = restore_mask_from_sigsuspend_wait sg in
           andThen (modify (upd_task p (upd_signal (\<lambda>_. sg')))) (\<lambda>_.
           whenM restored (ignore (ext (tcb_resume (procs E) (task_tcb t)))))
         else ret ())"

definition queue_process_signal :: "('i, 'w) env \<Rightarrow> usize \<Rightarrow> usize \<Rightarrow> ('i, 'p, 'w, bool) ape_prog" where
  "queue_process_signal E p signum =
     andThen (gets (\<lambda>s. get_process s p)) (\<lambda>t.
     case t of
       None \<Rightarrow> ret False
     | Some t \<Rightarrow>
         let (accepted, sg) = queue_signal signum (task_signal t) in
         if \<not> accepted then ret False
         else
           andThen (modify (upd_task p (upd_signal (\<lambda>_. sg)))) (\<lambda>_.
           let dl = deliverable sg \<noteq> 0; should_wake = (is_waiting_sigsuspend sg \<and> dl) in
           andThen (whenM dl (ignore (interrupt_pending_sleep_reply E p))) (\<lambda>_.
           andThen (whenM should_wake (wake_sigsuspend E p)) (\<lambda>_.
           ret True))))"

section \<open>Delivery at the return of a system call\<close>

text \<open>The parent, the group and the stop flag before a change of state.\<close>

definition transition :: "'i task_struct \<Rightarrow> usize \<times> usize \<times> bool" where
  "transition t = (parent_pid t, process_group_id t, is_stopped t)"

definition default_stop :: "('i, 'w) env \<Rightarrow> usize \<Rightarrow> 'i task_struct \<Rightarrow> usize \<Rightarrow> ('i, 'p, 'w, unit) ape_prog" where
  "default_stop E p t signum =
     (case transition t of (parent, pgid, was_stopped) \<Rightarrow>
        andThen (attempt (ext (tcb_suspend (procs E) (task_tcb t)))) (\<lambda>r.
        andThen (case r of Inr _ \<Rightarrow> modify (upd_task p mark_stopped) | Inl _ \<Rightarrow> ret ()) (\<lambda>_.
        whenM (parent \<noteq> 0 \<and> \<not> was_stopped)
          (modify (record_child_stopped parent p (encode_wait_stopped_status signum) pgid)))))"

definition default_continue :: "('i, 'w) env \<Rightarrow> usize \<Rightarrow> 'i task_struct \<Rightarrow> ('i, 'p, 'w, unit) ape_prog" where
  "default_continue E p t =
     (case transition t of (parent, pgid, was_stopped) \<Rightarrow>
        andThen (attempt (ext (tcb_resume (procs E) (task_tcb t)))) (\<lambda>r.
        andThen (case r of Inr _ \<Rightarrow> modify (upd_task p mark_running) | Inl _ \<Rightarrow> ret ()) (\<lambda>_.
        whenM (parent \<noteq> 0 \<and> was_stopped) (modify (record_child_continued parent p pgid)))))"

definition consume_deliverable_signal_on_syscall_return ::
  "('i, 'w) env \<Rightarrow> usize \<Rightarrow> ('i, 'p, 'w, pending_signal_action) ape_prog" where
  "consume_deliverable_signal_on_syscall_return E p =
     andThen (gets (\<lambda>s. get_process s p)) (\<lambda>t0.
     case t0 of
       None \<Rightarrow> ret NoAction
     | Some t \<Rightarrow>
         (case pop_pending_signal_from_mask (deliverable (task_signal t)) (task_signal t) of
            (got, sg) \<Rightarrow>
              andThen (modify (upd_task p (upd_signal (\<lambda>_. sg)))) (\<lambda>_.
              case got of
                None \<Rightarrow> ret NoAction
              | Some signum \<Rightarrow>
                  let action = get_signal_action (task_sighand t) signum in
                  if sa_handler action = SIG_IGN_HANDLER then ret NoAction
                  else if sa_handler action \<noteq> SIG_DFL_HANDLER then
                    andThen (ignore (ext (tcb_deliver_upcall (procs E) (task_tcb t) (sa_handler action) signum))) (\<lambda>_.
                    ret (Interrupt (sa_flags action AND SA_RESTART \<noteq> 0)))
                  else if default_ignored_signal signum then ret NoAction
                  else if default_stop_signal signum then
                    andThen (default_stop E p t signum) (\<lambda>_. ret (Interrupt False))
                  else if signum = SIGCONT then
                    andThen (default_continue E p t) (\<lambda>_. ret NoAction)
                  else ret (Terminate (get_exit_code_for_signal signum)))))"

section \<open>System calls\<close>

definition do_rt_sigaction ::
  "('i, 'w) env \<Rightarrow> usize \<Rightarrow> usize \<Rightarrow> usize \<Rightarrow> usize \<Rightarrow> usize \<Rightarrow> ('i, 'p, 'w, int) ape_prog" where
  "do_rt_sigaction E p signum act oldact sz =
     (if \<not> is_valid_signal signum \<or> \<not> has_valid_sigset_size sz then ret (- EINVAL)
      else
        andThen
          (if oldact \<noteq> 0 then
             andThen (task_or NotFound p) (\<lambda>t.
             write_sigaction E p oldact (get_signal_action (task_sighand t) signum) sz)
           else ret ()) (\<lambda>_.
        if act \<noteq> 0 then
          if signum = SIGKILL \<or> signum = SIGSTOP then ret (- EINVAL)
          else
            andThen (read_sigaction E p act sz) (\<lambda>new.
            let new' = new\<lparr>sa_mask := sa_mask new AND NOT SIGNAL_UNBLOCKABLE_MASK\<rparr> in
            andThen (task_or NotFound p) (\<lambda>t.
            andThen (modify (upd_task p (\<lambda>t. t\<lparr>task_sighand := bt_insert signum new' (task_sighand t)\<rparr>))) (\<lambda>_.
            ret 0)))
        else ret 0))"

definition apply_mask :: "nat \<Rightarrow> 64 word \<Rightarrow> signal_struct \<Rightarrow> signal_struct option" where
  "apply_mask how set_mask sg =
     (if how = SIG_BLOCK then Some (set_blocked (get_blocked sg OR set_mask) sg)
      else if how = SIG_UNBLOCK then Some (set_blocked (get_blocked sg AND NOT set_mask) sg)
      else if how = SIG_SETMASK then Some (set_blocked set_mask sg)
      else None)"

text \<open>\<open>how\<close> is truncated to 32 bits before it is matched.\<close>

definition do_rt_sigprocmask ::
  "('i, 'w) env \<Rightarrow> usize \<Rightarrow> usize \<Rightarrow> usize \<Rightarrow> usize \<Rightarrow> usize \<Rightarrow> ('i, 'p, 'w, int) ape_prog" where
  "do_rt_sigprocmask E p how set_ptr oldset sz =
     (if \<not> has_valid_sigset_size sz then ret (- EINVAL)
      else
        andThen
          (if oldset \<noteq> 0 then
             andThen (task_or NotFound p) (\<lambda>t. ret (Some (get_blocked (task_signal t))))
           else ret None) (\<lambda>old_mask.
        andThen
          (if set_ptr \<noteq> 0 then
             andThen (import_sigset E p set_ptr sz) (\<lambda>set_mask.
             andThen (task_or NotFound p) (\<lambda>t.
             case apply_mask (how mod 2 ^ 32) set_mask (task_signal t) of
               None \<Rightarrow> ret False
             | Some sg \<Rightarrow> andThen (modify (upd_task p (upd_signal (\<lambda>_. sg)))) (\<lambda>_. ret True)))
           else ret True) (\<lambda>valid.
        if \<not> valid then ret (- EINVAL)
        else if oldset \<noteq> 0 then
          andThen (lift_res (export_sigset (case old_mask of Some m \<Rightarrow> m | None \<Rightarrow> 0) sz)) (\<lambda>out.
          andThen (copy_to_user E p oldset out) (\<lambda>_. ret 0))
        else ret 0)))"

definition do_rt_sigpending :: "('i, 'w) env \<Rightarrow> usize \<Rightarrow> usize \<Rightarrow> usize \<Rightarrow> ('i, 'p, 'w, int) ape_prog" where
  "do_rt_sigpending E p set_ptr sz =
     (if \<not> has_valid_sigset_size sz then ret (- EINVAL)
      else if set_ptr = 0 then throw InvalidAddress
      else
        andThen (task_or NotFound p) (\<lambda>t.
        andThen (lift_res (export_sigset (signal_pending (task_signal t) AND get_blocked (task_signal t)) sz)) (\<lambda>out.
        andThen (copy_to_user E p set_ptr out) (\<lambda>_.
        ret 0))))"

text \<open>
  The poll loop of \<open>rt_sigtimedwait\<close>. The outer option is \<open>None\<close>
  when the fuel ran out before a signal arrived or the deadline passed.
\<close>

fun sigtimedwait_loop :: "nat \<Rightarrow> ('i, 'w) env \<Rightarrow> usize \<Rightarrow> 64 word \<Rightarrow> usize \<Rightarrow> ('i, 'p, 'w, usize option option) ape_prog" where
  "sigtimedwait_loop 0 E p msk deadline = ret None"
| "sigtimedwait_loop (Suc n) E p msk deadline =
     andThen (task_or NotFound p) (\<lambda>t.
     case pop_pending_signal_from_mask msk (task_signal t) of
       (got, sg) \<Rightarrow>
         andThen (modify (upd_task p (upd_signal (\<lambda>_. sg)))) (\<lambda>_.
         case got of
           Some signum \<Rightarrow> ret (Some (Some signum))
         | None \<Rightarrow>
             andThen (ext (mono_now (procs E))) (\<lambda>now.
             if now \<ge> deadline then ret (Some None)
             else andThen (wait_tick E) (\<lambda>_. sigtimedwait_loop n E p msk deadline))))"

definition write_siginfo :: "('i, 'w) env \<Rightarrow> usize \<Rightarrow> usize \<Rightarrow> usize \<Rightarrow> ('i, 'p, 'w, unit) ape_prog" where
  "write_siginfo E p info signum =
     andThen (copy_to_user E p info (i32_to_bytes (int signum))) (\<lambda>_.
     andThen (lift_res (ok_or (checked_add info 4) OutOfMemory)) (\<lambda>tl.
     write_zeros_to_user E p tl (SIGINFO_COMPAT_SIZE - 4)))"

definition map_err :: "error \<Rightarrow> ('s, 'a) prog \<Rightarrow> ('s, 'a) prog" where
  [monad_simps]: "map_err e m =
     andThen (attempt m) (\<lambda>r. case r of Inl _ \<Rightarrow> throw e | Inr v \<Rightarrow> ret v)"

definition do_rt_sigtimedwait ::
  "nat \<Rightarrow> ('i, 'w) env \<Rightarrow> usize \<Rightarrow> usize \<Rightarrow> usize \<Rightarrow> usize \<Rightarrow> usize \<Rightarrow> ('i, 'p, 'w, int option) ape_prog" where
  "do_rt_sigtimedwait fuel E p set_ptr info timeout sz =
     (if \<not> has_valid_sigset_size sz then ret (Some (- EINVAL))
      else
        andThen (import_sigset E p set_ptr sz) (\<lambda>wait_mask.
        if wait_mask = 0 then ret (Some (- EAGAIN))
        else
          andThen (map_err InvalidArgs (parse_timeout_deadline E p timeout)) (\<lambda>deadline.
          andThen (sigtimedwait_loop fuel E p wait_mask deadline) (\<lambda>r.
          case r of
            None \<Rightarrow> ret None
          | Some None \<Rightarrow> ret (Some (- EAGAIN))
          | Some (Some signum) \<Rightarrow>
              andThen (whenM (info \<noteq> 0) (write_siginfo E p info signum)) (\<lambda>_.
              ret (Some (i64_of_nat signum)))))))"

definition sigsuspend_enter :: "64 word \<Rightarrow> signal_struct \<Rightarrow> usize option \<times> signal_struct" where
  "sigsuspend_enter suspend_mask sg =
     (let old_mask = get_blocked sg; sg1 = set_blocked suspend_mask sg in
      case pop_pending_signal_from_mask (deliverable sg1) sg1 of
        (Some n, sg2) \<Rightarrow> (Some n, set_blocked old_mask sg2)
      | (None, sg2) \<Rightarrow> (None, arm_sigsuspend_wait old_mask sg2))"

definition do_rt_sigsuspend :: "('i, 'w) env \<Rightarrow> usize \<Rightarrow> usize \<Rightarrow> usize \<Rightarrow> ('i, 'p, 'w, int) ape_prog" where
  "do_rt_sigsuspend E p msk sz =
     (if \<not> has_valid_sigset_size sz then ret (- EINVAL)
      else
        andThen (import_sigset E p msk sz) (\<lambda>m.
        andThen (task_or NotFound p) (\<lambda>t.
        case sigsuspend_enter (m AND NOT SIGNAL_UNBLOCKABLE_MASK) (task_signal t) of
          (observed, sg) \<Rightarrow>
            andThen (modify (upd_task p (upd_signal (\<lambda>_. sg)))) (\<lambda>_.
            if observed \<noteq> None then ret (- EINTR)
            else
              andThen (attempt (ext (tcb_suspend (procs E) (task_tcb t)))) (\<lambda>r.
              andThen (case r of
                  Inr _ \<Rightarrow> ret ()
                | Inl _ \<Rightarrow> modify (upd_task p (upd_signal (\<lambda>g. snd (restore_mask_from_sigsuspend_wait g))))) (\<lambda>_.
              ret (- EINTR)))))))"

definition do_rt_sigreturn :: "usize \<Rightarrow> ('i, 'p, 'w, int) ape_prog" where
  "do_rt_sigreturn p =
     andThen (modify (upd_task p (upd_signal (\<lambda>g. snd (restore_mask_from_sigsuspend_wait g))))) (\<lambda>_.
     ret 0)"

definition do_set_robust_list :: "usize \<Rightarrow> ('i, 'p, 'w, int) ape_prog" where
  "do_set_robust_list p = ret 0"

section \<open>Waiting ends\<close>

text \<open>A clock that every sleep moves forward.\<close>

definition steady_clock :: "('i, 'w) env \<Rightarrow> ('w \<Rightarrow> usize) \<Rightarrow> bool" where
  "steady_clock E clock \<longleftrightarrow>
     (\<forall>w. mono_now (procs E) w = (Ok (clock w), w)) \<and>
     (\<forall>n w. clock w < clock (snd (time_sleep (procs E) n w)))"

lemma sigtimedwait_loop_ends:
  assumes "steady_clock E clock"
  shows "deadline - clock (world s) < fuel \<Longrightarrow> fst (sigtimedwait_loop fuel E p msk deadline s) \<noteq> Ok None"
proof (induction fuel arbitrary: s)
  case (Suc fuel)
  have now: "mono_now (procs E) w = (Ok (clock w), w)" for w using assms by (simp add: steady_clock_def)
  show ?case
  proof (cases "get_process s p")
    case None
    then show ?thesis by (simp add: monad_simps task_or_def)
  next
    case (Some t)
    obtain got sg where pop: "pop_pending_signal_from_mask msk (task_signal t) = (got, sg)" by fastforce
    let ?s1 = "upd_task p (upd_signal (\<lambda>_. sg)) s"
    obtain r w where sleep: "time_sleep (procs E) SIGNAL_WAIT_POLL_MS (world s) = (r, w)" by fastforce
    show ?thesis
    proof (cases "got = None \<and> clock (world s) < deadline")
      case True
      from assms have "clock (world s) < clock w" by (metis steady_clock_def sleep snd_conv)
      with Suc.prems True have "deadline - clock (world (?s1\<lparr>world := w\<rparr>)) < fuel" by simp linarith
      from Suc.IH[OF this] show ?thesis
        using True Some pop sleep
        by (cases r) (simp_all add: monad_simps task_or_def ext_def now wait_tick_def)
    next
      case False
      then show ?thesis
        using Some pop by (cases got) (auto simp: monad_simps task_or_def ext_def now)
    qed
  qed
qed simp

text \<open>
  C36: on a clock that every sleep moves forward \<open>rt_sigtimedwait\<close> always returns: for
  every state and all arguments some number of rounds is enough, and so is every larger
  one, for the call to end with a signal, a timeout or an error.
\<close>

theorem sigtimedwait_returns:
  assumes "steady_clock E clock"
  shows "\<exists>n. \<forall>fuel. n \<le> fuel \<longrightarrow> fst (do_rt_sigtimedwait fuel E p set_ptr info timeout sz s) \<noteq> Ok None"
proof (cases "has_valid_sigset_size sz")
  case False
  then show ?thesis by (simp add: do_rt_sigtimedwait_def monad_simps)
next
  case True
  obtain r1 s1 where imp: "import_sigset E p set_ptr sz s = (r1, s1)" by fastforce
  obtain r2 s2 where dl: "map_err InvalidArgs (parse_timeout_deadline E p timeout) s1 = (r2, s2)" by fastforce
  show ?thesis
  proof (cases "\<exists>m d. r1 = Ok m \<and> m \<noteq> 0 \<and> r2 = Ok d")
    case False
    then show ?thesis
      using True imp dl
      by (cases r1; cases r2) (auto simp: do_rt_sigtimedwait_def andThen_def ret_def)
  next
    case ok: True
    then obtain m d where md: "r1 = Ok m" "m \<noteq> 0" "r2 = Ok d" by blast
    have "fst (do_rt_sigtimedwait fuel E p set_ptr info timeout sz s) \<noteq> Ok None"
      if "Suc (d - clock (world s2)) \<le> fuel" for fuel
    proof -
      obtain r3 s3 where l: "sigtimedwait_loop fuel E p m d s2 = (r3, s3)" by fastforce
      with sigtimedwait_loop_ends[OF assms, of d s2 fuel p m] that have "r3 \<noteq> Ok None" by simp
      then show ?thesis
        using True imp dl md l
        by (cases r3) (auto simp: do_rt_sigtimedwait_def andThen_def ret_def whenM_def
            split: option.split prod.split res.split)
    qed
    then show ?thesis by blast
  qed
qed

text \<open>The services of the example with a clock that ticks at every sleep.\<close>

definition ticking_env :: "(unit, nat) env" where
  "ticking_env = example_env\<lparr>procs := (procs example_env)\<lparr>
     mono_now := (\<lambda>w. (Ok w, w)), time_sleep := (\<lambda>n w. (Ok (), Suc w))\<rparr>\<rparr>"

theorem sigtimedwait_returns_witness:
  "\<exists>n. fst (do_rt_sigtimedwait n ticking_env 1 0x1000 0 0 8 (example_ape [example_mem_task])) \<noteq> Ok None"
proof -
  have "steady_clock ticking_env (\<lambda>w. w)" by (simp add: steady_clock_def ticking_env_def)
  from sigtimedwait_returns[OF this] show ?thesis by blast
qed

end
