(* ===== verification/Pipe.thy ===== *)
theory Pipe
  imports Btree Vfs_Base "HOL-Library.Multiset"
begin

text \<open>
  The pipe file system: the registry of pipes and the two ends of a pipe
  (\<open>src/src/vfs/pipe.rs\<close>), and the namespace that opens an end by its path
  (\<open>PipeFsNamespace\<close> in \<open>src/src/vfs/server.rs\<close>). The registry is the
  state of the operations; the lock around it makes each of them atomic. The lemmas
  show that a pipe is a bounded first-in-first-out byte queue and that, along every
  interleaving of opens, transfers and closes, the reader and writer counts of a
  pipe are the numbers of its open ends.
\<close>

section \<open>Data\<close>

definition PIPE_DEFAULT_CAPACITY :: usize where
  "PIPE_DEFAULT_CAPACITY = 64 * 1024"

datatype pipe_end = Read | Write

record pipe_handle =
  pipe_id :: usize
  pipe_side :: pipe_end

record pipe_state =
  buf :: "byte list"
  readers :: usize
  writers :: usize

record pipe_registry =
  pipes :: "(usize, pipe_state) btree"
  next_pipe_id :: usize

section \<open>The registry\<close>

definition pipe_registry_new :: pipe_registry where
  "pipe_registry_new = \<lparr>pipes = [], next_pipe_id = 1\<rparr>"

definition create_pipe :: "pipe_registry \<Rightarrow> usize \<times> pipe_registry" where
  "create_pipe r =
     (let pid = next_pipe_id r in
      (pid, r\<lparr>next_pipe_id := wrap_add pid 1,
              pipes := bt_insert pid \<lparr>buf = [], readers = 0, writers = 0\<rparr> (pipes r)\<rparr>))"

definition open_pipe :: "usize \<Rightarrow> pipe_end \<Rightarrow> pipe_registry \<Rightarrow> bool \<times> pipe_registry" where
  "open_pipe p e r =
     (case bt_get (pipes r) p of
        None \<Rightarrow> (False, r)
      | Some st \<Rightarrow>
          (True, r\<lparr>pipes := bt_insert p
             (case e of Read \<Rightarrow> st\<lparr>readers := sat_add (readers st) 1\<rparr>
                      | Write \<Rightarrow> st\<lparr>writers := sat_add (writers st) 1\<rparr>) (pipes r)\<rparr>))"

text \<open>The copy loop: one byte is popped from the queue per iteration.\<close>

fun pipe_read_loop :: "nat \<Rightarrow> byte list \<Rightarrow> byte list \<Rightarrow> nat \<times> byte list \<times> byte list" where
  "pipe_read_loop n dst [] = (n, dst, [])"
| "pipe_read_loop n dst (b # bs) =
     (if n < length dst then pipe_read_loop (n + 1) (dst[n := b]) bs else (n, dst, b # bs))"

definition pipe_read ::
  "usize \<Rightarrow> byte list \<Rightarrow> pipe_registry \<Rightarrow> (nat \<times> bool \<times> byte list) option \<times> pipe_registry" where
  "pipe_read p dst r =
     (case bt_get (pipes r) p of
        None \<Rightarrow> (None, r)
      | Some st \<Rightarrow>
          (case pipe_read_loop 0 dst (buf st) of (n, dst', rest) \<Rightarrow>
             (Some (n, writers st = 0, dst'),
              r\<lparr>pipes := bt_insert p (st\<lparr>buf := rest\<rparr>) (pipes r)\<rparr>)))"

definition pipe_write ::
  "usize \<Rightarrow> byte list \<Rightarrow> pipe_registry \<Rightarrow> (nat \<times> bool) option \<times> pipe_registry" where
  "pipe_write p src r =
     (case bt_get (pipes r) p of
        None \<Rightarrow> (None, r)
      | Some st \<Rightarrow>
          if readers st = 0 then (Some (0, True), r)
          else
            let free = sat_sub PIPE_DEFAULT_CAPACITY (length (buf st));
                write_len = min free (length src)
            in (Some (write_len, False),
                r\<lparr>pipes := bt_insert p (st\<lparr>buf := buf st @ take write_len src\<rparr>) (pipes r)\<rparr>))"

definition close_pipe_read_end :: "usize \<Rightarrow> pipe_registry \<Rightarrow> pipe_registry" where
  "close_pipe_read_end p r =
     (case bt_get (pipes r) p of
        None \<Rightarrow> r
      | Some st \<Rightarrow>
          let st' = st\<lparr>readers := sat_sub (readers st) 1\<rparr> in
          if readers st' = 0 \<and> writers st' = 0 then r\<lparr>pipes := bt_remove p (pipes r)\<rparr>
          else r\<lparr>pipes := bt_insert p st' (pipes r)\<rparr>)"

definition close_pipe_write_end :: "usize \<Rightarrow> pipe_registry \<Rightarrow> pipe_registry" where
  "close_pipe_write_end p r =
     (case bt_get (pipes r) p of
        None \<Rightarrow> r
      | Some st \<Rightarrow>
          let st' = st\<lparr>writers := sat_sub (writers st) 1\<rparr> in
          if readers st' = 0 \<and> writers st' = 0 then r\<lparr>pipes := bt_remove p (pipes r)\<rparr>
          else r\<lparr>pipes := bt_insert p st' (pipes r)\<rparr>)"

definition clone_pipe_read_end :: "usize \<Rightarrow> pipe_registry \<Rightarrow> pipe_registry" where
  "clone_pipe_read_end p r =
     r\<lparr>pipes := bt_alter p (\<lambda>st. st\<lparr>readers := sat_add (readers st) 1\<rparr>) (pipes r)\<rparr>"

definition clone_pipe_write_end :: "usize \<Rightarrow> pipe_registry \<Rightarrow> pipe_registry" where
  "clone_pipe_write_end p r =
     r\<lparr>pipes := bt_alter p (\<lambda>st. st\<lparr>writers := sat_add (writers st) 1\<rparr>) (pipes r)\<rparr>"

section \<open>The file handle of an end\<close>

definition pipe_handle_close :: "pipe_handle \<Rightarrow> pipe_registry \<Rightarrow> unit res \<times> pipe_registry" where
  "pipe_handle_close h r =
     (Ok (), case pipe_side h of Read \<Rightarrow> close_pipe_read_end (pipe_id h) r
                               | Write \<Rightarrow> close_pipe_write_end (pipe_id h) r)"

definition pipe_handle_stat :: "fs_proto \<Rightarrow> pipe_handle \<Rightarrow> fs_stat res" where
  "pipe_handle_stat P h =
     Ok ((stat_default P)\<lparr>st_mode := s_ifchr P OR 438, nlink := 1, blksize := 4096\<rparr>)"

definition pipe_handle_read ::
  "pipe_handle \<Rightarrow> usize \<Rightarrow> byte list \<Rightarrow> pipe_registry \<Rightarrow> (nat \<times> byte list) res \<times> pipe_registry" where
  "pipe_handle_read h off dst r =
     (if pipe_side h \<noteq> Read then (Err InvalidType, r)
      else case pipe_read (pipe_id h) dst r of
             (None, r') \<Rightarrow> (Err NotFound, r')
           | (Some (n, writers_closed, dst'), r') \<Rightarrow> (Ok (n, dst'), r'))"

definition pipe_handle_write ::
  "pipe_handle \<Rightarrow> usize \<Rightarrow> byte list \<Rightarrow> pipe_registry \<Rightarrow> nat res \<times> pipe_registry" where
  "pipe_handle_write h off src r =
     (if pipe_side h \<noteq> Write then (Err InvalidType, r)
      else case pipe_write (pipe_id h) src r of
             (None, r') \<Rightarrow> (Err NotFound, r')
           | (Some (n, no_readers), r') \<Rightarrow> (if no_readers then Err IoError else Ok n, r'))"

definition pipe_handle_getdents :: "pipe_handle \<Rightarrow> usize \<Rightarrow> string list res" where
  "pipe_handle_getdents h cnt = Err InvalidType"

definition pipe_handle_seek :: "pipe_handle \<Rightarrow> int \<Rightarrow> usize \<Rightarrow> usize res" where
  "pipe_handle_seek h off whence = Err InvalidArgs"

definition pipe_handle_sync :: "pipe_handle \<Rightarrow> unit res" where
  "pipe_handle_sync h = Ok ()"

definition pipe_handle_truncate :: "pipe_handle \<Rightarrow> usize \<Rightarrow> unit res" where
  "pipe_handle_truncate h sz = Err InvalidType"

section \<open>The namespace\<close>

definition pipefs_parse :: "string \<Rightarrow> pipe_handle res" where
  "pipefs_parse path =
     (case split_on (CHR ''/'') (trim_start (CHR ''/'') path) of
        [id_part, end_part] \<Rightarrow>
          (case parse_usize id_part of
             None \<Rightarrow> Err InvalidArgs
           | Some p \<Rightarrow>
               if end_part = ''r'' \<or> end_part = ''read'' then Ok \<lparr>pipe_id = p, pipe_side = Read\<rparr>
               else if end_part = ''w'' \<or> end_part = ''write'' then Ok \<lparr>pipe_id = p, pipe_side = Write\<rparr>
               else Err InvalidArgs)
      | _ \<Rightarrow> Err InvalidArgs)"

definition pipefs_open :: "string \<Rightarrow> pipe_registry \<Rightarrow> pipe_handle res \<times> pipe_registry" where
  "pipefs_open path r =
     (case pipefs_parse path of
        Ok h \<Rightarrow>
          (case open_pipe (pipe_id h) (pipe_side h) r of
             (found, r') \<Rightarrow> if found then (Ok h, r') else (Err NotFound, r'))
      | Err e \<Rightarrow> (Err e, r)
      | Panic \<Rightarrow> (Panic, r))"

definition pipefs_create_pipe :: "pipe_registry \<Rightarrow> usize res \<times> pipe_registry" where
  "pipefs_create_pipe r = (case create_pipe r of (p, r') \<Rightarrow> (Ok p, r'))"

text \<open>The operations the pipe file system does not offer.\<close>

definition pipefs_mkdir :: "string \<Rightarrow> unit res" where
  "pipefs_mkdir path = Err NotSupported"

definition pipefs_unlink :: "string \<Rightarrow> unit res" where
  "pipefs_unlink path = Err NotSupported"

definition pipefs_stat_path :: "string \<Rightarrow> fs_stat res" where
  "pipefs_stat_path path = Err NotSupported"

definition pipefs_lstat_path :: "string \<Rightarrow> fs_stat res" where
  "pipefs_lstat_path path = Err NotSupported"

definition pipefs_readlink_path :: "string \<Rightarrow> string res" where
  "pipefs_readlink_path path = Err NotSupported"

text \<open>
  The path under which \<open>open_pipe_end_via_pipefs\<close>
  (\<open>src/src/fs/fd.rs\<close>) asks for an end: \<open>format!("/{}/{}", pipe_id, suffix)\<close>.
\<close>

definition pipe_end_path :: "usize \<Rightarrow> string \<Rightarrow> string" where
  "pipe_end_path p suffix = ''/'' @ show_usize p @ ''/'' @ suffix"

section \<open>Sessions and interleavings\<close>

text \<open>A session on one pipe: reads and writes, with the bytes accepted and delivered.\<close>

datatype pipe_op = Put "byte list" | Get nat

fun pipe_session ::
  "usize \<Rightarrow> pipe_op list \<Rightarrow> pipe_registry \<Rightarrow> byte list \<times> byte list \<times> pipe_registry" where
  "pipe_session p [] r = ([], [], r)"
| "pipe_session p (Put bs # ops) r =
     (case pipe_write p bs r of
        (None, r') \<Rightarrow> pipe_session p ops r'
      | (Some (n, _), r') \<Rightarrow>
          (case pipe_session p ops r' of (ws, ds, r'') \<Rightarrow> (take n bs @ ws, ds, r'')))"
| "pipe_session p (Get k # ops) r =
     (case pipe_read p (replicate k 0) r of
        (None, r') \<Rightarrow> pipe_session p ops r'
      | (Some (n, _, dst), r') \<Rightarrow>
          (case pipe_session p ops r' of (ws, ds, r'') \<Rightarrow> (ws, take n dst @ ds, r'')))"

text \<open>
  Every interleaving of the clients of the pipe file system: a state is the registry
  with the multiset of the handles that are open. Fewer than \<open>2 ^ 64 - 1\<close>
  handles are open at a time and fewer than \<open>2 ^ 64 - 1\<close> pipes are created.
\<close>

type_synonym pipe_sys = "pipe_registry \<times> pipe_handle multiset"

inductive pipe_step :: "pipe_sys \<Rightarrow> pipe_sys \<Rightarrow> bool" where
  step_create: "next_pipe_id r < usize_max \<Longrightarrow> create_pipe r = (p, r') \<Longrightarrow> pipe_step (r, H) (r', H)"
| step_open: "size H < usize_max \<Longrightarrow> pipefs_open path r = (Ok h, r') \<Longrightarrow>
     pipe_step (r, H) (r', add_mset h H)"
| step_open_fail: "pipefs_open path r = (Err e, r') \<Longrightarrow> pipe_step (r, H) (r', H)"
| step_read: "h \<in># H \<Longrightarrow> pipe_handle_read h off dst r = (x, r') \<Longrightarrow> pipe_step (r, H) (r', H)"
| step_write: "h \<in># H \<Longrightarrow> pipe_handle_write h off src r = (y, r') \<Longrightarrow> pipe_step (r, H) (r', H)"
| step_close: "h \<in># H \<Longrightarrow> pipe_handle_close h r = (z, r') \<Longrightarrow> pipe_step (r, H) (r', H - {#h#})"
| step_clone_read: "h \<in># H \<Longrightarrow> pipe_side h = Read \<Longrightarrow> size H < usize_max \<Longrightarrow>
     pipe_step (r, H) (clone_pipe_read_end (pipe_id h) r, add_mset h H)"
| step_clone_write: "h \<in># H \<Longrightarrow> pipe_side h = Write \<Longrightarrow> size H < usize_max \<Longrightarrow>
     pipe_step (r, H) (clone_pipe_write_end (pipe_id h) r, add_mset h H)"

inductive pipe_reachable :: "pipe_sys \<Rightarrow> bool" where
  reach_new: "pipe_reachable (pipe_registry_new, {#})"
| reach_step: "pipe_reachable s \<Longrightarrow> pipe_step s t \<Longrightarrow> pipe_reachable t"

inductive_cases pipe_stepE: "pipe_step s t"

abbreviation read_end :: "usize \<Rightarrow> pipe_handle" where
  "read_end p \<equiv> \<lparr>pipe_id = p, pipe_side = Read\<rparr>"

abbreviation write_end :: "usize \<Rightarrow> pipe_handle" where
  "write_end p \<equiv> \<lparr>pipe_id = p, pipe_side = Write\<rparr>"

text \<open>The counts of a pipe are the numbers of its open ends, and its queue is bounded.\<close>

definition counts_ok :: "pipe_registry \<Rightarrow> pipe_handle multiset \<Rightarrow> usize \<Rightarrow> bool" where
  "counts_ok r H p =
     (case bt_get (pipes r) p of
        None \<Rightarrow> read_end p \<notin># H \<and> write_end p \<notin># H
      | Some st \<Rightarrow> readers st = count H (read_end p) \<and> writers st = count H (write_end p)
                   \<and> length (buf st) \<le> PIPE_DEFAULT_CAPACITY \<and> 0 < p \<and> p < next_pipe_id r)"

definition pipe_inv :: "pipe_sys \<Rightarrow> bool" where
  "pipe_inv s = (case s of (r, H) \<Rightarrow>
     0 < next_pipe_id r \<and> next_pipe_id r \<le> usize_max \<and> size H \<le> usize_max \<and> (\<forall>p. counts_ok r H p))"

section \<open>Lemmas\<close>

lemma pipe_read_loop_eq:
  assumes "n \<le> length dst"
  shows "pipe_read_loop n dst q =
     (let k = min (length dst - n) (length q)
      in (n + k, take n dst @ take k q @ drop (n + k) dst, drop k q))"
  using assms
proof (induction n dst q rule: pipe_read_loop.induct)
  case (2 n dst b bs)
  show ?case
  proof (cases "n < length dst")
    case True
    let ?k = "min (length dst - Suc n) (length bs)"
    from True have k: "min (length dst - n) (length (b # bs)) = Suc ?k" by auto
    from True have "take (n + 1) (dst[n := b]) = take n dst @ [b]"
      by (simp add: take_Suc_conv_app_nth)
    with True 2 k show ?thesis by (simp add: Let_def)
  qed (use 2 in simp)
qed simp

lemma pipe_read_eq:
  "pipe_read p dst r =
     (case bt_get (pipes r) p of
        None \<Rightarrow> (None, r)
      | Some st \<Rightarrow> let k = min (length dst) (length (buf st)) in
          (Some (k, writers st = 0, take k (buf st) @ drop k dst),
           r\<lparr>pipes := bt_insert p (st\<lparr>buf := drop k (buf st)\<rparr>) (pipes r)\<rparr>))"
  by (simp add: pipe_read_def pipe_read_loop_eq Let_def split: option.split)

lemmas pipe_registry_defs =
  create_pipe_def open_pipe_def pipe_read_eq pipe_write_def close_pipe_read_end_def
  close_pipe_write_end_def clone_pipe_read_end_def clone_pipe_write_end_def

interpretation pipe_file: file_handle pipe_handle_read pipe_handle_write
proof unfold_locales
  fix h off dst r n dst' r'
  assume "pipe_handle_read h off dst r = (Ok (n, dst'), r')"
  then show "n \<le> length dst \<and> length dst' = length dst \<and> drop n dst' = drop n dst"
    by (auto simp: pipe_handle_read_def pipe_read_eq Let_def split: if_splits option.splits)
next
  fix h off src r n r'
  assume "pipe_handle_write h off src r = (Ok n, r')"
  then show "n \<le> length src"
    by (auto simp: pipe_handle_write_def pipe_write_def Let_def split: if_splits option.splits)
qed

subsection \<open>Each operation keeps the invariant\<close>

lemma pipe_handle_cases: "h = read_end (pipe_id h) \<and> pipe_side h = Read \<or> h = write_end (pipe_id h) \<and> pipe_side h = Write"
  by (cases h, cases "pipe_side h") auto

lemma sat_add_count: "size H < usize_max \<Longrightarrow> sat_add (count H x) (Suc 0) = Suc (count H x)"
proof -
  assume "size H < usize_max"
  moreover have "count H x \<le> size H"
    by (metis count_le_replicate_mset_subset_eq order_refl size_mset_mono size_replicate_mset)
  ultimately show ?thesis by (simp add: sat_add_def)
qed

lemma pipe_invD:
  assumes "pipe_inv (r, H)"
  shows "counts_ok r H q" "0 < next_pipe_id r" "next_pipe_id r \<le> usize_max" "size H \<le> usize_max"
  using assms by (simp_all add: pipe_inv_def)

lemma pipe_invI:
  assumes "\<And>q. counts_ok r H q" "0 < next_pipe_id r" "next_pipe_id r \<le> usize_max" "size H \<le> usize_max"
  shows "pipe_inv (r, H)"
  using assms by (auto simp: pipe_inv_def)

lemma pipe_inv_create:
  assumes inv: "pipe_inv (r, H)" and room: "next_pipe_id r < usize_max" and "create_pipe r = (p, r')"
  shows "pipe_inv (r', H)"
proof (rule pipe_invI)
  from assms(3) room have r': "r' = r\<lparr>next_pipe_id := Suc (next_pipe_id r),
      pipes := bt_insert (next_pipe_id r) \<lparr>buf = [], readers = 0, writers = 0\<rparr> (pipes r)\<rparr>"
    by (auto simp: create_pipe_def Let_def)
  from pipe_invD(1)[OF inv, of "next_pipe_id r"] have "bt_get (pipes r) (next_pipe_id r) = None"
    by (auto simp: counts_ok_def split: option.splits)
  then show "counts_ok r' H q" for q
    using pipe_invD(1)[OF inv, of q] pipe_invD(2)[OF inv]
    by (cases "q = next_pipe_id r") (auto simp: counts_ok_def r' not_in_iff split: option.splits)
  show "0 < next_pipe_id r'" "next_pipe_id r' \<le> usize_max" "size H \<le> usize_max"
    using r' room pipe_invD(4)[OF inv] by simp_all
qed

lemma open_pipe_True:
  "open_pipe p e r = (True, r') \<longleftrightarrow> (\<exists>st. bt_get (pipes r) p = Some st \<and>
     r' = r\<lparr>pipes := bt_insert p
        (case e of Read \<Rightarrow> st\<lparr>readers := sat_add (readers st) 1\<rparr>
                 | Write \<Rightarrow> st\<lparr>writers := sat_add (writers st) 1\<rparr>) (pipes r)\<rparr>)"
  by (auto simp: open_pipe_def split: option.splits)

lemma counts_ok_open:
  assumes "counts_ok r H q" and "size H < usize_max" and "bt_get (pipes r) p = Some st"
  shows "counts_ok (r\<lparr>pipes := bt_insert p (st\<lparr>readers := sat_add (readers st) 1\<rparr>) (pipes r)\<rparr>)
           (add_mset (read_end p) H) q"
    and "counts_ok (r\<lparr>pipes := bt_insert p (st\<lparr>writers := sat_add (writers st) 1\<rparr>) (pipes r)\<rparr>)
           (add_mset (write_end p) H) q"
  using assms by (auto simp: counts_ok_def sat_add_count split: option.splits)

lemma pipe_inv_opened:
  assumes inv: "pipe_inv (r, H)" and room: "size H < usize_max"
    and "open_pipe (pipe_id h) (pipe_side h) r = (True, r')"
  shows "pipe_inv (r', add_mset h H)"
proof (rule pipe_invI)
  from assms(3) obtain st where st: "bt_get (pipes r) (pipe_id h) = Some st"
    and r': "r' = r\<lparr>pipes := bt_insert (pipe_id h)
        (case pipe_side h of Read \<Rightarrow> st\<lparr>readers := sat_add (readers st) 1\<rparr>
                 | Write \<Rightarrow> st\<lparr>writers := sat_add (writers st) 1\<rparr>) (pipes r)\<rparr>"
    by (auto simp: open_pipe_True)
  show "counts_ok r' (add_mset h H) q" for q
    using counts_ok_open[OF pipe_invD(1)[OF inv] room st, of q] pipe_handle_cases[of h] r'
    by (elim disjE) (metis pipe_end.simps(3), metis pipe_end.simps(4))
  show "0 < next_pipe_id r'" "next_pipe_id r' \<le> usize_max" "size (add_mset h H) \<le> usize_max"
    using r' room pipe_invD[OF inv] by simp_all
qed

lemma pipefs_open_Ok:
  "pipefs_open path r = (Ok h, r') \<Longrightarrow> open_pipe (pipe_id h) (pipe_side h) r = (True, r')"
  by (auto simp: pipefs_open_def split: res.splits prod.splits if_splits)

lemma pipefs_open_Err: "pipefs_open path r = (Err e, r') \<Longrightarrow> r' = r"
  by (auto simp: pipefs_open_def open_pipe_def split: res.splits option.splits)

text \<open>Reads and writes change the queue of one pipe and nothing else.\<close>

lemma counts_ok_buf:
  assumes "counts_ok r H q" and "bt_get (pipes r) p = Some st" and "length b \<le> PIPE_DEFAULT_CAPACITY"
  shows "counts_ok (r\<lparr>pipes := bt_insert p (st\<lparr>buf := b\<rparr>) (pipes r)\<rparr>) H q"
  using assms by (auto simp: counts_ok_def split: option.splits)

lemma pipe_inv_buf:
  assumes "pipe_inv (r, H)" and "bt_get (pipes r) p = Some st" and "length b \<le> PIPE_DEFAULT_CAPACITY"
  shows "pipe_inv (r\<lparr>pipes := bt_insert p (st\<lparr>buf := b\<rparr>) (pipes r)\<rparr>, H)"
  using assms by (intro pipe_invI) (auto intro: counts_ok_buf dest: pipe_invD)

lemma pipe_inv_bounded:
  "pipe_inv (r, H) \<Longrightarrow> bt_get (pipes r) p = Some st \<Longrightarrow> length (buf st) \<le> PIPE_DEFAULT_CAPACITY"
  using pipe_invD(1)[of r H p] by (simp add: counts_ok_def)

lemma pipe_inv_read:
  assumes "pipe_inv (r, H)" and "pipe_handle_read h off dst r = (x, r')"
  shows "pipe_inv (r', H)"
  using assms(2) assms(1) pipe_inv_bounded[OF assms(1)]
  by (fastforce simp: pipe_handle_read_def pipe_read_eq Let_def intro!: pipe_inv_buf
      intro: le_trans[OF diff_le_self] split: option.splits if_splits)

lemma pipe_inv_write:
  assumes "pipe_inv (r, H)" and "pipe_handle_write h off src r = (x, r')"
  shows "pipe_inv (r', H)"
  using assms(2) assms(1) pipe_inv_bounded[OF assms(1)]
  by (fastforce simp: pipe_handle_write_def pipe_write_def Let_def sat_sub_def intro!: pipe_inv_buf
      split: option.splits if_splits)

lemma pipe_handle_present:
  assumes "pipe_inv (r, H)" and "h \<in># H"
  obtains st where "bt_get (pipes r) (pipe_id h) = Some st"
    and "readers st = count H (read_end (pipe_id h))" and "writers st = count H (write_end (pipe_id h))"
    and "length (buf st) \<le> PIPE_DEFAULT_CAPACITY"
proof -
  from assms(2) pipe_handle_cases[of h]
  have "read_end (pipe_id h) \<in># H \<or> write_end (pipe_id h) \<in># H" by metis
  with pipe_invD(1)[OF assms(1), of "pipe_id h"] that show thesis
    by (auto simp: counts_ok_def split: option.splits)
qed

lemma counts_ok_close:
  assumes "counts_ok r H q"
  shows "read_end p \<in># H \<Longrightarrow> counts_ok (close_pipe_read_end p r) (H - {#read_end p#}) q"
    and "write_end p \<in># H \<Longrightarrow> counts_ok (close_pipe_write_end p r) (H - {#write_end p#}) q"
  using assms
  by (auto simp: counts_ok_def close_pipe_read_end_def close_pipe_write_end_def Let_def sat_sub_def
      not_in_iff in_diff_count split: option.splits if_splits)

lemma next_pipe_id_close [simp]:
  "next_pipe_id (close_pipe_read_end p r) = next_pipe_id r"
  "next_pipe_id (close_pipe_write_end p r) = next_pipe_id r"
  by (simp_all add: close_pipe_read_end_def close_pipe_write_end_def Let_def split: option.split)

lemma pipe_inv_close:
  assumes inv: "pipe_inv (r, H)" and h: "h \<in># H" and "pipe_handle_close h r = (x, r')"
  shows "pipe_inv (r', H - {#h#})"
proof (rule pipe_invI)
  from assms(3) have r': "r' = (case pipe_side h of Read \<Rightarrow> close_pipe_read_end (pipe_id h) r
                               | Write \<Rightarrow> close_pipe_write_end (pipe_id h) r)"
    by (simp add: pipe_handle_close_def)
  show "counts_ok r' (H - {#h#}) q" for q
    using counts_ok_close[OF pipe_invD(1)[OF inv], of "pipe_id h" q] h pipe_handle_cases[of h] r'
    by (elim disjE) (metis pipe_end.simps(3), metis pipe_end.simps(4))
  show "0 < next_pipe_id r'" "next_pipe_id r' \<le> usize_max" "size (H - {#h#}) \<le> usize_max"
    using pipe_invD[OF inv] h by (simp_all add: r' size_Diff_singleton split: pipe_end.split)
qed

lemma clone_pipe_open:
  assumes "bt_get (pipes r) p = Some st"
  shows "open_pipe p Read r = (True, clone_pipe_read_end p r)"
    and "open_pipe p Write r = (True, clone_pipe_write_end p r)"
  using assms by (simp_all add: open_pipe_def clone_pipe_read_end_def clone_pipe_write_end_def bt_alter_def)

lemma pipe_inv_clone:
  assumes "pipe_inv (r, H)" and "h \<in># H" and "size H < usize_max"
  shows "pipe_side h = Read \<Longrightarrow> pipe_inv (clone_pipe_read_end (pipe_id h) r, add_mset h H)"
    and "pipe_side h = Write \<Longrightarrow> pipe_inv (clone_pipe_write_end (pipe_id h) r, add_mset h H)"
proof -
  from assms(1,2) obtain st where "bt_get (pipes r) (pipe_id h) = Some st" by (rule pipe_handle_present)
  note clone_pipe_open[OF this]
  then show "pipe_side h = Read \<Longrightarrow> pipe_inv (clone_pipe_read_end (pipe_id h) r, add_mset h H)"
    and "pipe_side h = Write \<Longrightarrow> pipe_inv (clone_pipe_write_end (pipe_id h) r, add_mset h H)"
    using pipe_inv_opened[OF assms(1,3)] by auto
qed

lemma pipe_inv_step: "pipe_step s t \<Longrightarrow> pipe_inv s \<Longrightarrow> pipe_inv t"
  by (induction rule: pipe_step.induct)
    (auto intro: pipe_inv_create pipe_inv_opened pipefs_open_Ok pipe_inv_read pipe_inv_write
      pipe_inv_close pipe_inv_clone dest: pipefs_open_Err)

lemma pipe_inv_new: "pipe_inv (pipe_registry_new, {#})"
  by (simp add: pipe_inv_def counts_ok_def pipe_registry_new_def usize_max_def)

lemma pipe_inv_reachable: "pipe_reachable s \<Longrightarrow> pipe_inv s"
  by (induction rule: pipe_reachable.induct) (auto intro: pipe_inv_new pipe_inv_step)

section \<open>Properties\<close>

text \<open>
  C1: along every interleaving of creations, opens, transfers, clones and closes, the
  reader and writer counts kept for a pipe are the numbers of its read and write ends
  that are open; a pipe with no open end that was closed is gone from the registry;
  and no queue exceeds the capacity.
\<close>

theorem pipe_counts_match_open_ends:
  assumes "pipe_reachable (r, H)"
  shows "(case bt_get (pipes r) p of
            None \<Rightarrow> read_end p \<notin># H \<and> write_end p \<notin># H
          | Some st \<Rightarrow> readers st = count H (read_end p) \<and> writers st = count H (write_end p)
                       \<and> length (buf st) \<le> PIPE_DEFAULT_CAPACITY \<and> 0 < p)"
  using pipe_invD(1)[OF pipe_inv_reachable[OF assms], of p]
  by (auto simp: counts_ok_def split: option.splits)

text \<open>
  C19: an open end is never dangling. In every reachable state a read through an open
  read end returns the front of the queue, and a write through an open write end
  stores as much as the capacity leaves room for, or fails with an I/O error exactly
  when no read end of its pipe is open.
\<close>

theorem pipe_ends_never_dangle:
  assumes "pipe_reachable (r, H)" and "h \<in># H"
  shows "\<exists>st. bt_get (pipes r) (pipe_id h) = Some st \<and>
     (pipe_side h = Read \<longrightarrow> fst (pipe_handle_read h off dst r) =
        Ok (min (length dst) (length (buf st)),
            take (length dst) (buf st) @ drop (length (buf st)) dst)) \<and>
     (pipe_side h = Write \<longrightarrow> fst (pipe_handle_write h off src r) =
        (if read_end (pipe_id h) \<in># H
         then Ok (min (PIPE_DEFAULT_CAPACITY - length (buf st)) (length src))
         else Err IoError))"
proof -
  from pipe_handle_present[OF pipe_inv_reachable[OF assms(1)] assms(2)] obtain st where
    st: "bt_get (pipes r) (pipe_id h) = Some st" "readers st = count H (read_end (pipe_id h))" by metis
  have "drop (min (length dst) (length (buf st))) dst = drop (length (buf st)) dst"
    and "take (min (length dst) (length (buf st))) (buf st) = take (length dst) (buf st)"
    by (simp_all add: min_def)
  with st show ?thesis
    by (cases "pipe_side h") (auto simp: pipe_handle_read_def pipe_read_eq pipe_handle_write_def
        pipe_write_def Let_def sat_sub_def not_in_iff)
qed

lemma pipe_example_reachable:
  "pipe_reachable (\<lparr>pipes = [(1, \<lparr>buf = [], readers = 1, writers = 0\<rparr>)], next_pipe_id = 2\<rparr>,
     {#read_end 1#})"
proof -
  let ?r1 = "\<lparr>pipes = [(1, \<lparr>buf = [], readers = 0, writers = 0\<rparr>)], next_pipe_id = 2\<rparr>"
  have "pipe_step (pipe_registry_new, {#}) (?r1, {#})"
    by (rule step_create[where p = 1]) (simp_all add: pipe_registry_new_def create_pipe_def usize_max_def)
  then have "pipe_reachable (?r1, {#})" by (rule reach_step[OF reach_new])
  moreover have "pipe_step (?r1, {#})
     (\<lparr>pipes = [(1, \<lparr>buf = [], readers = 1, writers = 0\<rparr>)], next_pipe_id = 2\<rparr>, {#read_end 1#})"
    by (rule step_open[where path = "''/1/r''"])
      (simp_all add: usize_max_def pipefs_open_def pipefs_parse_def parse_usize_def digit_val_def
        open_pipe_def bt_get_def)
  ultimately show ?thesis by (rule reach_step)
qed

theorem pipe_counts_match_open_ends_witness:
  "readers (the (bt_get [(1, \<lparr>buf = [], readers = 1, writers = 0\<rparr>)] 1)) =
   count {#read_end 1#} (read_end 1)"
  using pipe_counts_match_open_ends[OF pipe_example_reachable, of 1] by (simp add: bt_get_def)

theorem pipe_ends_never_dangle_witness:
  "fst (pipe_handle_read (read_end 1) 0 [7, 8]
     \<lparr>pipes = [(1, \<lparr>buf = [], readers = 1, writers = 0\<rparr>)], next_pipe_id = 2\<rparr>) = Ok (0, [7, 8])"
  using pipe_ends_never_dangle[OF pipe_example_reachable, of "read_end 1", where off = 0 and dst = "[7, 8]"]
  by (auto simp: bt_get_def)

lemma pipe_write_cases:
  assumes "bt_get (pipes r) p = Some st" and "0 < readers st"
  obtains n where "n \<le> length bs" and "n = min (PIPE_DEFAULT_CAPACITY - length (buf st)) (length bs)"
    and "pipe_write p bs r = (Some (n, False),
           r\<lparr>pipes := bt_insert p (st\<lparr>buf := buf st @ take n bs\<rparr>) (pipes r)\<rparr>)"
  using assms by (auto simp: pipe_write_def Let_def sat_sub_def)

text \<open>
  C20: a pipe is a first-in-first-out queue. Over any session of writes and reads on a
  pipe with an open read end, the bytes delivered, followed by what is still queued,
  are the bytes queued before, followed by the bytes the writes accepted.
\<close>

theorem pipe_session_fifo:
  assumes "bt_get (pipes r) p = Some st" and "0 < readers st"
    and "pipe_session p ops r = (accepted, delivered, r')"
  shows "\<exists>st'. bt_get (pipes r') p = Some st' \<and> readers st' = readers st \<and>
           delivered @ buf st' = buf st @ accepted"
  using assms
proof (induction p ops r arbitrary: st accepted delivered rule: pipe_session.induct)
  case (2 p bs ops r)
  from pipe_write_cases[OF "2.prems"(1,2)] obtain n where n: "pipe_write p bs r = (Some (n, False),
      r\<lparr>pipes := bt_insert p (st\<lparr>buf := buf st @ take n bs\<rparr>) (pipes r)\<rparr>)"
    (is "_ = (_, ?r)") by metis
  obtain ws where ws: "pipe_session p ops ?r = (ws, delivered, r')" and "accepted = take n bs @ ws"
    using "2.prems"(3) n by (auto split: prod.splits)
  with "2.IH"(2)[OF n[symmetric] refl refl _ _ ws] "2.prems"(2) show ?case by force
next
  case (3 p k ops r)
  let ?k = "min k (length (buf st))"
  have n: "pipe_read p (replicate k 0) r = (Some (?k, writers st = 0, take ?k (buf st) @ replicate (k - ?k) 0),
      r\<lparr>pipes := bt_insert p (st\<lparr>buf := drop ?k (buf st)\<rparr>) (pipes r)\<rparr>)"
    (is "_ = (_, ?r)") using "3.prems"(1) by (simp add: pipe_read_eq Let_def)
  obtain ds where ds: "pipe_session p ops ?r = (accepted, ds, r')"
    and d: "delivered = take ?k (buf st) @ ds"
    using "3.prems"(3) n by (auto split: prod.splits)
  from "3.IH"(2)[OF n[symmetric] refl refl refl _ _ ds] "3.prems"(2)
  obtain st' where "bt_get (pipes r') p = Some st'" "readers st' = readers st"
    and q: "ds @ buf st' = drop ?k (buf st) @ accepted" by force
  moreover from q d have "delivered @ buf st' = buf st @ accepted" by simp
  ultimately show ?case by blast
qed simp

theorem pipe_session_fifo_witness:
  "\<exists>st'. bt_get (pipes (snd (snd (pipe_session 1 [Put [1, 2], Get 1, Put [3]]
       \<lparr>pipes = [(1, \<lparr>buf = [], readers = 1, writers = 1\<rparr>)], next_pipe_id = 2\<rparr>)))) 1 = Some st' \<and>
     readers st' = 1 \<and> [1] @ buf st' = [] @ [1, 2, 3]"
  using pipe_session_fifo[of "\<lparr>pipes = [(1, \<lparr>buf = [], readers = 1, writers = 1\<rparr>)], next_pipe_id = 2\<rparr>"
      1 "\<lparr>buf = [], readers = 1, writers = 1\<rparr>" "[Put [1, 2], Get 1, Put [3]]" "[1, 2, 3]" "[1]"]
  by (simp add: bt_get_def pipe_write_def pipe_read_def PIPE_DEFAULT_CAPACITY_def sat_sub_def)

text \<open>
  The path that \<open>do_pipe2\<close> formats for an end of a pipe opens exactly that end
  of exactly that pipe: formatting and parsing are inverse for every pipe identifier.
\<close>

theorem pipe_path_roundtrip:
  assumes "p \<le> usize_max"
  shows "pipefs_parse (pipe_end_path p ''r'') = Ok (read_end p) \<and>
         pipefs_parse (pipe_end_path p ''w'') = Ok (write_end p)"
proof -
  have "split_on (CHR ''/'') (trim_start (CHR ''/'') (pipe_end_path p t)) = [show_usize p, t]"
    if "CHR ''/'' \<notin> set t" for t
  proof -
    have "show_usize p \<noteq> [] \<and> hd (show_usize p) \<noteq> CHR ''/''"
      using show_usize_no_slash[of p] by (metis show_usize_ne hd_in_set)
    then have "trim_start (CHR ''/'') (pipe_end_path p t) = show_usize p @ CHR ''/'' # t"
      by (simp add: pipe_end_path_def trim_start_id)
    with that show ?thesis by (simp add: split_on_append split_on_no show_usize_no_slash)
  qed
  with parse_show_usize[OF assms] show ?thesis by (simp add: pipefs_parse_def)
qed

theorem pipe_path_roundtrip_witness: "pipefs_parse (pipe_end_path 37 ''w'') = Ok (write_end 37)"
  using pipe_path_roundtrip[of 37] by (simp add: usize_max_def)

end
