(* ===== verification/Fd.thy ===== *)
theory Fd
  imports User_Access Pipe
begin

text \<open>
  File descriptors (\<open>src/src/fs/fd.rs\<close>): opening, closing, duplicating and
  listing, and the creation of pipes. A descriptor holds a handle with the endpoint of
  the opened file; duplicates and forked children share the endpoint, which is closed by
  the last holder.
\<close>

section \<open>Handles\<close>

definition DIRENT64_FIXED_SIZE :: usize where "DIRENT64_FIXED_SIZE = 8 + 8 + 2 + 1"
definition DIRENT64_MIN_RECLEN :: usize where "DIRENT64_MIN_RECLEN = 24"
definition FS_ASYNC_REGION_SIZE :: usize where "FS_ASYNC_REGION_SIZE = 16 * 1024"
definition ENABLE_FS_ASYNC_IO :: bool where "ENABLE_FS_ASYNC_IO = True"

definition PIPE2_ALLOWED_FLAGS :: "64 word" where
  "PIPE2_ALLOWED_FLAGS = O_CLOEXEC OR O_NONBLOCK"

definition align_up_8 :: "usize \<Rightarrow> usize" where
  "align_up_8 v = (v + 7) div 8 * 8"

definition duplicate_normal_handle :: "normal_file_handle \<Rightarrow> normal_file_handle" where
  "duplicate_normal_handle h =
     \<lparr>nf_backend = BackendFs, nf_fs_client = nf_fs_client h, nf_fs_ep_slot = nf_fs_ep_slot h,
      nf_offset = nf_offset h, nf_async_io = None\<rparr>"

definition duplicate_handle :: "fd_handle \<Rightarrow> fd_handle" where
  "duplicate_handle h = (case file_type h of Normal n \<Rightarrow> \<lparr>file_type = Normal (duplicate_normal_handle n)\<rparr>)"

definition new_handle :: "capptr \<Rightarrow> async_io_state option \<Rightarrow> fd_handle" where
  "new_handle slot aio =
     \<lparr>file_type = Normal \<lparr>nf_backend = BackendFs, nf_fs_client = slot, nf_fs_ep_slot = slot,
        nf_offset = 0, nf_async_io = aio\<rparr>\<rparr>"

definition handle_slot :: "fd_handle \<Rightarrow> capptr" where
  "handle_slot h = (case file_type h of Normal n \<Rightarrow> nf_fs_ep_slot n)"

definition open_slot :: "('i, 'w) env \<Rightarrow> capptr \<Rightarrow> string \<Rightarrow> usize \<Rightarrow> usize \<Rightarrow> ('i, 'p, 'w, capptr) ape_prog" where
  "open_slot E server path flags mode =
     andThen (ext (cspace_alloc (caps E))) (\<lambda>slot.
     andThen (attempt (ext (fs_open (fss E) server path flags mode slot))) (\<lambda>r.
     case r of
       Inl e \<Rightarrow>
         andThen (ignore (ext (cap_delete (caps E) slot))) (\<lambda>_.
         andThen (ext_do (cspace_free (caps E) slot)) (\<lambda>_. throw e))
     | Inr _ \<Rightarrow> ret slot))"

definition open_pipe_end_via_pipefs :: "('i, 'w) env \<Rightarrow> usize \<Rightarrow> string \<Rightarrow> usize \<Rightarrow> ('i, 'p, 'w, capptr) ape_prog" where
  "open_pipe_end_via_pipefs E pipeno suffix flags =
     andThen (gets (\<lambda>s. pipe_vfs_endpoint (fs_sub s))) (\<lambda>ep.
     andThen (lift_res (ok_or ep NotFound)) (\<lambda>server.
     open_slot E server (pipe_end_path pipeno suffix) flags 0))"

section \<open>Open\<close>

text \<open>\<open>next_fd += 1\<close> on a 32-bit counter.\<close>

definition install_fd :: "fd_handle \<Rightarrow> string \<Rightarrow> files_state \<Rightarrow> nat \<times> files_state" where
  "install_fd h path f =
     (let fd = next_fd f in
      (fd, f\<lparr>next_fd := u32_wrap_add fd 1, fds := bt_insert fd h (fds f),
             fd_paths := bt_insert fd path (fd_paths f)\<rparr>))"

definition open_async_io :: "('i, 'w) env \<Rightarrow> usize \<Rightarrow> capptr \<Rightarrow> ('i, 'p, 'w, async_io_state option) ape_prog" where
  "open_async_io E p slot =
     andThen (gets should_try_fs_iouring) (\<lambda>try.
     if ENABLE_FS_ASYNC_IO \<and> try then
       andThen (attempt (allocate_fs_async_region E p FS_ASYNC_REGION_SIZE)) (\<lambda>r.
       case r of Inl _ \<Rightarrow> ret None | Inr region \<Rightarrow> setup_region E slot region)
     else ret None)"

definition open_via_nexus_fs :: "('i, 'w) env \<Rightarrow> usize \<Rightarrow> string \<Rightarrow> usize \<Rightarrow> usize \<Rightarrow> ('i, 'p, 'w, int) ape_prog" where
  "open_via_nexus_fs E p path flags mode =
     andThen (open_slot E (fs_endpoint (fss E)) path (open_flags_from_bits (lib E) flags) (mode mod 2 ^ 32)) (\<lambda>slot.
     andThen (open_async_io E p slot) (\<lambda>aio.
     andThen (task_or NotFound p) (\<lambda>t.
     case install_fd (new_handle slot aio) path (task_files t) of
       (fd, f) \<Rightarrow>
         andThen (modify (upd_task p (upd_files (\<lambda>_. f)))) (\<lambda>_.
         andThen (modify (ledger_record_fd_open p)) (\<lambda>_.
         ret (i64_of_nat fd))))))"

definition do_openat :: "('i, 'w) env \<Rightarrow> usize \<Rightarrow> usize \<Rightarrow> usize \<Rightarrow> usize \<Rightarrow> usize \<Rightarrow> ('i, 'p, 'w, int) ape_prog" where
  "do_openat E p dirfd pathname flags mode =
     andThen (strncpy_from_user E p pathname USER_PATH_MAX) (\<lambda>raw.
     andThen (resolve_path_for_process E p raw) (\<lambda>path.
     open_via_nexus_fs E p path flags mode))"

section \<open>Close\<close>

definition slot_in_use :: "('i, 'p, 'w) ape \<Rightarrow> capptr \<Rightarrow> bool" where
  "slot_in_use s slot \<longleftrightarrow>
     (\<exists>q \<in> set (local_pids s).
        case get_process s q of
          None \<Rightarrow> False
        | Some t \<Rightarrow> \<exists>h \<in> set (bt_values (fds (task_files t))). handle_slot h = slot)"

definition drop_fd :: "nat \<Rightarrow> files_state \<Rightarrow> fd_handle option \<times> files_state" where
  "drop_fd fd f =
     (bt_get (fds f) fd,
      f\<lparr>fd_paths := bt_remove fd (fd_paths f), fd_cloexec := bt_remove fd (fd_cloexec f),
        fds := bt_remove fd (fds f)\<rparr>)"

definition close_handle :: "('i, 'w) env \<Rightarrow> fd_handle \<Rightarrow> ('i, 'p, 'w, unit) ape_prog" where
  "close_handle E h =
     (case file_type h of Normal n \<Rightarrow>
        andThen (gets (\<lambda>s. slot_in_use s (nf_fs_ep_slot n))) (\<lambda>shared.
        andThen (whenM (\<not> shared) (
          andThen (ignore (ext (fs_close (fss E) (nf_fs_client n)))) (\<lambda>_.
          whenM (nf_fs_ep_slot n \<noteq> 0) (
            andThen (ignore (ext (cap_delete (caps E) (nf_fs_ep_slot n)))) (\<lambda>_.
            ext_do (cspace_free (caps E) (nf_fs_ep_slot n))))))) (\<lambda>_.
        case nf_async_io n of
          None \<Rightarrow> ret ()
        | Some a \<Rightarrow> modify (recycle_fs_async_region (aio_region_id a)))))"

definition do_close :: "('i, 'w) env \<Rightarrow> usize \<Rightarrow> usize \<Rightarrow> ('i, 'p, 'w, int) ape_prog" where
  "do_close E p fd0 =
     andThen (lift_res (ok_or (u32_try_from fd0) InvalidSlot)) (\<lambda>fd.
     andThen (task_or NotFound p) (\<lambda>t.
     andThen (modify (upd_task p (upd_files (\<lambda>f. snd (drop_fd fd f))))) (\<lambda>_.
     andThen (lift_res (ok_or (fst (drop_fd fd (task_files t))) InvalidSlot)) (\<lambda>h.
     andThen (close_handle E h) (\<lambda>_.
     andThen (modify (ledger_record_fd_close p)) (\<lambda>_.
     ret 0))))))"

section \<open>Duplication\<close>

text \<open>The lowest descriptor from a start that is not in use.\<close>

function next_free_fd :: "(nat, fd_handle) btree \<Rightarrow> nat \<Rightarrow> nat option" where
  "next_free_fd m fd =
     (if bt_contains m fd then
        (case u32_checked_add fd 1 of None \<Rightarrow> None | Some n \<Rightarrow> next_free_fd m n)
      else Some fd)"
  by pat_completeness auto
termination by (relation "measure (\<lambda>(m, fd). u32_max + 1 - fd)") auto

declare next_free_fd.simps [simp del]

definition dup_into :: "nat \<Rightarrow> nat \<Rightarrow> fd_handle \<Rightarrow> string option \<Rightarrow> bool \<Rightarrow> files_state \<Rightarrow> files_state" where
  "dup_into fd new_fd h path cloexec f =
     (let f1 = f\<lparr>fds := bt_insert new_fd h (fds f)\<rparr>;
          f2 = (case path of Some q \<Rightarrow> f1\<lparr>fd_paths := bt_insert new_fd q (fd_paths f1)\<rparr> | None \<Rightarrow> f1);
          f3 = f2\<lparr>fd_cloexec := bt_insert new_fd cloexec (fd_cloexec f2)\<rparr>
      in if next_fd f3 \<le> new_fd then f3\<lparr>next_fd := u32_sat_add new_fd 1\<rparr> else f3)"

definition fcntl_dup :: "('i, 'w) env \<Rightarrow> usize \<Rightarrow> nat \<Rightarrow> bool \<Rightarrow> usize \<Rightarrow> ('i, 'p, 'w, int) ape_prog" where
  "fcntl_dup E p fd cloexec arg =
     andThen (task_or NotFound p) (\<lambda>t.
     let f = task_files t in
     if \<not> bt_contains (fds f) fd then throw InvalidSlot
     else
       andThen (lift_res (ok_or (u32_try_from arg) InvalidArgs)) (\<lambda>min_fd.
       andThen (lift_res (ok_or (next_free_fd (fds f) min_fd) OutOfMemory)) (\<lambda>new_fd.
       andThen (lift_res (ok_or (bt_get (fds f) fd) InvalidSlot)) (\<lambda>h.
       andThen (modify (upd_task p (upd_files
          (dup_into fd new_fd (duplicate_handle h) (bt_get (fd_paths f) fd) cloexec)))) (\<lambda>_.
       andThen (modify (ledger_record_fd_open p)) (\<lambda>_.
       ret (int new_fd)))))))"

definition do_fcntl :: "('i, 'w) env \<Rightarrow> usize \<Rightarrow> usize \<Rightarrow> usize \<Rightarrow> usize \<Rightarrow> ('i, 'p, 'w, int) ape_prog" where
  "do_fcntl E p fd0 cmd0 arg =
     andThen (lift_res (ok_or (u32_try_from fd0) InvalidSlot)) (\<lambda>fd.
     andThen (lift_res (ok_or (u32_try_from cmd0) InvalidArgs)) (\<lambda>cmd.
     if cmd = F_GETFD then
       andThen (task_or NotFound p) (\<lambda>t.
       if \<not> bt_contains (fds (task_files t)) fd then throw InvalidSlot
       else ret (if (case bt_get (fd_cloexec (task_files t)) fd of Some c \<Rightarrow> c | None \<Rightarrow> False) then 1 else 0))
     else if cmd = F_SETFD then
       andThen (task_or NotFound p) (\<lambda>t.
       if \<not> bt_contains (fds (task_files t)) fd then throw InvalidSlot
       else
         andThen (modify (upd_task p (upd_files (\<lambda>f. f\<lparr>fd_cloexec :=
            bt_insert fd ((word_of_nat arg :: 64 word) AND FD_CLOEXEC \<noteq> 0) (fd_cloexec f)\<rparr>)))) (\<lambda>_.
         ret 0))
     else if cmd = F_GETFL \<or> cmd = F_SETFL then
       andThen (task_or NotFound p) (\<lambda>t.
       if \<not> bt_contains (fds (task_files t)) fd then throw InvalidSlot else ret 0)
     else if cmd = F_DUPFD \<or> cmd = F_DUPFD_CLOEXEC then fcntl_dup E p fd (cmd = F_DUPFD_CLOEXEC) arg
     else throw InvalidArgs))"

definition do_dup :: "('i, 'w) env \<Rightarrow> usize \<Rightarrow> usize \<Rightarrow> ('i, 'p, 'w, int) ape_prog" where
  "do_dup E p fd = do_fcntl E p fd F_DUPFD 0"

definition do_dup3 :: "('i, 'w) env \<Rightarrow> usize \<Rightarrow> usize \<Rightarrow> usize \<Rightarrow> 64 word \<Rightarrow> ('i, 'p, 'w, int) ape_prog" where
  "do_dup3 E p old0 new0 flags =
     andThen (lift_res (ok_or (u32_try_from old0) InvalidSlot)) (\<lambda>oldfd.
     andThen (lift_res (ok_or (u32_try_from new0) InvalidSlot)) (\<lambda>newfd.
     if oldfd = newfd then throw InvalidArgs
     else if flags AND NOT O_CLOEXEC \<noteq> 0 then throw InvalidArgs
     else
       andThen (task_or NotFound p) (\<lambda>t.
       andThen (lift_res (ok_or (bt_get (fds (task_files t)) oldfd) InvalidSlot)) (\<lambda>h.
       let path = bt_get (fd_paths (task_files t)) oldfd in
       andThen (whenM (bt_contains (fds (task_files t)) newfd)
          (andThen (do_close E p newfd) (\<lambda>_. ret ()))) (\<lambda>_.
       andThen (task_or NotFound p) (\<lambda>_.
       andThen (modify (upd_task p (upd_files
          (dup_into oldfd newfd (duplicate_handle h) path (flags AND O_CLOEXEC \<noteq> 0))))) (\<lambda>_.
       andThen (modify (ledger_record_fd_open p)) (\<lambda>_.
       ret (int newfd)))))))))"

section \<open>Directory entries\<close>

definition pack_entry :: "dirent \<Rightarrow> byte list" where
  "pack_entry e =
     (let name = takeWhile (\<lambda>b. b \<noteq> 0) (d_name e);
          reclen = align_up_8 (DIRENT64_FIXED_SIZE + length name + 1);
          body = usize_to_bytes (d_ino e) @ usize_to_bytes (nat (d_off e mod 2 ^ 64)) @
                 take 2 (usize_to_bytes reclen) @ [d_type e] @ name @ [0]
      in body @ replicate (reclen - length body) 0)"

fun pack_entries :: "usize \<Rightarrow> dirent list \<Rightarrow> byte list \<Rightarrow> byte list res" where
  "pack_entries cnt [] packed = Ok packed"
| "pack_entries cnt (e # es) packed =
     (let reclen = align_up_8 (DIRENT64_FIXED_SIZE + length (takeWhile (\<lambda>b. b \<noteq> 0) (d_name e)) + 1) in
      if reclen > 65535 then Err OutOfMemory
      else if sat_add (length packed) reclen > cnt then Ok packed
      else pack_entries cnt es (packed @ pack_entry e))"

text \<open>The handle is out of the table while the entries are listed, and put back.\<close>

definition take_fd :: "usize \<Rightarrow> nat \<Rightarrow> ('i, 'p, 'w, fd_handle) ape_prog" where
  "take_fd p fd =
     andThen (task_or NotFound p) (\<lambda>t.
     andThen (modify (upd_task p (upd_files (\<lambda>f. f\<lparr>fds := bt_remove fd (fds f)\<rparr>)))) (\<lambda>_.
     lift_res (ok_or (bt_get (fds (task_files t)) fd) InvalidSlot)))"

definition put_fd :: "usize \<Rightarrow> nat \<Rightarrow> fd_handle \<Rightarrow> ('i, 'p, 'w) ape \<Rightarrow> ('i, 'p, 'w) ape" where
  "put_fd p fd h = upd_task p (upd_files (\<lambda>f. f\<lparr>fds := bt_insert fd h (fds f)\<rparr>))"

definition list_entries :: "('i, 'w) env \<Rightarrow> usize \<Rightarrow> fd_handle \<Rightarrow> usize \<Rightarrow> usize \<Rightarrow> ('i, 'p, 'w, int) ape_prog" where
  "list_entries E p h dirp cnt =
     (case file_type h of Normal n \<Rightarrow>
        andThen (ext (fs_getdents (fss E) (nf_fs_client n) cnt)) (\<lambda>entries.
        andThen (lift_res (pack_entries cnt entries [])) (\<lambda>packed.
        andThen (whenM (packed \<noteq> []) (copy_to_user E p dirp packed)) (\<lambda>_.
        ret (i64_of_nat (length packed))))))"

definition do_getdents64 :: "('i, 'w) env \<Rightarrow> usize \<Rightarrow> usize \<Rightarrow> usize \<Rightarrow> usize \<Rightarrow> ('i, 'p, 'w, int) ape_prog" where
  "do_getdents64 E p fd0 dirp cnt =
     (if cnt = 0 then ret 0
      else if dirp = 0 then throw InvalidAddress
      else if cnt < DIRENT64_MIN_RECLEN then throw InvalidArgs
      else
        andThen (lift_res (ok_or (u32_try_from fd0) InvalidSlot)) (\<lambda>fd.
        andThen (take_fd p fd) (\<lambda>h.
        andThen (attempt (list_entries E p h dirp cnt)) (\<lambda>r.
        andThen (task_or NotFound p) (\<lambda>_.
        andThen (modify (put_fd p fd h)) (\<lambda>_.
        case r of Inl e \<Rightarrow> throw e | Inr n \<Rightarrow> ret n))))))"

section \<open>Pipes\<close>

definition drop_slot :: "('i, 'w) env \<Rightarrow> capptr \<Rightarrow> capptr \<Rightarrow> ('i, 'p, 'w, unit) ape_prog" where
  "drop_slot E client slot =
     andThen (ignore (ext (fs_close (fss E) client))) (\<lambda>_.
     andThen (ignore (ext (cap_delete (caps E) slot))) (\<lambda>_.
     ext_do (cspace_free (caps E) slot)))"

definition pipe_fds :: "files_state \<Rightarrow> (nat \<times> nat) res" where
  "pipe_fds f =
     (case next_free_fd (fds f) (next_fd f) of
        None \<Rightarrow> Err OutOfMemory
      | Some r \<Rightarrow>
          (case u32_checked_add r 1 of
             None \<Rightarrow> Err OutOfMemory
           | Some w0 \<Rightarrow>
               (case next_free_fd (fds f) w0 of None \<Rightarrow> Err OutOfMemory | Some w \<Rightarrow> Ok (r, w))))"

definition install_pipe :: "nat \<Rightarrow> nat \<Rightarrow> capptr \<Rightarrow> capptr \<Rightarrow> bool \<Rightarrow> files_state \<Rightarrow> files_state" where
  "install_pipe r w rslot wslot cloexec f =
     f\<lparr>fds := bt_insert w (new_handle wslot None) (bt_insert r (new_handle rslot None) (fds f)),
       fd_cloexec := bt_insert w cloexec (bt_insert r cloexec (fd_cloexec f)),
       next_fd := u32_sat_add w 1\<rparr>"

definition uninstall_pipe :: "nat \<Rightarrow> nat \<Rightarrow> files_state \<Rightarrow> files_state" where
  "uninstall_pipe r w f =
     f\<lparr>fds := bt_remove w (bt_remove r (fds f)), fd_cloexec := bt_remove w (bt_remove r (fd_cloexec f))\<rparr>"

definition close_removed :: "('i, 'w) env \<Rightarrow> fd_handle option \<Rightarrow> ('i, 'p, 'w, unit) ape_prog" where
  "close_removed E h =
     (case h of
        None \<Rightarrow> ret ()
      | Some x \<Rightarrow> (case file_type x of Normal n \<Rightarrow> drop_slot E (nf_fs_client n) (nf_fs_ep_slot n)))"

definition i32_max :: nat where "i32_max = 2147483647"

definition open_both_ends :: "('i, 'w) env \<Rightarrow> usize \<Rightarrow> ('i, 'p, 'w, capptr \<times> capptr) ape_prog" where
  "open_both_ends E pipeno =
     andThen (open_pipe_end_via_pipefs E pipeno ''r'' (OPEN_RDONLY (lib E))) (\<lambda>rslot.
     andThen (attempt (open_pipe_end_via_pipefs E pipeno ''w'' (OPEN_WRONLY (lib E)))) (\<lambda>x.
     case x of
       Inl e \<Rightarrow> andThen (drop_slot E rslot rslot) (\<lambda>_. throw e)
     | Inr wslot \<Rightarrow> ret (rslot, wslot)))"

definition do_pipe2 :: "('i, 'w) env \<Rightarrow> usize \<Rightarrow> usize \<Rightarrow> 64 word \<Rightarrow> ('i, 'p, 'w, int) ape_prog" where
  "do_pipe2 E p pipefd flags =
     (if pipefd = 0 then throw InvalidAddress
      else if unat flags > u32_max then throw InvalidArgs
      else if flags AND NOT PIPE2_ALLOWED_FLAGS \<noteq> 0 then throw InvalidArgs
      else
        andThen (create_pipe_id E) (\<lambda>pipeno.
        if pipeno = 0 then throw NotFound
        else
          andThen (open_both_ends E pipeno) (\<lambda>(rslot, wslot).
          andThen (task_or NotFound p) (\<lambda>t.
          andThen (lift_res (pipe_fds (task_files t))) (\<lambda>(r, w).
          andThen (modify (upd_task p (upd_files (install_pipe r w rslot wslot (flags AND O_CLOEXEC \<noteq> 0))))) (\<lambda>_.
          if r > i32_max \<or> w > i32_max then throw OutOfMemory
          else
            andThen (attempt (copy_to_user E p pipefd (i32_to_bytes (int r) @ i32_to_bytes (int w)))) (\<lambda>x.
            case x of
              Inl e \<Rightarrow>
                andThen (task_or NotFound p) (\<lambda>t.
                andThen (modify (upd_task p (upd_files (uninstall_pipe r w)))) (\<lambda>_.
                andThen (close_removed E (bt_get (fds (task_files t)) r)) (\<lambda>_.
                andThen (close_removed E (bt_get (fds (task_files t)) w)) (\<lambda>_.
                throw e))))
            | Inr _ \<Rightarrow>
                andThen (modify (ledger_record_fd_open p)) (\<lambda>_.
                andThen (modify (ledger_record_fd_open p)) (\<lambda>_.
                ret 0)))))))))"

section \<open>The descriptor table\<close>

lemma i64_of_nat_small: "n < 2 ^ 63 \<Longrightarrow> i64_of_nat n = int n"
  by (simp add: i64_of_nat_def signed_of_nat signed_take_bit_int_eq_self)

text \<open>Every descriptor in use is below the next one, as long as the counter has not wrapped.\<close>

definition fds_ok :: "files_state \<Rightarrow> bool" where
  "fds_ok f \<longleftrightarrow> bt_ok (fds f) \<and> (\<forall>fd. bt_contains (fds f) fd \<longrightarrow> fd < next_fd f)"

text \<open>Another descriptor, of this or of another process, that holds an endpoint slot.\<close>

definition other_holder :: "('i, 'p, 'w) ape \<Rightarrow> usize \<Rightarrow> nat \<Rightarrow> capptr \<Rightarrow> bool" where
  "other_holder s p fd slot \<longleftrightarrow>
     (\<exists>q t d h. get_process s q = Some t \<and> bt_get (fds (task_files t)) d = Some h \<and>
        handle_slot h = slot \<and> (q, d) \<noteq> (p, fd))"

definition tables_ok :: "('i, 'p, 'w) ape \<Rightarrow> bool" where
  "tables_ok s \<longleftrightarrow> (\<forall>q t. get_process s q = Some t \<longrightarrow> bt_ok (fds (task_files t)))"

lemma slot_in_use_iff:
  assumes "tables_ok s"
  shows "slot_in_use s slot \<longleftrightarrow>
    (\<exists>q t d h. get_process s q = Some t \<and> bt_get (fds (task_files t)) d = Some h \<and> handle_slot h = slot)"
proof -
  have "q \<in> set (local_pids s) \<longleftrightarrow> get_process s q \<noteq> None" for q
    by (auto simp: local_pids_def list_pids_def set_bt_keys get_process_def process_def dom_def)
  moreover have "h \<in> set (bt_values (fds (task_files t))) \<longleftrightarrow> (\<exists>d. bt_get (fds (task_files t)) d = Some h)"
    if "get_process s q = Some t" for q t h
    using assms that by (auto simp: tables_ok_def bt_values_ran ran_def)
  ultimately show ?thesis
    unfolding slot_in_use_def by (force split: option.splits)
qed

lemma task_files_upd_files [simp]: "task_files (upd_files f t) = f (task_files t)"
  by (simp add: upd_files_def)

lemma dropped_in_use:
  assumes "tables_ok s" and "get_process s p = Some t"
  shows "slot_in_use (upd_task p (upd_files (\<lambda>f. snd (drop_fd fd f))) s) slot \<longleftrightarrow> other_holder s p fd slot"
proof -
  let ?s = "upd_task p (upd_files (\<lambda>f. snd (drop_fd fd f))) s"
  have "tables_ok ?s" using assms by (auto simp: tables_ok_def drop_fd_def split: if_splits)
  note use = slot_in_use_iff[OF this, of slot]
  have eq: "(\<exists>t. get_process ?s q = Some t \<and> bt_get (fds (task_files t)) d = Some h) \<longleftrightarrow>
      (\<exists>t. get_process s q = Some t \<and> bt_get (fds (task_files t)) d = Some h) \<and> (q, d) \<noteq> (p, fd)" for q d h
    using assms(2) by (auto simp: drop_fd_def)
  have "slot_in_use ?s slot \<longleftrightarrow>
      (\<exists>q d h. (\<exists>t. get_process ?s q = Some t \<and> bt_get (fds (task_files t)) d = Some h) \<and> handle_slot h = slot)"
    unfolding use by blast
  also have "\<dots> \<longleftrightarrow> other_holder s p fd slot"
    unfolding eq other_holder_def by blast
  finally show ?thesis .
qed

lemma keeps_tasks_recycle [keeps_intro]:
  "keeps (\<lambda>s. tasks (ts s) = T) (modify (recycle_fs_async_region i))"
  by (rule keeps_modify) (simp add: recycle_fs_async_region_def upd_fs_sub_def)

text \<open>The calls that give an endpoint back, in terms of the services alone.\<close>

definition close_endpoint :: "('i, 'w) env \<Rightarrow> normal_file_handle \<Rightarrow> ('w, unit) prog" where
  "close_endpoint E n =
     andThen (ignore (fs_close (fss E) (nf_fs_client n))) (\<lambda>_.
     whenM (nf_fs_ep_slot n \<noteq> 0) (
       andThen (ignore (cap_delete (caps E) (nf_fs_ep_slot n))) (\<lambda>_.
       modify (cspace_free (caps E) (nf_fs_ep_slot n)))))"

lemma ext_andThen: "ext (andThen m f) = andThen (ext m) (\<lambda>x. ext (f x))"
  by (rule HOL.ext) (auto simp: ext_def andThen_def Let_def split: prod.splits res.splits)

lemma ext_ignore: "ext (ignore m) = ignore (ext m)"
  by (rule HOL.ext) (auto simp: ext_def monad_simps Let_def split: prod.splits res.splits)

lemma ext_whenM: "ext (whenM b m) = whenM b (ext m)" and ext_modify: "ext (modify f) = ext_do f"
  by (rule HOL.ext, auto simp: ext_def ext_do_def monad_simps Let_def split: prod.splits)+

lemma close_endpoint_ext:
  "ext (close_endpoint E n) =
     andThen (ignore (ext (fs_close (fss E) (nf_fs_client n)))) (\<lambda>_.
     whenM (nf_fs_ep_slot n \<noteq> 0) (
       andThen (ignore (ext (cap_delete (caps E) (nf_fs_ep_slot n)))) (\<lambda>_.
       ext_do (cspace_free (caps E) (nf_fs_ep_slot n)))))"
  by (simp add: close_endpoint_def ext_andThen ext_ignore ext_whenM ext_modify)

section \<open>What opening and duplicating leave alone\<close>

lemma open_slot_processes: "keeps (\<lambda>s. get_process s q = x) (open_slot E c path fl md)"
  unfolding open_slot_def by (auto intro!: keeps_intro keeps_ext keeps_ext_do)

lemma open_async_io_processes: "keeps (\<lambda>s. get_process s q = x) (open_async_io E p c)"
proof -
  have fsop: "keeps (\<lambda>s. get_process s q = x) (fs_op f)" for f :: "ape_fs_state \<Rightarrow> 'z \<times> ape_fs_state"
    by (auto simp: keeps_def fs_op_def get_process_def split: prod.split)
  show ?thesis
    unfolding open_async_io_def allocate_fs_async_region_def allocate_new_region_def setup_region_def
      recycle_fs_async_region_def
    by (auto intro!: keeps_intro keeps_ext keeps_ext_do keeps_modify fsop)
qed

lemma fds_ok_install:
  assumes "fds_ok f" and "next_fd f < u32_max" and "install_fd h path f = (fd, f')"
  shows "fd = next_fd f" "fds f' = bt_insert (next_fd f) h (fds f)" "fds_ok f'"
    "\<not> bt_contains (fds f) (next_fd f)"
  using assms by (auto simp: install_fd_def Let_def fds_ok_def bt_contains_def u32_wrap_add_def u32_max_def
      split: if_splits) (metis less_irrefl less_SucI option.distinct(1))+

lemma next_free_fd_Some:
  "next_free_fd m fd = Some n \<Longrightarrow> fd \<le> n \<and> \<not> bt_contains m n \<and> (\<forall>i. fd \<le> i \<and> i < n \<longrightarrow> bt_contains m i)"
proof (induction m fd rule: next_free_fd.induct)
  case (1 m fd)
  show ?case
  proof (cases "bt_contains m fd")
    case True
    with "1.prems" obtain k where k: "u32_checked_add fd 1 = Some k" "next_free_fd m k = Some n"
      by (subst (asm) next_free_fd.simps) (auto split: option.splits)
    then have "k = Suc fd" by (auto simp: u32_checked_add_def split: if_splits)
    with "1.IH"[OF True k] True show ?thesis by (metis Suc_leD le_neq_implies_less Suc_leI)
  next
    case False
    with "1.prems" show ?thesis by (subst (asm) next_free_fd.simps) auto
  qed
qed

lemma dup_into_fields [simp]:
  "fds (dup_into fd n h path c f) = bt_insert n h (fds f)"
  "fd_cloexec (dup_into fd n h path c f) = bt_insert n c (fd_cloexec f)"
  "next_fd (dup_into fd n h path c f) = (if next_fd f \<le> n then u32_sat_add n 1 else next_fd f)"
  by (auto simp: dup_into_def Let_def split: option.split)

section \<open>Listing and pipes\<close>

lemma list_entries_mem [keeps_intro]: "keeps (mem_only p s0) (list_entries E p h dirp cnt)"
  unfolding list_entries_def by (cases "file_type h") (auto intro!: keeps_intro keeps_ext)

lemma create_pipe_id_processes: "keeps (\<lambda>s. get_process s q = x) (create_pipe_id E)"
  unfolding create_pipe_id_def by (auto intro!: keeps_intro keeps_ext)

lemma open_both_ends_processes: "keeps (\<lambda>s. get_process s q = x) (open_both_ends E n)"
  unfolding open_both_ends_def open_pipe_end_via_pipefs_def drop_slot_def
  by (auto intro!: keeps_intro keeps_ext keeps_ext_do open_slot_processes)

lemma align_up_8_dvd [simp]: "8 dvd align_up_8 v" and align_up_8_ge: "v \<le> align_up_8 v"
  using div_mult_mod_eq[of "v + 7" 8] mod_less_divisor[of 8 "v + 7"] unfolding align_up_8_def by (simp, linarith)

lemma usize_to_bytes_length [simp]: "length (usize_to_bytes n) = 8"
  by (simp add: usize_to_bytes_def)

lemma pack_entry_length:
  "length (pack_entry e) =
     align_up_8 (Suc (DIRENT64_FIXED_SIZE + length (takeWhile (\<lambda>b. b \<noteq> 0) (d_name e))))"
  using align_up_8_ge[of "DIRENT64_FIXED_SIZE + length (takeWhile (\<lambda>b. b \<noteq> 0) (d_name e)) + 1"]
  by (simp add: pack_entry_def Let_def DIRENT64_FIXED_SIZE_def)

lemma pack_entries_prefix:
  assumes "pack_entries cnt es acc = Ok bs" and "length acc \<le> cnt" and "cnt < usize_max"
  shows "\<exists>k \<le> length es. bs = acc @ concat (map pack_entry (take k es)) \<and> length bs \<le> cnt \<and>
    (k < length es \<longrightarrow> cnt < length bs + length (pack_entry (es ! k)))"
  using assms
proof (induction cnt es acc rule: pack_entries.induct)
  case (2 cnt e es packed)
  show ?case
  proof (cases "sat_add (length packed) (length (pack_entry e)) > cnt")
    case True
    with 2 show ?thesis
      by (intro exI[of _ 0]) (auto simp: Let_def pack_entry_length sat_add_def split: if_splits)
  next
    case False
    with 2(2) have rec: "pack_entries cnt es (packed @ pack_entry e) = Ok bs"
      by (auto simp: Let_def pack_entry_length split: if_splits)
    from False 2(4) have "length (packed @ pack_entry e) \<le> cnt" by (auto simp: sat_add_def)
    note ih = 2(1)[OF refl _ _ rec this 2(4)]
    have "\<exists>k \<le> length es. bs = (packed @ pack_entry e) @ concat (map pack_entry (take k es)) \<and> length bs \<le> cnt \<and>
        (k < length es \<longrightarrow> cnt < length bs + length (pack_entry (es ! k)))"
      by (rule ih) (use False 2(2) in \<open>auto simp: Let_def pack_entry_length split: if_splits\<close>)
    then obtain k where
      "k \<le> length es" "bs = (packed @ pack_entry e) @ concat (map pack_entry (take k es))" "length bs \<le> cnt"
      "k < length es \<longrightarrow> cnt < length bs + length (pack_entry (es ! k))" by blast
    then show ?thesis by (intro exI[of _ "Suc k"]) auto
  qed
qed (auto intro!: exI[of _ 0])

section \<open>Properties\<close>

text \<open>
  C3: closing a descriptor removes exactly that descriptor, and the endpoint of the file is
  given back by its last holder only: while another descriptor of any process holds it no
  service is called, and otherwise it is closed, deleted and its slot freed.
\<close>

theorem close_by_last_holder:
  assumes "do_close E p fd s = (Ok r, s')" and "get_process s p = Some t" and "tables_ok s"
  shows "\<exists>n. bt_get (fds (task_files t)) fd = Some \<lparr>file_type = Normal n\<rparr> \<and> r = 0 \<and>
    (\<forall>q. get_process s' q =
       (if q = p then Some (upd_files (\<lambda>f. snd (drop_fd fd f)) t) else get_process s q)) \<and>
    (if other_holder s p fd (nf_fs_ep_slot n) then world s' = world s
     else close_endpoint E n (world s) = (Ok (), world s'))"
proof -
  let ?s = "upd_task p (upd_files (\<lambda>f. snd (drop_fd fd f))) s"
  from assms(1,2) obtain h s1 where h: "bt_get (fds (task_files t)) fd = Some h"
    and c: "close_handle E h ?s = (Ok (), s1)" and s': "s' = ledger_record_fd_close p s1" and r: "r = 0"
    by (auto simp: do_close_def ok_iff u32_try_from_def drop_fd_def split: if_splits)
  obtain n where n: "h = \<lparr>file_type = Normal n\<rparr>"
    by (metis fd_handle.cases file_type.exhaust)
  note use = dropped_in_use[OF assms(3,2), of fd "nf_fs_ep_slot n"]
  have "get_process s1 q = get_process ?s q" for q
  proof -
    have "keeps (\<lambda>s. get_process s q = get_process ?s q) (close_handle E h)"
      unfolding close_handle_def n recycle_fs_async_region_def
      by (auto intro!: keeps_intro keeps_ext keeps_ext_do keeps_modify)
    from keepsD[OF this _ c] show ?thesis by simp
  qed
  moreover have "if other_holder s p fd (nf_fs_ep_slot n) then world s1 = world s
      else close_endpoint E n (world s) = (Ok (), world s1)"
    using c unfolding close_handle_def n close_endpoint_ext[symmetric]
    by (auto simp: ok_iff use recycle_fs_async_region_def upd_fs_sub_def split: option.splits if_splits)
      (drule arg_cong[where f = world], simp)
  ultimately show ?thesis
    using h n r assms(2) by (auto simp: s' ledger_record_fd_close_def)
qed

text \<open>A process with one open file.\<close>

definition example_fd_task :: "unit task_struct" where
  "example_fd_task =
     upd_files (\<lambda>_. \<lparr>fds = [(0, new_handle 7 None)], fd_paths = [], fd_cloexec = [], next_fd = 1\<rparr>) (example_task 1 0)"

lemma example_fd_task_simps [simp]:
  "task_pid example_fd_task = 1"
  "task_files example_fd_task = \<lparr>fds = [(0, new_handle 7 None)], fd_paths = [], fd_cloexec = [], next_fd = 1\<rparr>"
  by (simp_all add: example_fd_task_def example_task_def task_struct_new_def upd_files_def)

lemma example_fd_tables [simp]: "tables_ok (example_ape [example_fd_task])"
  by (auto simp: tables_ok_def bt_ok_Cons)

lemma example_close_handle: "\<exists>s'. close_handle example_env h s = (Ok (), s')"
proof (cases "file_type h")
  case (Normal n)
  then show ?thesis
    by (cases "slot_in_use s (nf_fs_ep_slot n)"; cases "nf_fs_ep_slot n = 0"; cases "nf_async_io n")
      (simp_all add: close_handle_def monad_simps ext_simps)
qed

theorem close_by_last_holder_witness:
  "\<exists>s'. do_close example_env 1 0 (example_ape [example_fd_task]) = (Ok 0, s') \<and>
     (\<exists>t. get_process s' 1 = Some t \<and> fds (task_files t) = [])"
proof -
  obtain s1 where "close_handle example_env (new_handle 7 None)
      (upd_task 1 (upd_files (\<lambda>f. snd (drop_fd 0 f))) (example_ape [example_fd_task])) = (Ok (), s1)"
    using example_close_handle by blast
  then obtain s' where s': "do_close example_env 1 0 (example_ape [example_fd_task]) = (Ok 0, s')"
    by (simp add: do_close_def monad_simps task_or_def drop_fd_def u32_try_from_def bt_get_def)
  have "get_process (example_ape [example_fd_task]) 1 = Some example_fd_task" by simp
  from close_by_last_holder[OF s' this example_fd_tables] s' show ?thesis
    by (auto simp: drop_fd_def bt_remove_def)
qed

text \<open>
  The calls of the services behind an opened endpoint: a slot is taken and the file service
  opens the file into it.
\<close>

definition opened :: "('i, 'w) env \<Rightarrow> capptr \<Rightarrow> string \<Rightarrow> usize \<Rightarrow> usize \<Rightarrow> capptr \<Rightarrow> 'w \<Rightarrow> 'w \<Rightarrow> bool" where
  "opened E server path flags mode slot w w' \<longleftrightarrow>
     (\<exists>w1 u. cspace_alloc (caps E) w = (Ok slot, w1) \<and> fs_open (fss E) server path flags mode slot w1 = (Ok u, w'))"

lemma attempt_case_Ok:
  "andThen (attempt m) (case_sum f g) s = (Ok y, s') \<longleftrightarrow>
   (\<exists>v s1. m s = (Ok v, s1) \<and> g v s1 = (Ok y, s')) \<or> (\<exists>e s1. m s = (Err e, s1) \<and> f e s1 = (Ok y, s'))"
  by (auto simp: andThen_Ok attempt_Ok)

lemma open_slot_opened:
  assumes "open_slot E server path flags mode s = (Ok slot, s')"
  shows "\<exists>w. opened E server path flags mode slot (world s) w \<and> s' = s\<lparr>world := w\<rparr>"
  using assms by (auto simp: open_slot_def opened_def attempt_case_Ok ok_iff)

text \<open>
  C26: a successful open, in a process whose descriptors are all below its counter and whose
  counter is not exhausted, returns a descriptor that was not in use and enters under it, at
  offset 0, a handle on the very endpoint that the file service has just opened for this
  path, flags and mode. The asynchronous region of the handle, if it has one, is the outcome
  of the region set-up for this endpoint. Every other descriptor of the process and every other
  process is as before, and the descriptors stay below the counter.
\<close>

theorem open_returns_fresh_fd:
  assumes "open_via_nexus_fs E p path flags mode s = (Ok r, s')" and "get_process s p = Some t"
    and "fds_ok (task_files t)" and "next_fd (task_files t) < u32_max"
  shows "r = int (next_fd (task_files t)) \<and> \<not> bt_contains (fds (task_files t)) (nat r) \<and>
    (\<exists>slot aio t' w s2.
       opened E (fs_endpoint (fss E)) path (open_flags_from_bits (lib E) flags) (mode mod 2 ^ 32) slot (world s) w \<and>
       open_async_io E p slot (s\<lparr>world := w\<rparr>) = (Ok aio, s2) \<and> world s' = world s2 \<and> fs_sub s' = fs_sub s2 \<and>
       get_process s' p = Some t' \<and> fds_ok (task_files t') \<and>
       bt_get (fds (task_files t')) = (bt_get (fds (task_files t)))(nat r \<mapsto> new_handle slot aio)) \<and>
    (\<forall>q. q \<noteq> p \<longrightarrow> get_process s' q = get_process s q)"
proof -
  from assms(1) obtain slot s1 aio s2 t2 fd f' where
    o: "open_slot E (fs_endpoint (fss E)) path (open_flags_from_bits (lib E) flags) (mode mod 2 ^ 32) s = (Ok slot, s1)"
    and a: "open_async_io E p slot s1 = (Ok aio, s2)" and t2: "get_process s2 p = Some t2"
    and i: "install_fd (new_handle slot aio) path (task_files t2) = (fd, f')" and r0: "r = i64_of_nat fd"
    and s': "s' = ledger_record_fd_open p (upd_task p (upd_files (\<lambda>_. f')) s2)"
    unfolding open_via_nexus_fs_def by (auto simp: ok_iff case_prod_beta) (metis surjective_pairing)
  from open_slot_opened[OF o] obtain w where
    op: "opened E (fs_endpoint (fss E)) path (open_flags_from_bits (lib E) flags) (mode mod 2 ^ 32) slot (world s) w"
    and s1: "s1 = s\<lparr>world := w\<rparr>" by blast
  have kept: "get_process s2 q = get_process s q" for q
    using keepsD[OF open_slot_processes refl o] keepsD[OF open_async_io_processes refl a] by metis
  with t2 assms(2) have [simp]: "t2 = t" by simp
  note f = fds_ok_install[OF assms(3,4) i[simplified]]
  with r0 assms(4) have r: "r = int fd" by (simp add: i64_of_nat_small u32_max_def)
  have get: "get_process s' q = (if q = p then Some (upd_files (\<lambda>_. f') t) else get_process s q)" for q
    using kept assms(2) by (simp add: s' ledger_record_fd_open_def)
  have "world s' = world s2" "fs_sub s' = fs_sub s2" by (simp_all add: s' ledger_record_fd_open_def)
  with a[unfolded s1] f r op show ?thesis
    by (auto simp: get intro!: exI[of _ slot] exI[of _ aio] exI[of _ w] exI[of _ s2])
qed

theorem open_returns_fresh_fd_witness:
  "\<exists>s' t'. open_via_nexus_fs example_env 1 ''/a'' 0 0
       (upd_fs_sub mark_iouring_unsupported (example_ape [example_fd_task])) = (Ok 1, s') \<and>
     get_process s' 1 = Some t' \<and> bt_get (fds (task_files t')) 1 = Some (new_handle 100 None) \<and>
     bt_get (fds (task_files t')) 0 = Some (new_handle 7 None)"
proof -
  let ?s = "upd_fs_sub mark_iouring_unsupported (example_ape [example_fd_task])"
  obtain r s' where run: "open_via_nexus_fs example_env 1 ''/a'' 0 0 ?s = (Ok r, s')"
    by (simp add: open_via_nexus_fs_def open_slot_def open_async_io_def monad_simps ext_simps task_or_def
        should_try_fs_iouring_def should_try_iouring_def mark_iouring_unsupported_def example_lib_def
        install_fd_def Let_def)
  have "get_process ?s 1 = Some example_fd_task" by simp
  note fresh = open_returns_fresh_fd[OF run this]
  have w: "world ?s = 100" by (simp add: example_ape_def ape_new_def)
  have op: "opened example_env c path fl md slot v v' \<longleftrightarrow> slot = v \<and> v' = Suc v" for c path fl md slot v v'
    by (auto simp: opened_def ok_call_def)
  have none: "open_async_io example_env 1 slot (?s\<lparr>world := x\<rparr>) = (Ok aio, s2) \<Longrightarrow> aio = None" for slot x aio s2
    by (simp add: open_async_io_def monad_simps should_try_fs_iouring_def should_try_iouring_def mark_iouring_unsupported_def)
  have "fds_ok (task_files example_fd_task)" "next_fd (task_files example_fd_task) < u32_max"
    by (simp_all add: fds_ok_def bt_ok_Cons bt_contains_def bt_get_def u32_max_def)
  from fresh[OF this] obtain aio t' s2 where "r = 1" "get_process s' 1 = Some t'"
    "open_async_io example_env 1 100 (?s\<lparr>world := Suc 100\<rparr>) = (Ok aio, s2)"
    "bt_get (fds (task_files t')) = (bt_get (fds (task_files example_fd_task)))(nat r \<mapsto> new_handle 100 aio)"
    unfolding op w by auto
  with run none[of 100 "Suc 100" aio s2] show ?thesis by (auto simp: bt_get_def)
qed

text \<open>
  C27: duplicating a descriptor with a minimum returns the lowest free descriptor from that
  minimum on; the new descriptor shares the endpoint, the client and the offset of the old
  one and owns no asynchronous region, no service is called, and every other descriptor and
  process is as before.
\<close>

theorem dup_returns_lowest_free:
  assumes "do_fcntl E p fd F_DUPFD arg s = (Ok r, s')" and "get_process s p = Some t"
  shows "\<exists>n. bt_get (fds (task_files t)) fd = Some \<lparr>file_type = Normal n\<rparr> \<and>
    arg \<le> nat r \<and> \<not> bt_contains (fds (task_files t)) (nat r) \<and>
    (\<forall>i. arg \<le> i \<and> i < nat r \<longrightarrow> bt_contains (fds (task_files t)) i) \<and>
    (\<exists>t'. get_process s' p = Some t' \<and>
       bt_get (fds (task_files t')) =
         (bt_get (fds (task_files t)))(nat r \<mapsto> \<lparr>file_type = Normal (n\<lparr>nf_async_io := None\<rparr>)\<rparr>)) \<and>
    (\<forall>q. q \<noteq> p \<longrightarrow> get_process s' q = get_process s q) \<and> world s' = world s"
proof -
  from assms obtain h new where h: "bt_get (fds (task_files t)) fd = Some h"
    and new: "next_free_fd (fds (task_files t)) arg = Some new" and r: "r = int new"
    and s': "s' = ledger_record_fd_open p (upd_task p (upd_files
      (dup_into fd new (duplicate_handle h) (bt_get (fd_paths (task_files t)) fd) False)) s)"
    by (auto simp: do_fcntl_def fcntl_dup_def ok_iff Let_def split: if_splits)
  obtain n where n: "h = \<lparr>file_type = Normal n\<rparr>" by (metis fd_handle.cases file_type.exhaust)
  have "nf_backend n = BackendFs" by (cases "nf_backend n")
  then have "duplicate_handle h = \<lparr>file_type = Normal (n\<lparr>nf_async_io := None\<rparr>)\<rparr>"
    by (simp add: duplicate_handle_def duplicate_normal_handle_def n)
  with next_free_fd_Some[OF new] h n r assms(2) show ?thesis
    by (simp add: s' ledger_record_fd_open_def)
qed

theorem dup_returns_lowest_free_witness:
  "\<exists>r s'. do_fcntl example_env 1 0 F_DUPFD 0 (example_ape [example_fd_task]) = (Ok r, s') \<and>
     0 \<le> nat r \<and> \<not> bt_contains (fds (task_files example_fd_task)) (nat r)"
proof -
  let ?s = "example_ape [example_fd_task]"
  have "next_free_fd [(0, new_handle 7 None)] 0 = Some 1"
    by (simp add: next_free_fd.simps[of _ 0] next_free_fd.simps[of _ "Suc 0"] bt_contains_def bt_get_def
        u32_checked_add_def u32_max_def)
  then obtain r s' where run: "do_fcntl example_env 1 0 F_DUPFD 0 ?s = (Ok r, s')"
    by (simp add: do_fcntl_def fcntl_dup_def monad_simps task_or_def u32_try_from_def Let_def
        bt_contains_def bt_get_def)
  have "get_process ?s 1 = Some example_fd_task" by simp
  from dup_returns_lowest_free[OF run this] run show ?thesis by blast
qed

text \<open>
  Listing a directory takes the handle out of the table while the service answers, and
  whatever the service, the entries or the copy to the caller's buffer do (short of a panic
  of the whole service), the descriptor table ends as it was and no other process changed.
\<close>

theorem getdents_restores_table:
  assumes "do_getdents64 E p fd dirp cnt s = (r, s')" and "r \<noteq> Panic" and "get_process s p = Some t"
  shows "\<exists>t'. get_process s' p = Some t' \<and>
      bt_get (fds (task_files t')) = bt_get (fds (task_files t)) \<and>
      fd_paths (task_files t') = fd_paths (task_files t) \<and>
      fd_cloexec (task_files t') = fd_cloexec (task_files t) \<and>
      next_fd (task_files t') = next_fd (task_files t) \<and>
      (\<forall>q. q \<noteq> p \<longrightarrow> get_process s' q = get_process s q)"
proof (cases "cnt = 0 \<or> dirp = 0 \<or> cnt < DIRENT64_MIN_RECLEN \<or> u32_max < fd")
  case True
  with assms(1,3) show ?thesis
    by (auto simp: do_getdents64_def monad_simps u32_try_from_def split: if_splits)
next
  case False
  let ?s1 = "upd_task p (upd_files (\<lambda>f. f\<lparr>fds := bt_remove fd (fds f)\<rparr>)) s"
  show ?thesis
  proof (cases "bt_get (fds (task_files t)) fd")
    case None
    with False assms(1,3) have "s' = ?s1"
      by (auto simp: do_getdents64_def take_fd_def monad_simps task_or_def u32_try_from_def split: if_splits)
    with None assms(3) show ?thesis by (simp add: fun_upd_idem)
  next
    case (Some h)
    obtain r2 s2 where run: "list_entries E p h dirp cnt ?s1 = (r2, s2)" by fastforce
    from keepsD[OF list_entries_mem mem_only_refl run] assms(3) obtain g where
      g: "get_process s2 p = Some (upd_mem g (upd_files (\<lambda>f. f\<lparr>fds := bt_remove fd (fds f)\<rparr>) t))"
      and other: "\<And>q. q \<noteq> p \<Longrightarrow> get_process s2 q = get_process s q"
      by (auto simp: mem_only_def)
    from False Some assms(1-3) run g have "s' = put_fd p fd h s2"
      by (cases r2) (auto simp: do_getdents64_def take_fd_def monad_simps task_or_def u32_try_from_def)
    with g other Some show ?thesis
      by (simp add: put_fd_def upd_mem_def task_mem_def fun_upd_idem)
  qed
qed

theorem getdents_restores_table_witness:
  "\<exists>r s' t'. do_getdents64 example_env 1 0 0x1000 4096 (example_ape [example_fd_task]) = (Ok r, s') \<and>
     get_process s' 1 = Some t' \<and> bt_get (fds (task_files t')) 0 = Some (new_handle 7 None)"
proof -
  let ?s = "example_ape [example_fd_task]"
  obtain r s' where run: "do_getdents64 example_env 1 0 0x1000 4096 ?s = (Ok r, s')"
    by (simp add: do_getdents64_def take_fd_def list_entries_def monad_simps task_or_def u32_try_from_def
        DIRENT64_MIN_RECLEN_def bt_get_def new_handle_def ext_simps)
  have "get_process ?s 1 = Some example_fd_task" by simp
  from getdents_restores_table[OF run _ this] run show ?thesis by (force simp: bt_get_def)
qed

text \<open>
  C29: the buffer of a directory listing holds whole records only, in the order of the
  service: it is the concatenation of the first entries that fit, never longer than the
  caller's buffer, and stops only where the next record would not fit.
\<close>

theorem getdents_packs_whole_records:
  assumes "pack_entries cnt es [] = Ok bs" and "cnt < usize_max"
  shows "\<exists>k \<le> length es. bs = concat (map pack_entry (take k es)) \<and> length bs \<le> cnt \<and> 8 dvd length bs \<and>
    (k < length es \<longrightarrow> cnt < length bs + length (pack_entry (es ! k)))"
proof -
  from pack_entries_prefix[OF assms(1) _ assms(2)] obtain k where
    k: "k \<le> length es" "bs = concat (map pack_entry (take k es))" "length bs \<le> cnt"
    "k < length es \<longrightarrow> cnt < length bs + length (pack_entry (es ! k))" by auto
  have "8 dvd length (concat (map pack_entry xs))" for xs
    by (induction xs) (simp_all add: pack_entry_length)
  with k show ?thesis by blast
qed

theorem getdents_packs_whole_records_witness:
  "pack_entries 24 [\<lparr>d_ino = 1, d_off = 0, d_type = 8, d_name = [97]\<rparr>] [] =
     Ok (pack_entry \<lparr>d_ino = 1, d_off = 0, d_type = 8, d_name = [97]\<rparr>) \<and>
   8 dvd length (pack_entry \<lparr>d_ino = 1, d_off = 0, d_type = 8, d_name = [97]\<rparr>)"
proof -
  let ?e = "\<lparr>d_ino = 1, d_off = 0, d_type = 8, d_name = [97]\<rparr>"
  have "pack_entries 24 [?e] [] = Ok (pack_entry ?e)"
    by (simp add: Let_def align_up_8_def DIRENT64_FIXED_SIZE_def sat_add_def usize_max_def)
  with getdents_packs_whole_records[of 24 "[?e]" "pack_entry ?e"] show ?thesis
    by (simp add: usize_max_def) blast
qed

lemma pipe_end_opened:
  assumes "open_pipe_end_via_pipefs E n suffix flags s = (Ok slot, s')" and "pipe_vfs_endpoint (fs_sub s) = Some server"
  shows "\<exists>w. opened E server (pipe_end_path n suffix) flags 0 slot (world s) w \<and> s' = s\<lparr>world := w\<rparr>"
proof (rule open_slot_opened)
  show "open_slot E server (pipe_end_path n suffix) flags 0 s = (Ok slot, s')"
    using assms by (simp add: open_pipe_end_via_pipefs_def monad_simps)
qed

lemma both_ends_opened:
  assumes "open_both_ends E n s = (Ok (rslot, wslot), s')" and "pipe_vfs_endpoint (fs_sub s) = Some server"
  shows "\<exists>w w'. opened E server (pipe_end_path n ''r'') (OPEN_RDONLY (lib E)) 0 rslot (world s) w \<and>
    opened E server (pipe_end_path n ''w'') (OPEN_WRONLY (lib E)) 0 wslot w w' \<and> s' = s\<lparr>world := w'\<rparr>"
proof -
  from assms(1) obtain s1 where r: "open_pipe_end_via_pipefs E n ''r'' (OPEN_RDONLY (lib E)) s = (Ok rslot, s1)" and
    w: "open_pipe_end_via_pipefs E n ''w'' (OPEN_WRONLY (lib E)) s1 = (Ok wslot, s')"
    unfolding open_both_ends_def andThen_Ok[of "open_pipe_end_via_pipefs E n ''r'' f" for f] attempt_case_Ok
    by (auto simp: andThen_Ok throw_def ret_def)
  from pipe_end_opened[OF r assms(2)] obtain w1 where w1: "opened E server (pipe_end_path n ''r'') (OPEN_RDONLY (lib E)) 0 rslot (world s) w1"
    "s1 = s\<lparr>world := w1\<rparr>" by blast
  with pipe_end_opened[OF w, of server] assms(2) show ?thesis by auto
qed

lemma pipe_id_created:
  assumes "create_pipe_id E s = (Ok n, s')" and "n \<noteq> 0"
  shows "\<exists>server w. pipe_vfs_endpoint (fs_sub s) = Some server \<and> pipe_create_call (fss E) server (world s) = (Ok n, w) \<and>
    s' = s\<lparr>world := w\<rparr>"
  using assms by (auto simp: create_pipe_id_def andThen_Ok[of "gets f" for f] gets_def attempt_case_Ok ext_Ok ret_def split: option.splits)

text \<open>
  C28: a successful \<open>pipe2\<close> asks the pipe file system for a new pipe, opens its read end and then
  its write end, enters them under two descriptors that were free, the lower one on the
  endpoint of the read end and the higher one on that of the write end, both with the
  close-on-exec mark of the call, and stores the two numbers in this order at the caller's
  address. No other descriptor and no other process changes.
\<close>

theorem pipe2_installs_two_ends:
  fixes s :: "('i, 'p, 'w) ape"
  assumes "do_pipe2 E p pipefd flags s = (Ok v, s')" and "get_process s p = Some t"
  shows "v = 0 \<and> (\<exists>server n w1 rd wr rslot w2 wslot (s3 :: ('i, 'p, 'w) ape) s4 t'.
      pipe_vfs_endpoint (fs_sub s) = Some server \<and> pipe_create_call (fss E) server (world s) = (Ok n, w1) \<and>
      opened E server (pipe_end_path n ''r'') (OPEN_RDONLY (lib E)) 0 rslot w1 w2 \<and>
      opened E server (pipe_end_path n ''w'') (OPEN_WRONLY (lib E)) 0 wslot w2 (world s3) \<and>
      rd < wr \<and> \<not> bt_contains (fds (task_files t)) rd \<and> \<not> bt_contains (fds (task_files t)) wr \<and>
      copy_to_user E p pipefd (i32_to_bytes (int rd) @ i32_to_bytes (int wr)) s3 = (Ok (), s4) \<and>
      world s' = world s4 \<and> get_process s' p = Some t' \<and>
      bt_get (fds (task_files t')) =
        (bt_get (fds (task_files t)))(rd \<mapsto> new_handle rslot None, wr \<mapsto> new_handle wslot None) \<and>
      bt_get (fd_cloexec (task_files t')) =
        (bt_get (fd_cloexec (task_files t)))(rd \<mapsto> flags AND O_CLOEXEC \<noteq> 0, wr \<mapsto> flags AND O_CLOEXEC \<noteq> 0)) \<and>
    (\<forall>q. q \<noteq> p \<longrightarrow> get_process s' q = get_process s q)"
proof -
  from assms obtain n s1 rslot wslot s2 t2 rd wr s4 where
    n: "create_pipe_id E s = (Ok n, s1)" "n \<noteq> 0" and ends: "open_both_ends E n s1 = (Ok (rslot, wslot), s2)"
    and t2: "get_process s2 p = Some t2" and fds: "pipe_fds (task_files t2) = Ok (rd, wr)"
    and c: "copy_to_user E p pipefd (i32_to_bytes (int rd) @ i32_to_bytes (int wr))
      (upd_task p (upd_files (install_pipe rd wr rslot wslot (flags AND O_CLOEXEC \<noteq> 0))) s2) = (Ok (), s4)"
    and s': "s' = ledger_record_fd_open p (ledger_record_fd_open p s4)" and v: "v = 0"
    by (auto simp: do_pipe2_def ok_iff split: if_splits)
  from pipe_id_created[OF n] obtain server w1 where made: "pipe_vfs_endpoint (fs_sub s) = Some server"
    "pipe_create_call (fss E) server (world s) = (Ok n, w1)" and s1: "s1 = s\<lparr>world := w1\<rparr>" by blast
  from both_ends_opened[OF ends] made(1) obtain w2 w3 where
    op: "opened E server (pipe_end_path n ''r'') (OPEN_RDONLY (lib E)) 0 rslot w1 w2"
    "opened E server (pipe_end_path n ''w'') (OPEN_WRONLY (lib E)) 0 wslot w2 w3" and s2: "s2 = s\<lparr>world := w3\<rparr>"
    by (auto simp: s1)
  have kept: "get_process s2 q = get_process s q" for q
    using keepsD[OF create_pipe_id_processes refl n(1)] keepsD[OF open_both_ends_processes refl ends] by metis
  with t2 assms(2) have [simp]: "t2 = t" by simp
  from keepsD[OF user_access_mem(2) mem_only_refl c] assms(2) kept obtain g where
    g: "get_process s4 p = Some (upd_mem g (upd_files (install_pipe rd wr rslot wslot (flags AND O_CLOEXEC \<noteq> 0)) t))"
    and other: "\<And>q. q \<noteq> p \<Longrightarrow> get_process s4 q = get_process s q"
    by (auto simp: mem_only_def)
  from fds have "next_free_fd (fds (task_files t)) (next_fd (task_files t)) = Some rd"
    "next_free_fd (fds (task_files t)) (Suc rd) = Some wr"
    by (auto simp: pipe_fds_def split: option.splits)
  from next_free_fd_Some[OF this(1)] next_free_fd_Some[OF this(2)] have free:
    "rd < wr" "\<not> bt_contains (fds (task_files t)) rd" "\<not> bt_contains (fds (task_files t)) wr" by auto
  define s3 where "s3 = upd_task p (upd_files (install_pipe rd wr rslot wslot (flags AND O_CLOEXEC \<noteq> 0))) s2"
  have w: "world s3 = w3" "world s' = world s4" by (simp_all add: s3_def s2 s' ledger_record_fd_open_def)
  obtain t' where t': "get_process s' p = Some t'"
    "bt_get (fds (task_files t')) = (bt_get (fds (task_files t)))(rd \<mapsto> new_handle rslot None, wr \<mapsto> new_handle wslot None)"
    "bt_get (fd_cloexec (task_files t')) =
       (bt_get (fd_cloexec (task_files t)))(rd \<mapsto> flags AND O_CLOEXEC \<noteq> 0, wr \<mapsto> flags AND O_CLOEXEC \<noteq> 0)"
    using g by (auto simp: s' ledger_record_fd_open_def upd_mem_def task_mem_def install_pipe_def)
  have others: "\<forall>q. q \<noteq> p \<longrightarrow> get_process s' q = get_process s q"
    using other by (simp add: s' ledger_record_fd_open_def)
  show ?thesis
    by (intro conjI[OF v] conjI[OF _ others] exI)
      (rule conjI[OF made(1) conjI[OF made(2) conjI[OF op(1) conjI[OF op(2)[folded w(1)] conjI[OF free(1) conjI[OF free(2)
        conjI[OF free(3) conjI[OF c[folded s3_def] conjI[OF w(2) conjI[OF t'(1) conjI[OF t'(2) t'(3)]]]]]]]]]]])
qed

lemma length_i32_to_bytes [simp]: "length (i32_to_bytes n) = 4"
  by (simp add: i32_to_bytes_def)

lemma example_copy_files:
  assumes "get_process s p = Some (upd_files f example_mem_task)" and "length bytes \<le> 8"
  shows "copy_to_user example_env p 0x20010ff8 bytes s = (Ok (), s)"
proof (rule example_copy_to)
  show "lookup_map example_env p 0x20010ff8 {PERM_WRITE} s = (Ok example_page, s)"
    by (rule example_lookup_map[OF assms(1)])
      (simp_all add: example_page_def covers_def usize_max_def example_mem_task_simps lookup_memory_map_def
        lookup_in_def bt_last_le_def task_mem_def upd_mem_def upd_files_def)
qed (use assms(2) in \<open>simp_all add: example_page_def\<close>)

theorem pipe2_installs_two_ends_witness:
  "\<exists>s' rd wr t'. do_pipe2 example_env 1 0x20010ff8 0
       (upd_fs_sub (\<lambda>f. f\<lparr>pipe_vfs_endpoint := Some 12\<rparr>) (example_ape [example_mem_task])) = (Ok 0, s') \<and>
     get_process s' 1 = Some t' \<and> rd < wr \<and> bt_get (fds (task_files t')) rd = Some (new_handle 100 None) \<and>
     bt_get (fds (task_files t')) wr = Some (new_handle 101 None)"
proof -
  let ?s = "upd_fs_sub (\<lambda>f. f\<lparr>pipe_vfs_endpoint := Some 12\<rparr>) (example_ape [example_mem_task])"
  have files: "task_files example_mem_task = files_struct_new" "task_pid example_mem_task = 1"
    by (simp_all add: example_mem_task_def example_task_def task_struct_new_def upd_mem_def)
  have free: "next_free_fd [] n = Some n" for n
    by (simp add: next_free_fd.simps[of "[]" n] bt_contains_def)
  obtain v s' where run: "do_pipe2 example_env 1 0x20010ff8 0 ?s = (Ok v, s')"
    by (simp add: do_pipe2_def create_pipe_id_def open_both_ends_def open_pipe_end_via_pipefs_def
        open_slot_def monad_simps ext_simps task_or_def files files_struct_new_def pipe_fds_def free
        u32_checked_add_def u32_max_def i32_max_def PIPE2_ALLOWED_FLAGS_def
        example_copy_files)
  have "get_process ?s 1 = Some example_mem_task" by (simp add: files)
  note two = pipe2_installs_two_ends[OF run this]
  have w: "world ?s = 100" by (simp add: example_ape_def ape_new_def)
  have op: "opened example_env c path fl md slot v v' \<longleftrightarrow> slot = v \<and> v' = Suc v" for c path fl md slot v v'
    by (auto simp: opened_def ok_call_def)
  from two obtain rd wr rslot wslot t' where "v = 0" "rd < wr" "rslot = 100" "wslot = Suc 100" "get_process s' 1 = Some t'"
    "bt_get (fds (task_files t')) = (bt_get (fds (task_files example_mem_task)))(rd \<mapsto> new_handle rslot None, wr \<mapsto> new_handle wslot None)"
    unfolding op w by (auto simp: w)
  with run show ?thesis by (intro exI[of _ s'] exI[of _ rd] exI[of _ wr] exI[of _ t']) simp
qed

end
