(* ===== verification/Lifecycle.thy ===== *)
theory Lifecycle
  imports Sys_Signal Fd
begin

text \<open>
  The life of a process (\<open>src/src/task/lifecycle.rs\<close>): termination with the
  release of everything a process holds and the report to its parent, fork with
  copy-on-write sharing of frames, and \<open>wait4\<close> with deferred replies.
\<close>

section \<open>Termination\<close>

text \<open>The answer to a parked \<open>wait4\<close>, when there is one to give.\<close>

definition wait4_answer :: "('i, 'w) env \<Rightarrow> usize \<Rightarrow> pending_wait_reply \<Rightarrow> ('i, 'p, 'w, int option) ape_prog" where
  "wait4_answer E parent pending =
     andThen (pop_waitable_child_event parent (pw_target_pid pending) (pw_options pending) (pw_caller_pgid pending)) (\<lambda>ev.
     case ev of
       Some (reaped, status) \<Rightarrow>
         if pw_wstatus pending \<noteq> 0 then
           andThen (attempt (copy_to_user E parent (pw_wstatus pending) (i32_to_bytes status))) (\<lambda>r.
           ret (Some (case r of Inl e \<Rightarrow> map_error_to_errno (lib E) e | Inr _ \<Rightarrow> i64_of_nat reaped)))
         else ret (Some (i64_of_nat reaped))
     | None \<Rightarrow>
         andThen (gets (\<lambda>s. has_waitable_child s parent (pw_target_pid pending) (pw_options pending) (pw_caller_pgid pending))) (\<lambda>has.
         ret (if \<not> has then Some (- ECHILD) else None)))"

definition try_wake_pending_wait4_reply :: "('i, 'w) env \<Rightarrow> usize \<Rightarrow> ('i, 'p, 'w, bool) ape_prog" where
  "try_wake_pending_wait4_reply E parent =
     andThen (gets (\<lambda>s. peek_wait4_reply s parent)) (\<lambda>pk.
     case pk of
       None \<Rightarrow> ret False
     | Some pending \<Rightarrow>
         andThen (wait4_answer E parent pending) (\<lambda>answer.
         case answer of
           None \<Rightarrow> ret False
         | Some r \<Rightarrow>
             andThen (take_wait4_reply parent) (\<lambda>tk.
             case tk of
               None \<Rightarrow> ret False
             | Some pending \<Rightarrow>
                 andThen (modify (upd_task parent (upd_signal clear_wait4_block))) (\<lambda>_.
                 andThen (ignore (ext (reply_send (procs E) (pw_reply_slot pending) r))) (\<lambda>_.
                 andThen (ignore (ext (cap_delete (caps E) (pw_reply_slot pending)))) (\<lambda>_.
                 andThen (ext_do (cspace_free (caps E) (pw_reply_slot pending))) (\<lambda>_.
                 ret True)))))))"

definition encode_wait_status :: "usize \<Rightarrow> int" where
  "encode_wait_status exit_code = int (exit_code mod 256) * 256"

text \<open>The frames of a process: the largest page count that a map gives a frame.\<close>

definition frame_pages_of :: "mem_params \<Rightarrow> mm_state \<Rightarrow> (capptr, usize) btree" where
  "frame_pages_of M st =
     fold (\<lambda>m acc.
        if frame_cap m = 0 then acc
        else bt_entry (frame_cap m) 0 (\<lambda>n. max n (map_pages M m)) acc)
       (bt_values (memory_maps st)) []"

definition mapped_pages_of :: "mem_params \<Rightarrow> mm_state \<Rightarrow> (usize \<times> usize) list" where
  "mapped_pages_of M st = map (\<lambda>m. (map_vaddr m, map_pages M m)) (bt_values (memory_maps st))"

definition release_cnode :: "('i, 'w) env \<Rightarrow> usize \<Rightarrow> ('i, 'p, 'w, unit) ape_prog" where
  "release_cnode E p =
     andThen (gets (\<lambda>s. get_process s p)) (\<lambda>t.
     case t of
       None \<Rightarrow> ret ()
     | Some t \<Rightarrow>
         let slot = task_cspace t in
         andThen (ignore (ext (cap_revoke (caps E) slot))) (\<lambda>_.
         andThen (attempt (ext (cap_delete (caps E) slot))) (\<lambda>r.
         case r of
           Inl e \<Rightarrow>
             if e \<noteq> InvalidCapability \<and> e \<noteq> InvalidSlot then ret ()
             else ext_do (cspace_free (caps E) slot)
         | Inr _ \<Rightarrow> ext_do (cspace_free (caps E) slot))))"

definition notify_parent :: "('i, 'w) env \<Rightarrow> usize \<Rightarrow> usize \<Rightarrow> usize \<Rightarrow> usize \<Rightarrow> ('i, 'p, 'w, unit) ape_prog" where
  "notify_parent E p parent pgid exit_code =
     (let status = encode_wait_status exit_code in
      andThen (modify (mark_process_exited_snapshot p parent pgid status)) (\<lambda>_.
      andThen (modify (record_child_exit parent p status pgid)) (\<lambda>_.
      andThen (try_wake_pending_wait4_reply E parent) (\<lambda>replied.
      whenM (\<not> replied) (
        andThen (gets (\<lambda>s. get_process s parent)) (\<lambda>pt.
        andThen (case pt of
            Some t \<Rightarrow>
              if wait4_block_matches p pgid (task_signal t) then
                andThen (modify (upd_task parent (upd_signal clear_wait4_block))) (\<lambda>_.
                ignore (ext (tcb_resume (procs E) (task_tcb t))))
              else ret ()
          | None \<Rightarrow> ret ()) (\<lambda>_.
        ignore (queue_process_signal E parent SIGCHLD))))))))"

definition release_memory :: "('i, 'w) env \<Rightarrow> usize \<Rightarrow> mm_state \<Rightarrow> ('i, 'p, 'w, unit) ape_prog" where
  "release_memory E p st =
     andThen (forM (mapped_pages_of (mp E) st) (\<lambda>(vaddr, pages).
        whenM (pages > 0) (ignore (unmap_process_pages E p vaddr pages)))) (\<lambda>_.
     forM (frame_pages_of (mp E) st) (\<lambda>(slot, pages). release_process_frame_slot E p slot pages))"

definition finish_exit :: "('i, 'w) env \<Rightarrow> bool \<Rightarrow> ('i, 'p, 'w, unit) ape_prog" where
  "finish_exit E should_skip_reply =
     (if should_skip_reply then
        andThen (gets (\<lambda>s. reply (ipc s))) (\<lambda>slot.
        andThen (ignore (ext (cap_delete (caps E) slot))) (\<lambda>_.
        throw Success))
      else ret ())"

definition drop_process :: "('i, 'w) env \<Rightarrow> usize \<Rightarrow> ('i, 'p, 'w, unit) ape_prog" where
  "drop_process E p =
     andThen (gets (\<lambda>s. host_pid_by_local s p)) (\<lambda>host.
     andThen (case host of
         None \<Rightarrow> ret ()
       | Some h \<Rightarrow>
           andThen (ignore (ext (proc_kill (procs E) h))) (\<lambda>_.
           modify (remove_host_pid_mapping h))) (\<lambda>_.
     andThen (ignore (release_process_intermediate_page_tables E p)) (\<lambda>_.
     andThen (drop_wait4_reply E p) (\<lambda>_.
     andThen (drop_pending_sleep_reply E p) (\<lambda>_.
     andThen (ledger_take_process p) (\<lambda>_.
     modify (remove_process_record p)))))))"

definition terminate_process :: "('i, 'w) env \<Rightarrow> usize \<Rightarrow> usize \<Rightarrow> ('i, 'p, 'w, unit) ape_prog" where
  "terminate_process E p exit_code =
     andThen (task_or NotFound p) (\<lambda>t.
     andThen (modify (upd_task p (set_lifecycle Exiting))) (\<lambda>_.
     andThen (forM (bt_keys (fds (task_files t))) (\<lambda>fd. ignore (do_close E p fd))) (\<lambda>_.
     andThen (release_memory E p (task_mem t)) (\<lambda>_.
     andThen (release_cnode E p) (\<lambda>_.
     andThen (gets (\<lambda>s. active_caller_pid (ipc s) = Some p)) (\<lambda>should_skip_reply.
     andThen (drop_process E p) (\<lambda>_.
     andThen (whenM (parent_pid t \<noteq> 0) (notify_parent E p (parent_pid t) (process_group_id t) exit_code)) (\<lambda>_.
     if p = 1 then panic else finish_exit E should_skip_reply))))))))"

section \<open>Simple calls\<close>

definition do_getpid :: "usize \<Rightarrow> ('i, 'p, 'w, usize) ape_prog" where "do_getpid p = ret p"
definition do_gettid :: "usize \<Rightarrow> ('i, 'p, 'w, usize) ape_prog" where "do_gettid p = ret p"

definition do_set_tid_address :: "usize \<Rightarrow> usize \<Rightarrow> ('i, 'p, 'w, usize) ape_prog" where
  "do_set_tid_address p tidptr =
     andThen (task_or NotFound p) (\<lambda>_.
     andThen (modify (upd_task p (upd_signal (\<lambda>g. g\<lparr>clear_child_tid := tidptr\<rparr>)))) (\<lambda>_. ret p))"

definition do_exit :: "('i, 'w) env \<Rightarrow> usize \<Rightarrow> usize \<Rightarrow> ('i, 'p, 'w, unit) ape_prog" where
  "do_exit E p code = terminate_process E p code"

definition do_exit_group :: "('i, 'w) env \<Rightarrow> usize \<Rightarrow> usize \<Rightarrow> ('i, 'p, 'w, unit) ape_prog" where
  "do_exit_group E p code = terminate_process E p code"

definition do_getppid :: "usize \<Rightarrow> ('i, 'p, 'w, usize) ape_prog" where
  "do_getppid p = andThen (task_or NotFound p) (\<lambda>t. ret (parent_pid t))"

section \<open>Fork\<close>

definition upd_map :: "usize \<Rightarrow> (memory_map \<Rightarrow> memory_map) \<Rightarrow> mm_state \<Rightarrow> mm_state" where
  "upd_map v f st = st\<lparr>memory_maps := bt_alter v f (memory_maps st)\<rparr>"

text \<open>
  Sharing one map with the child: mapped without write permission on both sides, the
  frame retained once per slot, and marked copy-on-write on both sides when writable.
  Returns the child's copy and the slots retained so far.
\<close>

definition share_map ::
  "('i, 'w) env \<Rightarrow> usize \<Rightarrow> usize \<Rightarrow> capptr set \<Rightarrow> memory_map \<Rightarrow> ('i, 'p, 'w, memory_map \<times> capptr set) ape_prog" where
  "share_map E p child retained m =
     (let pages = map_pages (mp E) m in
      if frame_cap m = 0 \<or> pages = 0 then ret (m, retained)
      else
        let writable = PERM_WRITE \<in> map_flags m; ro = map_flags m - {PERM_WRITE};
            frame = frame_cap m in
        andThen (map_process_frame E child frame (map_vaddr m) (if writable then ro else map_flags m) pages) (\<lambda>_.
        andThen (whenM (writable \<and> \<not> map_cow m) (
          andThen (ignore (unmap_process_pages E p (map_vaddr m) pages)) (\<lambda>_.
          andThen (attempt (map_process_frame E p frame (map_vaddr m) ro pages)) (\<lambda>r.
          case r of
            Inl e \<Rightarrow> andThen (ignore (unmap_process_pages E child (map_vaddr m) pages)) (\<lambda>_. throw e)
          | Inr _ \<Rightarrow> ret ())))) (\<lambda>_.
        andThen (whenM (frame \<notin> retained) (modify (retain_shared_frame_cap frame))) (\<lambda>_.
        if writable then
          andThen (modify (upd_task p (upd_mem (upd_map (map_vaddr m) (\<lambda>x. x\<lparr>map_cow := True\<rparr>))))) (\<lambda>_.
          ret (m\<lparr>map_cow := True\<rparr>, insert frame retained))
        else ret (m, insert frame retained)))))"

fun share_maps ::
  "('i, 'w) env \<Rightarrow> usize \<Rightarrow> usize \<Rightarrow> capptr set \<Rightarrow> memory_map list \<Rightarrow> ('i, 'p, 'w, memory_map list) ape_prog" where
  "share_maps E p child retained [] = ret []"
| "share_maps E p child retained (m # ms) =
     andThen (share_map E p child retained m) (\<lambda>(m', retained').
     andThen (share_maps E p child retained' ms) (\<lambda>ms'.
     ret (m' # ms')))"

text \<open>The fields that the child takes over from the parent as it was before the sharing.\<close>

definition inherit :: "'i task_struct \<Rightarrow> memory_map list \<Rightarrow> 'i task_struct \<Rightarrow> 'i task_struct" where
  "inherit parent maps c =
     (let pm = task_mem parent;
          c1 = c\<lparr>task_fs := task_fs parent, task_files := task_files parent,
                 session_id := session_id parent, process_group_id := process_group_id parent,
                 controlling_tty := controlling_tty parent, task_cred := task_cred parent,
                 task_sighand := task_sighand parent,
                 task_signal := (set_blocked (get_blocked (task_signal parent))
                     ((task_signal c)\<lparr>clear_child_tid := clear_child_tid (task_signal parent)\<rparr>))
                   \<lparr>signal_pending := 0\<rparr>\<rparr>;
          c2 = (if is_stopped parent then mark_stopped c1 else mark_running c1)
      in upd_mem (\<lambda>m.
           fold add_lazy_memory_map (bt_values (lazy_memory_maps pm))
             (fold add_memory_map maps
               (m\<lparr>stack_bottom := stack_bottom pm, stack_size := stack_size pm,
                  max_stack_size := max_stack_size pm, heap_start := heap_start pm,
                  heap_brk := heap_brk pm, heap_limit := heap_limit pm, mmap_base := mmap_base pm,
                  mmap_next := mmap_next pm, mmap_limit := mmap_limit pm, memory_maps := [],
                  lazy_memory_maps := []\<rparr>))) c2)"

definition start_child :: "('i, 'w) env \<Rightarrow> usize \<Rightarrow> usize \<Rightarrow> ('i, 'p, 'w, unit) ape_prog" where
  "start_child E p child =
     andThen (task_or NotFound p) (\<lambda>pt.
     andThen (task_or NotFound child) (\<lambda>ct.
     andThen (ext (tcb_set_fault_handler (procs E) (task_tcb ct) (cap_concat (caps E) (task_cspace ct) APE_SLOT))) (\<lambda>_.
     andThen (ext (tcb_fork_from (procs E) (task_tcb ct) (task_tcb pt))) (\<lambda>_.
     ext (tcb_resume (procs E) (task_tcb ct))))))"

definition do_fork :: "('i, 'w) env \<Rightarrow> usize \<Rightarrow> ('i, 'p, 'w, usize) ape_prog" where
  "do_fork E p =
     andThen (ext (proc_create (procs E) (''fork-'' @ show_usize p))) (\<lambda>host.
     andThen (ext (cspace_alloc (caps E))) (\<lambda>slot.
     andThen (ext (proc_get_cnode (procs E) host slot)) (\<lambda>cnode.
     andThen (register_process E p host cnode) (\<lambda>child.
     andThen (task_or NotFound p) (\<lambda>parent.
     andThen (share_maps E p child {} (bt_values (memory_maps (task_mem parent)))) (\<lambda>maps.
     andThen (task_or NotFound child) (\<lambda>_.
     andThen (modify (upd_task child (inherit parent maps))) (\<lambda>_.
     andThen (ignore (ext (auth_set_identity (procs E) child (task_cred parent)))) (\<lambda>_.
     andThen (start_child E p child) (\<lambda>_.
     ret child))))))))))"

definition do_clone ::
  "('i, 'w) env \<Rightarrow> usize \<Rightarrow> 64 word \<Rightarrow> usize \<Rightarrow> usize \<Rightarrow> usize \<Rightarrow> usize \<Rightarrow> ('i, 'p, 'w, int) ape_prog" where
  "do_clone E p flags stack ptid ctid tls =
     (let clone_flags = flags AND NOT 0xff in
      if \<not> (clone_flags = 0 \<or> clone_flags = CLONE_VM OR CLONE_VFORK) then ret (- ENOSYS)
      else
        andThen (do_fork E p) (\<lambda>child.
        andThen (whenM (clone_flags AND CLONE_PARENT_SETTID \<noteq> 0 \<and> ptid \<noteq> 0)
           (write_obj_to_user E p ptid (usize_to_bytes child))) (\<lambda>_.
        andThen (whenM (clone_flags AND (CLONE_CHILD_CLEARTID OR CLONE_CHILD_SETTID) \<noteq> 0)
           (modify (upd_task child (upd_signal (\<lambda>g. g\<lparr>clear_child_tid := ctid\<rparr>))))) (\<lambda>_.
        ret (i64_of_nat child)))))"

section \<open>Wait\<close>

definition do_wait4 ::
  "('i, 'w) env \<Rightarrow> usize \<Rightarrow> int \<Rightarrow> usize \<Rightarrow> 64 word \<Rightarrow> usize \<Rightarrow> ('i, 'p, 'w, int) ape_prog" where
  "do_wait4 E p target wstatus options rusage =
     andThen (task_or NotFound p) (\<lambda>t.
     andThen (modify (upd_task p (upd_signal clear_wait4_block))) (\<lambda>_.
     let pgid = process_group_id t in
     andThen (pop_waitable_child_event p target options pgid) (\<lambda>ev.
     case ev of
       Some (reaped, status) \<Rightarrow>
         andThen (whenM (wstatus \<noteq> 0) (copy_to_user E p wstatus (i32_to_bytes status))) (\<lambda>_.
         andThen (modify (clear_process_lifecycle_snapshot reaped)) (\<lambda>_.
         ret (i64_of_nat reaped)))
     | None \<Rightarrow>
         andThen (gets (\<lambda>s. has_waitable_child s p target options pgid)) (\<lambda>has.
         if \<not> has then ret (- ECHILD)
         else if options AND WNOHANG \<noteq> 0 then ret 0
         else
           andThen (queue_wait4_reply E p target wstatus options pgid) (\<lambda>_.
           andThen (modify (upd_task p (upd_signal (arm_wait4_block target pgid)))) (\<lambda>_.
           throw Success))))))"

end
