(* ===== verification/File_Io.thy ===== *)
theory File_Io
  imports Fd Async_Sleep Linux_Io_Abi
begin

text \<open>
  Reading, writing, seeking and device control (\<open>src/src/io/file.rs\<close>). While an
  operation runs the handle is out of the descriptor table and is the first half of the
  state; it is put back however the operation ends. Reads and writes go through a buffer
  of one page, so a call is a loop of transfers to the file service.
\<close>

section \<open>Working on a handle\<close>

definition FS_SYNC_RW_CHUNK :: usize where "FS_SYNC_RW_CHUNK = 4096"
definition IOCTL_DIR_NONE :: usize where "IOCTL_DIR_NONE = 0"
definition IOCTL_DIR_WRITE :: usize where "IOCTL_DIR_WRITE = 1"
definition IOCTL_DIR_READ :: usize where "IOCTL_DIR_READ = 2"
definition IOCTL_MAX_STRUCT_SIZE :: usize where "IOCTL_MAX_STRUCT_SIZE = 4096"

type_synonym ('i, 'p, 'w, 'a) handle_prog = "(normal_file_handle \<times> ('i, 'p, 'w) ape, 'a) prog"

text \<open>The result of the body is returned after the handle is back (nothing runs after a panic).\<close>

definition with_fd_handle_mut :: "usize \<Rightarrow> usize \<Rightarrow> ('i, 'p, 'w, 'a) handle_prog \<Rightarrow> ('i, 'p, 'w, 'a) ape_prog" where
  "with_fd_handle_mut p fd0 f =
     andThen (lift_res (ok_or (u32_try_from fd0) InvalidSlot)) (\<lambda>fd.
     andThen (take_fd p fd) (\<lambda>h.
     case file_type h of Normal n \<Rightarrow> (\<lambda>s.
       case f (n, s) of (r, (n', s')) \<Rightarrow> (r, put_fd p fd \<lparr>file_type = Normal n'\<rparr> s'))))"

definition get_handle :: "('i, 'p, 'w, normal_file_handle) handle_prog" where
  [monad_simps]: "get_handle = gets fst"

definition set_offset :: "(usize \<Rightarrow> usize) \<Rightarrow> ('i, 'p, 'w, unit) handle_prog" where
  [monad_simps]: "set_offset f = modify (\<lambda>(n, s). (n\<lparr>nf_offset := f (nf_offset n)\<rparr>, s))"

section \<open>Read and write\<close>

text \<open>
  The answer to a read is the caller's buffer up to the count the client reports.  Counts
  are used as they are reported: one beyond the chunk is copied out of the rest of the page
  buffer, one beyond the buffer is a slice out of range, and a write adds whatever count it
  is told.  The sum of the counts is a natural number here and is cast at the end, so that
  a sum of \<open>2\<^sup>6\<^sup>4\<close> or more, which needs a count near that size, ends the loop.
\<close>

function read_loop :: "('i, 'w) env \<Rightarrow> usize \<Rightarrow> usize \<Rightarrow> usize \<Rightarrow> usize \<Rightarrow> ('i, 'p, 'w, usize) handle_prog" where
  "read_loop E p ubuf len tot =
     (if tot < len then
        let chunk = min (len - tot) FS_SYNC_RW_CHUNK in
        andThen get_handle (\<lambda>n.
        andThen (on_mgr (ext (fs_read (fss E) (nf_fs_client n) (nf_offset n) chunk))) (\<lambda>data.
        let k = length data in
        if k = 0 then ret tot
        else
          andThen (lift_res (ok_or (checked_add ubuf tot) InvalidAddress)) (\<lambda>dst.
          if k > FS_SYNC_RW_CHUNK then panic
          else andThen (on_mgr (copy_to_user E p dst data)) (\<lambda>_.
          andThen (set_offset (\<lambda>off. sat_add off k)) (\<lambda>_.
          if k < chunk then ret (tot + k) else read_loop E p ubuf len (tot + k))))))
      else ret tot)"
  by pat_completeness auto
termination by (relation "measure (\<lambda>(E, p, ubuf, len, tot). len - tot)") (auto simp flip: length_greater_0_conv)

declare read_loop.simps [simp del]

definition do_read :: "('i, 'w) env \<Rightarrow> usize \<Rightarrow> usize \<Rightarrow> usize \<Rightarrow> usize \<Rightarrow> ('i, 'p, 'w, int) ape_prog" where
  "do_read E p fd ubuf len =
     (if len = 0 then ret 0
      else with_fd_handle_mut p fd (andThen (read_loop E p ubuf len 0) (\<lambda>tot. ret (i64_of_nat tot))))"

function write_loop :: "('i, 'w) env \<Rightarrow> usize \<Rightarrow> usize \<Rightarrow> usize \<Rightarrow> usize \<Rightarrow> ('i, 'p, 'w, usize) handle_prog" where
  "write_loop E p ubuf len tot =
     (if tot < len then
        let chunk = min (len - tot) FS_SYNC_RW_CHUNK in
        andThen (lift_res (ok_or (checked_add ubuf tot) InvalidAddress)) (\<lambda>src.
        andThen (on_mgr (copy_from_user E p src chunk)) (\<lambda>data.
        andThen get_handle (\<lambda>n.
        andThen (on_mgr (ext (fs_write (fss E) (nf_fs_client n) (nf_offset n) data))) (\<lambda>written.
        andThen (set_offset (\<lambda>off. sat_add off written)) (\<lambda>_.
        if written < chunk then ret (tot + written) else write_loop E p ubuf len (tot + written))))))
      else ret tot)"
  by pat_completeness auto
termination by (relation "measure (\<lambda>(E, p, ubuf, len, tot). len - tot)") (auto simp: FS_SYNC_RW_CHUNK_def)

declare write_loop.simps [simp del]

definition do_write :: "('i, 'w) env \<Rightarrow> usize \<Rightarrow> usize \<Rightarrow> usize \<Rightarrow> usize \<Rightarrow> ('i, 'p, 'w, int) ape_prog" where
  "do_write E p fd ubuf len =
     (if len = 0 then ret 0
      else with_fd_handle_mut p fd (andThen (write_loop E p ubuf len 0) (\<lambda>tot. ret (i64_of_nat tot))))"

section \<open>Vectors\<close>

fun rw_vector_loop ::
  "('i, 'w) env \<Rightarrow> usize \<Rightarrow> usize \<Rightarrow> (usize \<Rightarrow> usize \<Rightarrow> ('i, 'p, 'w, int) ape_prog) \<Rightarrow> nat list \<Rightarrow> usize \<Rightarrow>
     ('i, 'p, 'w, int) ape_prog" where
  "rw_vector_loop E p iov_ptr rw [] tot = ret (i64_of_nat tot)"
| "rw_vector_loop E p iov_ptr rw (i # is) tot =
     andThen (lift_res (ok_or (if i * 16 > usize_max then None else checked_add iov_ptr (i * 16)) InvalidAddress))
       (\<lambda>iov_addr.
     andThen (copy_from_user E p iov_addr 16) (\<lambda>raw.
     let iov_base = bytes_to_nat (take 8 raw); iov_len = bytes_to_nat (take 8 (drop 8 raw)) in
     if iov_len = 0 then rw_vector_loop E p iov_ptr rw is tot
     else
       andThen (rw iov_base iov_len) (\<lambda>n.
       if n < 0 then ret n
       else
         let tot' = sat_add tot (nat n) in
         if nat n < iov_len then ret (i64_of_nat tot')
         else rw_vector_loop E p iov_ptr rw is tot')))"

definition sys_rw_vector ::
  "('i, 'w) env \<Rightarrow> usize \<Rightarrow> usize \<Rightarrow> usize \<Rightarrow> (usize \<Rightarrow> usize \<Rightarrow> ('i, 'p, 'w, int) ape_prog) \<Rightarrow>
     ('i, 'p, 'w, int) ape_prog" where
  "sys_rw_vector E p iov_ptr iov_cnt rw =
     (if iov_cnt = 0 then ret 0
      else if iov_cnt > 1024 then throw InvalidArgs
      else rw_vector_loop E p iov_ptr rw [0..<iov_cnt] 0)"

definition do_readv :: "('i, 'w) env \<Rightarrow> usize \<Rightarrow> usize \<Rightarrow> usize \<Rightarrow> usize \<Rightarrow> ('i, 'p, 'w, int) ape_prog" where
  "do_readv E p fd iov_ptr iov_cnt = sys_rw_vector E p iov_ptr iov_cnt (do_read E p fd)"

definition do_writev :: "('i, 'w) env \<Rightarrow> usize \<Rightarrow> usize \<Rightarrow> usize \<Rightarrow> usize \<Rightarrow> ('i, 'p, 'w, int) ape_prog" where
  "do_writev E p fd iov_ptr iov_cnt = sys_rw_vector E p iov_ptr iov_cnt (do_write E p fd)"

section \<open>Seek and device control\<close>

definition seek_base :: "('i, 'w) env \<Rightarrow> usize \<Rightarrow> normal_file_handle \<Rightarrow> ('i, 'p, 'w, int) handle_prog" where
  "seek_base E whence n =
     (let w = whence mod 2 ^ 32 in
      if w = SEEK_SET then ret 0
      else if w = SEEK_CUR then ret (i64_of_nat (nf_offset n))
      else if w = SEEK_END then
        andThen (on_mgr (ext (fs_fstat (fss E) (nf_fs_client n)))) (\<lambda>st. ret (i64_of_nat (st_size st)))
      else throw InvalidArgs)"

definition do_lseek :: "('i, 'w) env \<Rightarrow> usize \<Rightarrow> usize \<Rightarrow> int \<Rightarrow> usize \<Rightarrow> ('i, 'p, 'w, int) ape_prog" where
  "do_lseek E p fd offset whence =
     with_fd_handle_mut p fd (
       andThen get_handle (\<lambda>n.
       andThen (seek_base E whence n) (\<lambda>base.
       let new_off = base + offset in
       if new_off > i64_max \<or> new_off < - i64_max - 1 then throw InvalidArgs
       else if new_off < 0 then throw InvalidArgs
       else andThen (set_offset (\<lambda>_. nat new_off)) (\<lambda>_. ret new_off))))"

definition ioctl_dir :: "32 word \<Rightarrow> usize" where
  "ioctl_dir request = unat (drop_bit 30 request AND 3)"

definition ioctl_size :: "32 word \<Rightarrow> usize" where
  "ioctl_size request = unat (drop_bit 16 request AND 0x3fff)"

text \<open>The lengths of the argument to copy in and out; old requests encode no size.\<close>

definition ioctl_lens :: "32 word \<Rightarrow> usize \<times> usize" where
  "ioctl_lens request =
     (let dir = ioctl_dir request; sz = ioctl_size request; both = 3;
          in_len = (if sz > 0 \<and> (dir = IOCTL_DIR_WRITE \<or> dir = both) then sz else 0);
          out_len = (if sz > 0 \<and> (dir = IOCTL_DIR_READ \<or> dir = both) then sz else 0)
      in if in_len = 0 \<and> out_len = 0 then
           (if request = TIOCGWINSZ then (0, 8)
            else if request = TIOCSWINSZ then (8, 0)
            else if request = TIOCGPGRP then (0, 4)
            else if request = TIOCSPGRP then (4, 0)
            else if request = TCGETS then (0, TTY_TERMIOS_SIZE)
            else if request = TCSETS \<or> request = TCSETSW \<or> request = TCSETSF then (TTY_TERMIOS_SIZE, 0)
            else (0, 0))
         else (in_len, out_len))"

definition do_ioctl_fs_passthrough ::
  "('i, 'w) env \<Rightarrow> usize \<Rightarrow> capptr \<Rightarrow> 32 word \<Rightarrow> usize \<Rightarrow> ('i, 'p, 'w, int) ape_prog" where
  "do_ioctl_fs_passthrough E p client request argp =
     (if ioctl_size request > IOCTL_MAX_STRUCT_SIZE then throw InvalidArgs
      else
        let (in_len, out_len) = ioctl_lens request in
        andThen (if in_len > 0 then
                   if argp = 0 then throw InvalidAddress else copy_from_user E p argp in_len
                 else ret []) (\<lambda>input.
        andThen (ext (fs_ioctl_ex (fss E) client request argp (if input = [] then None else Some input) out_len))
          (\<lambda>(r, out).
        andThen (whenM (out \<noteq> []) (if argp = 0 then throw InvalidAddress else copy_to_user E p argp out)) (\<lambda>_.
        ret (i64_of_nat r)))))"

definition do_ioctl :: "('i, 'w) env \<Rightarrow> usize \<Rightarrow> usize \<Rightarrow> usize \<Rightarrow> usize \<Rightarrow> ('i, 'p, 'w, int) ape_prog" where
  "do_ioctl E p fd request argp =
     andThen (lift_res (ok_or (u32_try_from request) InvalidArgs)) (\<lambda>req.
     if req = 0 then ret 0
     else
       with_fd_handle_mut p fd (
         andThen get_handle (\<lambda>n.
         on_mgr (do_ioctl_fs_passthrough E p (nf_fs_client n) (word_of_nat req) argp))))"

section \<open>What the operations leave alone\<close>

text \<open>Two tables that differ at most in the offset of one descriptor.\<close>

definition moved :: "fd_handle \<Rightarrow> fd_handle \<Rightarrow> bool" where
  "moved h h' \<longleftrightarrow> (\<exists>n off. h = \<lparr>file_type = Normal n\<rparr> \<and> h' = \<lparr>file_type = Normal (n\<lparr>nf_offset := off\<rparr>)\<rparr>)"

definition offset_moved :: "nat \<Rightarrow> files_state \<Rightarrow> files_state \<Rightarrow> bool" where
  "offset_moved fd f f' \<longleftrightarrow>
     fd_paths f' = fd_paths f \<and> fd_cloexec f' = fd_cloexec f \<and> next_fd f' = next_fd f \<and>
     (\<forall>i. i \<noteq> fd \<longrightarrow> bt_get (fds f') i = bt_get (fds f) i) \<and>
     rel_option moved (bt_get (fds f) fd) (bt_get (fds f') fd)"

definition io_only :: "usize \<Rightarrow> nat \<Rightarrow> ('i, 'p, 'w) ape \<Rightarrow> ('i, 'p, 'w) ape \<Rightarrow> bool" where
  "io_only p fd s0 s \<longleftrightarrow>
     (\<forall>q. q \<noteq> p \<longrightarrow> get_process s q = get_process s0 q) \<and>
     rel_option (\<lambda>t t'. offset_moved fd (task_files t) (task_files t')) (get_process s0 p) (get_process s p)"

lemma own_offset [simp]: "\<exists>off. n = n\<lparr>nf_offset := off\<rparr>"
  by (rule exI[of _ "nf_offset n"]) simp

lemma moved_refl [simp]: "moved h h"
  by (cases h; cases "file_type h") (auto simp: moved_def)

lemma moved_trans: "moved a b \<Longrightarrow> moved b c \<Longrightarrow> moved a c"
  by (auto simp: moved_def)

lemma rel_moved_refl [simp]: "rel_option moved x x"
  by (cases x) auto

lemma rel_moved_trans: "rel_option moved x y \<Longrightarrow> rel_option moved y z \<Longrightarrow> rel_option moved x z"
  by (cases x; cases y; cases z) (auto intro: moved_trans)

lemma offset_moved_refl [simp]: "offset_moved fd f f"
  by (simp add: offset_moved_def)

lemma offset_moved_trans: "offset_moved fd f g \<Longrightarrow> offset_moved fd g h \<Longrightarrow> offset_moved fd f h"
  by (auto simp: offset_moved_def intro: rel_moved_trans)

lemma io_only_refl [simp]: "io_only p fd s s"
  by (cases "get_process s p") (auto simp: io_only_def)

lemma io_only_trans: "io_only p fd a b \<Longrightarrow> io_only p fd b c \<Longrightarrow> io_only p fd a c"
  by (cases "get_process a p"; cases "get_process b p"; cases "get_process c p")
    (auto simp: io_only_def intro: offset_moved_trans)

lemma task_files_upd_mem [simp]: "task_files (upd_mem g t) = task_files t"
  by (simp add: upd_mem_def)

lemma mem_only_io: "mem_only p s s' \<Longrightarrow> io_only p fd s s'"
  by (cases "get_process s p") (auto simp: mem_only_def io_only_def)

lemma keeps_mem_pred:
  assumes "\<And>s. keeps (mem_only p s) m" and "\<And>s s'. P s \<Longrightarrow> mem_only p s s' \<Longrightarrow> P s'"
  shows "keeps P m"
  using assms by (intro keepsI) (metis keeps_state mem_only_refl)

lemma keeps_io_mem: "(\<And>s. keeps (mem_only p s) m) \<Longrightarrow> keeps (io_only p fd s0) m"
  by (rule keeps_mem_pred) (blast intro: io_only_trans mem_only_io)+

text \<open>The body of an operation moves the offset of the handle and touches user memory.\<close>

abbreviation handle_ok :: "usize \<Rightarrow> normal_file_handle \<Rightarrow> ('i, 'p, 'w) ape \<Rightarrow> normal_file_handle \<times> ('i, 'p, 'w) ape \<Rightarrow> bool" where
  "handle_ok p n0 s1 x \<equiv> mem_only p s1 (snd x) \<and> (\<exists>off. fst x = n0\<lparr>nf_offset := off\<rparr>)"

lemma handle_on_mgr [keeps_intro]: "keeps (mem_only p s1) m \<Longrightarrow> keeps (handle_ok p n0 s1) (on_mgr m)"
  by (auto simp: keeps_def on_mgr_def split: prod.splits)

lemma handle_set_offset [keeps_intro]: "keeps (handle_ok p n0 s1) (set_offset f)"
  by (auto simp: keeps_def set_offset_def modify_def)

lemma keeps_get_handle [keeps_intro]: "keeps P get_handle"
  by (simp add: get_handle_def keeps_intro)

lemma with_fd_handle_io:
  assumes "\<And>n0 s1. keeps (handle_ok p n0 s1) f"
  shows "keeps (io_only p fd s0) (with_fd_handle_mut p fd f)"
proof (rule keepsI)
  fix s assume s: "io_only p fd s0 s"
  have "io_only p fd s (snd (with_fd_handle_mut p fd f s))"
  proof (cases "get_process s p")
    case None
    then show ?thesis
      by (cases "fd \<le> u32_max") (simp_all add: with_fd_handle_mut_def take_fd_def monad_simps task_or_def u32_try_from_def)
  next
    case (Some t)
    show ?thesis
    proof (cases "fd \<le> u32_max \<and> bt_contains (fds (task_files t)) fd")
      case False
      with Some show ?thesis
        by (cases "fd \<le> u32_max")
          (auto simp: with_fd_handle_mut_def take_fd_def monad_simps task_or_def bt_contains_def io_only_def
            offset_moved_def u32_try_from_def)
    next
      case True
      then obtain n where n: "bt_get (fds (task_files t)) fd = Some \<lparr>file_type = Normal n\<rparr>"
        by (auto simp: bt_contains_def) (metis fd_handle.surjective old.unit.exhaust file_type.exhaust)
      let ?s1 = "upd_task p (upd_files (\<lambda>f. f\<lparr>fds := bt_remove fd (fds f)\<rparr>)) s"
      obtain r n' s2 where run: "f (n, ?s1) = (r, (n', s2))" by (cases "f (n, ?s1)") auto
      have "handle_ok p n ?s1 (n, ?s1)" by simp
      from keepsD[OF assms this run] obtain off where
        m: "mem_only p ?s1 s2" and off: "n' = n\<lparr>nf_offset := off\<rparr>" by auto
      have "snd (with_fd_handle_mut p fd f s) = put_fd p fd \<lparr>file_type = Normal n'\<rparr> s2"
        using True Some n run by (simp add: with_fd_handle_mut_def take_fd_def monad_simps task_or_def u32_try_from_def)
      moreover from m Some obtain g where
        "get_process s2 p = Some (upd_mem g (upd_files (\<lambda>f. f\<lparr>fds := bt_remove fd (fds f)\<rparr>) t))"
        "\<And>q. q \<noteq> p \<Longrightarrow> get_process s2 q = get_process s q"
        by (auto simp: mem_only_def)
      ultimately show ?thesis
        using Some n off by (auto simp: io_only_def put_fd_def offset_moved_def moved_def)
    qed
  qed
  with s show "io_only p fd s0 (snd (with_fd_handle_mut p fd f s))" by (rule io_only_trans)
qed

lemma read_loop_handle [keeps_intro]: "keeps (handle_ok p n0 s1) (read_loop E p ubuf len tot)"
proof (induction E p ubuf len tot rule: read_loop.induct)
  case (1 E p ubuf len tot)
  then show ?case by (subst read_loop.simps) (auto intro!: keeps_intro keeps_ext simp: Let_def)
qed

lemma write_loop_handle [keeps_intro]: "keeps (handle_ok p n0 s1) (write_loop E p ubuf len tot)"
proof (induction E p ubuf len tot rule: write_loop.induct)
  case (1 E p ubuf len tot)
  then show ?case by (subst write_loop.simps) (auto intro!: keeps_intro keeps_ext simp: Let_def)
qed

lemma do_read_io [keeps_intro]: "keeps (io_only p fd s0) (do_read E p fd ubuf len)"
  and do_write_io [keeps_intro]: "keeps (io_only p fd s0) (do_write E p fd ubuf len)"
  unfolding do_read_def do_write_def by (auto intro!: keeps_intro with_fd_handle_io)

lemma do_lseek_io: "keeps (io_only p fd s0) (do_lseek E p fd off whence)"
  unfolding do_lseek_def seek_base_def
  by (auto intro!: with_fd_handle_io keeps_intro keeps_ext simp: Let_def)

lemma do_ioctl_io: "keeps (io_only p fd s0) (do_ioctl E p fd request argp)"
  unfolding do_ioctl_def do_ioctl_fs_passthrough_def
  by (auto intro!: with_fd_handle_io keeps_intro keeps_ext simp: Let_def)

lemma rw_vector_io:
  assumes "\<And>b n. keeps (io_only p fd s0) (rw b n)"
  shows "keeps (io_only p fd s0) (sys_rw_vector E p iov_ptr iov_cnt rw)"
proof -
  have "keeps (io_only p fd s0) (rw_vector_loop E p iov_ptr rw is tot)" for "is" tot
  proof (induction "is" arbitrary: tot)
    case (Cons i "is")
    then show ?case
      using assms by (auto intro!: keeps_intro intro: keeps_io_mem simp: Let_def)
  qed (simp add: keeps_intro)
  then show ?thesis by (auto simp: sys_rw_vector_def intro!: keeps_intro)
qed

text \<open>
  C33: reading, writing, their vectored forms, seeking and device control leave every other
  process, every other descriptor and the rest of the descriptor table as they were, and
  change at most the offset of the handle, whatever the file service answers, whatever
  addresses the process passes and whether the call succeeds or fails half-way.
\<close>

theorem io_moves_offset_only:
  fixes s :: "('i, 'p, 'w) ape"
  shows "io_only p fd s (snd (do_read E p fd a n s)) \<and> io_only p fd s (snd (do_write E p fd a n s)) \<and>
    io_only p fd s (snd (do_readv E p fd a n s)) \<and> io_only p fd s (snd (do_writev E p fd a n s)) \<and>
    io_only p fd s (snd (do_lseek E p fd off n s)) \<and> io_only p fd s (snd (do_ioctl E p fd a n s))"
proof -
  have k: "io_only p fd s (snd (m s))" if "keeps (io_only p fd s) m" for m :: "('i, 'p, 'w, int) ape_prog"
    using keeps_state[OF that io_only_refl] .
  show ?thesis
    unfolding do_readv_def do_writev_def
    by (intro conjI k rw_vector_io do_read_io do_write_io do_lseek_io do_ioctl_io)
qed

section \<open>A read delivers the file\<close>

text \<open>Consecutive pieces of user memory and the copies that fill them.\<close>

fun consecutive :: "usize \<Rightarrow> (usize \<times> byte list) list \<Rightarrow> bool" where
  "consecutive a [] = True"
| "consecutive a ((b, bs) # r) \<longleftrightarrow> b = a \<and> consecutive (a + length bs) r"

definition copy_pieces :: "('i, 'w) env \<Rightarrow> usize \<Rightarrow> (usize \<times> byte list) list \<Rightarrow> ('i, 'p, 'w, unit) ape_prog" where
  "copy_pieces E p ps = forM ps (\<lambda>(a, bs). copy_to_user E p a bs)"

text \<open>An endpoint behind which the file service keeps a file with this content.\<close>

definition serves_file :: "('i, 'w) env \<Rightarrow> capptr \<Rightarrow> byte list \<Rightarrow> bool" where
  "serves_file E c content \<longleftrightarrow> (\<forall>off n w. fs_read (fss E) c off n w = (Ok (take n (drop off content)), w))"

lemma handle_steps:
  "andThen get_handle f (n, s) = f n (n, s)"
  "andThen (set_offset g) f' (n, s) = f' () (n\<lparr>nf_offset := g (nf_offset n)\<rparr>, s)"
  by (simp_all add: get_handle_def set_offset_def monad_simps)

lemma handle_ext_Ok:
  "m (world s) = (Ok x, w) \<Longrightarrow> andThen (on_mgr (ext m)) f (n, s) = f x (n, s\<lparr>world := w\<rparr>)"
  by (simp add: monad_simps)

lemma take_short: "length (take a xs) < a \<Longrightarrow> a \<le> b \<Longrightarrow> take a xs = take b xs"
  by simp

lemma take_full: "\<not> length (take a xs) < a \<Longrightarrow> length (take a xs) = a"
  by simp

lemma read_loop_step:
  assumes "read_loop E p ubuf len tot (n, s) = (Ok v, z)" and "tot < len" and "data \<noteq> []"
    and "chunk = min (len - tot) FS_SYNC_RW_CHUNK" and "length data \<le> chunk"
    and "fs_read (fss E) (nf_fs_client n) (nf_offset n) chunk (world s) = (Ok data, world s)"
    and "nf_offset n + length data \<le> usize_max"
  shows "\<exists>s1. copy_to_user E p (ubuf + tot) data s = (Ok (), s1) \<and>
    (if length data < chunk then ret (tot + length data) else read_loop E p ubuf len (tot + length data))
      (n\<lparr>nf_offset := nf_offset n + length data\<rparr>, s1) = (Ok v, z)"
proof -
  have fits: "\<not> length data > FS_SYNC_RW_CHUNK" using assms(4,5) by simp
  have "andThen (lift_res (ok_or (checked_add ubuf tot) InvalidAddress)) (\<lambda>dst.
      andThen (on_mgr (copy_to_user E p dst data)) (\<lambda>_.
      andThen (set_offset (\<lambda>off. sat_add off (length data))) (\<lambda>_.
      if length data < chunk then ret (tot + length data) else read_loop E p ubuf len (tot + length data))))
    (n, s) = (Ok v, z)"
    using assms(1)
    by (subst (asm) read_loop.simps)
      (simp add: Let_def handle_steps fits lift_res_def assms(2,3) assms(4)[symmetric]
        cong del: if_weak_cong split del: if_split add: handle_ext_Ok[where m = "fs_read (fss E) (nf_fs_client n) (nf_offset n) chunk", OF assms(6)])
  then have "\<exists>s1. copy_to_user E p (ubuf + tot) data s = (Ok (), s1) \<and>
    andThen (set_offset (\<lambda>off. sat_add off (length data))) (\<lambda>_.
      if length data < chunk then ret (tot + length data) else read_loop E p ubuf len (tot + length data))
    (n, s1) = (Ok v, z)"
    by (subst (asm) andThen_Ok, subst (asm) andThen_Ok) (auto simp: ok_iff simp del: andThen_Ok)
  with assms(7) show ?thesis by (simp add: handle_steps)
qed

text \<open>One full transfer in front of the transfers of the rest.\<close>

definition delivered ::
  "('i, 'w) env \<Rightarrow> usize \<Rightarrow> usize \<Rightarrow> byte list \<Rightarrow> nat \<Rightarrow> nat \<Rightarrow> normal_file_handle \<Rightarrow> ('i, 'p, 'w) ape \<Rightarrow> nat \<Rightarrow>
   normal_file_handle \<Rightarrow>
   ('i, 'p, 'w) ape \<Rightarrow> bool" where
  "delivered E p ubuf content len tot n s v n' s' \<longleftrightarrow>
     (\<exists>ps. consecutive (ubuf + tot) ps \<and>
       concat (map snd ps) = take (len - tot) (drop (nf_offset n) content) \<and>
       v = tot + length (concat (map snd ps)) \<and> copy_pieces E p ps s = (Ok (), s') \<and>
       n' = n\<lparr>nf_offset := nf_offset n + length (concat (map snd ps))\<rparr>)"

lemma delivered_Cons:
  assumes rest: "delivered E p ubuf content len (tot + chunk) (n\<lparr>nf_offset := nf_offset n + chunk\<rparr>) s1 v n' s'"
    and le: "chunk \<le> len - tot" and copy: "copy_to_user E p (ubuf + tot) data s = (Ok (), s1)"
    and data: "data = take chunk (drop (nf_offset n) content)" "length data = chunk"
  shows "delivered E p ubuf content len tot n s v n' s'"
proof -
  from rest obtain ps where
    ps: "consecutive (ubuf + (tot + chunk)) ps"
    "concat (map snd ps) = take (len - (tot + chunk)) (drop (nf_offset n + chunk) content)"
    "v = tot + chunk + length (concat (map snd ps))" "copy_pieces E p ps s1 = (Ok (), s')"
    "n' = n\<lparr>nf_offset := nf_offset n + chunk + length (concat (map snd ps))\<rparr>" by (auto simp: delivered_def)
  have "take (chunk + (len - (tot + chunk))) (drop (nf_offset n) content) = data @ concat (map snd ps)"
    by (simp only: take_add ps(2) drop_drop add.commute[of "nf_offset n"] data(1))
  moreover have "chunk + (len - (tot + chunk)) = len - tot" using le by simp
  ultimately have "take (len - tot) (drop (nf_offset n) content) = data @ concat (map snd ps)" by simp
  with ps(1,3-5) data(2) copy show ?thesis
    unfolding delivered_def by (intro exI[of _ "(ubuf + tot, data) # ps"]) (simp add: copy_pieces_def monad_simps add.assoc)
qed

lemma read_loop_delivers:
  assumes "read_loop E p ubuf len tot (n, s) = (Ok v, (n', s'))"
    and "serves_file E (nf_fs_client n) content" and "nf_offset n + (len - tot) \<le> usize_max" and "tot \<le> len"
  shows "delivered E p ubuf content len tot n s v n' s'"
  using assms
proof (induction "len - tot" arbitrary: tot n s rule: less_induct)
  case less
  define chunk data where "chunk = min (len - tot) FS_SYNC_RW_CHUNK"
    and "data = take chunk (drop (nf_offset n) content)"
  note run = less(2)[unfolded read_loop.simps[of E p ubuf len tot]]
  have fs: "fs_read (fss E) (nf_fs_client n) off m w = (Ok (take m (drop off content)), w)" for off m w
    using less(3) by (simp add: serves_file_def)
  have le: "chunk \<le> len - tot" by (simp add: chunk_def)
  show ?case
  proof (cases "tot < len \<and> data \<noteq> []")
    case False
    then have "v = tot \<and> n' = n \<and> s' = s \<and> take (len - tot) (drop (nf_offset n) content) = []"
      using run by (auto simp: monad_simps Let_def fs FS_SYNC_RW_CHUNK_def chunk_def data_def split: if_splits)
    then show ?thesis unfolding delivered_def by (intro exI[of _ "[]"]) (simp add: copy_pieces_def monad_simps)
  next
    case True
    have dl: "length data \<le> chunk" by (simp add: data_def)
    with less(4) le have "nf_offset n + length data \<le> usize_max" by linarith
    with read_loop_step[OF less(2) _ _ chunk_def dl fs[of "nf_offset n" chunk, folded data_def]] True
    obtain s1 where copy: "copy_to_user E p (ubuf + tot) data s = (Ok (), s1)" and
      rest: "(if length data < chunk then ret (tot + length data) else read_loop E p ubuf len (tot + length data))
        (n\<lparr>nf_offset := nf_offset n + length data\<rparr>, s1) = (Ok v, (n', s'))" by blast
    show ?thesis
    proof (cases "length data < chunk")
      case short: True
      then have "data = take (len - tot) (drop (nf_offset n) content)"
        unfolding data_def by (rule take_short) (rule le)
      with rest short copy show ?thesis
        unfolding delivered_def by (intro exI[of _ "[(ubuf + tot, data)]"]) (simp add: copy_pieces_def monad_simps)
    next
      case full: False
      with dl have len: "length data = chunk" by simp
      from True len have pos: "0 < chunk" by auto
      have "read_loop E p ubuf len (tot + chunk) (n\<lparr>nf_offset := nf_offset n + chunk\<rparr>, s1) = (Ok v, (n', s'))"
        using rest full len by simp
      moreover have "len - (tot + chunk) < len - tot" "tot + chunk \<le> len" using True pos le by auto
      moreover have "serves_file E (nf_fs_client (n\<lparr>nf_offset := nf_offset n + chunk\<rparr>)) content"
        "nf_offset (n\<lparr>nf_offset := nf_offset n + chunk\<rparr>) + (len - (tot + chunk)) \<le> usize_max"
        using less(3,4) le by simp_all
      ultimately have "delivered E p ubuf content len (tot + chunk) (n\<lparr>nf_offset := nf_offset n + chunk\<rparr>) s1 v n' s'"
        using less(1) by fastforce
      then show ?thesis by (rule delivered_Cons[OF _ le copy data_def len])
    qed
  qed
qed

text \<open>
  C14: when the file service keeps a file behind the endpoint of a descriptor, a read that
  succeeds returns how many bytes of the file lie between the offset and the requested
  length, has copied exactly these bytes, in order and to consecutive addresses from the
  buffer on, and leaves the offset behind the last of them: cutting the transfer into
  pieces of a page is not observable.
\<close>

theorem read_delivers_file:
  assumes "do_read E p fd ubuf len s = (Ok r, s')" and "get_process s p = Some t"
    and "bt_get (fds (task_files t)) fd = Some \<lparr>file_type = Normal n\<rparr>"
    and "serves_file E (nf_fs_client n) content" and "nf_offset n + len \<le> usize_max" and "0 < len" and "len < 2 ^ 63"
  shows "\<exists>ps s1 s2. take_fd p fd s = (Ok \<lparr>file_type = Normal n\<rparr>, s1) \<and>
    consecutive ubuf ps \<and> concat (map snd ps) = take len (drop (nf_offset n) content) \<and>
    copy_pieces E p ps s1 = (Ok (), s2) \<and> r = int (min len (length content - nf_offset n)) \<and>
    s' = put_fd p fd \<lparr>file_type = Normal (n\<lparr>nf_offset := nf_offset n + nat r\<rparr>)\<rparr> s2"
proof -
  from assms(1,6) have "fd \<le> u32_max"
    by (auto simp: do_read_def with_fd_handle_mut_def ok_iff)
  moreover obtain s1 where take: "take_fd p fd s = (Ok \<lparr>file_type = Normal n\<rparr>, s1)"
    using assms(2,3) by (auto simp: take_fd_def monad_simps task_or_def)
  moreover obtain x n' s2 where loop: "read_loop E p ubuf len 0 (n, s1) = (x, (n', s2))"
    by (cases "read_loop E p ubuf len 0 (n, s1)") auto
  ultimately obtain v where v: "x = Ok v" "r = i64_of_nat v" "s' = put_fd p fd \<lparr>file_type = Normal n'\<rparr> s2"
    using assms(1,6)
    by (cases x) (auto simp: do_read_def with_fd_handle_mut_def monad_simps u32_try_from_def)
  from read_loop_delivers[OF loop[unfolded v(1)] assms(4)] assms(5) obtain ps where
    ps: "consecutive ubuf ps" "concat (map snd ps) = take len (drop (nf_offset n) content)"
    "v = length (concat (map snd ps))" "copy_pieces E p ps s1 = (Ok (), s2)"
    "n' = n\<lparr>nf_offset := nf_offset n + v\<rparr>" by (auto simp: delivered_def)
  then have "v = min len (length content - nf_offset n)" by (simp add: min.commute)
  with v(2) assms(7) have "r = int v" by (simp add: i64_of_nat_small)
  with ps v(3) take show ?thesis by (auto simp: min.commute)
qed

theorem read_delivers_file_witness:
  "\<exists>r s'. do_read example_env 1 0 0x20010ff8 8
       (example_ape [upd_files (\<lambda>_. task_files example_fd_task) example_mem_task]) = (Ok r, s') \<and> r = 3"
proof -
  let ?t = "upd_files (\<lambda>_. task_files example_fd_task) example_mem_task"
  let ?n = "\<lparr>nf_backend = BackendFs, nf_fs_client = 7, nf_fs_ep_slot = 7, nf_offset = 0, nf_async_io = None\<rparr>"
  have pid: "task_pid ?t = 1"
    by (simp add: example_mem_task_def example_task_def task_struct_new_def upd_mem_def upd_files_def)
  have loop: "\<exists>z. read_loop example_env p 0x20010ff8 8 0 (?n, s) = (Ok 3, z)"
    if "get_process s p = Some (upd_files f ?t)" for p f s
  proof -
    have "get_process s p = Some (upd_files (\<lambda>x. f (task_files example_fd_task)) example_mem_task)"
      using that by (simp add: upd_files_def)
    from example_copy_files[OF this, of "[1, 2, 3]"] show ?thesis
      by (subst read_loop.simps)
        (simp add: FS_SYNC_RW_CHUNK_def Let_def handle_steps monad_simps usize_max_def checked_add_def)
  qed
  obtain r s' where run: "do_read example_env 1 0 0x20010ff8 8 (example_ape [?t]) = (Ok r, s')"
  proof -
    let ?s1 = "upd_task 1 (upd_files (\<lambda>f. f\<lparr>fds := bt_remove 0 (fds f)\<rparr>)) (example_ape [?t])"
    obtain z where z: "read_loop example_env 1 0x20010ff8 8 0 (?n, ?s1) = (Ok 3, z)"
      using loop[of ?s1 1 "\<lambda>f. f\<lparr>fds := bt_remove 0 (fds f)\<rparr>"] pid by auto
    have "take_fd 1 0 (example_ape [?t]) = (Ok \<lparr>file_type = Normal ?n\<rparr>, ?s1)"
      using pid by (simp add: take_fd_def monad_simps task_or_def bt_get_def new_handle_def)
    with z have "\<exists>r s'. do_read example_env 1 0 0x20010ff8 8 (example_ape [?t]) = (Ok r, s')"
      by (simp add: do_read_def with_fd_handle_mut_def andThen_def lift_res_def ret_def u32_try_from_def
          split: prod.split)
    then show thesis using that by blast
  qed
  have "get_process (example_ape [?t]) 1 = Some ?t" using pid by simp
  moreover have "serves_file example_env 7 [1, 2, 3]" by (simp add: serves_file_def)
  ultimately have "r = 3"
    using read_delivers_file[OF run, of ?t ?n "[1, 2, 3]"]
    by (auto simp: bt_get_def new_handle_def usize_max_def)
  with run show ?thesis by blast
qed

end
