(* ===== verification/Meta.thy ===== *)
theory Meta
  imports File_Io
begin

text \<open>
  File metadata and names (\<open>src/src/fs/meta.rs\<close>, \<open>src/src/system/fsctx.rs\<close>):
  the calls that take a directory descriptor and a path, mounting, and the working and
  root directories of a process. Paths are resolved by the path library of the system.
\<close>

section \<open>Paths\<close>

definition FSTATAT_ALLOWED_FLAGS :: "32 word" where
  "FSTATAT_ALLOWED_FLAGS = AT_SYMLINK_NOFOLLOW OR AT_EMPTY_PATH OR AT_NO_AUTOMOUNT"

definition LINKAT_ALLOWED_FLAGS :: "32 word" where
  "LINKAT_ALLOWED_FLAGS = AT_SYMLINK_FOLLOW OR AT_EMPTY_PATH"

definition UMOUNT2_ALLOWED_FLAGS :: "32 word" where
  "UMOUNT2_ALLOWED_FLAGS = MNT_FORCE OR MNT_DETACH OR MNT_EXPIRE OR UMOUNT_NOFOLLOW"

definition at_fdcwd :: "usize \<Rightarrow> bool" where
  "at_fdcwd dirfd \<longleftrightarrow> i64_of_nat dirfd = AT_FDCWD"

definition is_dir_mode :: "32 word \<Rightarrow> bool" where
  "is_dir_mode mode \<longleftrightarrow> mode AND S_IFMT = S_IFDIR"

text \<open>\<open>u32::try_from(flags)\<close> and the check for flags outside a set.\<close>

definition checked_flags :: "32 word \<Rightarrow> usize \<Rightarrow> ('s, 32 word) prog" where
  "checked_flags allowed flags =
     andThen (lift_res (ok_or (u32_try_from flags) InvalidArgs)) (\<lambda>f.
     if word_of_nat f AND NOT allowed \<noteq> 0 then throw InvalidArgs else ret (word_of_nat f))"

text \<open>The clone of an open handle.\<close>

definition open_handle :: "usize \<Rightarrow> nat \<Rightarrow> ('i, 'p, 'w, normal_file_handle) ape_prog" where
  "open_handle p fd =
     andThen (task_or NotFound p) (\<lambda>t.
     andThen (lift_res (ok_or (bt_get (fds (task_files t)) fd) InvalidSlot)) (\<lambda>h.
     case file_type h of Normal n \<Rightarrow> ret n))"

definition stat_handle :: "('i, 'w) env \<Rightarrow> normal_file_handle \<Rightarrow> ('i, 'p, 'w, fs_stat) ape_prog" where
  "stat_handle E n = ext (fs_fstat (fss E) (nf_fs_client n))"

definition resolve_path_at :: "('i, 'w) env \<Rightarrow> usize \<Rightarrow> usize \<Rightarrow> string \<Rightarrow> ('i, 'p, 'w, string) ape_prog" where
  "resolve_path_at E p dirfd raw =
     (if take 1 raw = ''/'' \<or> at_fdcwd dirfd then resolve_path_for_process E p raw
      else
        andThen (lift_res (ok_or (u32_try_from dirfd) InvalidSlot)) (\<lambda>fd.
        andThen (open_handle p fd) (\<lambda>n.
        andThen (stat_handle E n) (\<lambda>st.
        if \<not> is_dir_mode (st_mode st) then throw InvalidArgs
        else
          andThen (task_or NotFound p) (\<lambda>t.
          andThen (lift_res (ok_or (bt_get (fd_paths (task_files t)) fd) InvalidArgs)) (\<lambda>dir.
          ret (resolve_path (lib E) raw (root_dir (task_fs t)) dir)))))))"

text \<open>A path argument that may not be empty.\<close>

definition user_path :: "('i, 'w) env \<Rightarrow> usize \<Rightarrow> usize \<Rightarrow> ('i, 'p, 'w, string) ape_prog" where
  "user_path E p ptr =
     andThen (strncpy_from_user E p ptr USER_PATH_MAX) (\<lambda>raw.
     if raw = [] then throw NotFound else ret raw)"

definition read_path_arg :: "('i, 'w) env \<Rightarrow> usize \<Rightarrow> usize \<Rightarrow> ('i, 'p, 'w, string) ape_prog" where
  "read_path_arg E p ptr =
     (if ptr = 0 then throw InvalidAddress
      else andThen (user_path E p ptr) (resolve_path_for_process E p))"

definition close_slot :: "('i, 'w) env \<Rightarrow> capptr \<Rightarrow> ('i, 'p, 'w, unit) ape_prog" where
  "close_slot E slot =
     whenM (slot \<noteq> 0) (
       andThen (ignore (ext (cap_delete (caps E) slot))) (\<lambda>_.
       ext_do (cspace_free (caps E) slot)))"

section \<open>Metadata\<close>

definition write_stat :: "('i, 'w) env \<Rightarrow> usize \<Rightarrow> usize \<Rightarrow> fs_stat \<Rightarrow> ('i, 'p, 'w, int) ape_prog" where
  "write_stat E p statbuf st =
     andThen (write_obj_to_user E p statbuf (stat_bytes (lib E) (fs_stat_to_linux_stat st))) (\<lambda>_. ret 0)"

definition do_fstat :: "('i, 'w) env \<Rightarrow> usize \<Rightarrow> usize \<Rightarrow> usize \<Rightarrow> ('i, 'p, 'w, int) ape_prog" where
  "do_fstat E p fd0 statbuf =
     (if statbuf = 0 then throw InvalidAddress
      else
        andThen (lift_res (ok_or (u32_try_from fd0) InvalidSlot)) (\<lambda>fd.
        andThen (open_handle p fd) (\<lambda>n.
        andThen (stat_handle E n) (\<lambda>st.
        write_stat E p statbuf st))))"

definition do_mkdirat :: "('i, 'w) env \<Rightarrow> usize \<Rightarrow> usize \<Rightarrow> usize \<Rightarrow> usize \<Rightarrow> ('i, 'p, 'w, int) ape_prog" where
  "do_mkdirat E p dirfd pathname mode =
     (if pathname = 0 then throw InvalidAddress
      else
        andThen (user_path E p pathname) (\<lambda>raw.
        andThen (resolve_path_at E p dirfd raw) (\<lambda>path.
        andThen (ext (path_mkdir (paths E) path (mode mod 2 ^ 32))) (\<lambda>_.
        ret 0))))"

definition do_unlinkat :: "('i, 'w) env \<Rightarrow> usize \<Rightarrow> usize \<Rightarrow> usize \<Rightarrow> usize \<Rightarrow> ('i, 'p, 'w, int) ape_prog" where
  "do_unlinkat E p dirfd pathname flags0 =
     (if pathname = 0 then throw InvalidAddress
      else
        andThen (checked_flags AT_REMOVEDIR flags0) (\<lambda>flags.
        andThen (user_path E p pathname) (\<lambda>raw.
        andThen (resolve_path_at E p dirfd raw) (\<lambda>path.
        andThen (ext (path_stat (paths E) path)) (\<lambda>st.
        if (flags AND AT_REMOVEDIR \<noteq> 0) \<noteq> is_dir_mode (st_mode st) then throw InvalidArgs
        else
          andThen (ext (path_unlink (paths E) path)) (\<lambda>_. ret 0))))))"

definition do_linkat ::
  "('i, 'w) env \<Rightarrow> usize \<Rightarrow> usize \<Rightarrow> usize \<Rightarrow> usize \<Rightarrow> usize \<Rightarrow> usize \<Rightarrow> ('i, 'p, 'w, int) ape_prog" where
  "do_linkat E p olddirfd oldpath newdirfd newpath flags0 =
     (if oldpath = 0 \<or> newpath = 0 then throw InvalidAddress
      else
        andThen (checked_flags LINKAT_ALLOWED_FLAGS flags0) (\<lambda>flags.
        andThen (strncpy_from_user E p oldpath USER_PATH_MAX) (\<lambda>old_raw.
        andThen (strncpy_from_user E p newpath USER_PATH_MAX) (\<lambda>new_raw.
        if old_raw = [] \<or> new_raw = [] then throw NotFound
        else if flags AND AT_EMPTY_PATH \<noteq> 0 then throw NotSupported
        else
          andThen (resolve_path_at E p olddirfd old_raw) (\<lambda>old_path.
          andThen (resolve_path_at E p newdirfd new_raw) (\<lambda>new_path.
          if old_path = new_path then throw AlreadyExists
          else
            andThen (ext (path_stat (paths E) old_path)) (\<lambda>st.
            if is_dir_mode (st_mode st) then throw InvalidArgs
            else
              andThen (ext (path_link (paths E) old_path new_path)) (\<lambda>_. ret 0))))))))"

definition do_utimensat :: "('i, 'w) env \<Rightarrow> usize \<Rightarrow> usize \<Rightarrow> usize \<Rightarrow> usize \<Rightarrow> usize \<Rightarrow> ('i, 'p, 'w, int) ape_prog" where
  "do_utimensat E p dirfd pathname utimes flags0 =
     andThen (checked_flags AT_SYMLINK_NOFOLLOW flags0) (\<lambda>flags.
     if pathname = 0 then
       andThen (lift_res (ok_or (u32_try_from dirfd) InvalidSlot)) (\<lambda>fd.
       andThen (open_handle p fd) (\<lambda>_. ret 0))
     else
       andThen (user_path E p pathname) (\<lambda>raw.
       andThen (resolve_path_at E p dirfd raw) (\<lambda>path.
       andThen (ext (path_stat (paths E) path)) (\<lambda>_. ret 0))))"

section \<open>Mounts\<close>

definition do_mount ::
  "('i, 'w) env \<Rightarrow> usize \<Rightarrow> usize \<Rightarrow> usize \<Rightarrow> usize \<Rightarrow> usize \<Rightarrow> usize \<Rightarrow> ('i, 'p, 'w, int) ape_prog" where
  "do_mount E p source target fstype flags data =
     andThen (strncpy_from_user E p source USER_PATH_MAX) (\<lambda>src.
     if src = [] then throw InvalidArgs
     else
       andThen (read_path_arg E p target) (\<lambda>path.
       andThen (ext (cspace_alloc (caps E))) (\<lambda>slot.
       andThen (attempt (ext (vol_mount_partition (paths E) src slot))) (\<lambda>r.
       case r of
         Inl e \<Rightarrow> andThen (close_slot E slot) (\<lambda>_. throw e)
       | Inr ep \<Rightarrow>
           andThen (attempt (ext (path_mount (paths E) path ep))) (\<lambda>x.
           andThen (close_slot E slot) (\<lambda>_.
           case x of Inl e \<Rightarrow> throw e | Inr _ \<Rightarrow> ret 0))))))"

definition do_umount2 :: "('i, 'w) env \<Rightarrow> usize \<Rightarrow> usize \<Rightarrow> usize \<Rightarrow> ('i, 'p, 'w, int) ape_prog" where
  "do_umount2 E p target flags0 =
     andThen (checked_flags UMOUNT2_ALLOWED_FLAGS flags0) (\<lambda>_.
     andThen (read_path_arg E p target) (\<lambda>path.
     andThen (ext (path_unmount (paths E) path)) (\<lambda>_.
     ret 0)))"

section \<open>Links and status by name\<close>

definition string_bytes :: "string \<Rightarrow> byte list" where
  "string_bytes s = map (\<lambda>c. of_char c) s"

definition do_readlinkat ::
  "('i, 'w) env \<Rightarrow> usize \<Rightarrow> usize \<Rightarrow> usize \<Rightarrow> usize \<Rightarrow> usize \<Rightarrow> ('i, 'p, 'w, int) ape_prog" where
  "do_readlinkat E p dirfd pathname ubuf bufsiz =
     (if pathname = 0 \<or> ubuf = 0 then throw InvalidAddress
      else if bufsiz = 0 then ret 0
      else
        andThen (user_path E p pathname) (\<lambda>raw.
        andThen (resolve_path_at E p dirfd raw) (\<lambda>path.
        andThen (ext (path_readlink (paths E) path)) (\<lambda>target.
        let bytes = string_bytes target; n = min bufsiz (length bytes) in
        andThen (copy_to_user E p ubuf (take n bytes)) (\<lambda>_.
        ret (i64_of_nat n))))))"

definition do_newfstatat ::
  "('i, 'w) env \<Rightarrow> usize \<Rightarrow> usize \<Rightarrow> usize \<Rightarrow> usize \<Rightarrow> usize \<Rightarrow> ('i, 'p, 'w, int) ape_prog" where
  "do_newfstatat E p dirfd pathname statbuf flags0 =
     (if statbuf = 0 then throw InvalidAddress
      else
        andThen (checked_flags FSTATAT_ALLOWED_FLAGS flags0) (\<lambda>flags.
        andThen (strncpy_from_user E p pathname USER_PATH_MAX) (\<lambda>raw.
        if raw = [] then
          if flags AND AT_EMPTY_PATH = 0 then throw NotFound
          else
            andThen (if at_fdcwd dirfd then
                       andThen (task_or NotFound p) (\<lambda>t. ext (path_stat (paths E) (cwd (task_fs t))))
                     else
                       andThen (lift_res (ok_or (u32_try_from dirfd) InvalidSlot)) (\<lambda>fd.
                       andThen (open_handle p fd) (stat_handle E))) (\<lambda>st.
            write_stat E p statbuf st)
        else
          andThen (resolve_path_at E p dirfd raw) (\<lambda>path.
          andThen (ext (if flags AND AT_SYMLINK_NOFOLLOW \<noteq> 0 then path_lstat (paths E) path
                        else path_stat (paths E) path)) (\<lambda>st.
          write_stat E p statbuf st)))))"

section \<open>Working directory and root\<close>

text \<open>The test on the protocol's own mode bits (\<open>src/src/system/fsctx.rs\<close>).\<close>

definition is_dir_mode_proto :: "lib_env \<Rightarrow> 32 word \<Rightarrow> bool" where
  "is_dir_mode_proto L mode \<longleftrightarrow> mode AND s_ifmt (proto L) = s_ifdir (proto L)"

definition do_getcwd :: "('i, 'w) env \<Rightarrow> usize \<Rightarrow> usize \<Rightarrow> usize \<Rightarrow> ('i, 'p, 'w, int) ape_prog" where
  "do_getcwd E p ubuf sz =
     (if ubuf = 0 then throw InvalidAddress
      else if sz = 0 then throw InvalidArgs
      else
        andThen (task_or NotFound p) (\<lambda>t.
        let guest = (case path_inside_root (lib E) (cwd (task_fs t)) (root_dir (task_fs t)) of
                       Some q \<Rightarrow> q | None \<Rightarrow> ''/'');
            bytes = string_bytes guest in
        andThen (lift_res (ok_or (checked_add (length bytes) 1) OutOfMemory)) (\<lambda>need.
        if need > sz then throw MessageTooLong
        else
          andThen (copy_to_user E p ubuf bytes) (\<lambda>_.
          andThen (lift_res (ok_or (checked_add ubuf (length bytes)) OutOfMemory)) (\<lambda>nul.
          andThen (copy_to_user E p nul [0]) (\<lambda>_.
          ret (i64_of_nat need)))))))"

definition directory_arg :: "('i, 'w) env \<Rightarrow> usize \<Rightarrow> usize \<Rightarrow> ('i, 'p, 'w, string) ape_prog" where
  "directory_arg E p path_ptr =
     (if path_ptr = 0 then throw InvalidAddress
      else
        andThen (user_path E p path_ptr) (\<lambda>raw.
        andThen (resolve_path_for_process E p raw) (\<lambda>path.
        andThen (ext (path_stat (paths E) path)) (\<lambda>st.
        if \<not> is_dir_mode_proto (lib E) (st_mode st) then throw InvalidArgs else ret path))))"

definition set_fs :: "usize \<Rightarrow> (fs_state \<Rightarrow> fs_state) \<Rightarrow> ('i, 'p, 'w, int) ape_prog" where
  "set_fs p f =
     andThen (task_or NotFound p) (\<lambda>_.
     andThen (modify (upd_task p (\<lambda>t. t\<lparr>task_fs := f (task_fs t)\<rparr>))) (\<lambda>_. ret 0))"

definition do_chdir :: "('i, 'w) env \<Rightarrow> usize \<Rightarrow> usize \<Rightarrow> ('i, 'p, 'w, int) ape_prog" where
  "do_chdir E p path_ptr = andThen (directory_arg E p path_ptr) (\<lambda>path. set_fs p (\<lambda>f. f\<lparr>cwd := path\<rparr>))"

definition do_fchdir :: "('i, 'w) env \<Rightarrow> usize \<Rightarrow> usize \<Rightarrow> ('i, 'p, 'w, int) ape_prog" where
  "do_fchdir E p fd0 =
     andThen (lift_res (ok_or (u32_try_from fd0) InvalidSlot)) (\<lambda>fd.
     andThen (open_handle p fd) (\<lambda>n.
     andThen (task_or NotFound p) (\<lambda>t.
     andThen (lift_res (ok_or (bt_get (fd_paths (task_files t)) fd) InvalidArgs)) (\<lambda>path.
     andThen (stat_handle E n) (\<lambda>st.
     if \<not> is_dir_mode_proto (lib E) (st_mode st) then throw InvalidArgs
     else set_fs p (\<lambda>f. f\<lparr>cwd := path\<rparr>))))))"

definition do_chroot :: "('i, 'w) env \<Rightarrow> usize \<Rightarrow> usize \<Rightarrow> ('i, 'p, 'w, int) ape_prog" where
  "do_chroot E p path_ptr =
     andThen (directory_arg E p path_ptr) (\<lambda>path. set_fs p (\<lambda>f. f\<lparr>root_dir := path, cwd := path\<rparr>))"

section \<open>Changing a directory\<close>

text \<open>
  The path an argument of process \<open>p\<close> in state \<open>s\<close> stands for, when the file service, asked
  right after it was read, reports a directory there.
\<close>

definition names_directory :: "('i, 'w) env \<Rightarrow> usize \<Rightarrow> usize \<Rightarrow> ('i, 'p, 'w) ape \<Rightarrow> string \<Rightarrow> bool" where
  "names_directory E p ptr s path \<longleftrightarrow>
     (\<exists>raw s1 t st w. user_path E p ptr s = (Ok raw, s1) \<and> get_process s1 p = Some t \<and>
        path = resolve_path (lib E) raw (root_dir (task_fs t)) (cwd (task_fs t)) \<and>
        path_stat (paths E) path (world s1) = (Ok st, w) \<and> is_dir_mode_proto (lib E) (st_mode st))"

lemma resolve_mem [keeps_intro]: "keeps P (resolve_path_for_process E p raw)"
  unfolding resolve_path_for_process_def by (auto intro!: keeps_intro)

lemma directory_arg_mem [keeps_intro]: "keeps (mem_only p s0) (directory_arg E p ptr)"
  unfolding directory_arg_def user_path_def by (auto intro!: keeps_intro keeps_ext)

lemma directory_arg_Ok: "directory_arg E p ptr s = (Ok path, s') \<Longrightarrow> names_directory E p ptr s path"
  by (auto simp: directory_arg_def resolve_path_for_process_def ok_iff names_directory_def split: if_splits)

lemma task_fs_upd_mem [simp]: "task_fs (upd_mem f t) = task_fs t"
  by (simp add: upd_mem_def)

lemma change_directory:
  assumes "andThen (directory_arg E p ptr) (\<lambda>path. set_fs p (g path)) s = (r, s')" and "get_process s p = Some t"
  shows "\<exists>t'. get_process s' p = Some t' \<and> task_files t' = task_files t \<and>
    (\<forall>q. q \<noteq> p \<longrightarrow> get_process s' q = get_process s q) \<and>
    (if r = Ok 0 then \<exists>path. names_directory E p ptr s path \<and> task_fs t' = g path (task_fs t)
     else task_fs t' = task_fs t \<and> \<not> (\<exists>v. r = Ok v))"
proof -
  obtain x s1 where arg: "directory_arg E p ptr s = (x, s1)" by fastforce
  from keepsD[OF directory_arg_mem mem_only_refl arg] assms(2) obtain f where
    f: "get_process s1 p = Some (upd_mem f t)" and o: "\<And>q. q \<noteq> p \<Longrightarrow> get_process s1 q = get_process s q"
    by (auto simp: mem_only_def)
  show ?thesis
  proof (cases x)
    case (Ok path)
    with assms(1) arg f have "r = Ok 0" "s' = upd_task p (\<lambda>t. t\<lparr>task_fs := g path (task_fs t)\<rparr>) s1"
      by (simp_all add: set_fs_def monad_simps task_or_def)
    with f o directory_arg_Ok[OF arg[unfolded Ok]] show ?thesis by auto
  qed (use assms(1) arg f o in \<open>auto simp: andThen_def\<close>)
qed

text \<open>
  C34: changing the working directory or the root directory is all or nothing: when the call
  succeeds the new directory is the path of the argument, which the file service reported to
  be a directory in the state in which the call asked it,
  \<open>chdir\<close> keeps the root and \<open>chroot\<close> moves both; when it fails both are as
  before; open files and other processes are never touched.
\<close>

theorem chdir_all_or_nothing:
  assumes "get_process s p = Some t" and "do_chdir E p ptr s = (r, s')" and "do_chroot E p ptr s = (r2, s2)"
  shows "\<exists>t' t2. get_process s' p = Some t' \<and> get_process s2 p = Some t2 \<and>
    task_files t' = task_files t \<and> task_files t2 = task_files t \<and>
    (\<forall>q. q \<noteq> p \<longrightarrow> get_process s' q = get_process s q \<and> get_process s2 q = get_process s q) \<and>
    (if r = Ok 0 then names_directory E p ptr s (cwd (task_fs t')) \<and> root_dir (task_fs t') = root_dir (task_fs t)
     else task_fs t' = task_fs t) \<and>
    (if r2 = Ok 0 then names_directory E p ptr s (cwd (task_fs t2)) \<and> root_dir (task_fs t2) = cwd (task_fs t2)
     else task_fs t2 = task_fs t)"
  using change_directory[OF assms(2)[unfolded do_chdir_def] assms(1)]
    change_directory[OF assms(3)[unfolded do_chroot_def] assms(1)]
  by (auto split: if_splits)

text \<open>The example environment with a slash at the start of user memory.\<close>

definition slash_env :: "(unit, nat) env" where
  "slash_env = example_env\<lparr>vm := (vm example_env)\<lparr>mem_load := \<lambda>_ n _. take n (47 # replicate (n - 1) 0)\<rparr>\<rparr>"

lemma slash_env_simps [simp]:
  "mp slash_env = mp example_env" "paths slash_env = paths example_env" "lib slash_env = lib example_env"
  "vm_unmap (vm slash_env) = vm_unmap (vm example_env)" "vm_map_scratch (vm slash_env) = vm_map_scratch (vm example_env)"
  "mem_load (vm slash_env) a n w = take n (47 # replicate (n - 1) 0)"
  by (simp_all add: slash_env_def)

lemma slash_env_session:
  "acquire slash_env m prm = acquire example_env m prm" "release_all slash_env = release_all example_env"
  unfolding acquire_def release_all_def unmap_slot_def slash_env_simps by (rule refl)+

lemma example_user_path: "user_path slash_env 1 0x20010ff8 (example_ape [example_mem_task]) = (Ok ''/'', example_ape [example_mem_task])"
proof -
  let ?s = "example_ape [example_mem_task]"
  have look: "lookup_map slash_env 1 0x20010ff8 {PERM_READ} ?s = (Ok example_page, ?s)"
    by (rule example_lookup_map[OF example_mem_task_ok(3)])
      (simp_all add: example_page_def covers_def usize_max_def example_mem_task_simps lookup_memory_map_def
        lookup_in_def bt_last_le_def task_mem_def upd_mem_def)
  from example_acquire[of example_page "{PERM_READ}" ?s] obtain q q' where
    q: "acquire slash_env example_page {PERM_READ} (page_pool_new, ?s) = (Ok 0x70000000, (q, ?s))"
    "release_all slash_env (q, ?s) = (Ok (), (q', ?s))" unfolding slash_env_session by blast
  have nul: "until_nul (take 8 (47 # replicate 7 0)) = ([47], True)" by (simp add: until_nul_def)
  have utf: "string_from_utf8 [47] = Some ''/''" by (simp add: string_from_utf8_def char_of_def bit_0)
  have "strncpy_loop slash_env 1 0x20010ff8 USER_PATH_MAX [] (page_pool_new, ?s) = (Ok ''/'', (q, ?s))"
    using look q(1) nul utf
    by (subst strncpy_loop.simps)
      (simp add: monad_simps Let_def example_page_def USER_PATH_MAX_def)
  with q(2) have "strncpy_from_user slash_env 1 0x20010ff8 USER_PATH_MAX ?s = (Ok ''/'', ?s)"
    by (simp add: strncpy_from_user_def with_user_session_def sess_strncpy_from_user_def USER_PATH_MAX_def)
  then show ?thesis by (simp add: user_path_def andThen_def ret_def)
qed

theorem chdir_all_or_nothing_witness:
  "\<exists>s' t'. do_chdir slash_env 1 0x20010ff8 (example_ape [example_mem_task]) = (Ok 0, s') \<and>
     get_process s' 1 = Some t' \<and> task_files t' = task_files example_mem_task \<and>
     names_directory slash_env 1 0x20010ff8 (example_ape [example_mem_task]) (cwd (task_fs t'))"
proof -
  let ?s = "example_ape [example_mem_task]"
  have dir: "is_dir_mode_proto example_lib (st_mode example_stat)"
    by (simp add: is_dir_mode_proto_def example_lib_def example_stat_def)
  have stat: "path_stat (paths example_env) path w = (Ok example_stat, w)" for path w
    by (simp add: example_env_def example_paths_def)
  have "\<exists>path s1. directory_arg slash_env 1 0x20010ff8 ?s = (Ok path, s1) \<and> get_process s1 1 = Some example_mem_task"
    using example_user_path example_mem_task_ok(3) dir stat
    by (simp add: directory_arg_def resolve_path_for_process_def andThen_def task_or_def ret_def ext_def del: One_nat_def)
  then obtain s' where run: "do_chdir slash_env 1 0x20010ff8 ?s = (Ok 0, s')"
    by (auto simp: do_chdir_def set_fs_def monad_simps task_or_def)
  obtain r2 s2 where run2: "do_chroot slash_env 1 0x20010ff8 ?s = (r2, s2)" by fastforce
  from chdir_all_or_nothing[OF example_mem_task_ok(3) run run2] run show ?thesis by auto
qed

end
