(* ===== verification/Elf.thy ===== *)
theory Elf
  imports User_Access Linux_Io_Abi
begin

text \<open>
  The view of an ELF file (\<open>src/src/elf.rs\<close>). The header and the program headers
  are read at the offsets of the 64-bit little-endian format. The iterator computes the
  position of the next header with wrapping arithmetic and then reads it through a raw
  pointer: a read that leaves the buffer is \<open>Panic\<close> in the model.
\<close>

section \<open>Headers\<close>

definition EHDR_SIZE :: usize where "EHDR_SIZE = 64"
definition PHDR_SIZE :: usize where "PHDR_SIZE = 56"

definition field :: "byte list \<Rightarrow> nat \<Rightarrow> nat \<Rightarrow> nat" where
  "field bs off n = bytes_to_nat (take n (drop off bs))"

record elf_ehdr =
  e_type :: nat
  e_entry :: usize
  e_phoff :: usize
  e_phentsize :: nat
  e_phnum :: nat

record elf_phdr =
  p_type :: nat
  p_flags :: "32 word"
  p_offset :: usize
  p_vaddr :: usize
  p_filesz :: usize
  p_memsz :: usize

definition decode_ehdr :: "byte list \<Rightarrow> elf_ehdr" where
  "decode_ehdr bs =
     \<lparr>e_type = field bs 16 2, e_entry = field bs 24 8, e_phoff = field bs 32 8,
      e_phentsize = field bs 54 2, e_phnum = field bs 56 2\<rparr>"

definition decode_phdr :: "byte list \<Rightarrow> elf_phdr" where
  "decode_phdr bs =
     \<lparr>p_type = field bs 0 4, p_flags = word_of_nat (field bs 4 4), p_offset = field bs 8 8,
      p_vaddr = field bs 16 8, p_filesz = field bs 32 8, p_memsz = field bs 40 8\<rparr>"

record elf_file =
  elf_data :: "byte list"
  header :: elf_ehdr

definition elf_new :: "byte list \<Rightarrow> elf_file option" where
  "elf_new data =
     (if length data < EHDR_SIZE then None
      else if take 4 data \<noteq> [0x7f, 0x45, 0x4c, 0x46] then None
      else Some \<lparr>elf_data = data, header = decode_ehdr data\<rparr>)"

definition entry_point :: "elf_file \<Rightarrow> usize" where "entry_point f = e_entry (header f)"
definition elf_file_type :: "elf_file \<Rightarrow> nat" where "elf_file_type f = e_type (header f)"
definition ph_offset :: "elf_file \<Rightarrow> usize" where "ph_offset f = e_phoff (header f)"
definition ph_entry_size :: "elf_file \<Rightarrow> usize" where "ph_entry_size f = e_phentsize (header f)"
definition ph_num :: "elf_file \<Rightarrow> usize" where "ph_num f = e_phnum (header f)"

section \<open>The iterator over the program headers\<close>

definition phdr_next :: "elf_file \<Rightarrow> nat \<Rightarrow> elf_phdr option res" where
  "phdr_next f current =
     (if current \<ge> ph_num f then Ok None
      else
        let off = wrap_add (ph_offset f) (wrap_mul current (ph_entry_size f)) in
        if wrap_add off PHDR_SIZE > length (elf_data f) then Ok None
        else if off + PHDR_SIZE > length (elf_data f) then Panic
        else Ok (Some (decode_phdr (drop off (elf_data f)))))"

fun interp_loop :: "elf_file \<Rightarrow> nat list \<Rightarrow> string option res" where
  "interp_loop f [] = Ok None"
| "interp_loop f (i # is) =
     (case phdr_next f i of
        Panic \<Rightarrow> Panic
      | Err e \<Rightarrow> Err e
      | Ok None \<Rightarrow> Ok None
      | Ok (Some ph) \<Rightarrow>
          if p_type ph \<noteq> PT_INTERP then interp_loop f is
          else
            Ok (case checked_add (p_offset ph) (p_filesz ph) of
                  None \<Rightarrow> None
                | Some e \<Rightarrow>
                    if e > length (elf_data f) \<or> p_offset ph \<ge> e then None
                    else string_from_utf8
                      (takeWhile (\<lambda>b. b \<noteq> 0) (take (p_filesz ph) (drop (p_offset ph) (elf_data f))))))"

definition interpreter_path :: "elf_file \<Rightarrow> string option res" where
  "interpreter_path f = interp_loop f [0..<ph_num f]"

section \<open>Bounds of the reads\<close>

lemma bytes_to_nat_bound: "bytes_to_nat bs < 256 ^ length bs"
proof (induction bs)
  case (Cons b bs)
  have "unat b < 256" using unsigned_less[of b] by simp
  with Cons show ?case by (simp add: bytes_to_nat_def)
qed (simp add: bytes_to_nat_def)

lemma field_bound: "field bs off n < 256 ^ n"
proof -
  have "length (take n (drop off bs)) \<le> n" by simp
  then have "(256::nat) ^ length (take n (drop off bs)) \<le> 256 ^ n" by (rule power_increasing) simp
  with bytes_to_nat_bound show ?thesis unfolding field_def by (metis order.strict_trans2)
qed

text \<open>
  The iterator reads inside the file whenever the table of program headers does not
  lie at the very top of the address range: it never leaves the buffer, it ends at the
  declared number of headers at the latest, and every header it yields is decoded from 56
  bytes of the file.
\<close>

theorem phdr_next_in_bounds:
  assumes "elf_new data = Some f" and "ph_offset f + 2 ^ 33 \<le> usize_max"
  shows "phdr_next f i \<noteq> Panic \<and>
    (\<forall>ph. phdr_next f i = Ok (Some ph) \<longrightarrow>
       i < ph_num f \<and> ph_offset f + i * ph_entry_size f + PHDR_SIZE \<le> length data \<and>
       ph = decode_phdr (take PHDR_SIZE (drop (ph_offset f + i * ph_entry_size f) data)))"
proof (cases "i < ph_num f")
  case True
  from assms(1) have f: "elf_data f = data" "header f = decode_ehdr data"
    by (auto simp: elf_new_def split: if_splits)
  have n: "ph_num f < 65536" "ph_entry_size f < 65536"
    using field_bound[of data _ 2] f by (simp_all add: ph_num_def ph_entry_size_def decode_ehdr_def)
  with True have "i * ph_entry_size f \<le> 65535 * 65535" by (intro mult_le_mono) simp_all
  then have small: "i * ph_entry_size f + PHDR_SIZE < 2 ^ 33" by (simp add: PHDR_SIZE_def)
  then have "wrap_mul i (ph_entry_size f) = i * ph_entry_size f" by (simp add: usize_max_def)
  moreover have "wrap_add (ph_offset f) (i * ph_entry_size f) = ph_offset f + i * ph_entry_size f"
    "wrap_add (ph_offset f + i * ph_entry_size f) PHDR_SIZE = ph_offset f + i * ph_entry_size f + PHDR_SIZE"
    using assms(2) small by simp_all
  moreover have "decode_phdr (take PHDR_SIZE bs) = decode_phdr bs" for bs
    by (simp add: decode_phdr_def field_def drop_take PHDR_SIZE_def)
  ultimately show ?thesis using True f by (auto simp: phdr_next_def Let_def)
qed (simp add: phdr_next_def)

text \<open>A file of 64 bytes with one program header at a given offset.\<close>

definition example_elf :: "byte list \<Rightarrow> byte list" where
  "example_elf phoff = [0x7f, 0x45, 0x4c, 0x46] @ replicate 28 0 @ phoff @ replicate 14 0 @ [56, 0, 1, 0] @ replicate 62 0"

lemma example_elf_new:
  assumes "length phoff = 8"
  shows "elf_new (example_elf phoff) = Some \<lparr>elf_data = example_elf phoff, header =
    \<lparr>e_type = 0, e_entry = 0, e_phoff = bytes_to_nat phoff, e_phentsize = 56, e_phnum = 1\<rparr>\<rparr>"
proof -
  have z: "bytes_to_nat (replicate n 0) = 0" for n by (induction n) (simp_all add: bytes_to_nat_def)
  show ?thesis
    using assms
    by (simp add: elf_new_def example_elf_def EHDR_SIZE_def decode_ehdr_def field_def z)
      (simp add: bytes_to_nat_def)
qed

theorem phdr_next_in_bounds_witness:
  "\<exists>f. elf_new (example_elf [64, 0, 0, 0, 0, 0, 0, 0]) = Some f \<and> phdr_next f 0 \<noteq> Panic"
proof -
  let ?d = "example_elf [64, 0, 0, 0, 0, 0, 0, 0]"
  let ?f = "\<lparr>elf_data = ?d, header = \<lparr>e_type = 0, e_entry = 0, e_phoff = 64, e_phentsize = 56, e_phnum = 1\<rparr>\<rparr>"
  have f: "elf_new ?d = Some ?f" by (subst example_elf_new) (simp_all add: bytes_to_nat_def)
  have "ph_offset ?f + 2 ^ 33 \<le> usize_max" by (simp add: ph_offset_def usize_max_def)
  from phdr_next_in_bounds[OF f this] f show ?thesis by blast
qed

text \<open>
  At the top of the address range the position of the next header plus its size wraps
  around, the check passes and the header is read outside the file.
\<close>

theorem phdr_read_leaves_file:
  "\<exists>f. elf_new (example_elf [0xec, 0xff, 0xff, 0xff, 0xff, 0xff, 0xff, 0xff]) = Some f \<and> phdr_next f 0 = Panic"
  by (subst example_elf_new)
    (simp_all add: bytes_to_nat_def phdr_next_def ph_num_def ph_offset_def ph_entry_size_def Let_def wrap_add_def
      wrap_mul_def usize_max_def PHDR_SIZE_def example_elf_def)

end
