(* ===== verification/Exec.thy ===== *)
theory Exec
  imports Lifecycle Meta Elf
begin

text \<open>
  Program loading (\<open>src/src/task/exec.rs\<close>): reading the image, replacing the
  address space, loading the segments of the program and of its interpreter page by page,
  and building the initial stack and the thread-local storage.
\<close>

section \<open>Reading the image\<close>

definition INTERP_LOAD_GAP :: usize where "INTERP_LOAD_GAP = 0x100000"
definition INITIAL_STACK_ALIGN :: usize where "INITIAL_STACK_ALIGN = 16"
definition PIE_LOAD_BIAS :: usize where "PIE_LOAD_BIAS = 0"
definition INITIAL_TLS_PAGES :: usize where "INITIAL_TLS_PAGES = 4"
definition INITIAL_TLS_GAP_PAGES :: usize where "INITIAL_TLS_GAP_PAGES = 8"

definition close_cloexec_fds :: "('i, 'w) env \<Rightarrow> usize \<Rightarrow> ('i, 'p, 'w, unit) ape_prog" where
  "close_cloexec_fds E p =
     andThen (task_or NotFound p) (\<lambda>t.
     forM (map fst (filter snd (fd_cloexec (task_files t)))) (\<lambda>fd.
       andThen (do_close E p fd) (\<lambda>_. ret ())))"

definition free_slot :: "('i, 'w) env \<Rightarrow> capptr \<Rightarrow> ('i, 'p, 'w, unit) ape_prog" where
  "free_slot E slot =
     andThen (ignore (ext (cap_delete (caps E) slot))) (\<lambda>_.
     ext_do (cspace_free (caps E) slot))"

text \<open>
  The buffer has the size of the file; every read fills it from the bytes read so far on.
  A count that exceeds the rest of the buffer ends the loop with the buffer full, since
  only the buffer is returned.
\<close>

function image_loop :: "('i, 'w) env \<Rightarrow> capptr \<Rightarrow> usize \<Rightarrow> byte list \<Rightarrow> ('i, 'p, 'w, byte list) ape_prog" where
  "image_loop E slot sz acc =
     (if length acc < sz then
        andThen (attempt (ext (fs_read (fss E) slot (length acc) (sz - length acc)))) (\<lambda>r.
        case r of
          Inl e \<Rightarrow>
            andThen (ignore (ext (fs_close (fss E) slot))) (\<lambda>_.
            andThen (free_slot E slot) (\<lambda>_. throw e))
        | Inr data \<Rightarrow>
            let got = take (sz - length acc) data in
            if got = [] then
              andThen (ignore (ext (fs_close (fss E) slot))) (\<lambda>_.
              andThen (free_slot E slot) (\<lambda>_. throw IoError))
            else image_loop E slot sz (acc @ got))
      else ret acc)"
  by pat_completeness auto
termination by (relation "measure (\<lambda>(E, slot, sz, acc). sz - length acc)") (auto simp: min_def simp flip: length_greater_0_conv)

declare image_loop.simps [simp del]

definition read_exec_image_from_fs :: "('i, 'w) env \<Rightarrow> string \<Rightarrow> ('i, 'p, 'w, byte list) ape_prog" where
  "read_exec_image_from_fs E path =
     andThen (ext (path_stat (paths E) path)) (\<lambda>st.
     if st_size st = 0 then throw InvalidArgs
     else
       andThen (open_slot E (fs_endpoint (fss E)) path (OPEN_RDONLY (lib E)) 0) (\<lambda>slot.
       andThen (image_loop E slot (st_size st) []) (\<lambda>data.
       andThen (attempt (ext (fs_close (fss E) slot))) (\<lambda>r.
       andThen (free_slot E slot) (\<lambda>_.
       case r of Inl e \<Rightarrow> throw e | Inr _ \<Rightarrow> ret data)))))"

section \<open>The initial stack\<close>

text \<open>
  Strings are pushed downwards, the last one first; the pointers come out in the order of
  the strings.
\<close>

fun push_strings ::
  "usize \<Rightarrow> string list \<Rightarrow> byte list \<Rightarrow> usize \<Rightarrow> usize list \<Rightarrow> (byte list \<times> usize \<times> usize list) res" where
  "push_strings base [] stack sp ptrs = Ok (stack, sp, ptrs)"
| "push_strings base (s # ss) stack sp ptrs =
     (let bytes = string_bytes s in
      case checked_add (length bytes) 1 of
        None \<Rightarrow> Err OutOfMemory
      | Some need \<Rightarrow>
          if sp < need then Err OutOfMemory
          else
            push_strings base ss (put_slice (sp - need) (bytes @ [0]) stack) (sp - need)
              (wrap_add base (sp - need) # ptrs))"

definition stack_words :: "usize list \<Rightarrow> usize list \<Rightarrow> (usize \<times> usize) list \<Rightarrow> usize list" where
  "stack_words argv envp auxv =
     [length argv] @ argv @ [0] @ envp @ [0] @ concat (map (\<lambda>(k, v). [k, v]) auxv) @ [0, 0]"

definition words_bytes :: "usize list \<Rightarrow> byte list" where
  "words_bytes ws = concat (map usize_to_bytes ws)"

definition build_stack ::
  "usize \<Rightarrow> usize \<Rightarrow> string list \<Rightarrow> string list \<Rightarrow> (usize \<times> usize) list \<Rightarrow> (byte list \<times> usize) res" where
  "build_stack pgsize base argv envp auxv =
     (case push_strings base (rev argv) (replicate pgsize 0) pgsize [] of
        Err e \<Rightarrow> Err e | Panic \<Rightarrow> Panic
      | Ok (st1, sp1, argv_ptrs) \<Rightarrow>
          (case push_strings base (rev envp) st1 sp1 [] of
             Err e \<Rightarrow> Err e | Panic \<Rightarrow> Panic
           | Ok (st2, sp2, envp_ptrs) \<Rightarrow>
               let words = stack_words argv_ptrs envp_ptrs auxv; words_size = length words * 8 in
               if words_size > usize_max \<or> sp2 < words_size then Err OutOfMemory
               else
                 let sp = (sp2 - words_size) div INITIAL_STACK_ALIGN * INITIAL_STACK_ALIGN in
                 if sp + words_size > pgsize then Err OutOfMemory
                 else Ok (put_slice sp (words_bytes words) st2, sp)))"

text \<open>
  The page when the construction gives up: the strings that were pushed before the one that
  does not fit; the words are written last.
\<close>

fun pushed_strings :: "string list \<Rightarrow> byte list \<Rightarrow> usize \<Rightarrow> byte list" where
  "pushed_strings [] stack sp = stack"
| "pushed_strings (s # ss) stack sp =
     (let bytes = string_bytes s in
      case checked_add (length bytes) 1 of
        None \<Rightarrow> stack
      | Some need \<Rightarrow>
          if sp < need then stack
          else pushed_strings ss (put_slice (sp - need) (bytes @ [0]) stack) (sp - need))"

definition unfinished_stack :: "usize \<Rightarrow> usize \<Rightarrow> string list \<Rightarrow> string list \<Rightarrow> byte list" where
  "unfinished_stack pgsize base argv envp =
     (case push_strings base (rev argv) (replicate pgsize 0) pgsize [] of
        Ok (st1, sp1, _) \<Rightarrow> pushed_strings (rev envp) st1 sp1
      | _ \<Rightarrow> pushed_strings (rev argv) (replicate pgsize 0) pgsize)"

definition alloc_frame :: "('i, 'w) env \<Rightarrow> usize \<Rightarrow> usize \<Rightarrow> usize \<Rightarrow> ('i, 'p, 'w, capptr) ape_prog" where
  "alloc_frame E p level pages =
     andThen (ext (cspace_alloc (caps E))) (\<lambda>slot.
     andThen (ext (res_alloc (caps E) CapPage level slot)) (\<lambda>_.
     andThen (modify (ledger_record_frame_alloc p slot pages)) (\<lambda>_.
     ret slot)))"

definition new_map :: "usize \<Rightarrow> usize \<Rightarrow> perms \<Rightarrow> memory_type \<Rightarrow> capptr \<Rightarrow> memory_map" where
  "new_map vaddr sz prm ty slot =
     \<lparr>map_vaddr = vaddr, map_paddr = 0, map_size = sz, map_flags = prm, mem_type = ty, map_cow = False,
      frame_cap = slot, file_backing_fd = None, file_backing_offset = 0\<rparr>"

definition setup_initial_stack ::
  "('i, 'w) env \<Rightarrow> usize \<Rightarrow> string \<Rightarrow> string list \<Rightarrow> string list \<Rightarrow> (usize \<times> usize) list \<Rightarrow> ('i, 'p, 'w, usize) ape_prog" where
  "setup_initial_stack E p fallback_arg0 argv envp auxv =
     (let pg = PGSIZE (mp E); base = STACK_BASE (mp E) - pg; prm = {PERM_READ, PERM_WRITE} in
      andThen (alloc_frame E p 1 1) (\<lambda>slot.
      andThen (map_process_frame E p slot base prm 1) (\<lambda>_.
      andThen (ext (vm_map_scratch (vm E) slot prm 1)) (\<lambda>scratch.
      let args = (if argv = [] then [fallback_arg0] else argv); built = build_stack pg base args envp auxv in
      andThen (ext_do (mem_store (vm E) scratch
         (case built of Ok (stack, _) \<Rightarrow> stack | _ \<Rightarrow> unfinished_stack pg base args envp))) (\<lambda>_.
      andThen (lift_res built) (\<lambda>(_, sp).
      andThen (ext (vm_unmap (vm E) scratch 1)) (\<lambda>_.
      andThen (task_or NotFound p) (\<lambda>_.
      andThen (modify (upd_task p (upd_mem (\<lambda>m.
         (add_memory_map (new_map base pg prm Stack slot) m)\<lparr>stack_size := pg\<rparr>)))) (\<lambda>_.
      ret (wrap_add base sp))))))))))"

definition setup_initial_tls :: "('i, 'w) env \<Rightarrow> usize \<Rightarrow> ('i, 'p, 'w, usize) ape_prog" where
  "setup_initial_tls E p =
     (let pg = PGSIZE (mp E);
          tls_start = sat_sub (sat_sub (utcb_va0 (lib E)) (INITIAL_TLS_GAP_PAGES * pg)) (INITIAL_TLS_PAGES * pg);
          tls_size = INITIAL_TLS_PAGES * pg; prm = {PERM_READ, PERM_WRITE} in
      andThen (ext (cspace_alloc (caps E))) (\<lambda>slot.
      andThen (lift_res (ok_or (page_pages_to_level (caps E) INITIAL_TLS_PAGES) InvalidArgs)) (\<lambda>level.
      andThen (ext (res_alloc (caps E) CapPage level slot)) (\<lambda>_.
      andThen (modify (ledger_record_frame_alloc p slot INITIAL_TLS_PAGES)) (\<lambda>_.
      andThen (map_process_frame E p slot tls_start prm INITIAL_TLS_PAGES) (\<lambda>_.
      andThen (ext (vm_map_scratch (vm E) slot prm INITIAL_TLS_PAGES)) (\<lambda>scratch.
      andThen (ext_do (mem_store (vm E) scratch (replicate tls_size 0))) (\<lambda>_.
      andThen (ext (vm_unmap (vm E) scratch INITIAL_TLS_PAGES)) (\<lambda>_.
      andThen (task_or NotFound p) (\<lambda>_.
      andThen (modify (upd_task p (upd_mem (add_memory_map (new_map tls_start tls_size prm Anonymous slot))))) (\<lambda>_.
      ret (wrap_add tls_start (tls_size div 2)))))))))))))"

section \<open>Segments\<close>

record loaded_elf_info =
  li_entry :: usize
  li_load_end :: usize
  li_phdr_vaddr :: "usize option"

definition segment_perms :: "elf_phdr \<Rightarrow> perms" where
  "segment_perms ph =
     {PERM_READ} \<union> (if p_flags ph AND PF_W \<noteq> 0 then {PERM_WRITE} else {}) \<union>
     (if p_flags ph AND PF_X \<noteq> 0 then {PERM_EXECUTE} else {})"

text \<open>The bytes of one page of a segment: the part of the file that falls into it, zero elsewhere.\<close>

definition page_image :: "usize \<Rightarrow> byte list \<Rightarrow> usize \<Rightarrow> usize \<Rightarrow> usize \<Rightarrow> usize \<Rightarrow> byte list" where
  "page_image pg data seg_start file_size offset page_vaddr =
     (let file_seg_end = sat_add seg_start file_size;
          copy_start = max page_vaddr seg_start;
          copy_end = min (wrap_add page_vaddr pg) file_seg_end;
          zero = replicate pg 0 in
      if copy_end > copy_start \<and> offset < length data then
        let src_off = wrap_add offset (copy_start - seg_start);
            dst_off = copy_start - page_vaddr;
            copy_len = copy_end - copy_start in
        if src_off < length data then
          put_slice dst_off (take (min copy_len (length data - src_off)) (drop src_off data)) zero
        else zero
      else zero)"

definition load_page ::
  "('i, 'w) env \<Rightarrow> usize \<Rightarrow> byte list \<Rightarrow> elf_phdr \<Rightarrow> usize \<Rightarrow> usize \<Rightarrow> ('i, 'p, 'w, unit) ape_prog" where
  "load_page E p data ph seg_start page_vaddr =
     (let pg = PGSIZE (mp E); prm = segment_perms ph in
      andThen (alloc_frame E p 1 1) (\<lambda>slot.
      andThen (map_process_frame E p slot page_vaddr prm 1) (\<lambda>_.
      andThen (task_or NotFound p) (\<lambda>_.
      andThen (modify (upd_task p (upd_mem (add_memory_map (new_map page_vaddr pg prm Image slot))))) (\<lambda>_.
      andThen (ext (vm_map_scratch (vm E) slot {PERM_READ, PERM_WRITE} 1)) (\<lambda>scratch.
      andThen (ext_do (mem_store (vm E) scratch
         (page_image pg data seg_start (p_filesz ph) (p_offset ph) page_vaddr))) (\<lambda>_.
      ext (vm_unmap (vm E) scratch 1))))))))"

definition segment_pages :: "mem_params \<Rightarrow> usize \<Rightarrow> usize \<Rightarrow> usize list" where
  "segment_pages M seg_start seg_end =
     (let start_page = align_down M seg_start (PGSIZE M); end_page = align_up M seg_end (PGSIZE M)
      in map (\<lambda>i. wrap_add start_page (wrap_mul i (PGSIZE M)))
           [0..<wrap_sub end_page start_page div PGSIZE M])"

definition load_segment ::
  "('i, 'w) env \<Rightarrow> usize \<Rightarrow> byte list \<Rightarrow> usize \<Rightarrow> elf_phdr \<Rightarrow> usize \<times> usize option \<Rightarrow>
     ('i, 'p, 'w, usize \<times> usize option) ape_prog" where
  "load_segment E p data load_bias ph acc =
     (case acc of (load_end, phdr_vaddr) \<Rightarrow>
      let phdr_vaddr = (if p_type ph = PT_PHDR then Some (wrap_add load_bias (p_vaddr ph)) else phdr_vaddr) in
      if p_type ph \<noteq> PT_LOAD \<or> p_memsz ph = 0 then ret (load_end, phdr_vaddr)
      else
        let seg_start = wrap_add load_bias (p_vaddr ph); seg_end = wrap_add seg_start (p_memsz ph) in
        andThen (forM (segment_pages (mp E) seg_start seg_end) (load_page E p data ph seg_start)) (\<lambda>_.
        ret (max load_end seg_end, phdr_vaddr)))"

fun load_loop ::
  "('i, 'w) env \<Rightarrow> usize \<Rightarrow> elf_file \<Rightarrow> usize \<Rightarrow> nat list \<Rightarrow> usize \<times> usize option \<Rightarrow>
     ('i, 'p, 'w, usize \<times> usize option) ape_prog" where
  "load_loop E p f load_bias [] acc = ret acc"
| "load_loop E p f load_bias (i # is) acc =
     andThen (lift_res (phdr_next f i)) (\<lambda>r.
     case r of
       None \<Rightarrow> ret acc
     | Some ph \<Rightarrow>
         andThen (load_segment E p (elf_data f) load_bias ph acc) (\<lambda>acc'.
         load_loop E p f load_bias is acc'))"

definition load_elf_into_process ::
  "('i, 'w) env \<Rightarrow> usize \<Rightarrow> byte list \<Rightarrow> usize \<Rightarrow> ('i, 'p, 'w, loaded_elf_info) ape_prog" where
  "load_elf_into_process E p data load_bias =
     andThen (lift_res (ok_or (elf_new data) InvalidArgs)) (\<lambda>f.
     andThen (load_loop E p f load_bias [0..<ph_num f] (0, None)) (\<lambda>(load_end, phdr_vaddr).
     ret \<lparr>li_entry = wrap_add load_bias (entry_point f), li_load_end = load_end,
          li_phdr_vaddr = Some (case phdr_vaddr of Some v \<Rightarrow> v | None \<Rightarrow> wrap_add load_bias (ph_offset f))\<rparr>))"

section \<open>Execve\<close>

definition clear_image :: "mm_state \<Rightarrow> mm_state" where
  "clear_image m = m\<lparr>memory_maps := [], lazy_memory_maps := [], stack_size := 0\<rparr>"

definition reset_layout :: "mem_params \<Rightarrow> usize \<Rightarrow> mm_state \<Rightarrow> mm_state" where
  "reset_layout M load_end m =
     (let start = align_up M (max load_end (HEAP_VA M)) (PGSIZE M)
      in m\<lparr>heap_start := start, heap_brk := start, heap_limit := mmap_base m, mmap_next := mmap_base m,
           stack_bottom := STACK_BASE M, stack_size := 0\<rparr>)"

definition load_interpreter ::
  "('i, 'w) env \<Rightarrow> usize \<Rightarrow> string option \<Rightarrow> loaded_elf_info \<Rightarrow> ('i, 'p, 'w, usize \<times> usize) ape_prog" where
  "load_interpreter E p interp info =
     (case interp of
        None \<Rightarrow> ret (li_entry info, 0)
      | Some path \<Rightarrow>
          andThen (read_exec_image_from_fs E path) (\<lambda>data.
          let base = align_up (mp E) (wrap_add (li_load_end info) INTERP_LOAD_GAP) (PGSIZE (mp E)) in
          andThen (load_elf_into_process E p data base) (\<lambda>ii. ret (li_entry ii, base))))"

definition start_thread :: "('i, 'w) env \<Rightarrow> usize \<Rightarrow> usize \<Rightarrow> usize \<Rightarrow> usize \<Rightarrow> ('i, 'p, 'w, unit) ape_prog" where
  "start_thread E p entry sp tp =
     andThen (task_or NotFound p) (\<lambda>t.
     andThen (ext (tcb_set_entrypoint (procs E) (task_tcb t) entry sp tp)) (\<lambda>_.
     ext (tcb_set_fault_handler (procs E) (task_tcb t) (cap_concat (caps E) (task_cspace t) APE_SLOT))))"

definition do_execve :: "('i, 'w) env \<Rightarrow> usize \<Rightarrow> string \<Rightarrow> string list \<Rightarrow> string list \<Rightarrow> ('i, 'p, 'w, unit) ape_prog" where
  "do_execve E p path argv envp =
     andThen (read_exec_image_from_fs E path) (\<lambda>data.
     andThen (lift_res (ok_or (elf_new data) InvalidArgs)) (\<lambda>f.
     if elf_file_type f \<noteq> ET_EXEC \<and> elf_file_type f \<noteq> ET_DYN then throw InvalidArgs
     else
       let bias = (if elf_file_type f = ET_DYN then PIE_LOAD_BIAS else 0) in
       andThen (lift_res (interpreter_path f)) (\<lambda>interp.
       andThen (task_or NotFound p) (\<lambda>t.
       andThen (release_memory E p (task_mem t)) (\<lambda>_.
       andThen (task_or NotFound p) (\<lambda>_.
       andThen (modify (upd_task p (upd_mem clear_image))) (\<lambda>_.
       andThen (load_elf_into_process E p data bias) (\<lambda>info.
       andThen (load_interpreter E p interp info) (\<lambda>(entry, at_base).
       andThen (task_or NotFound p) (\<lambda>_.
       andThen (modify (upd_task p (upd_mem (reset_layout (mp E) (li_load_end info))))) (\<lambda>_.
       let main_phdr = (case li_phdr_vaddr info of Some v \<Rightarrow> v | None \<Rightarrow> wrap_add bias (ph_offset f));
           auxv = [(AT_PHDR, main_phdr), (AT_PHENT, ph_entry_size f), (AT_PHNUM, ph_num f),
                   (AT_PAGESZ, PGSIZE (mp E)), (AT_BASE, at_base), (AT_ENTRY, li_entry info)] in
       andThen (setup_initial_stack E p path argv envp auxv) (\<lambda>sp.
       andThen (setup_initial_tls E p) (\<lambda>tp.
       andThen (start_thread E p entry sp tp) (\<lambda>_.
       close_cloexec_fds E p))))))))))))))"

definition do_execve_user :: "('i, 'w) env \<Rightarrow> usize \<Rightarrow> usize \<Rightarrow> usize \<Rightarrow> usize \<Rightarrow> ('i, 'p, 'w, unit) ape_prog" where
  "do_execve_user E p filename_ptr argv_ptr envp_ptr =
     andThen (parse_execve_user_input E p filename_ptr argv_ptr envp_ptr) (\<lambda>inp.
     do_execve E p (ex_filename inp) (ex_argv inp) (ex_envp inp))"

section \<open>A loaded page\<close>

lemma put_slice_length [simp]: "off + length src \<le> length t \<Longrightarrow> length (put_slice off src t) = length t"
  by (simp add: put_slice_def)

lemma put_slice_nth:
  "off + length src \<le> length t \<Longrightarrow> i < length t \<Longrightarrow>
   put_slice off src t ! i = (if off \<le> i \<and> i < off + length src then src ! (i - off) else t ! i)"
  by (auto simp: put_slice_def nth_append)

text \<open>The window of a page that the file fills: from \<open>cs\<close> to \<open>ce\<close>, read from offset \<open>src\<close>.\<close>

lemma page_image_form:
  assumes "seg_start + file_size \<le> usize_max" and "page_vaddr + pg \<le> usize_max" and "offset + file_size \<le> usize_max"
    and cs: "cs = max page_vaddr seg_start" and ce: "ce = min (page_vaddr + pg) (seg_start + file_size)"
    and src: "src = offset + (cs - seg_start)"
  shows "page_image pg data seg_start file_size offset page_vaddr =
    (if cs < ce \<and> offset < length data \<and> src < length data
     then put_slice (cs - page_vaddr) (take (min (ce - cs) (length data - src)) (drop src data)) (replicate pg 0)
     else replicate pg 0)"
proof -
  have "wrap_add offset (cs - seg_start) = src" if "cs < ce"
    using that assms(3) by (subst wrap_add_small) (auto simp: src cs ce)
  then show ?thesis
    by (auto simp: page_image_def Let_def wrap_add_small[OF assms(2)] sat_add_small[OF assms(1)]
        simp flip: cs ce simp del: min_less_iff_conj min.bounded_iff)
qed

lemma window_byte:
  assumes cs: "cs = max page_vaddr seg_start" and ce: "ce = min (page_vaddr + pg) (seg_start + file_size)"
    and src: "src = offset + (cs - seg_start)" "src < length data" and a: "page_vaddr \<le> a" "a < page_vaddr + pg"
    and piece: "piece = take (min (ce - cs) (length data - src)) (drop src data)"
  shows "(if cs - page_vaddr \<le> a - page_vaddr \<and> a - page_vaddr < cs - page_vaddr + length piece
      then piece ! (a - page_vaddr - (cs - page_vaddr)) else 0) =
    (if seg_start \<le> a \<and> a < seg_start + file_size \<and> offset + (a - seg_start) < length data
      then data ! (offset + (a - seg_start)) else 0)"
proof (cases "seg_start \<le> a")
  case in_seg: True
  then have cs_le: "cs \<le> a" "page_vaddr \<le> cs" "seg_start \<le> cs" using a(1) by (auto simp: cs)
  then have idx: "src + (a - cs) = offset + (a - seg_start)" "a - page_vaddr - (cs - page_vaddr) = a - cs"
    by (auto simp: src(1))
  have "a - page_vaddr < cs - page_vaddr + length piece \<longleftrightarrow> a - cs < length piece" using cs_le by linarith
  also have "\<dots> \<longleftrightarrow> a < ce \<and> src + (a - cs) < length data" using cs_le src(2) by (auto simp: piece)
  also have "\<dots> \<longleftrightarrow> a < seg_start + file_size \<and> offset + (a - seg_start) < length data"
    using a(2) by (simp add: ce idx)
  finally have inside: "a - page_vaddr < cs - page_vaddr + length piece \<longleftrightarrow>
    a < seg_start + file_size \<and> offset + (a - seg_start) < length data" .
  have "piece ! (a - cs) = data ! (offset + (a - seg_start))"
    if "a < seg_start + file_size" "offset + (a - seg_start) < length data"
  proof -
    from that inside cs_le have "a - cs < length piece" by linarith
    then have "piece ! (a - cs) = data ! (src + (a - cs))" using src(2) by (simp add: piece)
    then show ?thesis unfolding idx(1) .
  qed
  then show ?thesis unfolding inside idx(2) using cs_le in_seg by simp
next
  case False
  then have "a < cs" by (simp add: cs)
  with a(1) have "\<not> cs - page_vaddr \<le> a - page_vaddr" by linarith
  with False show ?thesis by simp
qed

text \<open>
  C17: the frame behind a page of a loaded segment holds the program: the byte at an
  address of the segment's file part is the byte of the file at the segment's offset plus
  the distance from the segment's start, and every other byte of the page, before the
  segment, behind its file part or beyond the end of a truncated file, is zero.
\<close>

theorem page_image_bytes:
  assumes "seg_start + file_size \<le> usize_max" and "page_vaddr + pg \<le> usize_max"
    and "offset + file_size \<le> usize_max" and "page_vaddr \<le> a" and "a < page_vaddr + pg"
  shows "length (page_image pg data seg_start file_size offset page_vaddr) = pg \<and>
    page_image pg data seg_start file_size offset page_vaddr ! (a - page_vaddr) =
     (if seg_start \<le> a \<and> a < seg_start + file_size \<and> offset + (a - seg_start) < length data
      then data ! (offset + (a - seg_start)) else 0)"
proof -
  define cs ce where "cs = max page_vaddr seg_start" and "ce = min (page_vaddr + pg) (seg_start + file_size)"
  define src where "src = offset + (cs - seg_start)"
  let ?piece = "take (min (ce - cs) (length data - src)) (drop src data)"
  note form = page_image_form[OF assms(1-3) cs_def ce_def src_def, of data]
  show ?thesis
  proof (cases "cs < ce \<and> offset < length data \<and> src < length data")
    case True
    then have img: "page_image pg data seg_start file_size offset page_vaddr = put_slice (cs - page_vaddr) ?piece (replicate pg 0)"
      by (simp only: form if_True simp_thms)
    have fit: "cs - page_vaddr + length ?piece \<le> length (replicate pg 0 :: byte list)"
      using True by (simp add: cs_def ce_def) linarith
    have "put_slice (cs - page_vaddr) ?piece (replicate pg 0) ! (a - page_vaddr) =
        (if cs - page_vaddr \<le> a - page_vaddr \<and> a - page_vaddr < cs - page_vaddr + length ?piece
         then ?piece ! (a - page_vaddr - (cs - page_vaddr)) else 0)"
      using put_slice_nth[OF fit, of "a - page_vaddr"] assms(4,5) by simp
    also note window_byte[OF cs_def ce_def src_def _ assms(4,5) refl]
    finally show ?thesis using img fit True by simp
  next
    case False
    then have "page_image pg data seg_start file_size offset page_vaddr = replicate pg 0"
      by (simp only: form if_False simp_thms)
    moreover have "\<not> (seg_start \<le> a \<and> a < seg_start + file_size \<and> offset + (a - seg_start) < length data)"
      using False assms(4,5) by (auto simp: cs_def ce_def src_def)
    moreover have "replicate pg 0 ! (a - page_vaddr) = (0 :: byte)" using assms(4,5) by simp
    ultimately show ?thesis by (simp only: length_replicate if_False simp_thms)
  qed
qed

theorem page_image_bytes_witness:
  "page_image 8 [1, 2, 3, 4] 3 2 1 0 ! 4 = 3 \<and> page_image 8 [1, 2, 3, 4] 3 2 1 0 ! 5 = 0"
  using page_image_bytes[of 3 2 0 8 1 4 "[1, 2, 3, 4]"] page_image_bytes[of 3 2 0 8 1 5 "[1, 2, 3, 4]"]
  by (simp add: usize_max_def)

section \<open>The layout of the initial stack\<close>

lemma bytes_of_nat: "bytes_to_nat (map (\<lambda>i. word_of_nat (n div 256 ^ i)) [0..<k]) = n mod 256 ^ k"
proof (induction k arbitrary: n)
  case (Suc k)
  have "[0..<Suc k] = 0 # map Suc [0..<k]" by (simp add: upt_conv_Cons map_Suc_upt)
  then have "bytes_to_nat (map (\<lambda>i. word_of_nat (n div 256 ^ i)) [0..<Suc k]) =
      unat (word_of_nat n :: byte) + 256 * bytes_to_nat (map (\<lambda>i. word_of_nat (n div 256 div 256 ^ i)) [0..<k])"
    by (simp add: bytes_to_nat_def o_def div_mult2_eq)
  also have "\<dots> = n mod 256 + 256 * (n div 256 mod 256 ^ k)"
    by (simp add: Suc unsigned_of_nat take_bit_eq_mod)
  also have "\<dots> = n mod 256 ^ Suc k" by (simp add: mod_mult2_eq)
  finally show ?case .
qed (simp add: bytes_to_nat_def)

lemma usize_bytes_roundtrip: "n \<le> usize_max \<Longrightarrow> bytes_to_nat (usize_to_bytes n) = n"
  by (simp add: usize_to_bytes_def bytes_of_nat usize_max_def)

text \<open>The word at an index from the stack pointer, and a terminated string at an offset.\<close>

definition stack_word :: "byte list \<Rightarrow> usize \<Rightarrow> nat \<Rightarrow> usize" where
  "stack_word stack sp i = bytes_to_nat (take 8 (drop (sp + 8 * i) stack))"

definition cstr_at :: "byte list \<Rightarrow> usize \<Rightarrow> string \<Rightarrow> bool" where
  "cstr_at stack off s \<longleftrightarrow> take (length s + 1) (drop off stack) = string_bytes s @ [0]"

lemma string_bytes_length [simp]: "length (string_bytes s) = length s"
  by (simp add: string_bytes_def)

lemma put_slice_at: "off \<le> length t \<Longrightarrow> take (length src) (drop off (put_slice off src t)) = src"
  by (simp add: put_slice_def)

lemma put_slice_above: "off + length src \<le> i \<Longrightarrow> off \<le> length t \<Longrightarrow> drop i (put_slice off src t) = drop i t"
  by (simp add: put_slice_def)

lemma put_slice_inside:
  "off \<le> length t \<Longrightarrow> i + n \<le> length src \<Longrightarrow> take n (drop (off + i) (put_slice off src t)) = take n (drop i src)"
  by (simp add: put_slice_def)

lemma drop_eq_above: "drop k xs = drop k ys \<Longrightarrow> k \<le> i \<Longrightarrow> drop i xs = drop i ys"
  by (metis drop_drop le_add_diff_inverse2)

lemma cstr_at_drop: "drop k stack = drop k stack' \<Longrightarrow> k \<le> off \<Longrightarrow> cstr_at stack off s = cstr_at stack' off s"
  unfolding cstr_at_def using drop_eq_above by metis

lemma push_strings_spec:
  assumes "push_strings base ss st sp ptrs = Ok (st', sp', ptrs')" and "sp \<le> length st"
  shows "length st' = length st \<and> sp' \<le> sp \<and> drop sp st' = drop sp st \<and>
    (\<exists>new. ptrs' = new @ ptrs \<and>
       list_all2 (\<lambda>q s. \<exists>off. q = wrap_add base off \<and> sp' \<le> off \<and> off < sp \<and> cstr_at st' off s) new (rev ss))"
  using assms
proof (induction ss arbitrary: st sp ptrs)
  case (Cons s ss)
  let ?k = "sp - Suc (length s)" and ?src = "string_bytes s @ [0]"
  from Cons.prems have fit: "Suc (length s) \<le> sp" and
    rest: "push_strings base ss (put_slice ?k ?src st) ?k (wrap_add base ?k # ptrs) = Ok (st', sp', ptrs')"
    by (auto simp: Let_def checked_add_def split: if_splits)
  have len: "length (put_slice ?k ?src st) = length st" using fit Cons.prems(2) by simp
  have "?k \<le> length (put_slice ?k ?src st)" using len Cons.prems(2) by simp
  from Cons.IH[OF rest this] len obtain new where
    IH: "length st' = length st" "sp' \<le> ?k" "drop ?k st' = drop ?k (put_slice ?k ?src st)"
      "ptrs' = new @ wrap_add base ?k # ptrs"
      "list_all2 (\<lambda>q s. \<exists>off. q = wrap_add base off \<and> sp' \<le> off \<and> off < ?k \<and> cstr_at st' off s) new (rev ss)"
    by auto
  have "cstr_at st' ?k s"
    using cstr_at_drop[OF IH(3) order_refl] put_slice_at[of ?k st ?src] Cons.prems(2)
    by (simp add: cstr_at_def)
  moreover have "drop sp st' = drop sp st"
    using drop_eq_above[OF IH(3), of sp] put_slice_above[of ?k ?src sp st] fit Cons.prems(2) by simp
  ultimately show ?case
    using IH fit
    by (auto intro!: exI[of _ "new @ [wrap_add base ?k]"] list_all2_appendI elim!: list_all2_mono)
qed (auto intro!: exI[of _ "[]"])

lemma words_bytes_at:
  "i < length ws \<Longrightarrow> take 8 (drop (8 * i) (words_bytes ws)) = usize_to_bytes (ws ! i)"
proof (induction ws arbitrary: i)
  case (Cons w ws)
  then show ?case by (cases i) (simp_all add: words_bytes_def)
qed simp

lemma words_bytes_length [simp]: "length (words_bytes ws) = 8 * length ws"
  by (induction ws) (simp_all add: words_bytes_def)

lemma stack_words_nth:
  "stack_words ap ep auxv ! 0 = length ap"
  "k < length ap \<Longrightarrow> stack_words ap ep auxv ! (1 + k) = ap ! k"
  "stack_words ap ep auxv ! (1 + length ap) = 0"
  "j < length ep \<Longrightarrow> stack_words ap ep auxv ! (2 + length ap + j) = ep ! j"
  "stack_words ap ep auxv ! (2 + length ap + length ep) = 0"
  by (simp_all add: stack_words_def nth_append)

lemma aux_words:
  "length (concat (map (\<lambda>(k, v). [k, v]) auxv)) = 2 * length auxv"
  "j < length auxv \<Longrightarrow> concat (map (\<lambda>(k, v). [k, v]) auxv) ! (2 * j) = fst (auxv ! j) \<and>
     concat (map (\<lambda>(k, v). [k, v]) auxv) ! (2 * j + 1) = snd (auxv ! j)"
proof -
  show len: "length (concat (map (\<lambda>(k, v). [k, v]) auxv)) = 2 * length auxv" for auxv :: "('a \<times> 'a) list"
    by (induction auxv) auto
  show "j < length auxv \<Longrightarrow> concat (map (\<lambda>(k, v). [k, v]) auxv) ! (2 * j) = fst (auxv ! j) \<and>
     concat (map (\<lambda>(k, v). [k, v]) auxv) ! (2 * j + 1) = snd (auxv ! j)"
  proof (induction auxv arbitrary: j)
    case (Cons e auxv)
    then show ?case by (cases j; cases e) auto
  qed simp
qed

lemma stack_words_aux:
  "j < length auxv \<Longrightarrow> stack_words ap ep auxv ! (3 + length ap + length ep + 2 * j) = fst (auxv ! j)"
  "j < length auxv \<Longrightarrow> stack_words ap ep auxv ! (3 + length ap + length ep + 2 * j + 1) = snd (auxv ! j)"
  "stack_words ap ep auxv ! (3 + length ap + length ep + 2 * length auxv) = 0"
  "stack_words ap ep auxv ! (3 + length ap + length ep + 2 * length auxv + 1) = 0"
proof -
  let ?aux = "concat (map (\<lambda>(k, v). [k, v]) auxv)" and ?head = "[length ap] @ ap @ [0] @ ep @ [0 :: usize]"
  have words: "stack_words ap ep auxv = ?head @ ?aux @ [0, 0]" by (simp add: stack_words_def)
  have at: "stack_words ap ep auxv ! (3 + length ap + length ep + i) = (?aux @ [0, 0]) ! i" for i
    unfolding words by (subst nth_append_right) simp_all
  show "stack_words ap ep auxv ! (3 + length ap + length ep + 2 * j) = fst (auxv ! j)"
    "stack_words ap ep auxv ! (3 + length ap + length ep + 2 * j + 1) = snd (auxv ! j)" if "j < length auxv"
    using at[of "2 * j"] at[of "2 * j + 1"] aux_words(1)[of auxv] aux_words(2)[OF that] that
    by (simp_all add: nth_append add.assoc)
  show "stack_words ap ep auxv ! (3 + length ap + length ep + 2 * length auxv) = 0"
    "stack_words ap ep auxv ! (3 + length ap + length ep + 2 * length auxv + 1) = 0"
    using at[of "2 * length auxv"] at[of "2 * length auxv + 1"] aux_words(1)[of auxv] by (simp_all add: nth_append add.assoc)
qed

lemma stack_words_length: "length (stack_words ap ep auxv) = length ap + length ep + 5 + 2 * length auxv"
  by (simp add: stack_words_def aux_words(1))

text \<open>The strings, the words and where they lie, of a stack that was built.\<close>

definition strings_at :: "byte list \<Rightarrow> usize \<Rightarrow> usize \<Rightarrow> usize list \<Rightarrow> string list \<Rightarrow> bool" where
  "strings_at stack base pg ptrs ss \<longleftrightarrow>
     list_all2 (\<lambda>q s. \<exists>off < pg. q = base + off \<and> cstr_at stack off s) ptrs ss"

lemma build_stack_parts:
  assumes "build_stack pg base argv envp auxv = Ok (stack, sp)" and "base + pg \<le> usize_max"
  obtains ap ep st where "stack = put_slice sp (words_bytes (stack_words ap ep auxv)) st" "length st = pg"
    "sp + 8 * length (stack_words ap ep auxv) \<le> pg" "16 dvd sp"
    "strings_at stack base pg ap argv" "strings_at stack base pg ep envp"
proof -
  from assms(1) obtain st1 sp1 ap st2 sp2 ep where
    a: "push_strings base (rev argv) (replicate pg 0) pg [] = Ok (st1, sp1, ap)" and
    e: "push_strings base (rev envp) st1 sp1 [] = Ok (st2, sp2, ep)"
    by (auto simp: build_stack_def split: res.splits prod.splits)
  let ?ws = "stack_words ap ep auxv"
  from assms(1) a e have fit: "8 * length ?ws \<le> sp2" and sp: "sp = (sp2 - 8 * length ?ws) div 16 * 16"
    and stack: "stack = put_slice sp (words_bytes ?ws) st2"
    by (auto simp: build_stack_def Let_def INITIAL_STACK_ALIGN_def mult.commute split: if_splits)
  from push_strings_spec[OF a] have
    A: "length st1 = pg" "sp1 \<le> pg"
      "list_all2 (\<lambda>q s. \<exists>off. q = wrap_add base off \<and> sp1 \<le> off \<and> off < pg \<and> cstr_at st1 off s) ap argv"
    by auto
  from push_strings_spec[OF e] A have
    B: "length st2 = pg" "sp2 \<le> sp1" "drop sp1 st2 = drop sp1 st1"
      "list_all2 (\<lambda>q s. \<exists>off. q = wrap_add base off \<and> sp2 \<le> off \<and> off < sp1 \<and> cstr_at st2 off s) ep envp"
    by auto
  have le: "sp + 8 * length ?ws \<le> sp2"
    using fit unfolding sp by (metis add_le_mono1 div_times_less_eq_dividend le_add_diff_inverse2)
  have keep: "cstr_at stack off s = cstr_at st2 off s" if "sp2 \<le> off" for off s
    using le that B(1,2) A(2) put_slice_above[of sp "words_bytes ?ws" sp2 st2]
    by (intro cstr_at_drop[of sp2]) (auto simp: stack)
  have "strings_at stack base pg ap argv" unfolding strings_at_def
    using A(3) by (rule list_all2_mono) (use cstr_at_drop[OF B(3)] keep B(2) assms(2) in fastforce)
  moreover have "strings_at stack base pg ep envp" unfolding strings_at_def
    using B(4) by (rule list_all2_mono) (use keep A(2) assms(2) in fastforce)
  ultimately show thesis using le B(1,2) A(2) sp by (intro that[OF stack]) simp_all
qed

lemma stack_word_nth:
  assumes "stack = put_slice sp (words_bytes ws) st" and "sp + 8 * length ws \<le> length st"
    and "i < length ws" and "ws ! i = v" and "v \<le> usize_max"
  shows "stack_word stack sp i = v"
proof -
  have "take 8 (drop (sp + 8 * i) stack) = usize_to_bytes (ws ! i)"
    using assms(1-3) put_slice_inside[of sp st "8 * i" 8 "words_bytes ws"] by (simp add: words_bytes_at)
  then show ?thesis using assms(4,5) by (simp add: stack_word_def usize_bytes_roundtrip)
qed

lemma stack_strings:
  assumes "strings_at stack base pg ptrs ss" and "base + pg \<le> usize_max" and "k < length ss"
    and "\<And>v. ptrs ! k = v \<Longrightarrow> v \<le> usize_max \<Longrightarrow> stack_word stack sp i = v"
  shows "\<exists>off < pg. stack_word stack sp i = base + off \<and> cstr_at stack off (ss ! k)"
proof -
  from assms(1,3) obtain off where "off < pg" "ptrs ! k = base + off" "cstr_at stack off (ss ! k)"
    by (auto simp: strings_at_def dest: list_all2_nthD2)
  with assms(2) assms(4)[of "base + off"] show ?thesis by auto
qed

text \<open>
  C24: a program finds its arguments, its environment and the auxiliary vector on the initial
  stack. The stack pointer is aligned and the words above it lie inside the page; the first
  is the number of arguments, the next ones point to copies of the arguments, in order and
  zero-terminated, followed by a null word; then the same for the environment; then the
  pairs of the auxiliary vector, key before value, in order, and a pair of null words.
  Nothing that is pushed later overwrites a string.
\<close>

theorem build_stack_layout:
  assumes "build_stack pg base argv envp auxv = Ok (stack, sp)" and "base + pg \<le> usize_max"
    and aux: "\<forall>(k, v) \<in> set auxv. k \<le> usize_max \<and> v \<le> usize_max"
  shows "length stack = pg \<and> 16 dvd sp \<and> sp + 8 * (length argv + length envp + 5 + 2 * length auxv) \<le> pg \<and>
    stack_word stack sp 0 = length argv \<and>
    (\<forall>k < length argv. \<exists>off < pg. stack_word stack sp (1 + k) = base + off \<and> cstr_at stack off (argv ! k)) \<and>
    stack_word stack sp (1 + length argv) = 0 \<and>
    (\<forall>k < length envp. \<exists>off < pg. stack_word stack sp (2 + length argv + k) = base + off \<and>
       cstr_at stack off (envp ! k)) \<and>
    stack_word stack sp (2 + length argv + length envp) = 0 \<and>
    (\<forall>j < length auxv. stack_word stack sp (3 + length argv + length envp + 2 * j) = fst (auxv ! j) \<and>
       stack_word stack sp (3 + length argv + length envp + 2 * j + 1) = snd (auxv ! j)) \<and>
    stack_word stack sp (3 + length argv + length envp + 2 * length auxv) = 0 \<and>
    stack_word stack sp (3 + length argv + length envp + 2 * length auxv + 1) = 0"
proof -
  from build_stack_parts[OF assms(1,2)] obtain ap ep st where
    stack: "stack = put_slice sp (words_bytes (stack_words ap ep auxv)) st" and st: "length st = pg"
    and fit: "sp + 8 * length (stack_words ap ep auxv) \<le> pg" and al: "16 dvd sp"
    and strs: "strings_at stack base pg ap argv" "strings_at stack base pg ep envp" .
  from strs have lens: "length ap = length argv" "length ep = length envp"
    by (auto simp: strings_at_def dest: list_all2_lengthD)
  note long = stack_words_length[of ap ep auxv, unfolded lens]
  note word = stack_word_nth[OF stack fit[folded st]]
  note nth = stack_words_nth(1,3,5)[of ap ep auxv, unfolded lens] stack_words_nth(2)[of _ ap ep auxv, unfolded lens]
    stack_words_nth(4)[of _ ep ap auxv, unfolded lens]
  note auxs = stack_words_aux(3,4)[of ap ep auxv, unfolded lens] stack_words_aux(1,2)[of _ auxv ap ep, unfolded lens]
  have sz: "sp + 8 * (length argv + length envp + 5 + 2 * length auxv) \<le> pg" using fit long by simp
  have val: "fst (auxv ! j) \<le> usize_max" "snd (auxv ! j) \<le> usize_max" if "j < length auxv" for j
    using aux nth_mem[OF that] by (auto simp: case_prod_beta)
  show ?thesis
  proof (intro conjI; (intro allI impI conjI)?)
    show "stack_word stack sp 0 = length argv" using long sz assms(2)
      by (intro word nth) (simp_all flip: length_greater_0_conv)
    show "stack_word stack sp (1 + length argv) = 0" using long by (intro word nth) simp_all
    show "stack_word stack sp (2 + length argv + length envp) = 0" using long by (intro word nth) simp_all
    show "stack_word stack sp (3 + length argv + length envp + 2 * length auxv) = 0" using long by (intro word auxs) simp_all
    show "stack_word stack sp (3 + length argv + length envp + 2 * length auxv + 1) = 0" using long by (intro word auxs) simp_all
  next
    fix k assume "k < length argv"
    then show "\<exists>off < pg. stack_word stack sp (1 + k) = base + off \<and> cstr_at stack off (argv ! k)"
      using long nth(4) by (intro stack_strings[OF strs(1) assms(2)] word) simp_all
  next
    fix k assume "k < length envp"
    then show "\<exists>off < pg. stack_word stack sp (2 + length argv + k) = base + off \<and> cstr_at stack off (envp ! k)"
      using long nth(5) by (intro stack_strings[OF strs(2) assms(2)] word) simp_all
  next
    fix j assume j: "j < length auxv"
    then show "stack_word stack sp (3 + length argv + length envp + 2 * j) = fst (auxv ! j)"
      "stack_word stack sp (3 + length argv + length envp + 2 * j + 1) = snd (auxv ! j)"
      using long val[OF j] by (intro word auxs; simp)+
  qed (use sz al stack st fit in simp_all)
qed

theorem build_stack_layout_witness:
  "\<exists>stack sp. build_stack 4096 0x1000 [''sh''] [''A''] [(6, 4096)] = Ok (stack, sp) \<and> stack_word stack sp 0 = 1 \<and>
     stack_word stack sp 2 = 0 \<and> stack_word stack sp 5 = 6 \<and> stack_word stack sp 6 = 4096"
proof -
  obtain stack sp where run: "build_stack 4096 0x1000 [''sh''] [''A''] [(6, 4096)] = Ok (stack, sp)"
    by (simp add: build_stack_def Let_def stack_words_def INITIAL_STACK_ALIGN_def checked_add_def usize_max_def
        string_bytes_def)
  note layout = build_stack_layout[OF run]
  have n: "3 + length [''sh''] + length [''A''] + 2 * 0 = (5 :: nat)" "3 + length [''sh''] + length [''A''] + 2 * 0 + 1 = (6 :: nat)"
    "1 + length [''sh''] = 2" "length [''sh''] = 1" "0 < length [(6, 4096) :: nat \<times> nat]" by simp_all
  have "stack_word stack sp 5 = 6 \<and> stack_word stack sp 6 = 4096 \<and> stack_word stack sp 0 = 1 \<and> stack_word stack sp 2 = 0"
    using layout n by (auto simp: usize_max_def simp del: One_nat_def)
  with run show ?thesis by blast
qed

end
