(* ===== verification/Sys_Misc.thy ===== *)
theory Sys_Misc
  imports Meta Sys_Signal
begin

text \<open>
  Clocks (\<open>src/src/system/time.rs\<close>), polling (\<open>src/src/system/poll.rs\<close>)
  and the small calls (\<open>src/src/system/misc.rs\<close>). The loop of
  \<open>ppoll\<close> may run forever: it takes fuel and its result is \<open>None\<close>
  when the fuel runs out.
\<close>

section \<open>Clocks\<close>

definition UTS_STR_LEN :: usize where "UTS_STR_LEN = 64 + 1"
definition NSEC_PER_USEC :: usize where "NSEC_PER_USEC = 1000"
definition TIMES_CLK_TCK :: usize where "TIMES_CLK_TCK = 100"

definition i64_saturate :: "nat \<Rightarrow> int" where
  "i64_saturate n = min (int n) i64_max"

definition ns_to_timeval :: "usize \<Rightarrow> timespec" where
  "ns_to_timeval ns =
     \<lparr>tv_sec = i64_saturate (ns div NSEC_PER_SEC), tv_nsec = int (ns mod NSEC_PER_SEC div NSEC_PER_USEC)\<rparr>"

definition read_timespec_arg :: "('i, 'w) env \<Rightarrow> usize \<Rightarrow> usize \<Rightarrow> ('i, 'p, 'w, timespec) ape_prog" where
  "read_timespec_arg E p ptr = (if ptr = 0 then throw InvalidAddress else read_user_timespec E p ptr)"

definition select_clock_source :: "usize \<Rightarrow> bool option" where
  "select_clock_source clockid =
     (let c = clockid mod 2 ^ 32 in
      if c \<in> {CLOCK_REALTIME, CLOCK_REALTIME_COARSE, CLOCK_REALTIME_ALARM, CLOCK_TAI} then Some True
      else if c \<in> {CLOCK_MONOTONIC, CLOCK_MONOTONIC_RAW, CLOCK_MONOTONIC_COARSE, CLOCK_BOOTTIME,
                   CLOCK_BOOTTIME_ALARM, CLOCK_PROCESS_CPUTIME_ID, CLOCK_THREAD_CPUTIME_ID} then Some False
      else None)"

definition has_deliverable_signal :: "('i, 'p, 'w) ape \<Rightarrow> usize \<Rightarrow> bool" where
  "has_deliverable_signal s p =
     (case get_process s p of None \<Rightarrow> False | Some t \<Rightarrow> deliverable (task_signal t) \<noteq> 0)"

definition write_cstr :: "string \<Rightarrow> byte list" where
  "write_cstr src =
     (let bytes = string_bytes src; n = min (length bytes) (UTS_STR_LEN - 1)
      in take n bytes @ replicate (UTS_STR_LEN - n) 0)"

definition do_uname :: "('i, 'w) env \<Rightarrow> usize \<Rightarrow> usize \<Rightarrow> ('i, 'p, 'w, int) ape_prog" where
  "do_uname E p ubuf =
     andThen (write_obj_to_user E p ubuf (concat (map write_cstr (uts_names (lib E))))) (\<lambda>_. ret 0)"

definition do_prlimit64 :: "('i, 'w) env \<Rightarrow> usize \<Rightarrow> usize \<Rightarrow> usize \<Rightarrow> usize \<Rightarrow> usize \<Rightarrow> ('i, 'p, 'w, int) ape_prog" where
  "do_prlimit64 E p target resource new_limit old_limit =
     andThen (whenM (old_limit \<noteq> 0)
       (write_obj_to_user E p old_limit (usize_to_bytes usize_max @ usize_to_bytes usize_max))) (\<lambda>_. ret 0)"

definition do_clock_gettime :: "('i, 'w) env \<Rightarrow> usize \<Rightarrow> usize \<Rightarrow> usize \<Rightarrow> ('i, 'p, 'w, int) ape_prog" where
  "do_clock_gettime E p clockid tp =
     (if tp = 0 then throw InvalidAddress
      else
        case select_clock_source clockid of
          None \<Rightarrow> ret (- EINVAL)
        | Some use_realtime \<Rightarrow>
            andThen (ext (if use_realtime then time_now (procs E) else mono_now (procs E))) (\<lambda>ns.
            andThen (write_obj_to_user E p tp (timespec_bytes (ns_to_timespec ns))) (\<lambda>_.
            ret 0)))"

definition do_gettimeofday :: "('i, 'w) env \<Rightarrow> usize \<Rightarrow> usize \<Rightarrow> usize \<Rightarrow> ('i, 'p, 'w, int) ape_prog" where
  "do_gettimeofday E p tv tz =
     (if tv \<noteq> 0 then
        andThen (ext (time_now (procs E))) (\<lambda>ns.
        andThen (write_obj_to_user E p tv (timespec_bytes (ns_to_timeval ns))) (\<lambda>_.
        ret 0))
      else ret 0)"

definition clock_ticks :: "usize \<Rightarrow> usize" where
  "clock_ticks mono_ns =
     (if mono_ns * TIMES_CLK_TCK > usize_max then usize_max else mono_ns * TIMES_CLK_TCK div NSEC_PER_SEC)"

definition do_times :: "('i, 'w) env \<Rightarrow> usize \<Rightarrow> usize \<Rightarrow> ('i, 'p, 'w, int) ape_prog" where
  "do_times E p tms_ptr =
     andThen (ext (mono_now (procs E))) (\<lambda>mono_ns.
     andThen (whenM (tms_ptr \<noteq> 0) (write_obj_to_user E p tms_ptr (replicate 32 0))) (\<lambda>_.
     ret (i64_saturate (clock_ticks mono_ns))))"

definition do_nanosleep :: "('i, 'w) env \<Rightarrow> usize \<Rightarrow> usize \<Rightarrow> usize \<Rightarrow> ('i, 'p, 'w, int) ape_prog" where
  "do_nanosleep E p req rem =
     andThen (read_timespec_arg E p req) (\<lambda>req_ts.
     andThen (map_err InvalidArgs (lift_res (timespec_to_ns req_ts))) (\<lambda>req_ns.
     if req_ns = 0 then
       andThen (whenM (rem \<noteq> 0) (write_obj_to_user E p rem (timespec_bytes \<lparr>tv_sec = 0, tv_nsec = 0\<rparr>))) (\<lambda>_.
       ret 0)
     else
       andThen (gets (\<lambda>s. has_deliverable_signal s p)) (\<lambda>sig.
       if sig then
         andThen (whenM (rem \<noteq> 0) (write_obj_to_user E p rem (timespec_bytes req_ts))) (\<lambda>_.
         ret (- EINTR))
       else
         andThen (schedule_nanosleep_async E p req_ns rem) (\<lambda>_. throw Success))))"

section \<open>Polling\<close>

definition PPOLL_SLEEP_MS :: usize where "PPOLL_SLEEP_MS = 4"

definition poll_deadline :: "('i, 'w) env \<Rightarrow> usize \<Rightarrow> usize \<Rightarrow> ('i, 'p, 'w, usize option) ape_prog" where
  "poll_deadline E p timeout_ptr =
     (if timeout_ptr = 0 then ret None
      else
        andThen (read_timespec_arg E p timeout_ptr) (\<lambda>t.
        andThen (lift_res (timespec_to_ns t)) (\<lambda>ns.
        andThen (ext (mono_now (procs E))) (\<lambda>now.
        ret (Some (sat_add now ns))))))"

definition poll_fd_once :: "('i, 'w) env \<Rightarrow> usize \<Rightarrow> nat \<Rightarrow> 32 word \<Rightarrow> ('i, 'p, 'w, 32 word) ape_prog" where
  "poll_fd_once E p fd events =
     andThen (take_fd p fd) (\<lambda>h.
     case file_type h of Normal n \<Rightarrow>
       andThen (attempt (ext (fs_poll (fss E) (nf_fs_client n) events))) (\<lambda>r.
       andThen (modify (put_fd p fd h)) (\<lambda>_.
       case r of Inl e \<Rightarrow> throw e | Inr revents \<Rightarrow> ret revents)))"

text \<open>
  A \<open>pollfd\<close> is a signed descriptor, the requested and the returned events. The
  requested events are extended with their sign, the returned ones cut to 16 bits.
\<close>

definition pfd_fd :: "byte list \<Rightarrow> int" where
  "pfd_fd raw = sint (word_of_nat (bytes_to_nat (take 4 raw)) :: 32 word)"

definition pfd_events :: "byte list \<Rightarrow> 32 word" where
  "pfd_events raw = word_of_int (sint (word_of_nat (bytes_to_nat (take 2 (drop 4 raw))) :: 16 word))"

definition pfd_reply :: "byte list \<Rightarrow> nat \<Rightarrow> byte list" where
  "pfd_reply raw revents = take 6 raw @ take 2 (usize_to_bytes revents)"

definition poll_entry :: "('i, 'w) env \<Rightarrow> usize \<Rightarrow> byte list \<Rightarrow> ('i, 'p, 'w, nat \<times> nat) ape_prog" where
  "poll_entry E p raw =
     (if pfd_fd raw \<ge> 0 then
        let fd = nat (pfd_fd raw) in
        andThen (task_or NotFound p) (\<lambda>t.
        if \<not> bt_contains (fds (task_files t)) fd then ret (POLLNVAL, 1)
        else
          andThen (poll_fd_once E p fd (pfd_events raw)) (\<lambda>revents.
          ret (unat (revents AND 0xffff), if revents \<noteq> 0 then 1 else 0)))
      else ret (0, 0))"

fun poll_scan :: "('i, 'w) env \<Rightarrow> usize \<Rightarrow> usize \<Rightarrow> nat list \<Rightarrow> nat \<Rightarrow> ('i, 'p, 'w, nat) ape_prog" where
  "poll_scan E p fds_ptr [] ready = ret ready"
| "poll_scan E p fds_ptr (i # is) ready =
     andThen (lift_res (ok_or (if i * 8 > usize_max then None else checked_add fds_ptr (i * 8)) InvalidAddress)) (\<lambda>a.
     andThen (copy_from_user E p a 8) (\<lambda>raw.
     andThen (poll_entry E p raw) (\<lambda>(revents, hit).
     andThen (copy_to_user E p a (pfd_reply raw revents)) (\<lambda>_.
     poll_scan E p fds_ptr is (ready + hit)))))"

definition poll_scan_once :: "('i, 'w) env \<Rightarrow> usize \<Rightarrow> usize \<Rightarrow> usize \<Rightarrow> ('i, 'p, 'w, nat) ape_prog" where
  "poll_scan_once E p fds_ptr nfds = poll_scan E p fds_ptr [0..<nfds] 0"

definition poll_sleep_ms :: "usize \<Rightarrow> usize option \<Rightarrow> usize" where
  "poll_sleep_ms now deadline =
     (case deadline of
        None \<Rightarrow> PPOLL_SLEEP_MS
      | Some d \<Rightarrow> max 1 (min PPOLL_SLEEP_MS (div_ceil (sat_sub d now) 1000000)))"

fun ppoll_loop :: "nat \<Rightarrow> ('i, 'w) env \<Rightarrow> usize \<Rightarrow> usize \<Rightarrow> usize \<Rightarrow> usize option \<Rightarrow> ('i, 'p, 'w, int option) ape_prog" where
  "ppoll_loop 0 E p fds_ptr nfds deadline = ret None"
| "ppoll_loop (Suc fuel) E p fds_ptr nfds deadline =
     andThen (poll_scan_once E p fds_ptr nfds) (\<lambda>ready.
     if ready > 0 then ret (Some (i64_of_nat ready))
     else
       andThen (gets (\<lambda>s. has_deliverable_signal s p)) (\<lambda>sig.
       if sig then ret (Some (- EINTR))
       else
         andThen (ext (mono_now (procs E))) (\<lambda>now.
         if (case deadline of Some d \<Rightarrow> now \<ge> d | None \<Rightarrow> False) then ret (Some 0)
         else
           andThen (ext (time_sleep (procs E) (poll_sleep_ms now deadline))) (\<lambda>_.
           ppoll_loop fuel E p fds_ptr nfds deadline))))"

text \<open>
  The temporary mask is installed before the loop and the old one restored after it,
  also when the loop fails; a failed import of the mask ends the call before.
\<close>

definition set_blocked_of :: "usize \<Rightarrow> 64 word \<Rightarrow> ('i, 'p, 'w) ape \<Rightarrow> ('i, 'p, 'w) ape" where
  "set_blocked_of p msk = upd_task p (upd_signal (set_blocked msk))"

definition do_ppoll ::
  "nat \<Rightarrow> ('i, 'w) env \<Rightarrow> usize \<Rightarrow> usize \<Rightarrow> usize \<Rightarrow> usize \<Rightarrow> usize \<Rightarrow> usize \<Rightarrow> ('i, 'p, 'w, int option) ape_prog" where
  "do_ppoll fuel E p fds_ptr nfds timeout sigmask sz =
     (if nfds = 0 then ret (Some 0)
      else if fds_ptr = 0 then throw InvalidAddress
      else if nfds > 4096 then throw InvalidArgs
      else if sigmask \<noteq> 0 \<and> \<not> has_valid_sigset_size sz then ret (Some (- EINVAL))
      else
        andThen (if sigmask \<noteq> 0 then
                   andThen (task_or NotFound p) (\<lambda>t.
                   andThen (import_sigset E p sigmask sz) (\<lambda>m.
                   andThen (modify (set_blocked_of p m)) (\<lambda>_.
                   ret (Some (get_blocked (task_signal t))))))
                 else ret None) (\<lambda>old_mask.
        andThen (attempt (
          andThen (map_err InvalidArgs (poll_deadline E p timeout)) (\<lambda>deadline.
          ppoll_loop fuel E p fds_ptr nfds deadline))) (\<lambda>r.
        andThen (case old_mask of None \<Rightarrow> ret () | Some m \<Rightarrow> modify (set_blocked_of p m)) (\<lambda>_.
        case r of Inl e \<Rightarrow> throw e | Inr v \<Rightarrow> ret v))))"

section \<open>Identity and the calls without effect\<close>

definition load_identity :: "('i, 'w) env \<Rightarrow> usize \<Rightarrow> ('i, 'p, 'w, 'i) ape_prog" where
  "load_identity E p =
     andThen (attempt (ext (auth_get_identity (procs E) p))) (\<lambda>r.
     case r of
       Inr idn \<Rightarrow> andThen (modify (upd_task p (\<lambda>t. t\<lparr>task_cred := idn\<rparr>))) (\<lambda>_. ret idn)
     | Inl _ \<Rightarrow> andThen (task_or NotFound p) (\<lambda>t. ret (task_cred t)))"

definition do_getrandom :: "('i, 'w) env \<Rightarrow> usize \<Rightarrow> usize \<Rightarrow> usize \<Rightarrow> usize \<Rightarrow> ('i, 'p, 'w, int) ape_prog" where
  "do_getrandom E p ubuf len flags =
     (if len = 0 then ret 0
      else andThen (write_zeros_to_user E p ubuf len) (\<lambda>_. ret (i64_of_nat len)))"

definition do_getuid :: "('i, 'w) env \<Rightarrow> usize \<Rightarrow> ('i, 'p, 'w, int) ape_prog" where
  "do_getuid E p = andThen (load_identity E p) (\<lambda>idn. ret (i64_of_nat (identity_uid (procs E) idn)))"

definition do_geteuid :: "('i, 'w) env \<Rightarrow> usize \<Rightarrow> ('i, 'p, 'w, int) ape_prog" where
  "do_geteuid E p = andThen (load_identity E p) (\<lambda>idn. ret (i64_of_nat (identity_euid (procs E) idn)))"

definition do_getgid :: "('i, 'w) env \<Rightarrow> usize \<Rightarrow> ('i, 'p, 'w, int) ape_prog" where
  "do_getgid E p = andThen (load_identity E p) (\<lambda>idn. ret (i64_of_nat (identity_gid (procs E) idn)))"

definition do_getegid :: "('i, 'w) env \<Rightarrow> usize \<Rightarrow> ('i, 'p, 'w, int) ape_prog" where
  "do_getegid E p = andThen (load_identity E p) (\<lambda>idn. ret (i64_of_nat (identity_egid (procs E) idn)))"

definition do_sched_yield :: "usize \<Rightarrow> ('i, 'p, 'w, int) ape_prog" where
  "do_sched_yield p = ret 0"

definition do_prctl :: "usize \<Rightarrow> usize list \<Rightarrow> ('i, 'p, 'w, int) ape_prog" where
  "do_prctl p args = ret 0"

definition do_futex :: "('i, 'w) env \<Rightarrow> usize \<Rightarrow> usize \<Rightarrow> ('i, 'p, 'w, int) ape_prog" where
  "do_futex E p op =
     (case classify_futex_op (lib E) op of
        FutexWake \<Rightarrow> ret 0 | FutexWait \<Rightarrow> ret (- EAGAIN) | FutexOther \<Rightarrow> ret 0)"

section \<open>Properties\<close>

text \<open>
  Converting nanoseconds to a time structure and back is the identity over the whole
  range of the 64-bit clock, and the structure is always a valid argument.
\<close>

theorem timespec_roundtrip:
  assumes "ns \<le> usize_max"
  shows "timespec_to_ns (ns_to_timespec ns) = Ok ns"
proof -
  define a b where "a = ns div 1000000000" and "b = ns mod 1000000000"
  have ns: "ns = a * 1000000000 + b" unfolding a_def b_def by (rule div_mult_mod_eq[symmetric])
  have b: "b < 1000000000" by (simp add: b_def)
  from ns assms have le: "a * 1000000000 \<le> usize_max" by linarith
  then have "int a \<le> i64_max" by (simp add: usize_max_def i64_max_def)
  moreover from b have "int b \<le> i64_max" by (simp add: i64_max_def)
  ultimately show ?thesis
    using le b assms unfolding ns_to_timespec_def NSEC_PER_SEC_def a_def[symmetric] b_def[symmetric]
    by (simp add: timespec_to_ns_def NSEC_PER_SEC_def Let_def checked_add_def ns)
qed

theorem timespec_roundtrip_witness:
  "timespec_to_ns (ns_to_timespec usize_max) = Ok usize_max"
  using timespec_roundtrip[of usize_max] by simp

text \<open>Polling leaves the signal state of the process alone.\<close>

abbreviation sig_is :: "usize \<Rightarrow> signal_struct option \<Rightarrow> ('i, 'p, 'w) ape \<Rightarrow> bool" where
  "sig_is p x s \<equiv> map_option task_signal (get_process s p) = x"

lemma user_access_sig [keeps_intro]:
  fixes E :: "('i, 'w) env"
  shows "keeps (sig_is p x) (copy_from_user E p a n)" "keeps (sig_is p x) (copy_to_user E p a bs)"
proof -
  have step: "sig_is p x s \<Longrightarrow> mem_only p s s' \<Longrightarrow> sig_is p x s'" for s s' :: "('i, 'p, 'w) ape"
    by (auto simp: mem_only_def option.map_comp o_def upd_mem_def)
  show "keeps (sig_is p x) (copy_from_user E p a n)"
    by (rule keeps_mem_pred[of p]) (rule user_access_mem, rule step)
  show "keeps (sig_is p x) (copy_to_user E p a bs)"
    by (rule keeps_mem_pred[of p]) (rule user_access_mem, rule step)
qed

lemma poll_fd_once_sig [keeps_intro]: "keeps (sig_is p x) (poll_fd_once E p fd ev)"
proof -
  have sig: "task_signal (upd_files f t) = task_signal t" for f t by (simp add: upd_files_def)
  show ?thesis
    unfolding poll_fd_once_def take_fd_def put_fd_def
    by (auto intro!: keeps_intro keeps_ext keeps_modify simp: option.map_comp o_def sig
        split: file_type.split)
qed

lemma poll_scan_sig [keeps_intro]: "keeps (sig_is p x) (poll_scan E p a is n)"
proof (induction "is" arbitrary: n)
  case (Cons i "is")
  then show ?case
    unfolding poll_scan.simps poll_entry_def by (auto intro!: keeps_intro simp: Let_def)
qed (simp add: keeps_intro)

lemma ppoll_loop_sig [keeps_intro]: "keeps (sig_is p x) (ppoll_loop fuel E p a n d)"
proof (induction fuel)
  case (Suc fuel)
  then show ?case
    unfolding ppoll_loop.simps poll_scan_once_def by (auto intro!: keeps_intro keeps_ext simp: Let_def)
qed (simp add: keeps_intro)

lemma poll_body_sig:
  "keeps (sig_is p x) (attempt (andThen (map_err InvalidArgs (poll_deadline E p timeout)) (\<lambda>deadline.
     ppoll_loop fuel E p a n deadline)))"
  unfolding map_err_def poll_deadline_def read_timespec_arg_def read_user_timespec_def
  by (auto intro!: keeps_intro keeps_ext)

lemma andThen_run: "m s = (Ok v, s1) \<Longrightarrow> andThen m f s = f v s1"
  and andThen_fail: "m s = (Err e, s1) \<Longrightarrow> andThen m f s = (Err e, s1)"
  by (simp_all add: andThen_def)

lemma and_not_eq_self:
  fixes a m :: "64 word"
  assumes "a AND m = 0"
  shows "a AND NOT m = a"
proof (rule bit_word_eqI)
  fix i assume "i < LENGTH(64)"
  moreover have "\<not> bit (a AND m) i" using assms by simp
  ultimately show "bit (a AND NOT m) i = bit a i" by (auto simp: bit_simps)
qed

lemma masked_end:
  assumes "andThen (attempt b) (\<lambda>r.
      andThen (case old of None \<Rightarrow> ret () | Some m \<Rightarrow> modify (set_blocked_of p m)) (\<lambda>_.
      case r of Inl e \<Rightarrow> throw e | Inr v \<Rightarrow> ret v)) s = (r, s')" and "r \<noteq> Panic"
  shows "s' = (case old of None \<Rightarrow> snd (attempt b s) | Some m \<Rightarrow> set_blocked_of p m (snd (attempt b s)))"
  using assms by (cases "b s"; cases "fst (b s)") (auto simp: monad_simps split: option.splits)

text \<open>The mask that was there before comes back after the polling, when the new one was installed.\<close>

lemma ppoll_masked:
  assumes run: "do_ppoll fuel E p a n timeout sigmask sz s = (r, s')" "r \<noteq> Panic"
    and args: "n \<noteq> 0 \<and> a \<noteq> 0 \<and> n \<le> 4096 \<and> \<not> (sigmask \<noteq> 0 \<and> \<not> has_valid_sigset_size sz)" "sigmask \<noteq> 0"
    and t: "get_process s p = Some t" "get_blocked (task_signal t) AND SIGNAL_UNBLOCKABLE_MASK = 0"
    and imp: "import_sigset E p sigmask sz s = (Ok m, s1)" and s1: "sig_is p (Some (task_signal t)) s1"
  shows "\<exists>t'. get_process s' p = Some t' \<and> get_blocked (task_signal t') = get_blocked (task_signal t)"
proof -
  let ?body = "andThen (map_err InvalidArgs (poll_deadline E p timeout)) (\<lambda>deadline.
     ppoll_loop fuel E p a n deadline)"
  let ?s2 = "snd (attempt ?body (set_blocked_of p m s1))"
  have "sig_is p (Some (set_blocked m (task_signal t))) (set_blocked_of p m s1)"
    using s1 by (auto simp: set_blocked_of_def upd_signal_def)
  then have "sig_is p (Some (set_blocked m (task_signal t))) ?s2" by (rule keeps_state[OF poll_body_sig])
  moreover have "andThen (task_or NotFound p) (\<lambda>t. andThen (import_sigset E p sigmask sz) (\<lambda>m.
      andThen (modify (set_blocked_of p m)) (\<lambda>_. ret (Some (get_blocked (task_signal t)))))) s =
      (Ok (Some (get_blocked (task_signal t))), set_blocked_of p m s1)"
    using imp t(1) by (simp add: monad_simps task_or_def)
  then have "s' = set_blocked_of p (get_blocked (task_signal t)) ?s2"
    using masked_end[where old = "Some (get_blocked (task_signal t))"] run args by (simp add: do_ppoll_def andThen_run) blast
  moreover have "get_blocked (task_signal t) AND NOT SIGNAL_UNBLOCKABLE_MASK = get_blocked (task_signal t)"
    using t(2) by (rule and_not_eq_self)
  ultimately show ?thesis by (auto simp: set_blocked_of_def upd_signal_def get_blocked_def set_blocked_def)
qed

text \<open>
  C35: \<open>ppoll\<close> gives the process its signal mask back: whatever mask was asked for
  and whether the call succeeds, times out, is interrupted or fails, the blocked signals
  after the call are those before it.
\<close>

theorem ppoll_restores_mask:
  assumes "do_ppoll fuel E p a n timeout sigmask sz s = (r, s')" and "r \<noteq> Panic"
    and "get_process s p = Some t" and "get_blocked (task_signal t) AND SIGNAL_UNBLOCKABLE_MASK = 0"
  shows "\<exists>t'. get_process s' p = Some t' \<and> get_blocked (task_signal t') = get_blocked (task_signal t)"
proof (cases "n \<noteq> 0 \<and> a \<noteq> 0 \<and> n \<le> 4096 \<and> \<not> (sigmask \<noteq> 0 \<and> \<not> has_valid_sigset_size sz)")
  case False
  with assms(1,3) show ?thesis by (auto simp: do_ppoll_def monad_simps split: if_splits)
next
  case args: True
  let ?body = "andThen (map_err InvalidArgs (poll_deadline E p timeout)) (\<lambda>deadline.
     ppoll_loop fuel E p a n deadline)"
  have body: "sig_is p x z \<Longrightarrow> sig_is p x (snd (attempt ?body z))" for x z
    by (rule keeps_state[OF poll_body_sig])
  show ?thesis
  proof (cases "sigmask = 0")
    case True
    then have "s' = snd (attempt ?body s)"
      using masked_end[where old = None and p = p] assms(1,2) args by (simp add: do_ppoll_def) blast
    with body[of s "Some (task_signal t)"] assms(3) show ?thesis by auto
  next
    case False
    obtain y s1 where imp: "import_sigset E p sigmask sz s = (y, s1)" by fastforce
    have "keeps (sig_is p z) (import_sigset E p sigmask sz)" for z
      unfolding import_sigset_def by (auto intro!: keeps_intro)
    from keepsD[OF this _ imp] assms(3) have s1: "sig_is p (Some (task_signal t)) s1" by simp
    let ?pre = "andThen (task_or NotFound p) (\<lambda>t. andThen (import_sigset E p sigmask sz) (\<lambda>m.
      andThen (modify (set_blocked_of p m)) (\<lambda>_. ret (Some (get_blocked (task_signal t))))))"
    show ?thesis
    proof (cases y)
      case (Ok m)
      with imp have "import_sigset E p sigmask sz s = (Ok m, s1)" by simp
      from ppoll_masked[OF assms(1,2) args False assms(3,4) this s1] show ?thesis .
    next
      case (Err e)
      then have "?pre s = (Err e, s1)" using imp assms(3) by (simp add: monad_simps task_or_def)
      with assms(1) args False have "s' = s1" by (simp add: do_ppoll_def andThen_fail)
      with s1 show ?thesis by auto
    next
      case Panic
      then have "?pre s = (Panic, s1)" using imp assms(3) by (simp add: monad_simps task_or_def)
      with assms(1,2) args False show ?thesis by (simp add: do_ppoll_def andThen_def)
    qed
  qed
qed

text \<open>
  A process that blocks signal 2 polls a descriptor it does not have, with an empty mask.
\<close>

definition blocking_task :: "unit task_struct" where
  "blocking_task = upd_signal (set_blocked 2) example_mem_task"

lemma example_poll_memory:
  assumes "get_process s 1 = Some (upd_signal g example_mem_task)"
  shows "copy_from_user example_env 1 0x20010ff8 8 s = (Ok (replicate 8 0), s)"
    "length bytes = 8 \<Longrightarrow> copy_to_user example_env 1 0x20010ff8 bytes s = (Ok (), s)"
proof -
  have m: "task_mem (upd_signal g example_mem_task) = task_mem example_mem_task"
    by (simp add: upd_signal_def task_mem_def)
  have look: "lookup_map example_env 1 0x20010ff8 prm s = (Ok example_page, s)" if "prm \<subseteq> map_flags example_page" for prm
    by (rule example_lookup_map[OF assms])
      (use that m in \<open>simp_all add: example_page_def covers_def usize_max_def example_mem_task_simps lookup_memory_map_def
        lookup_in_def bt_last_le_def task_mem_def upd_mem_def\<close>)
  show "copy_from_user example_env 1 0x20010ff8 8 s = (Ok (replicate 8 0), s)"
    by (rule example_copy_from[OF look]) (simp_all add: example_page_def)
  show "copy_to_user example_env 1 0x20010ff8 bytes s = (Ok (), s)" if "length bytes = 8"
    by (rule example_copy_to[OF look]) (use that in \<open>simp_all add: example_page_def\<close>)
qed

lemma example_ppoll_loop:
  assumes "get_process s 1 = Some (upd_signal g example_mem_task)"
  shows "ppoll_loop (Suc 0) example_env 1 0x20010ff8 1 deadline s = (Ok (Some 1), s)"
proof -
  have zero: "bytes_to_nat (replicate n 0) = 0" for n by (induction n) (simp_all add: bytes_to_nat_def)
  have fd: "pfd_fd (replicate 8 0) = 0" unfolding pfd_fd_def take_replicate zero by simp
  have f: "task_files (upd_signal g example_mem_task) = files_struct_new"
    by (simp add: upd_signal_def example_mem_task_def example_task_def task_struct_new_def upd_mem_def)
  have e: "poll_entry example_env 1 (replicate 8 0) s = (Ok (POLLNVAL, 1), s)"
    using assms by (simp add: poll_entry_def fd andThen_def task_or_def ret_def f files_struct_new_def bt_contains_def bt_get_def
        del: One_nat_def)
  have l: "length (pfd_reply (replicate 8 0) POLLNVAL) = 8" by (simp add: pfd_reply_def usize_to_bytes_def)
  have up: "[0..<1] = [0::nat]" by simp
  have "poll_scan_once example_env 1 0x20010ff8 1 s = (Ok 1, s)"
    unfolding poll_scan_once_def up poll_scan.simps
    by (simp add: andThen_def lift_res_def checked_add_def usize_max_def ret_def example_poll_memory(1)[OF assms] e
        example_poll_memory(2)[OF assms l] del: One_nat_def)
  then show ?thesis by (simp add: andThen_def ret_def i64_of_nat_def)
qed

theorem ppoll_restores_mask_witness:
  "\<exists>s' t'. do_ppoll 1 example_env 1 0x20010ff8 1 0 0x20010ff8 8 (example_ape [blocking_task]) = (Ok (Some 1), s') \<and>
     get_process s' 1 = Some t' \<and> get_blocked (task_signal t') = 2"
proof -
  let ?s = "example_ape [blocking_task]"
  have pid: "get_process ?s 1 = Some blocking_task"
    by (simp add: blocking_task_def example_mem_task_def example_task_def task_struct_new_def upd_mem_def upd_signal_def)
  have sig: "get_blocked (task_signal blocking_task) = 2" "get_blocked (task_signal blocking_task) AND SIGNAL_UNBLOCKABLE_MASK = 0"
    by (simp_all add: blocking_task_def upd_signal_def get_blocked_def set_blocked_def SIGNAL_UNBLOCKABLE_MASK_def)
  have zero: "bytes_to_nat (replicate n 0) = 0" for n by (induction n) (simp_all add: bytes_to_nat_def)
  have imp: "import_sigset example_env 1 0x20010ff8 8 ?s = (Ok 0, ?s)"
    using example_poll_memory(1)[OF pid[unfolded blocking_task_def], folded blocking_task_def]
    by (simp add: import_sigset_def has_valid_sigset_size_def SIGSET_BYTES_def monad_simps zero)
  have pre: "andThen (task_or NotFound 1) (\<lambda>t. andThen (import_sigset example_env 1 0x20010ff8 8) (\<lambda>m.
      andThen (modify (set_blocked_of 1 m)) (\<lambda>_. ret (Some (get_blocked (task_signal t)))))) ?s =
      (Ok (Some 2), set_blocked_of 1 0 ?s)"
    using imp pid sig by (simp add: andThen_run task_or_def del: One_nat_def) (simp add: monad_simps)
  have "get_process (set_blocked_of 1 0 ?s) 1 = Some (upd_signal (\<lambda>x. set_blocked 0 (set_blocked 2 x)) example_mem_task)"
    using pid by (simp add: set_blocked_of_def blocking_task_def upd_signal_def)
  note loop = example_ppoll_loop[OF this]
  let ?body = "andThen (map_err InvalidArgs (poll_deadline example_env 1 0)) (\<lambda>deadline.
      ppoll_loop (Suc 0) example_env 1 0x20010ff8 1 deadline)"
  have body: "attempt ?body (set_blocked_of 1 0 ?s) = (Ok (Inr (Some 1)), set_blocked_of 1 0 ?s)"
    using loop[of None]
    by (simp add: poll_deadline_def map_err_def attempt_def andThen_def ret_def del: ppoll_loop.simps One_nat_def)
  have "do_ppoll (Suc 0) example_env 1 0x20010ff8 1 0 0x20010ff8 8 ?s = andThen (attempt ?body) (\<lambda>r.
      andThen (modify (set_blocked_of 1 2)) (\<lambda>_. case r of Inl e \<Rightarrow> throw e | Inr v \<Rightarrow> ret v)) (set_blocked_of 1 0 ?s)"
    using pre
    by (simp add: do_ppoll_def andThen_run has_valid_sigset_size_def SIGSET_BYTES_def del: ppoll_loop.simps One_nat_def)
  then have "do_ppoll (Suc 0) example_env 1 0x20010ff8 1 0 0x20010ff8 8 ?s = (Ok (Some 1), set_blocked_of 1 2 (set_blocked_of 1 0 ?s))"
    unfolding andThen_def[of "attempt ?body"] body by (simp add: monad_simps)
  then obtain s' where run: "do_ppoll 1 example_env 1 0x20010ff8 1 0 0x20010ff8 8 ?s = (Ok (Some 1), s')"
    by simp
  from ppoll_restores_mask[OF run _ pid sig(2)] run sig(1) show ?thesis by auto
qed

end
