(* ===== verification/Job.thy ===== *)
theory Job
  imports Lifecycle
begin

text \<open>
  Sessions, process groups and \<open>kill\<close> (\<open>src/src/task/job.rs\<close>).
\<close>

definition job_encode_wait_stopped_status :: "usize \<Rightarrow> int" where
  "job_encode_wait_stopped_status sig = sint (push_bit 8 (word_of_nat sig :: 32 word) OR 0x7f)"

definition is_stop_signal :: "usize \<Rightarrow> bool" where
  "is_stop_signal sig \<longleftrightarrow> sig = SIGSTOP \<or> sig = SIGTSTP \<or> sig = SIGTTIN \<or> sig = SIGTTOU"

section \<open>Sessions and groups\<close>

definition do_setsid :: "usize \<Rightarrow> ('i, 'p, 'w, usize) ape_prog" where
  "do_setsid p =
     andThen (task_or NotFound p) (\<lambda>t.
     if process_group_id t = p then throw PermissionDenied
     else
       andThen (modify (upd_task p (\<lambda>t. t\<lparr>session_id := p, process_group_id := p, controlling_tty := 0\<rparr>))) (\<lambda>_.
       ret p))"

definition do_getsid :: "usize \<Rightarrow> usize \<Rightarrow> ('i, 'p, 'w, usize) ape_prog" where
  "do_getsid p target =
     andThen (task_or NotFound (if target = 0 then p else target)) (\<lambda>t. ret (session_id t))"

definition do_setpgid :: "usize \<Rightarrow> usize \<Rightarrow> usize \<Rightarrow> ('i, 'p, 'w, int) ape_prog" where
  "do_setpgid p target0 pgid =
     (let target = (if target0 = 0 then p else target0) in
      andThen (task_or NotFound p) (\<lambda>caller.
      andThen (task_or NotFound target) (\<lambda>t.
      if target \<noteq> p \<and> (parent_pid t \<noteq> p \<or> session_id t \<noteq> session_id caller) then throw PermissionDenied
      else
        let new_pgid = (if pgid = 0 then task_pid t else pgid) in
        andThen
          (if new_pgid \<noteq> target then
             andThen (task_or NotFound new_pgid) (\<lambda>leader.
             if session_id leader \<noteq> session_id t then throw PermissionDenied else ret ())
           else ret ()) (\<lambda>_.
        if target = p \<and> new_pgid = process_group_id caller then ret 0
        else
          andThen (task_or NotFound target) (\<lambda>_.
          andThen (modify (upd_task target (\<lambda>t. t\<lparr>process_group_id := new_pgid\<rparr>))) (\<lambda>_.
          ret 0))))))"

definition do_getpgid :: "usize \<Rightarrow> usize \<Rightarrow> ('i, 'p, 'w, usize) ape_prog" where
  "do_getpgid p target =
     andThen (task_or NotFound (if target = 0 then p else target)) (\<lambda>t. ret (process_group_id t))"

section \<open>Kill\<close>

definition in_group :: "('i, 'p, 'w) ape \<Rightarrow> usize \<Rightarrow> usize \<Rightarrow> bool" where
  "in_group s grp q = (case get_process s q of Some t \<Rightarrow> process_group_id t = grp | None \<Rightarrow> False)"

definition kill_targets :: "('i, 'p, 'w) ape \<Rightarrow> usize \<Rightarrow> int \<Rightarrow> usize list" where
  "kill_targets s caller target =
     (let pids = local_pids s in
      if target > 0 then (if nat target \<in> set pids then [nat target] else [])
      else if target = 0 then
        filter (in_group s (case get_process s caller of Some t \<Rightarrow> process_group_id t | None \<Rightarrow> caller)) pids
      else if target = -1 then pids
      else filter (in_group s (nat (- target))) pids)"

definition clear_stop_signals :: "signal_struct \<Rightarrow> signal_struct" where
  "clear_stop_signals g =
     fold (\<lambda>sig g. case signal_bit sig of
              Some b \<Rightarrow> g\<lparr>signal_pending := signal_pending g AND NOT b\<rparr>
            | None \<Rightarrow> g)
       [SIGSTOP, SIGTSTP, SIGTTIN, SIGTTOU] g"

definition kill_continue :: "('i, 'w) env \<Rightarrow> usize \<Rightarrow> ('i, 'p, 'w, unit) ape_prog" where
  "kill_continue E target =
     andThen (gets (\<lambda>s. get_process s target)) (\<lambda>t0.
     andThen (modify (upd_task target (\<lambda>t. mark_running (upd_signal clear_stop_signals t)))) (\<lambda>_.
     andThen (case t0 of
         Some t \<Rightarrow>
           whenM (parent_pid t \<noteq> 0 \<and> is_stopped t)
             (modify (record_child_continued (parent_pid t) target (process_group_id t)))
       | None \<Rightarrow> ret ()) (\<lambda>_.
     andThen (ignore (queue_process_signal E target SIGCONT)) (\<lambda>_.
     andThen (gets (\<lambda>s. get_process s target)) (\<lambda>t1.
     case t1 of
       Some t \<Rightarrow> ignore (ext (tcb_resume (procs E) (task_tcb t)))
     | None \<Rightarrow> ret ())))))"

definition kill_stop :: "('i, 'w) env \<Rightarrow> usize \<Rightarrow> usize \<Rightarrow> usize \<Rightarrow> ('i, 'p, 'w, unit) ape_prog" where
  "kill_stop E caller sig target =
     andThen (gets (\<lambda>s. get_process s target)) (\<lambda>t0.
     andThen (ignore (queue_process_signal E target sig)) (\<lambda>_.
     andThen (gets (\<lambda>s. get_process s target)) (\<lambda>t1.
     andThen (case t1 of
         Some t \<Rightarrow>
           whenM (target \<noteq> caller) (
             andThen (ignore (ext (tcb_suspend (procs E) (task_tcb t)))) (\<lambda>_.
             modify (upd_task target mark_stopped)))
       | None \<Rightarrow> ret ()) (\<lambda>_.
     case t0 of
       Some t \<Rightarrow>
         whenM (parent_pid t \<noteq> 0 \<and> \<not> is_stopped t)
           (modify (record_child_stopped (parent_pid t) target (job_encode_wait_stopped_status sig) (process_group_id t)))
     | None \<Rightarrow> ret ()))))"

definition kill_now :: "('i, 'w) env \<Rightarrow> usize \<Rightarrow> usize list \<Rightarrow> ('i, 'p, 'w, unit) ape_prog" where
  "kill_now E caller targets =
     andThen (forM (filter (\<lambda>q. q \<noteq> caller) targets) (\<lambda>q. terminate_process E q (get_exit_code_for_signal SIGKILL))) (\<lambda>_.
     whenM (caller \<in> set targets) (terminate_process E caller (get_exit_code_for_signal SIGKILL)))"

definition do_kill :: "('i, 'w) env \<Rightarrow> usize \<Rightarrow> int \<Rightarrow> int \<Rightarrow> ('i, 'p, 'w, int) ape_prog" where
  "do_kill E caller target sig =
     (if sig < 0 then ret (- EINVAL)
      else if nat sig > SIGNAL_MAX then ret (- EINVAL)
      else
        andThen (gets (\<lambda>s. kill_targets s caller target)) (\<lambda>targets.
        if targets = [] then ret (- ESRCH)
        else
          andThen
            (if nat sig = 0 then ret ()
             else if nat sig = SIGKILL then kill_now E caller targets
             else if nat sig = SIGCONT then forM targets (kill_continue E)
             else if is_stop_signal (nat sig) then forM targets (kill_stop E caller (nat sig))
             else forM targets (\<lambda>q. ignore (queue_process_signal E q (nat sig)))) (\<lambda>_.
          ret 0)))"

end
