(* ===== verification/Mm_Syscalls.thy ===== *)
theory Mm_Syscalls
  imports User_Access
begin

text \<open>
  The memory system calls (\<open>src/src/mm/mod.rs\<close>): \<open>brk\<close>,
  \<open>mmap\<close>, \<open>munmap\<close>, \<open>mprotect\<close> and \<open>mremap\<close>,
  with the splitting of multi-page maps into single pages that the last four need when a
  range covers a part of a map. The searches are in theory \<open>Mm_State\<close>.
\<close>

section \<open>Splitting a map into pages\<close>

definition release_temp_frame_slots :: "('i, 'w) env \<Rightarrow> usize \<Rightarrow> capptr list \<Rightarrow> ('i, 'p, 'w, unit) ape_prog" where
  "release_temp_frame_slots E p slots = forM slots (\<lambda>c. release_process_frame_slot E p c 1)"

text \<open>Copying a page through two scratch mappings.\<close>

definition copy_page :: "('i, 'w) env \<Rightarrow> usize \<Rightarrow> usize \<Rightarrow> 'w \<Rightarrow> 'w" where
  "copy_page E src dst w = mem_store (vm E) dst (mem_load (vm E) src (PGSIZE (mp E)) w) w"

definition split_one_page ::
  "('i, 'w) env \<Rightarrow> usize \<Rightarrow> usize \<Rightarrow> usize \<Rightarrow> capptr list \<Rightarrow> nat \<Rightarrow> ('i, 'p, 'w, capptr) ape_prog" where
  "split_one_page E p src pages new_slots idx =
     (let undo = andThen (ignore (ext (vm_unmap (vm E) src pages))) (\<lambda>_. release_temp_frame_slots E p new_slots) in
      andThen (attempt (ext (cspace_alloc (caps E)))) (\<lambda>a.
      case a of
        Inl e \<Rightarrow> andThen undo (\<lambda>_. throw e)
      | Inr slot \<Rightarrow>
          andThen (attempt (ext (res_alloc (caps E) CapPage 1 slot))) (\<lambda>b.
          case b of
            Inl e \<Rightarrow> andThen (ext_do (cspace_free (caps E) slot)) (\<lambda>_. andThen undo (\<lambda>_. throw e))
          | Inr _ \<Rightarrow>
              andThen (modify (ledger_record_frame_alloc p slot 1)) (\<lambda>_.
              andThen (attempt (ext (vm_map_scratch (vm E) slot {PERM_READ, PERM_WRITE} 1))) (\<lambda>c.
              case c of
                Inl e \<Rightarrow> andThen (release_process_frame_slot E p slot 1) (\<lambda>_. andThen undo (\<lambda>_. throw e))
              | Inr dst \<Rightarrow>
                  andThen (ext_do (copy_page E (wrap_add src (wrap_mul idx (PGSIZE (mp E)))) dst)) (\<lambda>_.
                  andThen (ignore (ext (vm_unmap (vm E) dst 1))) (\<lambda>_.
                  ret slot))))))) "

fun split_pages_loop ::
  "('i, 'w) env \<Rightarrow> usize \<Rightarrow> usize \<Rightarrow> usize \<Rightarrow> nat list \<Rightarrow> capptr list \<Rightarrow> ('i, 'p, 'w, capptr list) ape_prog" where
  "split_pages_loop E p src pages [] new_slots = ret new_slots"
| "split_pages_loop E p src pages (i # is) new_slots =
     andThen (split_one_page E p src pages new_slots i) (\<lambda>slot.
     split_pages_loop E p src pages is (new_slots @ [slot]))"

text \<open>Mapping the new pages; on a failure the ones done are unmapped and the old frame is put back.\<close>

fun remap_split_loop ::
  "('i, 'w) env \<Rightarrow> usize \<Rightarrow> memory_map \<Rightarrow> capptr list \<Rightarrow> nat \<Rightarrow> capptr list \<Rightarrow> ('i, 'p, 'w, unit) ape_prog" where
  "remap_split_loop E p m all_slots idx [] = ret ()"
| "remap_split_loop E p m all_slots idx (slot # slots) =
     andThen (attempt (map_process_frame E p slot (wrap_add (map_vaddr m) (wrap_mul idx (PGSIZE (mp E)))) (map_flags m) 1)) (\<lambda>r.
     case r of
       Inr _ \<Rightarrow> remap_split_loop E p m all_slots (Suc idx) slots
     | Inl e \<Rightarrow>
         andThen (forM [0..<idx] (\<lambda>b.
           ignore (unmap_process_pages E p (wrap_add (map_vaddr m) (wrap_mul b (PGSIZE (mp E)))) 1))) (\<lambda>_.
         andThen (ignore (map_process_frame E p (frame_cap m) (map_vaddr m) (map_flags m) (map_pages (mp E) m))) (\<lambda>_.
         andThen (release_temp_frame_slots E p all_slots) (\<lambda>_.
         throw e))))"

definition split_map_entries :: "('i, 'w) env \<Rightarrow> memory_map \<Rightarrow> capptr list \<Rightarrow> memory_map list" where
  "split_map_entries E m slots =
     map (\<lambda>(idx, slot).
        \<lparr>map_vaddr = wrap_add (map_vaddr m) (wrap_mul idx (PGSIZE (mp E))), map_paddr = 0,
         map_size = PGSIZE (mp E), map_flags = map_flags m, mem_type = mem_type m, map_cow = map_cow m,
         frame_cap = slot, file_backing_fd = file_backing_fd m,
         file_backing_offset = sat_add (file_backing_offset m) (wrap_mul idx (PGSIZE (mp E)))\<rparr>)
       (zip [0..<length slots] slots)"

definition replace_map :: "usize \<Rightarrow> memory_map list \<Rightarrow> mm_state \<Rightarrow> mm_state" where
  "replace_map v new st = fold add_memory_map new (st\<lparr>memory_maps := bt_remove v (memory_maps st)\<rparr>)"

definition split_large_mapping_into_base_pages :: "('i, 'w) env \<Rightarrow> usize \<Rightarrow> usize \<Rightarrow> ('i, 'p, 'w, unit) ape_prog" where
  "split_large_mapping_into_base_pages E p map_start =
     andThen (task_or NotFound p) (\<lambda>t.
     andThen (lift_res (ok_or (bt_get (memory_maps (task_mem t)) map_start) NotFound)) (\<lambda>m.
     let pages = map_pages (mp E) m in
     if \<not> is_remappable_user_mapping (mem_type m) \<or> frame_cap m = 0 then ret ()
     else if pages \<le> 1 then ret ()
     else
       andThen (ext (vm_map_scratch (vm E) (frame_cap m) {PERM_READ} pages)) (\<lambda>src.
       andThen (split_pages_loop E p src pages [0..<pages] []) (\<lambda>slots.
       andThen (ignore (ext (vm_unmap (vm E) src pages))) (\<lambda>_.
       andThen (unmap_process_pages E p (map_vaddr m) pages) (\<lambda>_.
       andThen (remap_split_loop E p m slots 0 slots) (\<lambda>_.
       andThen (task_or NotFound p) (\<lambda>_.
       andThen (modify (upd_task p (upd_mem (replace_map (map_vaddr m) (split_map_entries E m slots))))) (\<lambda>_.
       release_process_frame_slot E p (frame_cap m) pages)))))))))"

definition ensure_partial_multi_page_ranges_split :: "('i, 'w) env \<Rightarrow> usize \<Rightarrow> usize \<Rightarrow> usize \<Rightarrow> ('i, 'p, 'w, unit) ape_prog" where
  "ensure_partial_multi_page_ranges_split E p start stop =
     andThen (task_or NotFound p) (\<lambda>t.
     forM (split_partial_multi_page_targets (mp E) (task_mem t) start stop)
       (split_large_mapping_into_base_pages E p))"

section \<open>brk\<close>

definition do_brk :: "usize \<Rightarrow> usize \<Rightarrow> ('i, 'p, 'w, usize) ape_prog" where
  "do_brk p addr =
     andThen (task_or NotFound p) (\<lambda>t.
     if addr = 0 then ret (heap_brk (task_mem t))
     else if addr < heap_start (task_mem t) \<or> addr > heap_limit (task_mem t) then ret (heap_brk (task_mem t))
     else andThen (modify (upd_task p (upd_mem (\<lambda>m. m\<lparr>heap_brk := addr\<rparr>)))) (\<lambda>_. ret addr))"

section \<open>mmap\<close>

definition page_map :: "('i, 'w) env \<Rightarrow> usize \<Rightarrow> perms \<Rightarrow> memory_type \<Rightarrow> usize \<Rightarrow> nat option \<Rightarrow> usize \<Rightarrow> memory_map" where
  "page_map E v prm ty frame fd off =
     \<lparr>map_vaddr = v, map_paddr = 0, map_size = PGSIZE (mp E), map_flags = prm, mem_type = ty,
      map_cow = False, frame_cap = frame, file_backing_fd = fd, file_backing_offset = off\<rparr>"

definition remove_map :: "usize \<Rightarrow> mm_state \<Rightarrow> mm_state" where
  "remove_map v st = st\<lparr>memory_maps := bt_remove v (memory_maps st)\<rparr>"

definition eager_rollback :: "('i, 'w) env \<Rightarrow> usize \<Rightarrow> (usize \<times> capptr) list \<Rightarrow> ('i, 'p, 'w, unit) ape_prog" where
  "eager_rollback E p mapped =
     forM (rev mapped) (\<lambda>(vaddr, slot).
       andThen (ignore (unmap_process_pages E p vaddr 1)) (\<lambda>_.
       andThen (modify (upd_task p (upd_mem (remove_map vaddr)))) (\<lambda>_.
       release_process_frame_slot E p slot 1)))"

text \<open>
  A failed slot allocation returns at once; the failures of the two later steps undo the
  pages done so far.
\<close>

fun eager_loop :: "('i, 'w) env \<Rightarrow> usize \<Rightarrow> perms \<Rightarrow> usize list \<Rightarrow> (usize \<times> capptr) list \<Rightarrow> ('i, 'p, 'w, unit) ape_prog" where
  "eager_loop E p prm [] mapped = ret ()"
| "eager_loop E p prm (page # pages) mapped =
     andThen (ext (cspace_alloc (caps E))) (\<lambda>slot.
     andThen (attempt (ext (res_alloc (caps E) CapPage 1 slot))) (\<lambda>a.
     case a of
       Inl e \<Rightarrow>
         andThen (ext_do (cspace_free (caps E) slot)) (\<lambda>_.
         andThen (eager_rollback E p mapped) (\<lambda>_. throw e))
     | Inr _ \<Rightarrow>
         andThen (modify (ledger_record_frame_alloc p slot 1)) (\<lambda>_.
         andThen (attempt (map_process_frame E p slot page prm 1)) (\<lambda>b.
         case b of
           Inl e \<Rightarrow>
             andThen (release_process_frame_slot E p slot 1) (\<lambda>_.
             andThen (eager_rollback E p mapped) (\<lambda>_. throw e))
         | Inr _ \<Rightarrow>
             andThen (modify (upd_task p (upd_mem (add_memory_map (page_map E page prm Anonymous slot None 0))))) (\<lambda>_.
             eager_loop E p prm pages (mapped @ [(page, slot)]))))))"

definition map_anonymous_range_eager :: "('i, 'w) env \<Rightarrow> usize \<Rightarrow> usize \<Rightarrow> usize \<Rightarrow> perms \<Rightarrow> ('i, 'p, 'w, unit) ape_prog" where
  "map_anonymous_range_eager E p start stop prm = eager_loop E p prm (pages_between (mp E) start stop) []"

text \<open>The maps that a range replaces, keyed by their start (\<open>entry().or_insert\<close>).\<close>

definition ranges_to_unmap :: "mem_params \<Rightarrow> mm_state \<Rightarrow> usize list \<Rightarrow> (usize, usize \<times> usize) btree" where
  "ranges_to_unmap M st pages =
     fold (\<lambda>page acc.
        case bt_get (memory_maps st) page of
          Some m \<Rightarrow>
            if is_remappable_user_mapping (mem_type m)
            then bt_entry (map_vaddr m) (frame_cap m, map_pages M m) (\<lambda>x. x) acc else acc
        | None \<Rightarrow> acc) pages []"

definition drop_ranges :: "usize list \<Rightarrow> (usize, usize \<times> usize) btree \<Rightarrow> mm_state \<Rightarrow> mm_state" where
  "drop_ranges pages ranges st =
     st\<lparr>lazy_memory_maps := fold bt_remove pages (lazy_memory_maps st),
        memory_maps := fold bt_remove (bt_keys ranges) (memory_maps st)\<rparr>"

definition unmap_ranges :: "('i, 'w) env \<Rightarrow> usize \<Rightarrow> (usize, usize \<times> usize) btree \<Rightarrow> ('i, 'p, 'w, unit) ape_prog" where
  "unmap_ranges E p ranges =
     forM ranges (\<lambda>(vaddr, frame, pages).
       andThen (unmap_process_pages E p vaddr pages) (\<lambda>_.
       whenM (frame \<noteq> 0) (release_process_frame_slot E p frame pages)))"

fun lazy_file_pages ::
  "('i, 'w) env \<Rightarrow> perms \<Rightarrow> nat \<Rightarrow> usize \<Rightarrow> usize \<Rightarrow> usize list \<Rightarrow> mm_state \<Rightarrow> unit res \<times> mm_state" where
  "lazy_file_pages E prm fd off start [] st = (Ok (), st)"
| "lazy_file_pages E prm fd off start (page # pages) st =
     (if page < start then (Err InvalidAddress, st)
      else
        (case checked_add off (page - start) of
           None \<Rightarrow> (Err OutOfMemory, st)
         | Some b \<Rightarrow>
             lazy_file_pages E prm fd off start pages
               (add_lazy_memory_map (page_map E page prm FileBacked 0 (Some fd) b) st)))"

definition fill_range ::
  "('i, 'w) env \<Rightarrow> usize \<Rightarrow> usize \<Rightarrow> usize \<Rightarrow> perms \<Rightarrow> (nat \<times> usize) option \<Rightarrow> ('i, 'p, 'w, unit) ape_prog" where
  "fill_range E p start stop prm backing =
     (case backing of
        Some (fd, off) \<Rightarrow>
          andThen (task_or NotFound p) (\<lambda>t.
          case lazy_file_pages E prm fd off start (pages_between (mp E) start stop) (task_mem t) of
            (r, st) \<Rightarrow> andThen (modify (upd_task p (upd_mem (\<lambda>_. st)))) (\<lambda>_. lift_res r))
      | None \<Rightarrow> map_anonymous_range_eager E p start stop prm)"

definition bump_mmap_next :: "usize \<Rightarrow> mm_state \<Rightarrow> mm_state" where
  "bump_mmap_next stop m = m\<lparr>mmap_next := max (mmap_next m) stop\<rparr>"

definition fixed_refused :: "mm_state \<Rightarrow> usize \<Rightarrow> usize \<Rightarrow> error option" where
  "fixed_refused st start stop =
     (if stop > mmap_limit st then Some OutOfMemory
      else if has_overlap start stop (heap_start st) (sat_sub (heap_brk st) (heap_start st)) then Some InvalidArgs
      else if has_overlap start stop (sat_sub (stack_bottom st) (max_stack_size st)) (max_stack_size st)
        then Some InvalidArgs
      else if \<exists>m \<in> set (bt_values (memory_maps st)).
                has_overlap start stop (map_vaddr m) (map_size m) \<and> \<not> is_remappable_user_mapping (mem_type m)
        then Some InvalidArgs
      else None)"

definition mmap_fixed ::
  "('i, 'w) env \<Rightarrow> usize \<Rightarrow> usize \<Rightarrow> usize \<Rightarrow> perms \<Rightarrow> (nat \<times> usize) option \<Rightarrow> ('i, 'p, 'w, usize) ape_prog" where
  "mmap_fixed E p start len_aligned prm backing =
     (if start mod PGSIZE (mp E) \<noteq> 0 then throw InvalidArgs
      else
        andThen (lift_res (ok_or (checked_add start len_aligned) OutOfMemory)) (\<lambda>stop.
        andThen (ensure_partial_multi_page_ranges_split E p start stop) (\<lambda>_.
        andThen (task_or NotFound p) (\<lambda>t.
        case fixed_refused (task_mem t) start stop of
          Some e \<Rightarrow> throw e
        | None \<Rightarrow>
            let pages = pages_between (mp E) start stop;
                ranges = ranges_to_unmap (mp E) (task_mem t) pages in
            andThen (modify (upd_task p (upd_mem (drop_ranges pages ranges)))) (\<lambda>_.
            andThen (unmap_ranges E p ranges) (\<lambda>_.
            andThen (fill_range E p start stop prm backing) (\<lambda>_.
            andThen (modify (upd_task p (upd_mem (bump_mmap_next stop)))) (\<lambda>_.
            ret start))))))))"

definition mmap_anywhere ::
  "('i, 'w) env \<Rightarrow> usize \<Rightarrow> usize \<Rightarrow> usize \<Rightarrow> perms \<Rightarrow> (nat \<times> usize) option \<Rightarrow> ('i, 'p, 'w, usize) ape_prog" where
  "mmap_anywhere E p addr len_aligned prm backing =
     andThen (task_or NotFound p) (\<lambda>t.
     let st = task_mem t;
         hint = (if addr \<noteq> 0 then align_down (mp E) addr (PGSIZE (mp E)) else mmap_next st) in
     andThen (lift_res (ok_or (find_gap (gap_fuel (mp E) st) (mp E) st len_aligned (max hint (mmap_base st))) OutOfMemory)) (\<lambda>start.
     let stop = wrap_add start len_aligned in
     andThen (fill_range E p start stop prm backing) (\<lambda>_.
     andThen (task_or NotFound p) (\<lambda>_.
     andThen (modify (upd_task p (upd_mem (bump_mmap_next stop)))) (\<lambda>_.
     ret start)))))"

definition mmap_backing :: "usize \<Rightarrow> 32 word \<Rightarrow> usize \<Rightarrow> usize \<Rightarrow> ('i, 'p, 'w, (nat \<times> usize) option) ape_prog" where
  "mmap_backing p flags fd0 off =
     (if flags AND MAP_ANONYMOUS \<noteq> 0 then ret None
      else
        andThen (lift_res (ok_or (u32_try_from fd0) InvalidSlot)) (\<lambda>fd.
        andThen (task_or NotFound p) (\<lambda>t.
        andThen (lift_res (ok_or (bt_get (fds (task_files t)) fd) InvalidSlot)) (\<lambda>h.
        case file_type h of Normal _ \<Rightarrow> ret (Some (fd, off))))))"

definition do_mmap ::
  "('i, 'w) env \<Rightarrow> usize \<Rightarrow> usize \<Rightarrow> usize \<Rightarrow> 32 word \<Rightarrow> 32 word \<Rightarrow> usize \<Rightarrow> usize \<Rightarrow> ('i, 'p, 'w, usize) ape_prog" where
  "do_mmap E p addr len prot flags fd off =
     (if len = 0 then throw InvalidArgs
      else if flags AND MAP_PRIVATE = 0 then throw InvalidArgs
      else
        andThen (mmap_backing p flags fd off) (\<lambda>backing.
        let len_aligned = align_up (mp E) len (PGSIZE (mp E)); prm = prot_to_perms prot in
        if flags AND MAP_FIXED \<noteq> 0 then mmap_fixed E p addr len_aligned prm backing
        else mmap_anywhere E p addr len_aligned prm backing))"

section \<open>munmap\<close>

definition do_munmap :: "('i, 'w) env \<Rightarrow> usize \<Rightarrow> usize \<Rightarrow> usize \<Rightarrow> ('i, 'p, 'w, int) ape_prog" where
  "do_munmap E p addr len =
     (if len = 0 \<or> addr mod PGSIZE (mp E) \<noteq> 0 then throw InvalidArgs
      else
        let len_aligned = align_up (mp E) len (PGSIZE (mp E)) in
        andThen (lift_res (ok_or (checked_add addr len_aligned) OutOfMemory)) (\<lambda>stop.
        andThen (ensure_partial_multi_page_ranges_split E p addr stop) (\<lambda>_.
        andThen (task_or NotFound p) (\<lambda>t.
        let pages = pages_between (mp E) addr stop;
            ranges = ranges_to_unmap (mp E) (task_mem t) pages in
        andThen (modify (upd_task p (upd_mem (drop_ranges pages ranges)))) (\<lambda>_.
        andThen (unmap_ranges E p ranges) (\<lambda>_.
        ret 0))))))"

section \<open>mprotect\<close>

fun collect_ranges ::
  "mem_params \<Rightarrow> mm_state \<Rightarrow> usize list \<Rightarrow> (usize, usize \<times> usize) btree \<Rightarrow> (usize, usize \<times> usize) btree res" where
  "collect_ranges M st [] acc = Ok acc"
| "collect_ranges M st (page # pages) acc =
     (case lookup_memory_map st page of
        None \<Rightarrow> Err InvalidAddress
      | Some m \<Rightarrow>
          if page < map_vaddr m \<or> page \<ge> sat_add (map_vaddr m) (map_size m) then Err InvalidAddress
          else collect_ranges M st pages
                 (bt_entry (map_vaddr m) (frame_cap m, map_pages M m) (\<lambda>x. x) acc))"

definition set_perms :: "perms \<Rightarrow> (usize, usize \<times> usize) btree \<Rightarrow> usize list \<Rightarrow> mm_state \<Rightarrow> mm_state" where
  "set_perms prm ranges pages st =
     st\<lparr>memory_maps := fold (\<lambda>v. bt_alter v (\<lambda>m. m\<lparr>map_flags := prm\<rparr>)) (bt_keys ranges) (memory_maps st),
        lazy_memory_maps := fold (\<lambda>v. bt_alter v (\<lambda>m. m\<lparr>map_flags := prm\<rparr>)) pages (lazy_memory_maps st)\<rparr>"

definition do_mprotect :: "('i, 'w) env \<Rightarrow> usize \<Rightarrow> usize \<Rightarrow> usize \<Rightarrow> 32 word \<Rightarrow> ('i, 'p, 'w, int) ape_prog" where
  "do_mprotect E p addr len prot =
     (if len = 0 then ret 0
      else
        let start = align_down (mp E) addr (PGSIZE (mp E)) in
        andThen (lift_res (ok_or (checked_add addr len) OutOfMemory)) (\<lambda>e.
        let stop = align_up (mp E) e (PGSIZE (mp E)); new_perms = prot_to_perms prot;
            pages = pages_between (mp E) start stop in
        andThen (ensure_partial_multi_page_ranges_split E p start stop) (\<lambda>_.
        andThen (task_or NotFound p) (\<lambda>t.
        andThen (lift_res (collect_ranges (mp E) (task_mem t) pages [])) (\<lambda>ranges.
        andThen (forM ranges (\<lambda>(vaddr, frame, n).
           andThen (ignore (unmap_process_pages E p vaddr n)) (\<lambda>_.
           map_process_frame E p frame vaddr new_perms n))) (\<lambda>_.
        andThen (modify (upd_task p (upd_mem (set_perms new_perms ranges pages)))) (\<lambda>_.
        ret 0)))))))"

section \<open>mremap\<close>

definition add_lazy_pages :: "('i, 'w) env \<Rightarrow> perms \<Rightarrow> usize list \<Rightarrow> mm_state \<Rightarrow> mm_state" where
  "add_lazy_pages E prm pages st =
     fold (\<lambda>page. add_lazy_memory_map (page_map E page prm Anonymous 0 None 0)) pages st"

definition expand_in_place :: "('i, 'w) env \<Rightarrow> usize \<Rightarrow> usize \<Rightarrow> usize \<Rightarrow> perms \<Rightarrow> ('i, 'p, 'w) ape \<Rightarrow> ('i, 'p, 'w) ape" where
  "expand_in_place E p old_end new_end base_flags =
     upd_task p (upd_mem (\<lambda>m. bump_mmap_next new_end
       (add_lazy_pages E base_flags (pages_between (mp E) old_end new_end) m)))"

definition move_page :: "('i, 'w) env \<Rightarrow> usize \<Rightarrow> remap_page_state \<Rightarrow> mm_state \<Rightarrow> mm_state" where
  "move_page E v st m =
     (case st of
        Mapped frame prm \<Rightarrow> add_memory_map (page_map E v prm Anonymous frame None 0) m
      | Lazy prm \<Rightarrow> add_lazy_memory_map (page_map E v prm Anonymous 0 None 0) m)"

definition move_maps ::
  "('i, 'w) env \<Rightarrow> usize list \<Rightarrow> usize \<Rightarrow> remap_page_state list \<Rightarrow> nat \<Rightarrow> perms \<Rightarrow> usize \<Rightarrow> mm_state \<Rightarrow> mm_state" where
  "move_maps E old_page_list target states new_pages base_flags target_end m =
     (let addr = (\<lambda>i. wrap_add target (wrap_mul i (PGSIZE (mp E))));
          m1 = m\<lparr>memory_maps := fold bt_remove old_page_list (memory_maps m),
                 lazy_memory_maps := fold bt_remove old_page_list (lazy_memory_maps m)\<rparr>;
          n = min (length states) new_pages;
          m2 = fold (\<lambda>i. move_page E (addr i) (states ! i)) [0..<n] m1;
          m3 = add_lazy_pages E base_flags (map addr [n..<new_pages]) m2
      in bump_mmap_next target_end m3)"

fun map_moved_loop ::
  "('i, 'w) env \<Rightarrow> usize \<Rightarrow> usize \<Rightarrow> nat \<Rightarrow> remap_page_state list \<Rightarrow> usize list \<Rightarrow> ('i, 'p, 'w, unit) ape_prog" where
  "map_moved_loop E p target i [] mapped_pages = ret ()"
| "map_moved_loop E p target i (st # states) mapped_pages =
     (let v = wrap_add target (wrap_mul i (PGSIZE (mp E))) in
      case st of
        Lazy _ \<Rightarrow> map_moved_loop E p target (Suc i) states mapped_pages
      | Mapped frame prm \<Rightarrow>
          andThen (attempt (map_process_frame E p frame v prm 1)) (\<lambda>r.
          case r of
            Inl e \<Rightarrow>
              andThen (forM mapped_pages (\<lambda>page. ignore (unmap_process_pages E p page 1))) (\<lambda>_. throw e)
          | Inr _ \<Rightarrow> map_moved_loop E p target (Suc i) states (mapped_pages @ [v])))"

definition is_mapped_state :: "remap_page_state \<Rightarrow> bool" where
  "is_mapped_state st = (case st of Mapped _ _ \<Rightarrow> True | Lazy _ \<Rightarrow> False)"

definition move_range ::
  "('i, 'w) env \<Rightarrow> usize \<Rightarrow> usize \<Rightarrow> usize \<Rightarrow> usize \<Rightarrow> usize \<Rightarrow> usize \<Rightarrow> remap_page_state list \<Rightarrow> perms \<Rightarrow> ('i, 'p, 'w, usize) ape_prog" where
  "move_range E p old_addr old_len target target_end new_pages states base_flags =
     (if has_overlap target target_end old_addr old_len then throw InvalidArgs
      else
        andThen (task_or NotFound p) (\<lambda>t.
        if \<not> range_is_free (task_mem t) target target_end then throw OutOfMemory
        else
          let old_page_list = pages_between (mp E) old_addr (old_addr + old_len);
              old_mapped = map (\<lambda>(i, st). wrap_add old_addr (wrap_mul i (PGSIZE (mp E))))
                 (filter (\<lambda>(i, st). is_mapped_state st) (zip [0..<length states] states)) in
          andThen (map_moved_loop E p target 0 (take new_pages states) []) (\<lambda>_.
          andThen (task_or NotFound p) (\<lambda>_.
          andThen (modify (upd_task p (upd_mem
             (move_maps E old_page_list target states new_pages base_flags target_end)))) (\<lambda>_.
          andThen (forM old_mapped (\<lambda>page. ignore (unmap_process_pages E p page 1))) (\<lambda>_.
          ret target))))))"

definition mremap_same_place ::
  "('i, 'w) env \<Rightarrow> usize \<Rightarrow> usize \<Rightarrow> usize \<Rightarrow> usize \<Rightarrow> perms \<Rightarrow> ('i, 'p, 'w, usize) ape_prog" where
  "mremap_same_place E p old_addr old_len new_len base_flags =
     (if new_len < old_len then
        andThen (do_munmap E p (wrap_add old_addr new_len) (old_len - new_len)) (\<lambda>_. ret old_addr)
      else if new_len > old_len then
        andThen (task_or NotFound p) (\<lambda>t.
        if \<not> range_is_free_excluding (task_mem t) old_addr (old_addr + new_len) old_addr (old_addr + old_len)
        then throw OutOfMemory
        else
          andThen (modify (expand_in_place E p (old_addr + old_len) (old_addr + new_len) base_flags)) (\<lambda>_.
          ret old_addr))
      else ret old_addr)"

definition mremap_target ::
  "('i, 'w) env \<Rightarrow> usize \<Rightarrow> usize \<Rightarrow> 32 word \<Rightarrow> usize \<Rightarrow> ('i, 'p, 'w, usize) ape_prog" where
  "mremap_target E p new_len flags new_addr =
     (if flags AND MREMAP_FIXED \<noteq> 0 then
        if new_addr mod PGSIZE (mp E) \<noteq> 0 then throw InvalidArgs else ret new_addr
      else
        andThen (task_or NotFound p) (\<lambda>t.
        lift_res (ok_or (find_free_remap_target (mp E) (task_mem t) new_len) OutOfMemory)))"

definition mremap_move ::
  "('i, 'w) env \<Rightarrow> usize \<Rightarrow> usize \<Rightarrow> usize \<Rightarrow> usize \<Rightarrow> 32 word \<Rightarrow> usize \<Rightarrow> remap_page_state list \<Rightarrow> perms \<Rightarrow> ('i, 'p, 'w, usize) ape_prog" where
  "mremap_move E p old_addr old_len new_len flags new_addr states base_flags =
     andThen (mremap_target E p new_len flags new_addr) (\<lambda>target.
     andThen (lift_res (ok_or (checked_add target new_len) OutOfMemory)) (\<lambda>target_end.
     if target = old_addr then mremap_same_place E p old_addr old_len new_len base_flags
     else move_range E p old_addr old_len target target_end (new_len div PGSIZE (mp E)) states base_flags))"

definition first_flags :: "remap_page_state list \<Rightarrow> perms" where
  "first_flags states = (case states of [] \<Rightarrow> {PERM_READ, PERM_WRITE} | s # _ \<Rightarrow> remap_flags s)"

definition do_mremap ::
  "('i, 'w) env \<Rightarrow> usize \<Rightarrow> usize \<Rightarrow> usize \<Rightarrow> usize \<Rightarrow> 32 word \<Rightarrow> usize \<Rightarrow> ('i, 'p, 'w, usize) ape_prog" where
  "do_mremap E p old_addr old_size new_size flags new_addr =
     (if old_size = 0 \<or> new_size = 0 \<or> old_addr mod PGSIZE (mp E) \<noteq> 0 then throw InvalidArgs
      else if flags AND NOT (MREMAP_MAYMOVE OR MREMAP_FIXED OR MREMAP_DONTUNMAP) \<noteq> 0 \<or>
              flags AND MREMAP_DONTUNMAP \<noteq> 0 then throw InvalidArgs
      else if flags AND MREMAP_FIXED \<noteq> 0 \<and> flags AND MREMAP_MAYMOVE = 0 then throw InvalidArgs
      else
        let old_len = align_up (mp E) old_size (PGSIZE (mp E));
            new_len = align_up (mp E) new_size (PGSIZE (mp E)) in
        andThen (lift_res (ok_or (checked_add old_addr old_len) OutOfMemory)) (\<lambda>old_end.
        andThen (lift_res (ok_or (checked_add old_addr new_len) OutOfMemory)) (\<lambda>new_end.
        andThen (task_or NotFound p) (\<lambda>t.
        andThen (lift_res (collect_remap_states (mp E) (task_mem t) old_addr old_len)) (\<lambda>states.
        let base_flags = first_flags states in
        if flags AND MREMAP_FIXED = 0 then
          if new_len \<le> old_len then
            if new_len < old_len then
              andThen (do_munmap E p (wrap_add old_addr new_len) (old_len - new_len)) (\<lambda>_. ret old_addr)
            else ret old_addr
          else if range_is_free_excluding (task_mem t) old_addr new_end old_addr old_end then
            andThen (modify (expand_in_place E p old_end new_end base_flags)) (\<lambda>_. ret old_addr)
          else if flags AND MREMAP_MAYMOVE = 0 then throw OutOfMemory
          else mremap_move E p old_addr old_len new_len flags new_addr states base_flags
        else mremap_move E p old_addr old_len new_len flags new_addr states base_flags)))))"

end
