(* ===== verification/Syscalls.thy ===== *)
theory Syscalls
  imports Exec Sys_Misc Job Mm_Syscalls
begin

text \<open>
  The adapters between the dispatcher and the subsystems
  (\<open>src/src/syscall/{fs,io,mm,task,system,stub}.rs\<close>): one function per system call,
  which passes its registers on and turns the answer into a signed word. Flag words are
  converted to bit vectors here, where the subsystem tests their bits; the two calls that
  wait in a loop take the number of rounds they may make.
\<close>

text \<open>\<open>Ok(f(..)? as isize)\<close>\<close>

definition as_isize :: "('i, 'p, 'w, usize) ape_prog \<Rightarrow> ('i, 'p, 'w, int) ape_prog" where
  "as_isize m = andThen m (\<lambda>v. ret (i64_of_nat v))"

section \<open>Files (syscall/fs.rs)\<close>

definition sys_dup :: "('i, 'w) env \<Rightarrow> usize \<Rightarrow> usize \<Rightarrow> ('i, 'p, 'w, int) ape_prog" where
  "sys_dup E p fd = do_dup E p fd"

definition sys_dup3 :: "('i, 'w) env \<Rightarrow> usize \<Rightarrow> usize \<Rightarrow> usize \<Rightarrow> usize \<Rightarrow> ('i, 'p, 'w, int) ape_prog" where
  "sys_dup3 E p oldfd newfd flags = do_dup3 E p oldfd newfd (word_of_nat flags)"

definition sys_openat ::
  "('i, 'w) env \<Rightarrow> usize \<Rightarrow> usize \<Rightarrow> usize \<Rightarrow> usize \<Rightarrow> usize \<Rightarrow> ('i, 'p, 'w, int) ape_prog" where
  "sys_openat E p dirfd pathname flags mode = do_openat E p dirfd pathname flags mode"

definition sys_readlinkat ::
  "('i, 'w) env \<Rightarrow> usize \<Rightarrow> usize \<Rightarrow> usize \<Rightarrow> usize \<Rightarrow> usize \<Rightarrow> ('i, 'p, 'w, int) ape_prog" where
  "sys_readlinkat E p dirfd pathname ubuf bufsiz = do_readlinkat E p dirfd pathname ubuf bufsiz"

definition sys_newfstatat ::
  "('i, 'w) env \<Rightarrow> usize \<Rightarrow> usize \<Rightarrow> usize \<Rightarrow> usize \<Rightarrow> usize \<Rightarrow> ('i, 'p, 'w, int) ape_prog" where
  "sys_newfstatat E p dirfd pathname statbuf flags = do_newfstatat E p dirfd pathname statbuf flags"

definition sys_fstat :: "('i, 'w) env \<Rightarrow> usize \<Rightarrow> usize \<Rightarrow> usize \<Rightarrow> ('i, 'p, 'w, int) ape_prog" where
  "sys_fstat E p fd statbuf = do_fstat E p fd statbuf"

definition sys_getdents64 ::
  "('i, 'w) env \<Rightarrow> usize \<Rightarrow> usize \<Rightarrow> usize \<Rightarrow> usize \<Rightarrow> ('i, 'p, 'w, int) ape_prog" where
  "sys_getdents64 E p fd dirp cnt = do_getdents64 E p fd dirp cnt"

definition sys_mkdirat ::
  "('i, 'w) env \<Rightarrow> usize \<Rightarrow> usize \<Rightarrow> usize \<Rightarrow> usize \<Rightarrow> ('i, 'p, 'w, int) ape_prog" where
  "sys_mkdirat E p dirfd pathname mode = do_mkdirat E p dirfd pathname mode"

definition sys_unlinkat ::
  "('i, 'w) env \<Rightarrow> usize \<Rightarrow> usize \<Rightarrow> usize \<Rightarrow> usize \<Rightarrow> ('i, 'p, 'w, int) ape_prog" where
  "sys_unlinkat E p dirfd pathname flags = do_unlinkat E p dirfd pathname flags"

definition sys_linkat ::
  "('i, 'w) env \<Rightarrow> usize \<Rightarrow> usize \<Rightarrow> usize \<Rightarrow> usize \<Rightarrow> usize \<Rightarrow> usize \<Rightarrow> ('i, 'p, 'w, int) ape_prog" where
  "sys_linkat E p olddirfd oldpath newdirfd newpath flags = do_linkat E p olddirfd oldpath newdirfd newpath flags"

definition sys_utimensat ::
  "('i, 'w) env \<Rightarrow> usize \<Rightarrow> usize \<Rightarrow> usize \<Rightarrow> usize \<Rightarrow> usize \<Rightarrow> ('i, 'p, 'w, int) ape_prog" where
  "sys_utimensat E p dirfd pathname utimes flags = do_utimensat E p dirfd pathname utimes flags"

definition sys_mount ::
  "('i, 'w) env \<Rightarrow> usize \<Rightarrow> usize \<Rightarrow> usize \<Rightarrow> usize \<Rightarrow> usize \<Rightarrow> usize \<Rightarrow> ('i, 'p, 'w, int) ape_prog" where
  "sys_mount E p src target fstype flags dat = do_mount E p src target fstype flags dat"

definition sys_umount2 :: "('i, 'w) env \<Rightarrow> usize \<Rightarrow> usize \<Rightarrow> usize \<Rightarrow> ('i, 'p, 'w, int) ape_prog" where
  "sys_umount2 E p target flags = do_umount2 E p target flags"

definition sys_pipe2 :: "('i, 'w) env \<Rightarrow> usize \<Rightarrow> usize \<Rightarrow> usize \<Rightarrow> ('i, 'p, 'w, int) ape_prog" where
  "sys_pipe2 E p pipefd flags = do_pipe2 E p pipefd (word_of_nat flags)"

definition sys_close :: "('i, 'w) env \<Rightarrow> usize \<Rightarrow> usize \<Rightarrow> ('i, 'p, 'w, int) ape_prog" where
  "sys_close E p fd = do_close E p fd"

definition sys_fcntl :: "('i, 'w) env \<Rightarrow> usize \<Rightarrow> usize \<Rightarrow> usize \<Rightarrow> usize \<Rightarrow> ('i, 'p, 'w, int) ape_prog" where
  "sys_fcntl E p fd cmd arg = do_fcntl E p fd cmd arg"

section \<open>Input and output (syscall/io.rs)\<close>

definition sys_read :: "('i, 'w) env \<Rightarrow> usize \<Rightarrow> usize \<Rightarrow> usize \<Rightarrow> usize \<Rightarrow> ('i, 'p, 'w, int) ape_prog" where
  "sys_read E p fd buf_ptr len = do_read E p fd buf_ptr len"

definition sys_write :: "('i, 'w) env \<Rightarrow> usize \<Rightarrow> usize \<Rightarrow> usize \<Rightarrow> usize \<Rightarrow> ('i, 'p, 'w, int) ape_prog" where
  "sys_write E p fd buf_ptr len = do_write E p fd buf_ptr len"

definition sys_ioctl :: "('i, 'w) env \<Rightarrow> usize \<Rightarrow> usize \<Rightarrow> usize \<Rightarrow> usize \<Rightarrow> ('i, 'p, 'w, int) ape_prog" where
  "sys_ioctl E p fd request argp = do_ioctl E p fd request argp"

definition sys_readv :: "('i, 'w) env \<Rightarrow> usize \<Rightarrow> usize \<Rightarrow> usize \<Rightarrow> usize \<Rightarrow> ('i, 'p, 'w, int) ape_prog" where
  "sys_readv E p fd iov_ptr iov_cnt = do_readv E p fd iov_ptr iov_cnt"

definition sys_writev ::
  "('i, 'w) env \<Rightarrow> usize \<Rightarrow> usize \<Rightarrow> usize \<Rightarrow> usize \<Rightarrow> ('i, 'p, 'w, int) ape_prog" where
  "sys_writev E p fd iov_ptr iov_cnt = do_writev E p fd iov_ptr iov_cnt"

definition sys_lseek :: "('i, 'w) env \<Rightarrow> usize \<Rightarrow> usize \<Rightarrow> int \<Rightarrow> usize \<Rightarrow> ('i, 'p, 'w, int) ape_prog" where
  "sys_lseek E p fd offset whence = do_lseek E p fd offset whence"

section \<open>Memory (syscall/mm.rs)\<close>

definition sys_brk :: "usize \<Rightarrow> usize \<Rightarrow> ('i, 'p, 'w, int) ape_prog" where
  "sys_brk p addr = as_isize (do_brk p addr)"

definition sys_mmap ::
  "('i, 'w) env \<Rightarrow> usize \<Rightarrow> usize \<Rightarrow> usize \<Rightarrow> 32 word \<Rightarrow> 32 word \<Rightarrow> usize \<Rightarrow> usize \<Rightarrow> ('i, 'p, 'w, int) ape_prog" where
  "sys_mmap E p addr len prot flags fd offset = as_isize (do_mmap E p addr len prot flags fd offset)"

definition sys_munmap :: "('i, 'w) env \<Rightarrow> usize \<Rightarrow> usize \<Rightarrow> usize \<Rightarrow> ('i, 'p, 'w, int) ape_prog" where
  "sys_munmap E p addr len = do_munmap E p addr len"

definition sys_mprotect ::
  "('i, 'w) env \<Rightarrow> usize \<Rightarrow> usize \<Rightarrow> usize \<Rightarrow> 32 word \<Rightarrow> ('i, 'p, 'w, int) ape_prog" where
  "sys_mprotect E p addr len prot = do_mprotect E p addr len prot"

definition sys_mremap ::
  "('i, 'w) env \<Rightarrow> usize \<Rightarrow> usize \<Rightarrow> usize \<Rightarrow> usize \<Rightarrow> 32 word \<Rightarrow> usize \<Rightarrow> ('i, 'p, 'w, int) ape_prog" where
  "sys_mremap E p old_addr old_size new_size flags new_addr = as_isize (do_mremap E p old_addr old_size new_size flags new_addr)"

section \<open>Processes (syscall/task.rs)\<close>

definition sys_getpid :: "usize \<Rightarrow> ('i, 'p, 'w, int) ape_prog" where
  "sys_getpid p = as_isize (do_getpid p)"

definition sys_gettid :: "usize \<Rightarrow> ('i, 'p, 'w, int) ape_prog" where
  "sys_gettid p = as_isize (do_gettid p)"

definition sys_set_tid_address :: "usize \<Rightarrow> usize \<Rightarrow> ('i, 'p, 'w, int) ape_prog" where
  "sys_set_tid_address p tidptr = as_isize (do_set_tid_address p tidptr)"

definition sys_exit :: "('i, 'w) env \<Rightarrow> usize \<Rightarrow> usize \<Rightarrow> ('i, 'p, 'w, int) ape_prog" where
  "sys_exit E p code = andThen (do_exit E p code) (\<lambda>_. ret 0)"

definition sys_exit_group :: "('i, 'w) env \<Rightarrow> usize \<Rightarrow> usize \<Rightarrow> ('i, 'p, 'w, int) ape_prog" where
  "sys_exit_group E p code = andThen (do_exit_group E p code) (\<lambda>_. ret 0)"

definition sys_getppid :: "usize \<Rightarrow> ('i, 'p, 'w, int) ape_prog" where
  "sys_getppid p = as_isize (do_getppid p)"

definition sys_fork :: "('i, 'w) env \<Rightarrow> usize \<Rightarrow> ('i, 'p, 'w, int) ape_prog" where
  "sys_fork E p = as_isize (do_fork E p)"

definition sys_clone ::
  "('i, 'w) env \<Rightarrow> usize \<Rightarrow> usize \<Rightarrow> usize \<Rightarrow> usize \<Rightarrow> usize \<Rightarrow> usize \<Rightarrow> ('i, 'p, 'w, int) ape_prog" where
  "sys_clone E p flags stack ptid ctid tls = do_clone E p (word_of_nat flags) stack ptid ctid tls"

definition sys_wait4 ::
  "('i, 'w) env \<Rightarrow> usize \<Rightarrow> int \<Rightarrow> usize \<Rightarrow> usize \<Rightarrow> usize \<Rightarrow> ('i, 'p, 'w, int) ape_prog" where
  "sys_wait4 E p target_pid wstatus options rusage = do_wait4 E p target_pid wstatus (word_of_nat options) rusage"

definition sys_setsid :: "usize \<Rightarrow> ('i, 'p, 'w, int) ape_prog" where
  "sys_setsid p = as_isize (do_setsid p)"

definition sys_getsid :: "usize \<Rightarrow> usize \<Rightarrow> ('i, 'p, 'w, int) ape_prog" where
  "sys_getsid p target = as_isize (do_getsid p target)"

definition sys_setpgid :: "usize \<Rightarrow> usize \<Rightarrow> usize \<Rightarrow> ('i, 'p, 'w, int) ape_prog" where
  "sys_setpgid p target pgid = do_setpgid p target pgid"

definition sys_getpgid :: "usize \<Rightarrow> usize \<Rightarrow> ('i, 'p, 'w, int) ape_prog" where
  "sys_getpgid p target_pid = as_isize (do_getpgid p target_pid)"

definition sys_kill :: "('i, 'w) env \<Rightarrow> usize \<Rightarrow> int \<Rightarrow> int \<Rightarrow> ('i, 'p, 'w, int) ape_prog" where
  "sys_kill E p target_pid sig = do_kill E p target_pid sig"

definition sys_execve ::
  "('i, 'w) env \<Rightarrow> usize \<Rightarrow> usize \<Rightarrow> usize \<Rightarrow> usize \<Rightarrow> ('i, 'p, 'w, int) ape_prog" where
  "sys_execve E p filename_ptr argv_ptr envp_ptr = andThen (do_execve_user E p filename_ptr argv_ptr envp_ptr) (\<lambda>_. ret 0)"

section \<open>The system (syscall/system.rs)\<close>

definition sys_uname :: "('i, 'w) env \<Rightarrow> usize \<Rightarrow> usize \<Rightarrow> ('i, 'p, 'w, int) ape_prog" where
  "sys_uname E p buf_ptr = do_uname E p buf_ptr"

definition sys_rt_sigaction ::
  "('i, 'w) env \<Rightarrow> usize \<Rightarrow> usize \<Rightarrow> usize \<Rightarrow> usize \<Rightarrow> usize \<Rightarrow> ('i, 'p, 'w, int) ape_prog" where
  "sys_rt_sigaction E p signum act oldact sigsetsize = do_rt_sigaction E p signum act oldact sigsetsize"

definition sys_rt_sigprocmask ::
  "('i, 'w) env \<Rightarrow> usize \<Rightarrow> usize \<Rightarrow> usize \<Rightarrow> usize \<Rightarrow> usize \<Rightarrow> ('i, 'p, 'w, int) ape_prog" where
  "sys_rt_sigprocmask E p how set_ptr oldset sigsetsize = do_rt_sigprocmask E p how set_ptr oldset sigsetsize"

definition sys_rt_sigpending :: "('i, 'w) env \<Rightarrow> usize \<Rightarrow> usize \<Rightarrow> usize \<Rightarrow> ('i, 'p, 'w, int) ape_prog" where
  "sys_rt_sigpending E p set_ptr sigsetsize = do_rt_sigpending E p set_ptr sigsetsize"

definition sys_rt_sigtimedwait ::
  "nat \<Rightarrow> ('i, 'w) env \<Rightarrow> usize \<Rightarrow> usize \<Rightarrow> usize \<Rightarrow> usize \<Rightarrow> usize \<Rightarrow> ('i, 'p, 'w, int option) ape_prog" where
  "sys_rt_sigtimedwait fuel E p set_ptr info timeout sigsetsize = do_rt_sigtimedwait fuel E p set_ptr info timeout sigsetsize"

definition sys_rt_sigsuspend :: "('i, 'w) env \<Rightarrow> usize \<Rightarrow> usize \<Rightarrow> usize \<Rightarrow> ('i, 'p, 'w, int) ape_prog" where
  "sys_rt_sigsuspend E p msk sigsetsize = do_rt_sigsuspend E p msk sigsetsize"

definition sys_rt_sigreturn :: "usize \<Rightarrow> ('i, 'p, 'w, int) ape_prog" where
  "sys_rt_sigreturn p = do_rt_sigreturn p"

definition sys_set_robust_list :: "usize \<Rightarrow> usize \<Rightarrow> usize \<Rightarrow> ('i, 'p, 'w, int) ape_prog" where
  "sys_set_robust_list p head len = do_set_robust_list p"

definition sys_prlimit64 ::
  "('i, 'w) env \<Rightarrow> usize \<Rightarrow> usize \<Rightarrow> usize \<Rightarrow> usize \<Rightarrow> usize \<Rightarrow> ('i, 'p, 'w, int) ape_prog" where
  "sys_prlimit64 E p target_pid resource new_limit old_limit = do_prlimit64 E p target_pid resource new_limit old_limit"

definition sys_clock_gettime :: "('i, 'w) env \<Rightarrow> usize \<Rightarrow> usize \<Rightarrow> usize \<Rightarrow> ('i, 'p, 'w, int) ape_prog" where
  "sys_clock_gettime E p clockid tp = do_clock_gettime E p clockid tp"

definition sys_gettimeofday :: "('i, 'w) env \<Rightarrow> usize \<Rightarrow> usize \<Rightarrow> usize \<Rightarrow> ('i, 'p, 'w, int) ape_prog" where
  "sys_gettimeofday E p tv tz = do_gettimeofday E p tv tz"

definition sys_times :: "('i, 'w) env \<Rightarrow> usize \<Rightarrow> usize \<Rightarrow> ('i, 'p, 'w, int) ape_prog" where
  "sys_times E p tms_ptr = do_times E p tms_ptr"

definition sys_nanosleep :: "('i, 'w) env \<Rightarrow> usize \<Rightarrow> usize \<Rightarrow> usize \<Rightarrow> ('i, 'p, 'w, int) ape_prog" where
  "sys_nanosleep E p req rem_ptr = do_nanosleep E p req rem_ptr"

definition sys_ppoll ::
  "nat \<Rightarrow> ('i, 'w) env \<Rightarrow> usize \<Rightarrow> usize \<Rightarrow> usize \<Rightarrow> usize \<Rightarrow> usize \<Rightarrow> usize \<Rightarrow> ('i, 'p, 'w, int option) ape_prog" where
  "sys_ppoll fuel E p fds_ptr nfds timeout sigmask sigsetsize = do_ppoll fuel E p fds_ptr nfds timeout sigmask sigsetsize"

definition sys_getrandom ::
  "('i, 'w) env \<Rightarrow> usize \<Rightarrow> usize \<Rightarrow> usize \<Rightarrow> usize \<Rightarrow> ('i, 'p, 'w, int) ape_prog" where
  "sys_getrandom E p buf_ptr len flags = do_getrandom E p buf_ptr len flags"

definition sys_getuid :: "('i, 'w) env \<Rightarrow> usize \<Rightarrow> ('i, 'p, 'w, int) ape_prog" where
  "sys_getuid E p = do_getuid E p"

definition sys_geteuid :: "('i, 'w) env \<Rightarrow> usize \<Rightarrow> ('i, 'p, 'w, int) ape_prog" where
  "sys_geteuid E p = do_geteuid E p"

definition sys_getgid :: "('i, 'w) env \<Rightarrow> usize \<Rightarrow> ('i, 'p, 'w, int) ape_prog" where
  "sys_getgid E p = do_getgid E p"

definition sys_getegid :: "('i, 'w) env \<Rightarrow> usize \<Rightarrow> ('i, 'p, 'w, int) ape_prog" where
  "sys_getegid E p = do_getegid E p"

definition sys_getcwd :: "('i, 'w) env \<Rightarrow> usize \<Rightarrow> usize \<Rightarrow> usize \<Rightarrow> ('i, 'p, 'w, int) ape_prog" where
  "sys_getcwd E p buf_ptr sz = do_getcwd E p buf_ptr sz"

definition sys_chdir :: "('i, 'w) env \<Rightarrow> usize \<Rightarrow> usize \<Rightarrow> ('i, 'p, 'w, int) ape_prog" where
  "sys_chdir E p path_ptr = do_chdir E p path_ptr"

definition sys_fchdir :: "('i, 'w) env \<Rightarrow> usize \<Rightarrow> usize \<Rightarrow> ('i, 'p, 'w, int) ape_prog" where
  "sys_fchdir E p fd = do_fchdir E p fd"

definition sys_chroot :: "('i, 'w) env \<Rightarrow> usize \<Rightarrow> usize \<Rightarrow> ('i, 'p, 'w, int) ape_prog" where
  "sys_chroot E p path_ptr = do_chroot E p path_ptr"

definition sys_sched_yield :: "usize \<Rightarrow> ('i, 'p, 'w, int) ape_prog" where
  "sys_sched_yield p = do_sched_yield p"

definition sys_prctl ::
  "usize \<Rightarrow> usize \<Rightarrow> usize \<Rightarrow> usize \<Rightarrow> usize \<Rightarrow> usize \<Rightarrow> ('i, 'p, 'w, int) ape_prog" where
  "sys_prctl p opt arg2 arg3 arg4 arg5 = do_prctl p [opt, arg2, arg3, arg4, arg5]"

definition sys_futex ::
  "('i, 'w) env \<Rightarrow> usize \<Rightarrow> usize \<Rightarrow> usize \<Rightarrow> usize \<Rightarrow> usize \<Rightarrow> usize \<Rightarrow> usize \<Rightarrow> ('i, 'p, 'w, int) ape_prog" where
  "sys_futex E p uaddr futex_op val_arg timeout uaddr2 val3 = do_futex E p futex_op"

section \<open>Stubs (syscall/stub.rs)\<close>

definition sys_stub_bypass :: "('i, 'p, 'w, int) ape_prog" where
  "sys_stub_bypass = ret 0"

definition sys_stub_kill :: "('i, 'w) env \<Rightarrow> usize \<Rightarrow> ('i, 'p, 'w, int) ape_prog" where
  "sys_stub_kill E p = andThen (terminate_process E p 0) (\<lambda>_. ret 0)"

text \<open>\<open>unimplemented!\<close> ends the service.\<close>

definition sys_stub_open :: "usize \<Rightarrow> ('i, 'p, 'w, int) ape_prog" where
  "sys_stub_open p s = (Panic, s)"

end
