(* ===== verification/Fault.thy ===== *)
theory Fault
  imports Job Mm_Syscalls
begin

text \<open>
  Page faults and the other faults of a process (the second half of
  \<open>src/src/ape/fault.rs\<close>). The causes of a page fault are
  the same codes on both targets. A fault ends by mapping what was missing, by copying a
  shared page, or by terminating the process.
\<close>

section \<open>Causes and permissions\<close>

definition INST_PAGE_FAULT :: usize where "INST_PAGE_FAULT = 12"
definition LOAD_PAGE_FAULT :: usize where "LOAD_PAGE_FAULT = 13"
definition STORE_PAGE_FAULT :: usize where "STORE_PAGE_FAULT = 15"

lemmas fault_causes = INST_PAGE_FAULT_def LOAD_PAGE_FAULT_def STORE_PAGE_FAULT_def

definition fault_access_allowed :: "usize \<Rightarrow> perms \<Rightarrow> bool" where
  "fault_access_allowed cause prm =
     (if cause = INST_PAGE_FAULT then PERM_EXECUTE \<in> prm
      else if cause = LOAD_PAGE_FAULT then PERM_READ \<in> prm
      else if cause = STORE_PAGE_FAULT then PERM_WRITE \<in> prm
      else True)"

section \<open>Anonymous pages\<close>

definition map_fault_page :: "('i, 'w) env \<Rightarrow> usize \<Rightarrow> usize \<Rightarrow> perms \<Rightarrow> memory_type \<Rightarrow> ('i, 'p, 'w, unit) ape_prog" where
  "map_fault_page E p page_addr prm ty =
     andThen (ext (cspace_alloc (caps E))) (\<lambda>slot.
     andThen (ext (res_alloc (caps E) CapPage 1 slot)) (\<lambda>_.
     andThen (modify (ledger_record_frame_alloc p slot 1)) (\<lambda>_.
     andThen (map_process_frame E p slot page_addr prm 1) (\<lambda>_.
     andThen (task_or NotFound p) (\<lambda>_.
     modify (upd_task p (upd_mem (add_memory_map (page_map E page_addr prm ty slot None 0)))))))))"

section \<open>File-backed pages\<close>

text \<open>How many of the following lazy pages continue the same file mapping.\<close>

fun span_loop :: "('i, 'w) env \<Rightarrow> mm_state \<Rightarrow> usize \<Rightarrow> memory_map \<Rightarrow> nat list \<Rightarrow> nat \<Rightarrow> nat" where
  "span_loop E st page m [] n = n"
| "span_loop E st page m (idx # is) n =
     (case bt_get (lazy_memory_maps st) (sat_add page (wrap_mul idx (PGSIZE (mp E)))) of
        None \<Rightarrow> idx
      | Some c \<Rightarrow>
          if mem_type c \<noteq> FileBacked \<or> file_backing_fd c \<noteq> file_backing_fd m \<or> map_flags c \<noteq> map_flags m \<or>
             file_backing_offset c \<noteq> sat_add (file_backing_offset m) (wrap_mul idx (PGSIZE (mp E)))
          then idx else span_loop E st page m is n)"

definition span_pages :: "('i, 'w) env \<Rightarrow> mm_state \<Rightarrow> usize \<Rightarrow> memory_map \<Rightarrow> usize \<Rightarrow> nat" where
  "span_pages E st page m request =
     (let n = max request 1 in max (span_loop E st page m [1..<n] n) 1)"

definition backing_client :: "usize \<Rightarrow> nat \<Rightarrow> ('i, 'p, 'w, capptr) ape_prog" where
  "backing_client p fd =
     andThen (task_or NotFound p) (\<lambda>t.
     andThen (lift_res (ok_or (bt_get (fds (task_files t)) fd) InvalidSlot)) (\<lambda>h.
     case file_type h of Normal n \<Rightarrow> ret (nf_fs_client n)))"

definition install_file_pages :: "('i, 'w) env \<Rightarrow> usize \<Rightarrow> memory_map \<Rightarrow> nat \<Rightarrow> capptr \<Rightarrow> mm_state \<Rightarrow> mm_state" where
  "install_file_pages E page m n slot st =
     add_memory_map
       \<lparr>map_vaddr = page, map_paddr = 0, map_size = wrap_mul n (PGSIZE (mp E)), map_flags = map_flags m,
        mem_type = FileBacked, map_cow = False, frame_cap = slot, file_backing_fd = file_backing_fd m,
        file_backing_offset = file_backing_offset m\<rparr>
       (fold (\<lambda>i. remove_lazy_memory_map (wrap_add page (wrap_mul i (PGSIZE (mp E))))) [0..<n] st)"

definition try_zero_copy :: "('i, 'w) env \<Rightarrow> usize \<Rightarrow> usize \<Rightarrow> memory_map \<Rightarrow> nat \<Rightarrow> nat \<Rightarrow> ('i, 'p, 'w, nat) ape_prog" where
  "try_zero_copy E p page m fd span =
     andThen (backing_client p fd) (\<lambda>client.
     andThen (ext (cspace_alloc (caps E))) (\<lambda>slot.
     andThen (attempt (ext (fs_map_pages (fss E) client (file_backing_offset m) span slot))) (\<lambda>r.
     case r of
       Inr read_len \<Rightarrow>
         if read_len > 0 then
           andThen (attempt (map_process_frame E p slot page (map_flags m) span)) (\<lambda>x.
           case x of
             Inl e \<Rightarrow> andThen (release_process_frame_slot E p slot span) (\<lambda>_. throw e)
           | Inr _ \<Rightarrow>
               andThen (task_or NotFound p) (\<lambda>_.
               andThen (modify (upd_task p (upd_mem (install_file_pages E page m span slot)))) (\<lambda>_.
               ret span)))
         else andThen (release_process_frame_slot E p slot span) (\<lambda>_. throw IoError)
     | Inl e \<Rightarrow>
         andThen (ext_do (cspace_free (caps E) slot)) (\<lambda>_.
         if e = NotSupported then ret 0 else throw e))))"

definition undo_file_page :: "('i, 'w) env \<Rightarrow> usize \<Rightarrow> usize \<Rightarrow> capptr \<Rightarrow> error \<Rightarrow> ('i, 'p, 'w, 'a) ape_prog" where
  "undo_file_page E p page slot e =
     andThen (ignore (unmap_process_pages E p page 1)) (\<lambda>_.
     andThen (release_process_frame_slot E p slot 1) (\<lambda>_. throw e))"

definition copy_file_page :: "('i, 'w) env \<Rightarrow> usize \<Rightarrow> usize \<Rightarrow> memory_map \<Rightarrow> nat \<Rightarrow> ('i, 'p, 'w, nat) ape_prog" where
  "copy_file_page E p page m fd =
     andThen (backing_client p fd) (\<lambda>client.
     andThen (ext (cspace_alloc (caps E))) (\<lambda>slot.
     andThen (attempt (ext (res_alloc (caps E) CapPage 1 slot))) (\<lambda>a.
     case a of
       Inl e \<Rightarrow> andThen (ext_do (cspace_free (caps E) slot)) (\<lambda>_. throw e)
     | Inr _ \<Rightarrow>
         andThen (modify (ledger_record_frame_alloc p slot 1)) (\<lambda>_.
         andThen (attempt (map_process_frame E p slot page (map_flags m) 1)) (\<lambda>b.
         case b of
           Inl e \<Rightarrow> andThen (release_process_frame_slot E p slot 1) (\<lambda>_. throw e)
         | Inr _ \<Rightarrow>
             andThen (attempt (ext (vm_map_scratch (vm E) slot {PERM_READ, PERM_WRITE} 1))) (\<lambda>c.
             case c of
               Inl e \<Rightarrow> undo_file_page E p page slot e
             | Inr scratch \<Rightarrow>
                 andThen (ext_do (mem_store (vm E) scratch (replicate (PGSIZE (mp E)) 0))) (\<lambda>_.
                 andThen (attempt (ext (fs_read (fss E) client (file_backing_offset m) (PGSIZE (mp E))))) (\<lambda>d.
                 andThen (case d of
                     Inr bytes \<Rightarrow> ext_do (mem_store (vm E) scratch bytes)
                   | Inl _ \<Rightarrow> ret ()) (\<lambda>_.
                 andThen (ignore (ext (vm_unmap (vm E) scratch 1))) (\<lambda>_.
                 case d of
                   Inl e \<Rightarrow> undo_file_page E p page slot e
                 | Inr _ \<Rightarrow>
                     andThen (task_or NotFound p) (\<lambda>_.
                     andThen (modify (upd_task p (upd_mem (install_file_pages E page m 1 slot)))) (\<lambda>_.
                     ret 1))))))))))))"

definition map_file_backed_fault_page :: "('i, 'w) env \<Rightarrow> usize \<Rightarrow> usize \<Rightarrow> memory_map \<Rightarrow> usize \<Rightarrow> ('i, 'p, 'w, nat) ape_prog" where
  "map_file_backed_fault_page E p page m request =
     andThen (lift_res (ok_or (file_backing_fd m) InvalidArgs)) (\<lambda>fd.
     andThen (task_or NotFound p) (\<lambda>t.
     andThen (try_zero_copy E p page m fd (span_pages E (task_mem t) page m request)) (\<lambda>n.
     if n > 0 then ret n else copy_file_page E p page m fd)))"

section \<open>Pages that are mapped already\<close>

definition remap_existing_page ::
  "('i, 'w) env \<Rightarrow> usize \<Rightarrow> usize \<Rightarrow> usize \<Rightarrow> perms \<Rightarrow> usize \<Rightarrow> ('i, 'p, 'w, unit) ape_prog" where
  "remap_existing_page E p page frame prm pages =
     andThen (ignore (unmap_process_pages E p page pages)) (\<lambda>_.
     andThen (map_process_frame E p frame page prm pages) (\<lambda>_.
     modify (upd_task p (upd_mem (upd_map page (\<lambda>m. m\<lparr>map_flags := prm\<rparr>))))))"

definition resolve_cow_fault :: "('i, 'w) env \<Rightarrow> usize \<Rightarrow> usize \<Rightarrow> usize \<Rightarrow> perms \<Rightarrow> ('i, 'p, 'w, unit) ape_prog" where
  "resolve_cow_fault E p page old_frame prm =
     (if PERM_WRITE \<notin> prm then throw PermissionDenied
      else
        andThen (ext (cspace_alloc (caps E))) (\<lambda>slot.
        andThen (ext (res_alloc (caps E) CapPage 1 slot)) (\<lambda>_.
        andThen (modify (ledger_record_frame_alloc p slot 1)) (\<lambda>_.
        andThen (ext (vm_map_scratch (vm E) old_frame {PERM_READ} 1)) (\<lambda>src.
        andThen (attempt (ext (vm_map_scratch (vm E) slot {PERM_READ, PERM_WRITE} 1))) (\<lambda>d.
        case d of
          Inl e \<Rightarrow> andThen (ignore (ext (vm_unmap (vm E) src 1))) (\<lambda>_. throw e)
        | Inr dst \<Rightarrow>
            andThen (ext_do (copy_page E src dst)) (\<lambda>_.
            andThen (ignore (ext (vm_unmap (vm E) src 1))) (\<lambda>_.
            andThen (ignore (ext (vm_unmap (vm E) dst 1))) (\<lambda>_.
            andThen (ignore (unmap_process_pages E p page 1)) (\<lambda>_.
            andThen (map_process_frame E p slot page prm 1) (\<lambda>_.
            andThen (modify (upd_task p (upd_mem (upd_map page
               (\<lambda>m. m\<lparr>frame_cap := slot, map_cow := False, map_flags := prm\<rparr>))))) (\<lambda>_.
            release_process_frame_slot E p old_frame 1))))))))))))"

text \<open>
  An image map never carries both write and execute permission through a fault: a write
  trades one for the other, and so does an instruction fetch.
\<close>

definition adjusted_image_perms :: "usize \<Rightarrow> perms \<Rightarrow> perms option" where
  "adjusted_image_perms cause prm =
     (if cause = STORE_PAGE_FAULT \<and> PERM_EXECUTE \<in> prm \<and> PERM_WRITE \<notin> prm
      then Some (insert PERM_WRITE prm - {PERM_EXECUTE})
      else if cause = INST_PAGE_FAULT \<and> PERM_WRITE \<in> prm \<and> PERM_EXECUTE \<notin> prm
      then Some (insert PERM_EXECUTE prm - {PERM_WRITE})
      else None)"

section \<open>The fault handler\<close>

definition fault_on_map ::
  "('i, 'w) env \<Rightarrow> usize \<Rightarrow> usize \<Rightarrow> memory_map \<Rightarrow> ('i, 'p, 'w, unit) ape_prog" where
  "fault_on_map E p cause m =
     (if cause = STORE_PAGE_FAULT \<and> map_cow m then
        if PERM_WRITE \<notin> map_flags m then terminate_process E p (get_exit_code_for_signal SIGSEGV)
        else resolve_cow_fault E p (map_vaddr m) (frame_cap m) (map_flags m)
      else if \<not> fault_access_allowed cause (map_flags m) then
        (case (if mem_type m = Image then adjusted_image_perms cause (map_flags m) else None) of
           Some new_perms \<Rightarrow>
             remap_existing_page E p (map_vaddr m) (frame_cap m) new_perms (map_pages (mp E) m)
         | None \<Rightarrow> terminate_process E p (get_exit_code_for_signal SIGSEGV))
      else
        remap_existing_page E p (map_vaddr m) (frame_cap m)
          (if map_cow m then cow_fault_perms (map_flags m) else map_flags m) (map_pages (mp E) m))"

definition grow_stack_fault :: "('i, 'w) env \<Rightarrow> usize \<Rightarrow> usize \<Rightarrow> usize \<Rightarrow> ('i, 'p, 'w, unit) ape_prog" where
  "grow_stack_fault E p current_stack_low pages_to_map =
     forM [0..<pages_to_map] (\<lambda>idx.
       andThen (map_fault_page E p (wrap_sub current_stack_low (wrap_mul (idx + 1) (PGSIZE (mp E)))) {PERM_READ, PERM_WRITE} Stack) (\<lambda>_.
       modify (upd_task p (upd_mem (\<lambda>m. m\<lparr>stack_size := wrap_add (stack_size m) (PGSIZE (mp E))\<rparr>)))))"

definition lazy_fault :: "('i, 'w) env \<Rightarrow> usize \<Rightarrow> usize \<Rightarrow> memory_map \<Rightarrow> ('i, 'p, 'w, unit) ape_prog" where
  "lazy_fault E p page m =
     (if mem_type m = FileBacked then
        let request = (if page mod L1_HUGE_SIZE E = 0 \<and> file_backing_offset m mod L1_HUGE_SIZE E = 0
                       then L1_HUGE_PAGES E else 4) in
        andThen (attempt (map_file_backed_fault_page E p page m request)) (\<lambda>r.
        case r of
          Inl _ \<Rightarrow> terminate_process E p (get_exit_code_for_signal SIGBUS)
        | Inr _ \<Rightarrow> ret ())
      else
        andThen (modify (upd_task p (upd_mem (remove_lazy_memory_map page)))) (\<lambda>_.
        map_fault_page E p page (map_flags m) (mem_type m)))"

definition page_fault :: "('i, 'w) env \<Rightarrow> usize \<Rightarrow> usize \<Rightarrow> usize \<Rightarrow> usize \<Rightarrow> ('i, 'p, 'w, unit) ape_prog" where
  "page_fault E p addr pc cause =
     (let page = align_down (mp E) addr (PGSIZE (mp E)); rw = {PERM_READ, PERM_WRITE};
          segv = terminate_process E p (get_exit_code_for_signal SIGSEGV) in
      andThen (task_or NotFound p) (\<lambda>t.
      case lookup_memory_map (task_mem t) addr of
        Some m \<Rightarrow> fault_on_map E p cause m
      | None \<Rightarrow>
          (case classify_fault (mp E) (task_mem t) addr page of
             StackGrowth low n \<Rightarrow>
               if \<not> fault_access_allowed cause rw then segv else grow_stack_fault E p low n
           | HeapLazy \<Rightarrow>
               if \<not> fault_access_allowed cause rw then segv else map_fault_page E p page rw Heap
           | LazyMmap m \<Rightarrow>
               if \<not> fault_access_allowed cause (map_flags m) then segv else lazy_fault E p page m
           | Unmanaged \<Rightarrow> segv)))"

section \<open>Other faults\<close>

definition unknown_fault :: "('i, 'w) env \<Rightarrow> usize \<Rightarrow> ('i, 'p, 'w, unit) ape_prog" where
  "unknown_fault E p = terminate_process E p usize_max"

definition illegal_instruction :: "('i, 'w) env \<Rightarrow> usize \<Rightarrow> ('i, 'p, 'w, unit) ape_prog" where
  "illegal_instruction E p = terminate_process E p (get_exit_code_for_signal SIGILL)"

definition breakpoint :: "('i, 'w) env \<Rightarrow> usize \<Rightarrow> ('i, 'p, 'w, unit) ape_prog" where
  "breakpoint E p = terminate_process E p (get_exit_code_for_signal SIGTRAP)"

definition access_fault :: "('i, 'w) env \<Rightarrow> usize \<Rightarrow> ('i, 'p, 'w, unit) ape_prog" where
  "access_fault E p = terminate_process E p (get_exit_code_for_signal SIGSEGV)"

definition access_misaligned :: "('i, 'w) env \<Rightarrow> usize \<Rightarrow> ('i, 'p, 'w, unit) ape_prog" where
  "access_misaligned E p = terminate_process E p (get_exit_code_for_signal SIGSEGV)"

definition virt_exit :: "('i, 'w) env \<Rightarrow> usize \<Rightarrow> ('i, 'p, 'w, unit) ape_prog" where
  "virt_exit E p = terminate_process E p usize_max"

end
