(* ===== verification/Tty_Ansi.thy ===== *)
theory Tty_Ansi
  imports Tty_Ldisc Vfs_Base
begin

text \<open>
  The cursor tracker behind terminal output (\<open>src/src/ape/tty/ansi.rs\<close>).
  The escape-sequence parser is a library of its own: it is the parameter
  \<open>advance\<close>, which takes the parser and a byte and returns the parser with
  the callbacks it makes, in order. The callbacks return nothing to the parser, so
  the list of callbacks does not depend on the tracker. The callbacks themselves are
  modelled here, on 16-bit coordinates.
\<close>

section \<open>16-bit coordinates\<close>

definition u16_max :: nat where
  [arith_defs]: "u16_max = 65535"

definition u16_sat_add :: "nat \<Rightarrow> nat \<Rightarrow> nat" where
  [arith_defs]: "u16_sat_add a b = min (a + b) u16_max"

definition u16_sat_sub :: "nat \<Rightarrow> nat \<Rightarrow> nat" where
  [arith_defs]: "u16_sat_sub a b = a - b"

definition rows_max :: "'p tty_state \<Rightarrow> nat" where
  "rows_max st = max (ws_rows (winsize st)) 1"

definition cols_max :: "'p tty_state \<Rightarrow> nat" where
  "cols_max st = max (ws_cols (winsize st)) 1"

definition clamp_row :: "'p tty_state \<Rightarrow> nat \<Rightarrow> nat" where
  "clamp_row st row = min (max row 1) (rows_max st)"

definition clamp_col :: "'p tty_state \<Rightarrow> nat \<Rightarrow> nat" where
  "clamp_col st col = min (max col 1) (cols_max st)"

section \<open>Callbacks\<close>

text \<open>A parameter list is a list of sub-parameter lists.\<close>

datatype perform =
    Print
  | Execute byte
  | Hook
  | Put_Byte
  | Unhook
  | Osc_Dispatch
  | Csi_Dispatch "nat list list" "byte list" byte
  | Esc_Dispatch "byte list" byte

definition param_raw :: "nat list list \<Rightarrow> nat \<Rightarrow> nat" where
  "param_raw ps idx = (if idx < length ps then (case ps ! idx of [] \<Rightarrow> 0 | v # _ \<Rightarrow> v) else 0)"

definition param_or :: "nat list list \<Rightarrow> nat \<Rightarrow> nat \<Rightarrow> nat" where
  "param_or ps idx dflt = (if param_raw ps idx = 0 then dflt else param_raw ps idx)"

definition bytes_of :: "string \<Rightarrow> byte list" where
  "bytes_of s = map (\<lambda>c. of_nat (of_char c)) s"

definition ESC :: string where
  "ESC = [CHR 0x1b]"

definition respond :: "string \<Rightarrow> 'p tty_state \<Rightarrow> 'p tty_state" where
  "respond s st = st\<lparr>readable_buf := readable_buf st @ bytes_of s\<rparr>"

definition handle_printable :: "'p tty_state \<Rightarrow> 'p tty_state" where
  "handle_printable st =
     (let st = st\<lparr>cursor_col := u16_sat_add (cursor_col st) 1\<rparr> in
      if cursor_col st > cols_max st then
        st\<lparr>cursor_col := 1, cursor_row := clamp_row st (u16_sat_add (cursor_row st) 1)\<rparr>
      else st)"

text \<open>The tab stop is computed on 16 bits, where it can wrap.\<close>

definition next_tab :: "nat \<Rightarrow> nat" where
  "next_tab col = ((((col + u16_max) mod (u16_max + 1)) div 8 + 1) * 8 + 1) mod (u16_max + 1)"

definition tty_execute :: "byte \<Rightarrow> 'p tty_state \<Rightarrow> 'p tty_state" where
  "tty_execute b st =
     (if b = 10 then
        st\<lparr>cursor_row := clamp_row st (u16_sat_add (cursor_row st) 1), cursor_col := 1\<rparr>
      else if b = 13 then st\<lparr>cursor_col := 1\<rparr>
      else if b = 0x08 then st\<lparr>cursor_col := clamp_col st (u16_sat_sub (cursor_col st) 1)\<rparr>
      else if b = 0x09 then st\<lparr>cursor_col := clamp_col st (next_tab (cursor_col st))\<rparr>
      else st)"

definition save_cursor :: "'p tty_state \<Rightarrow> 'p tty_state" where
  "save_cursor st = st\<lparr>saved_cursor_row := cursor_row st, saved_cursor_col := cursor_col st\<rparr>"

definition restore_cursor :: "'p tty_state \<Rightarrow> 'p tty_state" where
  "restore_cursor st =
     st\<lparr>cursor_row := clamp_row st (saved_cursor_row st), cursor_col := clamp_col st (saved_cursor_col st)\<rparr>"

definition csi_dispatch :: "nat list list \<Rightarrow> byte list \<Rightarrow> byte \<Rightarrow> 'p tty_state \<Rightarrow> 'p tty_state" where
  "csi_dispatch ps ims action st =
     (let prefix = (case ims of [] \<Rightarrow> 0 | b # _ \<Rightarrow> b);
          a = (char_of (unat action) :: char);
          n = param_or ps 0 1
      in
      if a = CHR ''n'' then st
      else if a = CHR ''c'' then
        (if prefix = of_nat (of_char (CHR ''>'')) then respond (ESC @ ''[>0;0;0c'') st
         else respond (ESC @ ''[?1;2c'') st)
      else if a = CHR ''t'' then
        (if param_raw ps 0 = 14 then
           respond (ESC @ ''[4;'' @ show_usize (max (ws_ypixel (winsize st)) 1) @ '';'' @
                    show_usize (max (ws_xpixel (winsize st)) 1) @ ''t'') st
         else if param_raw ps 0 = 18 then
           respond (ESC @ ''[8;'' @ show_usize (rows_max st) @ '';'' @ show_usize (cols_max st) @ ''t'') st
         else st)
      else if a = CHR ''H'' \<or> a = CHR ''f'' then
        st\<lparr>cursor_row := clamp_row st n, cursor_col := clamp_col st (param_or ps 1 1)\<rparr>
      else if a = CHR ''A'' then st\<lparr>cursor_row := clamp_row st (u16_sat_sub (cursor_row st) n)\<rparr>
      else if a = CHR ''B'' then st\<lparr>cursor_row := clamp_row st (u16_sat_add (cursor_row st) n)\<rparr>
      else if a = CHR ''C'' then st\<lparr>cursor_col := clamp_col st (u16_sat_add (cursor_col st) n)\<rparr>
      else if a = CHR ''D'' then st\<lparr>cursor_col := clamp_col st (u16_sat_sub (cursor_col st) n)\<rparr>
      else if a = CHR ''E'' then
        st\<lparr>cursor_row := clamp_row st (u16_sat_add (cursor_row st) n), cursor_col := 1\<rparr>
      else if a = CHR ''F'' then
        st\<lparr>cursor_row := clamp_row st (u16_sat_sub (cursor_row st) n), cursor_col := 1\<rparr>
      else if a = CHR ''G'' then st\<lparr>cursor_col := clamp_col st n\<rparr>
      else if a = CHR ''d'' then st\<lparr>cursor_row := clamp_row st n\<rparr>
      else if a = CHR ''s'' then save_cursor st
      else if a = CHR ''u'' then restore_cursor st
      else st)"

definition esc_dispatch :: "byte list \<Rightarrow> byte \<Rightarrow> 'p tty_state \<Rightarrow> 'p tty_state" where
  "esc_dispatch ims b st =
     (let a = (char_of (unat b) :: char) in
      if a = CHR ''7'' then save_cursor st
      else if a = CHR ''8'' then restore_cursor st
      else if a = CHR ''D'' then st\<lparr>cursor_row := clamp_row st (u16_sat_add (cursor_row st) 1)\<rparr>
      else if a = CHR ''E'' then
        st\<lparr>cursor_row := clamp_row st (u16_sat_add (cursor_row st) 1), cursor_col := 1\<rparr>
      else if a = CHR ''M'' then st\<lparr>cursor_row := clamp_row st (u16_sat_sub (cursor_row st) 1)\<rparr>
      else if a = CHR ''Z'' then respond (ESC @ ''[?1;2c'') st
      else if a = CHR ''c'' then
        st\<lparr>cursor_row := 1, cursor_col := 1, saved_cursor_row := 1, saved_cursor_col := 1\<rparr>
      else st)"

fun tty_perform :: "perform \<Rightarrow> 'p tty_state \<Rightarrow> 'p tty_state" where
  "tty_perform Print st = handle_printable st"
| "tty_perform (Execute b) st = tty_execute b st"
| "tty_perform Hook st = st"
| "tty_perform Put_Byte st = st"
| "tty_perform Unhook st = st"
| "tty_perform Osc_Dispatch st = st"
| "tty_perform (Csi_Dispatch ps ims a) st = csi_dispatch ps ims a st"
| "tty_perform (Esc_Dispatch ims b) st = esc_dispatch ims b st"

text \<open>
  \<open>process_output\<close>: the parser is taken out of the state, a fresh one put in
  its place for the time of the loop, and the advanced parser put back.
\<close>

fun process_bytes ::
  "('p \<Rightarrow> byte \<Rightarrow> 'p \<times> perform list) \<Rightarrow> byte list \<Rightarrow> 'p \<Rightarrow> 'p tty_state \<Rightarrow> 'p \<times> 'p tty_state" where
  "process_bytes advance [] ps st = (ps, st)"
| "process_bytes advance (b # bs) ps st =
     (case advance ps b of (ps', calls) \<Rightarrow> process_bytes advance bs ps' (fold tty_perform calls st))"

definition process_output ::
  "'p \<Rightarrow> ('p \<Rightarrow> byte \<Rightarrow> 'p \<times> perform list) \<Rightarrow> byte list \<Rightarrow> 'p tty_state \<Rightarrow> 'p tty_state" where
  "process_output parser_new advance out st =
     (case process_bytes advance out (ansi_parser st) (st\<lparr>ansi_parser := parser_new\<rparr>) of
        (ps, st') \<Rightarrow> st'\<lparr>ansi_parser := ps\<rparr>)"

section \<open>Lemmas\<close>

definition cursor_ok :: "'p tty_state \<Rightarrow> bool" where
  "cursor_ok st \<longleftrightarrow>
     1 \<le> cursor_row st \<and> cursor_row st \<le> rows_max st \<and>
     1 \<le> cursor_col st \<and> cursor_col st \<le> cols_max st"

lemma clamp_row_bounds [simp]: "Suc 0 \<le> clamp_row st r" "clamp_row st r \<le> rows_max st"
  and clamp_col_bounds [simp]: "Suc 0 \<le> clamp_col st c" "clamp_col st c \<le> cols_max st"
  by (auto simp: clamp_row_def clamp_col_def rows_max_def cols_max_def)

lemma one_le_max [simp]: "Suc 0 \<le> rows_max st" "Suc 0 \<le> cols_max st"
  by (simp_all add: rows_max_def cols_max_def)

lemma extent_update [simp]:
  "rows_max (st\<lparr>cursor_row := a\<rparr>) = rows_max st" "rows_max (st\<lparr>cursor_col := a\<rparr>) = rows_max st"
  "cols_max (st\<lparr>cursor_row := a\<rparr>) = cols_max st" "cols_max (st\<lparr>cursor_col := a\<rparr>) = cols_max st"
  "rows_max (st\<lparr>saved_cursor_row := a\<rparr>) = rows_max st" "rows_max (st\<lparr>saved_cursor_col := a\<rparr>) = rows_max st"
  "cols_max (st\<lparr>saved_cursor_row := a\<rparr>) = cols_max st" "cols_max (st\<lparr>saved_cursor_col := a\<rparr>) = cols_max st"
  "rows_max (st\<lparr>readable_buf := bs\<rparr>) = rows_max st" "cols_max (st\<lparr>readable_buf := bs\<rparr>) = cols_max st"
  "rows_max (st\<lparr>ansi_parser := q\<rparr>) = rows_max st" "cols_max (st\<lparr>ansi_parser := q\<rparr>) = cols_max st"
  by (simp_all add: rows_max_def cols_max_def)

lemma cursor_ok_respond [simp]: "cursor_ok st \<Longrightarrow> cursor_ok (respond s st)"
  by (simp add: cursor_ok_def respond_def)

lemma cursor_ok_save [simp]: "cursor_ok st \<Longrightarrow> cursor_ok (save_cursor st)"
  by (simp add: cursor_ok_def save_cursor_def)

lemma cursor_ok_restore [simp]: "cursor_ok (restore_cursor st)"
  by (simp add: cursor_ok_def restore_cursor_def)

lemma cursor_ok_row [simp]: "cursor_ok st \<Longrightarrow> cursor_ok (st\<lparr>cursor_row := clamp_row st r\<rparr>)"
  and cursor_ok_col [simp]: "cursor_ok st \<Longrightarrow> cursor_ok (st\<lparr>cursor_col := clamp_col st c\<rparr>)"
  and cursor_ok_col1 [simp]: "cursor_ok st \<Longrightarrow> cursor_ok (st\<lparr>cursor_col := Suc 0\<rparr>)"
  and cursor_ok_pos [simp]: "cursor_ok (st\<lparr>cursor_row := clamp_row st r, cursor_col := clamp_col st c\<rparr>)"
  and cursor_ok_line [simp]: "cursor_ok (st\<lparr>cursor_row := clamp_row st r, cursor_col := Suc 0\<rparr>)"
  and cursor_ok_ris [simp]: "cursor_ok (st\<lparr>cursor_row := Suc 0, cursor_col := Suc 0,
     saved_cursor_row := Suc 0, saved_cursor_col := Suc 0\<rparr>)"
  by (simp_all add: cursor_ok_def)

lemma cursor_ok_printable: "cursor_ok st \<Longrightarrow> cursor_ok (handle_printable st)"
  by (auto simp: cursor_ok_def handle_printable_def Let_def u16_sat_add_def u16_max_def clamp_row_def)

lemma cursor_ok_execute: "cursor_ok st \<Longrightarrow> cursor_ok (tty_execute b st)"
  by (simp add: tty_execute_def)

lemma cursor_ok_csi: "cursor_ok st \<Longrightarrow> cursor_ok (csi_dispatch ps ims a st)"
  by (simp add: csi_dispatch_def Let_def)

lemma cursor_ok_esc: "cursor_ok st \<Longrightarrow> cursor_ok (esc_dispatch ims b st)"
  by (simp add: esc_dispatch_def Let_def)

lemma cursor_ok_perform: "cursor_ok st \<Longrightarrow> cursor_ok (tty_perform c st)"
  by (cases c) (simp_all add: cursor_ok_printable cursor_ok_execute cursor_ok_csi cursor_ok_esc)

lemma cursor_ok_calls: "cursor_ok st \<Longrightarrow> cursor_ok (fold tty_perform calls st)"
  by (induction calls arbitrary: st) (simp_all add: cursor_ok_perform)

lemma cursor_ok_bytes: "cursor_ok st \<Longrightarrow> cursor_ok (snd (process_bytes advance bs ps st))"
  by (induction advance bs ps st rule: process_bytes.induct) (simp add: cursor_ok_calls split: prod.split)+

lemma cursor_ok_parser [simp]: "cursor_ok (st\<lparr>ansi_parser := q\<rparr>) = cursor_ok st"
  by (simp add: cursor_ok_def)

section \<open>Properties\<close>

text \<open>
  C30: whatever a program writes to the terminal and whatever the escape-sequence
  parser makes of it, the tracked cursor stays on the screen.
\<close>

theorem process_output_cursor_on_screen:
  assumes "cursor_ok st"
  shows "cursor_ok (process_output parser_new advance out st)"
  using cursor_ok_bytes[of "st\<lparr>ansi_parser := parser_new\<rparr>" advance out "ansi_parser st"] assms
  by (simp add: process_output_def case_prod_beta)

theorem process_output_cursor_on_screen_witness:
  "cursor_ok (process_output () (\<lambda>_ b. ((), [Execute b, Print])) [10, 9, 65] (tty_default ()))"
  by (rule process_output_cursor_on_screen) (simp add: cursor_ok_def tty_default_def rows_max_def cols_max_def)

text \<open>
  C24: saving the cursor and restoring it is the identity on the position, through
  any movements in between that leave the saved position alone.
\<close>

theorem cursor_save_restore:
  assumes "cursor_ok st" and "saved_cursor_row st' = saved_cursor_row (save_cursor st)"
    and "saved_cursor_col st' = saved_cursor_col (save_cursor st)" and "winsize st' = winsize st"
  shows "cursor_row (restore_cursor st') = cursor_row st \<and> cursor_col (restore_cursor st') = cursor_col st"
  using assms by (simp add: cursor_ok_def restore_cursor_def save_cursor_def clamp_row_def clamp_col_def
      rows_max_def cols_max_def)

theorem cursor_save_restore_witness:
  "cursor_row (restore_cursor (tty_execute 10 (save_cursor (tty_default ())))) = 1"
  using cursor_save_restore[of "tty_default ()" "tty_execute 10 (save_cursor (tty_default ()))"]
  by (simp add: cursor_ok_def tty_default_def rows_max_def cols_max_def tty_execute_def save_cursor_def)

end
