(* ===== verification/Tty_Driver.thy ===== *)
theory Tty_Driver
  imports Tty_Ansi Vfs_Base Linux_Io_Abi
begin

text \<open>
  The terminal device (\<open>src/src/drivers/tty.rs\<close>): one terminal state behind a lock,
  joined to the stream of the host terminal. A read feeds host input to the line
  discipline until a program may read; a write transforms newlines, tracks the cursor and
  hides cursor queries from the host. The host terminal and the escape-sequence parser are
  the argument of every operation. Both loops spin while the host has nothing or accepts
  nothing, so they take fuel and return \<open>None\<close> when it is used up.
\<close>

section \<open>Device commands\<close>

definition IOC_NRBITS :: nat where "IOC_NRBITS = 8"
definition IOC_TYPEBITS :: nat where "IOC_TYPEBITS = 8"
definition IOC_SIZEBITS :: nat where "IOC_SIZEBITS = 14"
definition IOC_NRSHIFT :: nat where "IOC_NRSHIFT = 0"
definition IOC_TYPESHIFT :: nat where "IOC_TYPESHIFT = IOC_NRSHIFT + IOC_NRBITS"
definition IOC_SIZESHIFT :: nat where "IOC_SIZESHIFT = IOC_TYPESHIFT + IOC_TYPEBITS"
definition IOC_DIRSHIFT :: nat where "IOC_DIRSHIFT = IOC_SIZESHIFT + IOC_SIZEBITS"
definition IOC_WRITE :: "32 word" where "IOC_WRITE = 1"
definition IOC_READ :: "32 word" where "IOC_READ = 2"
definition OFLAG_OCRNL :: "32 word" where "OFLAG_OCRNL = 0x8"

definition ioc :: "32 word \<Rightarrow> 32 word \<Rightarrow> 32 word \<Rightarrow> 32 word \<Rightarrow> 32 word" where
  "ioc dir typ nr sz =
     push_bit IOC_DIRSHIFT dir OR push_bit IOC_TYPESHIFT typ OR push_bit IOC_NRSHIFT nr OR push_bit IOC_SIZESHIFT sz"

definition ior :: "32 word \<Rightarrow> 32 word \<Rightarrow> 32 word \<Rightarrow> 32 word" where "ior = ioc IOC_READ"
definition iow :: "32 word \<Rightarrow> 32 word \<Rightarrow> 32 word \<Rightarrow> 32 word" where "iow = ioc IOC_WRITE"

definition tty_ioctl_read :: "32 word \<Rightarrow> 32 word \<Rightarrow> 32 word" where "tty_ioctl_read = ior 84"
definition tty_ioctl_write :: "32 word \<Rightarrow> 32 word \<Rightarrow> 32 word" where "tty_ioctl_write = iow 84"

lemmas ioc_defs = IOC_NRBITS_def IOC_TYPEBITS_def IOC_SIZEBITS_def IOC_NRSHIFT_def IOC_TYPESHIFT_def
  IOC_SIZESHIFT_def IOC_DIRSHIFT_def IOC_WRITE_def IOC_READ_def ioc_def ior_def iow_def
  tty_ioctl_read_def tty_ioctl_write_def

datatype tty_cmd =
    Tcgets | Tcsets | Tcsetsw | Tcsetsf | Tiocgwinsz | Tiocswinsz | Tiocgpgrp | Tiocspgrp
  | Tiocgsid | Tiocsctty | Tiocnotty

definition WINSIZE_SIZE :: nat where "WINSIZE_SIZE = 8"

definition decode_tty_cmd :: "32 word \<Rightarrow> tty_cmd option" where
  "decode_tty_cmd cmd =
     (let termios_sz = word_of_nat TTY_TERMIOS_SIZE; winsz_sz = word_of_nat WINSIZE_SIZE; i32_sz = 4 in
      if cmd = TCGETS then Some Tcgets
      else if cmd = TCSETS then Some Tcsets
      else if cmd = TCSETSW then Some Tcsetsw
      else if cmd = TCSETSF then Some Tcsetsf
      else if cmd = TIOCGWINSZ then Some Tiocgwinsz
      else if cmd = TIOCSWINSZ then Some Tiocswinsz
      else if cmd = TIOCGPGRP then Some Tiocgpgrp
      else if cmd = TIOCSPGRP then Some Tiocspgrp
      else if cmd = TIOCGSID then Some Tiocgsid
      else if cmd = TIOCSCTTY then Some Tiocsctty
      else if cmd = TIOCNOTTY then Some Tiocnotty
      else if cmd = tty_ioctl_read 0x01 termios_sz then Some Tcgets
      else if cmd = tty_ioctl_write 0x02 termios_sz then Some Tcsets
      else if cmd = tty_ioctl_write 0x03 termios_sz then Some Tcsetsw
      else if cmd = tty_ioctl_write 0x04 termios_sz then Some Tcsetsf
      else if cmd = tty_ioctl_read 0x13 winsz_sz then Some Tiocgwinsz
      else if cmd = tty_ioctl_write 0x14 winsz_sz then Some Tiocswinsz
      else if cmd = tty_ioctl_read 0x77 i32_sz then Some Tiocgpgrp
      else if cmd = tty_ioctl_write 0x76 i32_sz then Some Tiocspgrp
      else if cmd = tty_ioctl_read 0x63 i32_sz then Some Tiocgsid
      else None)"

text \<open>The C structure of a window size: four 16-bit fields, little-endian.\<close>

definition u16_to_bytes :: "nat \<Rightarrow> byte list" where
  "u16_to_bytes n = [word_of_nat n, word_of_nat (n div 256)]"

definition u16_from_bytes :: "byte list \<Rightarrow> nat" where
  "u16_from_bytes bs = unat (bs ! 0) + 256 * unat (bs ! 1)"

definition host_window_size_to_linux_winsize :: "window_size \<Rightarrow> byte list" where
  "host_window_size_to_linux_winsize ws =
     u16_to_bytes (ws_rows ws) @ u16_to_bytes (ws_cols ws) @ u16_to_bytes (ws_xpixel ws) @ u16_to_bytes (ws_ypixel ws)"

definition linux_winsize_to_host_window_size :: "byte list \<Rightarrow> window_size" where
  "linux_winsize_to_host_window_size bs =
     \<lparr>ws_rows = u16_from_bytes bs, ws_cols = u16_from_bytes (drop 2 bs),
      ws_xpixel = u16_from_bytes (drop 4 bs), ws_ypixel = u16_from_bytes (drop 6 bs)\<rparr>"

section \<open>Output\<close>

definition tty_output_transform :: "byte list \<Rightarrow> byte list \<Rightarrow> byte list" where
  "tty_output_transform t input =
     (let oflag = read_u32 t OFLAG_OFFSET;
          opost = (oflag AND OFLAG_OPOST \<noteq> 0);
          onlcr = (oflag AND OFLAG_ONLCR \<noteq> 0);
          ocrnl = (oflag AND OFLAG_OCRNL \<noteq> 0)
      in if \<not> opost \<or> (\<not> onlcr \<and> \<not> ocrnl) then input
         else concat (map (\<lambda>b. if onlcr \<and> b = 10 then [13, 10] else if ocrnl \<and> b = 13 then [10] else [b]) input))"

definition get_at :: "'a list \<Rightarrow> nat \<Rightarrow> 'a option" where
  "get_at xs i = (if i < length xs then Some (xs ! i) else None)"

definition is_ascii_digit :: "byte \<Rightarrow> bool" where
  "is_ascii_digit b = (48 \<le> unat b \<and> unat b \<le> 57)"

function digits_end :: "byte list \<Rightarrow> nat \<Rightarrow> nat" where
  "digits_end input i =
     (if i < length input \<and> is_ascii_digit (input ! i) then digits_end input (i + 1) else i)"
  by auto
termination by (relation "measure (\<lambda>(input, i). length input - i)") auto

declare digits_end.simps [simp del]

definition u32_sat_digit :: "nat \<Rightarrow> byte \<Rightarrow> nat" where
  "u32_sat_digit n d = u32_sat_add (min (n * 10) u32_max) (unat d - 48)"

definition parse_dsr_query_len :: "byte list \<Rightarrow> nat \<Rightarrow> nat option" where
  "parse_dsr_query_len input start =
     (if get_at input start \<noteq> Some 0x1b \<or> get_at input (start + 1) \<noteq> Some 91 then None
      else
        let digits_start = (if get_at input (start + 2) = Some 63 then start + 3 else start + 2);
            i = digits_end input digits_start in
        if i = digits_start \<or> get_at input i \<noteq> Some 110 then None
        else
          let param = fold (\<lambda>d n. u32_sat_digit n d) (take (i - digits_start) (drop digits_start input)) 0 in
          if param = 5 \<or> param = 6 then Some (i + 1 - start) else None)"

lemma digits_end_ge: "i \<le> digits_end input i"
  by (induction input i rule: digits_end.induct) (subst digits_end.simps, auto)

lemma parse_dsr_query_len_pos: "parse_dsr_query_len input start = Some k \<Longrightarrow> 0 < k"
  using digits_end_ge[of "start + 2" input] digits_end_ge[of "start + 3" input]
  by (auto simp: parse_dsr_query_len_def Let_def split: if_splits)

function strip_loop :: "byte list \<Rightarrow> nat \<Rightarrow> byte list \<Rightarrow> byte list" where
  "strip_loop input i out =
     (if i < length input then
        (case parse_dsr_query_len input i of
           Some skip \<Rightarrow> strip_loop input (i + skip) out
         | None \<Rightarrow> strip_loop input (i + 1) (out @ [input ! i]))
      else out)"
  by pat_completeness auto
termination
  by (relation "measure (\<lambda>(input, i, out). length input - i)") (auto dest: parse_dsr_query_len_pos)

declare strip_loop.simps [simp del]

definition strip_dsr_queries :: "byte list \<Rightarrow> byte list" where
  "strip_dsr_queries input = strip_loop input 0 []"

section \<open>The host terminal\<close>

text \<open>
  Each operation is one message to the host terminal: \<open>term_poll\<close> and
  \<open>term_write\<close> answer with the first register, \<open>term_read\<close> with that register
  and the message buffer; \<open>utcb_copied\<close> is how many bytes the message buffer takes.
\<close>

record ('p, 'w) term_env =
  term_get_winsize :: "('w, window_size) prog"
  term_set_winsize :: "window_size \<Rightarrow> ('w, unit) prog"
  term_set_mode :: "('w, unit) prog"
  term_poll :: "('w, usize) prog"
  term_read :: "usize \<Rightarrow> ('w, usize \<times> byte list) prog"
  term_write :: "byte list \<Rightarrow> ('w, usize) prog"
  utcb_copied :: "byte list \<Rightarrow> nat"
  parser_new :: 'p
  parser_advance :: "'p \<Rightarrow> byte \<Rightarrow> 'p \<times> perform list"

type_synonym ('p, 'w, 'a) tty_prog = "('p tty_state \<times> 'w, 'a) prog"

definition on_term :: "('w, 'a) prog \<Rightarrow> ('p, 'w, 'a) tty_prog" where
  [monad_simps]: "on_term m = (\<lambda>(st, w). case m w of (r, w') \<Rightarrow> (r, (st, w')))"

definition get_tty :: "('p, 'w, 'p tty_state) tty_prog" where
  [monad_simps]: "get_tty = gets fst"

definition set_tty :: "('p tty_state \<Rightarrow> 'p tty_state) \<Rightarrow> ('p, 'w, unit) tty_prog" where
  [monad_simps]: "set_tty f = modify (\<lambda>(st, w). (f st, w))"

definition query_prism_tty_state :: "('p, 'w) term_env \<Rightarrow> ('w, 'p tty_state) prog" where
  "query_prism_tty_state T =
     andThen (term_get_winsize T) (\<lambda>ws. ret (tty_default (parser_new T)\<lparr>winsize := ws\<rparr>))"

definition ensure_prism_stream_mode :: "('p, 'w) term_env \<Rightarrow> ('w, unit) prog" where
  "ensure_prism_stream_mode T = ignore (term_set_mode T)"

definition prism_stream_poll :: "('p, 'w) term_env \<Rightarrow> ('w, bool) prog" where
  "prism_stream_poll T =
     andThen (ensure_prism_stream_mode T) (\<lambda>_.
     andThen (term_poll T) (\<lambda>v. ret (v \<noteq> 0)))"

definition prism_stream_read :: "('p, 'w) term_env \<Rightarrow> usize \<Rightarrow> ('w, byte list) prog" where
  "prism_stream_read T len =
     (if len = 0 then ret []
      else
        andThen (ensure_prism_stream_mode T) (\<lambda>_.
        andThen (term_read T len) (\<lambda>(n, ubuf).
        ret (take (min n (min len (length ubuf))) ubuf))))"

definition prism_stream_write :: "('p, 'w) term_env \<Rightarrow> byte list \<Rightarrow> ('w, usize) prog" where
  "prism_stream_write T dat =
     (if dat = [] then ret 0
      else
        andThen (ensure_prism_stream_mode T) (\<lambda>_.
        let copied = utcb_copied T dat in
        andThen (term_write T (take copied dat)) (\<lambda>n.
        ret (if n > 0 then min n copied else copied))))"

definition prism_set_winsize :: "('p, 'w) term_env \<Rightarrow> window_size \<Rightarrow> ('w, unit) prog" where
  "prism_set_winsize T ws = term_set_winsize T ws"

text \<open>The device is made at its first use.\<close>

definition new_stdio :: "('p, 'w) term_env \<Rightarrow> ('w, 'p tty_state) prog" where
  "new_stdio T =
     andThen (attempt (query_prism_tty_state T)) (\<lambda>r.
     case r of Inr st \<Rightarrow> ret st | Inl _ \<Rightarrow> ret (tty_default (parser_new T)))"

definition set_foreground_pgrp :: "int \<Rightarrow> ('p, 'w, unit) tty_prog" where
  "set_foreground_pgrp g = set_tty (\<lambda>st. st\<lparr>pgrp := g\<rparr>)"

section \<open>Reading and writing\<close>

fun write_all :: "nat \<Rightarrow> ('p, 'w) term_env \<Rightarrow> byte list \<Rightarrow> usize \<Rightarrow> ('p, 'w, unit option) tty_prog" where
  "write_all fuel T tx sent =
     (if sent < length tx then
        case fuel of
          0 \<Rightarrow> ret None
        | Suc fuel' \<Rightarrow>
            andThen (on_term (prism_stream_write T (drop sent tx))) (\<lambda>n.
            if n = 0 then write_all fuel' T tx sent else write_all fuel' T tx (sat_add sent n))
      else ret (Some ()))"

declare write_all.simps [simp del]

definition tty_write :: "nat \<Rightarrow> ('p, 'w) term_env \<Rightarrow> byte list \<Rightarrow> ('p, 'w, usize option) tty_prog" where
  "tty_write fuel T ubuf =
     (if ubuf = [] then ret (Some 0)
      else
        andThen get_tty (\<lambda>st.
        let tx = tty_output_transform (termios st) ubuf in
        andThen (set_tty (process_output (parser_new T) (parser_advance T) tx)) (\<lambda>_.
        let tx' = strip_dsr_queries tx in
        if tx' = [] then ret (Some (length ubuf))
        else
          andThen (write_all fuel T tx' 0) (\<lambda>d.
          case d of None \<Rightarrow> ret None | Some _ \<Rightarrow> ret (Some (length ubuf))))))"

text \<open>Host input goes through the line discipline; a failed echo is ignored.\<close>

definition feed_device :: "nat \<Rightarrow> ('p, 'w) term_env \<Rightarrow> byte list \<Rightarrow> ('p, 'w, unit option) tty_prog" where
  "feed_device fuel T input =
     andThen get_tty (\<lambda>st.
     case feed_input st input of
       (st', echo) \<Rightarrow>
         andThen (set_tty (\<lambda>_. st')) (\<lambda>_.
         if echo = [] then ret (Some ())
         else
           andThen (attempt (tty_write fuel T echo)) (\<lambda>r.
           case r of Inr None \<Rightarrow> ret None | _ \<Rightarrow> ret (Some ()))))"

definition poll_readable :: "nat \<Rightarrow> ('p, 'w) term_env \<Rightarrow> ('p, 'w, bool option) tty_prog" where
  "poll_readable fuel T =
     andThen get_tty (\<lambda>st.
     if can_read_now st then ret (Some True)
     else
       andThen (on_term (prism_stream_poll T)) (\<lambda>more.
       if \<not> more then ret (Some False)
       else
         andThen (on_term (prism_stream_read T 256)) (\<lambda>input.
         if input = [] then ret (Some False)
         else
           andThen (feed_device fuel T input) (\<lambda>d.
           case d of
             None \<Rightarrow> ret None
           | Some _ \<Rightarrow> andThen get_tty (\<lambda>st. ret (Some (can_read_now st)))))))"

fun tty_read :: "nat \<Rightarrow> ('p, 'w) term_env \<Rightarrow> usize \<Rightarrow> ('p, 'w, byte list option) tty_prog" where
  "tty_read fuel T len =
     (if len = 0 then ret (Some [])
      else
        case fuel of
          0 \<Rightarrow> ret None
        | Suc fuel' \<Rightarrow>
            andThen get_tty (\<lambda>st.
            case take_readable st len of
              (ready, st') \<Rightarrow>
                andThen (set_tty (\<lambda>_. st')) (\<lambda>_.
                if ready \<noteq> [] then ret (Some ready)
                else
                  andThen (on_term (prism_stream_read T 256)) (\<lambda>input.
                  if input = [] then tty_read fuel' T len
                  else
                    andThen (feed_device fuel' T input) (\<lambda>d.
                    case d of None \<Rightarrow> ret None | Some _ \<Rightarrow> tty_read fuel' T len)))))"

declare tty_read.simps [simp del]

section \<open>Device control\<close>

definition set_termios :: "byte list option \<Rightarrow> ('p, 'w, usize \<times> byte list) tty_prog" where
  "set_termios input =
     andThen (lift_res (ok_or input InvalidArgs)) (\<lambda>payload.
     let n = min TTY_TERMIOS_SIZE (length payload) in
     andThen (set_tty (\<lambda>st. st\<lparr>termios := put_slice 0 (take n payload) (replicate TTY_TERMIOS_SIZE 0)\<rparr>)) (\<lambda>_.
     ret (0, [])))"

definition get_pgrp_bytes :: "usize \<Rightarrow> ('p, 'w, usize \<times> byte list) tty_prog" where
  "get_pgrp_bytes out_len =
     andThen get_tty (\<lambda>st.
     let raw = u32_to_bytes (word_of_int (pgrp st)) in
     ret (0, take (min out_len (length raw)) raw))"

definition tty_ioctl_ex ::
  "('p, 'w) term_env \<Rightarrow> 32 word \<Rightarrow> byte list option \<Rightarrow> usize \<Rightarrow> ('p, 'w, usize \<times> byte list) tty_prog" where
  "tty_ioctl_ex T cmd input out_len =
     andThen (lift_res (ok_or (decode_tty_cmd cmd) InvalidType)) (\<lambda>c.
     case c of
       Tiocgwinsz \<Rightarrow>
         andThen get_tty (\<lambda>st.
         let bs = host_window_size_to_linux_winsize (winsize st) in
         ret (0, take (min out_len (length bs)) bs))
     | Tiocswinsz \<Rightarrow>
         andThen (lift_res (ok_or input InvalidArgs)) (\<lambda>payload.
         if length payload < WINSIZE_SIZE then throw InvalidArgs
         else
           let ws = linux_winsize_to_host_window_size payload in
           andThen (set_tty (\<lambda>st. st\<lparr>winsize := ws\<rparr>)) (\<lambda>_.
           andThen (on_term (prism_set_winsize T ws)) (\<lambda>_. ret (0, []))))
     | Tcgets \<Rightarrow>
         andThen get_tty (\<lambda>st. ret (0, take (min out_len (length (termios st))) (termios st)))
     | Tcsets \<Rightarrow> set_termios input
     | Tcsetsw \<Rightarrow> set_termios input
     | Tcsetsf \<Rightarrow> set_termios input
     | Tiocgpgrp \<Rightarrow> get_pgrp_bytes out_len
     | Tiocgsid \<Rightarrow> get_pgrp_bytes out_len
     | Tiocspgrp \<Rightarrow>
         andThen (lift_res (ok_or input InvalidArgs)) (\<lambda>payload.
         if length payload < 4 then throw InvalidArgs
         else
           andThen (set_tty (\<lambda>st. st\<lparr>pgrp := sint (u32_from_bytes (take 4 payload))\<rparr>)) (\<lambda>_.
           ret (0, [])))
     | Tiocsctty \<Rightarrow> ret (0, [])
     | Tiocnotty \<Rightarrow> ret (0, []))"

section \<open>Hiding cursor queries\<close>

lemma get_at_drop [simp]: "get_at (drop s xs) i = get_at xs (s + i)"
  by (auto simp: get_at_def)

lemma digits_end_drop: "s + digits_end (drop s xs) i = digits_end xs (s + i)"
proof (induction "drop s xs" i rule: digits_end.induct)
  case (1 i)
  show ?case
  proof (cases "i < length (drop s xs) \<and> is_ascii_digit (drop s xs ! i)")
    case True
    with 1 have "s + digits_end (drop s xs) (i + 1) = digits_end xs (s + (i + 1))" by blast
    with True show ?thesis
      by (subst digits_end.simps, subst (2) digits_end.simps) auto
  next
    case False
    then show ?thesis by (subst digits_end.simps, subst (2) digits_end.simps) auto
  qed
qed

lemma parse_dsr_drop: "parse_dsr_query_len input start = parse_dsr_query_len (drop start input) 0"
proof -
  have shift: "parse_dsr_query_len input start = parse_dsr_query_len (drop start input) 0"
    if "\<And>k. k = 2 \<or> k = 3 \<Longrightarrow> digits_end input (start + k) = start + e k"
      and "\<And>k. digits_end (drop start input) k = e k" for e
    using that by (simp add: parse_dsr_query_len_def Let_def add.commute[of start] del: drop_drop add_2_eq_Suc add_2_eq_Suc')
      (auto simp: add.commute)
  show ?thesis
    by (rule shift[of "digits_end (drop start input)"]) (simp_all add: digits_end_drop)
qed

lemma strip_loop_drop: "strip_loop (drop s xs) i out = strip_loop xs (s + i) out"
proof (induction "drop s xs" i out rule: strip_loop.induct)
  case (1 i out)
  have p: "parse_dsr_query_len (drop s xs) i = parse_dsr_query_len xs (s + i)"
    by (subst (1 2) parse_dsr_drop) (simp add: add.commute)
  show ?case
  proof (cases "i < length (drop s xs)")
    case True
    with 1 p show ?thesis
      by (subst strip_loop.simps, subst (2) strip_loop.simps) (auto simp: add.assoc split: option.split)
  next
    case False
    then show ?thesis by (subst strip_loop.simps, subst (2) strip_loop.simps) auto
  qed
qed

lemma strip_loop_out: "strip_loop xs i (a @ out) = a @ strip_loop xs i out"
proof (induction xs i out rule: strip_loop.induct)
  case (1 xs i out)
  show ?case
    using 1 by (subst strip_loop.simps, subst (2) strip_loop.simps) (auto split: option.split)
qed

lemma strip_dsr_Nil [simp]: "strip_dsr_queries [] = []"
  by (simp add: strip_dsr_queries_def strip_loop.simps)

lemma strip_dsr_step:
  "strip_dsr_queries (b # bs) =
     (case parse_dsr_query_len (b # bs) 0 of
        Some k \<Rightarrow> strip_dsr_queries (drop k (b # bs))
      | None \<Rightarrow> b # strip_dsr_queries bs)"
proof -
  have "strip_loop (b # bs) (Suc 0) [b] = b # strip_loop (drop 1 (b # bs)) 0 []"
    unfolding strip_loop_drop using strip_loop_out[of "b # bs" "Suc 0" "[b]" "[]"] by simp
  then show ?thesis
    unfolding strip_dsr_queries_def
    by (subst strip_loop.simps) (simp add: strip_loop_drop split: option.split)
qed

text \<open>The queries: a status report request, private or not, with parameter 5 or 6.\<close>

definition dsr_query :: "byte list \<Rightarrow> bool" where
  "dsr_query q \<longleftrightarrow>
     (\<exists>pre ds. q = [0x1b, 91] @ pre @ ds @ [110] \<and> pre \<in> {[], [63]} \<and> ds \<noteq> [] \<and>
        (\<forall>d \<in> set ds. is_ascii_digit d) \<and> fold (\<lambda>d n. u32_sat_digit n d) ds 0 \<in> {5, 6})"

lemma digits_end_digits:
  assumes "\<forall>d \<in> set ds. is_ascii_digit d" and "\<not> is_ascii_digit c"
  shows "digits_end (xs @ ds @ c # rest) (length xs) = length xs + length ds"
  using assms(1)
proof (induction ds arbitrary: xs)
  case Nil
  then show ?case using assms(2) by (subst digits_end.simps) simp
next
  case (Cons d ds)
  from Cons.IH[of "xs @ [d]"] Cons.prems show ?case by (subst digits_end.simps) simp
qed

lemma parse_dsr_query:
  assumes "dsr_query q"
  shows "parse_dsr_query_len (q @ rest) 0 = Some (length q)"
proof -
  from assms obtain pre ds where q: "q = [0x1b, 91] @ pre @ ds @ [110]" "pre \<in> {[], [63]}" "ds \<noteq> []"
    and ds: "\<forall>d \<in> set ds. is_ascii_digit d" "fold (\<lambda>d n. u32_sat_digit n d) ds 0 \<in> {5, 6}"
    unfolding dsr_query_def by blast
  let ?xs = "[0x1b, 91] @ pre"
  have n: "\<not> is_ascii_digit 110" by (simp add: is_ascii_digit_def)
  have inp: "q @ rest = ?xs @ ds @ 110 # rest" by (simp add: q)
  from ds(1) q(3) have "hd ds \<noteq> 63" by (cases ds) (auto simp: is_ascii_digit_def)
  with q(2,3) have start: "(if get_at (q @ rest) (0 + 2) = Some 63 then 0 + 3 else 0 + 2) = length ?xs"
    by (cases ds) (auto simp: inp get_at_def)
  have e: "digits_end (q @ rest) (length ?xs) = length ?xs + length ds"
    unfolding inp by (rule digits_end_digits[OF ds(1) n])
  show ?thesis
    unfolding parse_dsr_query_len_def start Let_def e
    using q ds(2) by (auto simp: inp get_at_def nth_append)
qed

datatype segment = Plain "byte list" | Query "byte list"

fun seg_bytes :: "segment \<Rightarrow> byte list" where
  "seg_bytes (Plain t) = t" | "seg_bytes (Query q) = q"

fun seg_shown :: "segment \<Rightarrow> byte list" where
  "seg_shown (Plain t) = t" | "seg_shown (Query q) = []"

fun seg_ok :: "segment \<Rightarrow> bool" where
  "seg_ok (Plain t) = (0x1b \<notin> set t)" | "seg_ok (Query q) = dsr_query q"

lemma strip_plain: "0x1b \<notin> set t \<Longrightarrow> strip_dsr_queries (t @ rest) = t @ strip_dsr_queries rest"
  by (induction t) (auto simp: strip_dsr_step parse_dsr_query_len_def get_at_def)

lemma strip_query: "dsr_query q \<Longrightarrow> strip_dsr_queries (q @ rest) = strip_dsr_queries rest"
  using parse_dsr_query[of q rest] by (cases q) (auto simp: strip_dsr_step dsr_query_def)

text \<open>
  C38: the host terminal never sees a cursor query of a program: from output that mixes
  text without escape bytes and status report requests, exactly the text remains, in order
  and complete, however many requests follow each other and however their parameter is
  written.
\<close>

theorem strip_dsr_exact:
  assumes "list_all seg_ok segs"
  shows "strip_dsr_queries (concat (map seg_bytes segs)) = concat (map seg_shown segs)"
  using assms
proof (induction segs)
  case (Cons g segs)
  then show ?case by (cases g) (auto simp: strip_plain strip_query)
qed simp

theorem strip_dsr_exact_witness:
  "strip_dsr_queries (concat (map seg_bytes [Plain [65, 66], Query [0x1b, 91, 54, 110], Query [0x1b, 91, 63, 48, 53, 110], Plain [67]])) = [65, 66, 67]"
proof -
  have q: "dsr_query [0x1b, 91, 54, 110]"
    unfolding dsr_query_def
    by (rule exI[of _ "[]"], rule exI[of _ "[54]"]) (simp add: is_ascii_digit_def u32_sat_digit_def arith_defs)
  have q2: "dsr_query [0x1b, 91, 63, 48, 53, 110]"
    unfolding dsr_query_def
    by (rule exI[of _ "[63]"], rule exI[of _ "[48, 53]"]) (simp add: is_ascii_digit_def u32_sat_digit_def arith_defs)
  show ?thesis
    by (subst strip_dsr_exact) (simp_all add: q q2)
qed

text \<open>
  A query that another query splits is not hidden: removing the inner one leaves the bytes
  of the outer one next to each other, and the single pass does not look at them again.
\<close>

theorem nested_query_reaches_host:
  "strip_dsr_queries [0x1b, 91, 0x1b, 91, 54, 110, 54, 110] = [0x1b, 91, 54, 110]"
  by (simp add: strip_dsr_step parse_dsr_query_len_def get_at_def digits_end.simps is_ascii_digit_def
      u32_sat_digit_def arith_defs Let_def nth_Cons')

section \<open>A write reaches the screen\<close>

text \<open>
  What is asked of the host terminal: setting the stream mode shows nothing, a message
  buffer takes at least one byte and no more than it is given, and a write message either
  fails and shows nothing, or is answered with the number of bytes accepted, at least one,
  which are the bytes appended to what the terminal shows.  A host that accepts nothing and
  answers 0 is not covered: \<open>zero_count_loses_output\<close> below shows what the code
  does with it.
\<close>

definition shows_output :: "('p, 'w) term_env \<Rightarrow> ('w \<Rightarrow> byte list) \<Rightarrow> bool" where
  "shows_output T screen \<longleftrightarrow>
     (\<forall>w. \<exists>r w'. term_set_mode T w = (r, w') \<and> r \<noteq> Panic \<and> screen w' = screen w) \<and>
     (\<forall>dat. dat \<noteq> [] \<longrightarrow> 1 \<le> utcb_copied T dat \<and> utcb_copied T dat \<le> length dat) \<and>
     (\<forall>dat w. dat \<noteq> [] \<longrightarrow>
        (\<exists>n w'. term_write T dat w = (Ok n, w') \<and> 1 \<le> n \<and> n \<le> length dat \<and> screen w' = screen w @ take n dat) \<or>
        (\<exists>e w'. term_write T dat w = (Err e, w') \<and> screen w' = screen w))"

text \<open>The host refused a message with this error.\<close>

definition host_refuses :: "('p, 'w) term_env \<Rightarrow> error \<Rightarrow> bool" where
  "host_refuses T e \<longleftrightarrow> (\<exists>dat w w'. term_write T dat w = (Err e, w'))"

lemma stream_write_shows:
  assumes "shows_output T screen" and "dat \<noteq> []"
  shows "(\<exists>n w'. prism_stream_write T dat w = (Ok n, w') \<and> 1 \<le> n \<and> n \<le> length dat \<and> screen w' = screen w @ take n dat) \<or>
    (\<exists>e w'. prism_stream_write T dat w = (Err e, w') \<and> screen w' = screen w \<and> host_refuses T e)"
proof -
  from assms(1) obtain r w1 where mode: "term_set_mode T w = (r, w1)" "r \<noteq> Panic" "screen w1 = screen w"
    unfolding shows_output_def by blast
  let ?c = "utcb_copied T dat"
  have run: "prism_stream_write T dat w =
      andThen (term_write T (take ?c dat)) (\<lambda>n. ret (if n > 0 then min n ?c else ?c)) w1"
    using assms(2) mode(1,2)
    by (cases r) (simp_all add: prism_stream_write_def ensure_prism_stream_mode_def monad_simps Let_def)
  from assms have c: "1 \<le> ?c" "?c \<le> length dat" unfolding shows_output_def by blast+
  with assms(2) have "take ?c dat \<noteq> []" by simp
  with assms(1) consider
      (Shown) n w2 where "term_write T (take ?c dat) w1 = (Ok n, w2)" "1 \<le> n" "n \<le> length (take ?c dat)"
        "screen w2 = screen w1 @ take n (take ?c dat)"
    | (Refused) e w2 where "term_write T (take ?c dat) w1 = (Err e, w2)" "screen w2 = screen w1"
    unfolding shows_output_def by blast
  then show ?thesis
  proof cases
    case Shown
    with c have "min n ?c = n" by simp
    with Shown c mode(3) show ?thesis by (intro disjI1) (simp add: run monad_simps)
  next
    case Refused
    then have "host_refuses T e" unfolding host_refuses_def by blast
    with Refused mode(3) show ?thesis by (simp add: run monad_simps)
  qed
qed

lemma write_all_shows:
  assumes "shows_output T screen" and "length tx - sent \<le> fuel" and "sent \<le> length tx" and "length tx \<le> usize_max"
  shows "(\<exists>w'. write_all fuel T tx sent (st, w) = (Ok (Some ()), (st, w')) \<and> screen w' = screen w @ drop sent tx) \<or>
    (\<exists>e k w'. write_all fuel T tx sent (st, w) = (Err e, (st, w')) \<and> screen w' = screen w @ take k (drop sent tx) \<and> host_refuses T e)"
  using assms(2,3)
proof (induction fuel arbitrary: sent w)
  case 0
  then show ?case by (subst write_all.simps) (simp add: ret_def)
next
  case (Suc fuel)
  show ?case
  proof (cases "sent < length tx")
    case True
    then have "drop sent tx \<noteq> []" by simp
    from stream_write_shows[OF assms(1) this, of w] show ?thesis
    proof (elim disjE exE conjE)
      fix n w1
      assume w1: "prism_stream_write T (drop sent tx) w = (Ok n, w1)" "1 \<le> n" "n \<le> length (drop sent tx)"
        "screen w1 = screen w @ take n (drop sent tx)"
      then have n: "n \<le> length tx - sent" by simp
      have sat: "sat_add sent n = sent + n" using n True assms(4) by (simp add: sat_add_def)
      from w1(1,2) True sat have run: "write_all (Suc fuel) T tx sent (st, w) = write_all fuel T tx (sent + n) (st, w1)"
        by (subst write_all.simps) (simp add: monad_simps)
      have whole: "take n (drop sent tx) @ drop (sent + n) tx = drop sent tx"
        by (metis append_take_drop_id drop_drop add.commute)
      have part: "take n (drop sent tx) @ take k (drop (sent + n) tx) = take (n + k) (drop sent tx)" for k
        unfolding take_add drop_drop by (simp add: add.commute)
      from n w1(2) True Suc.prems have "length tx - (sent + n) \<le> fuel" "sent + n \<le> length tx" by linarith+
      from Suc.IH[OF this, of w1] show ?thesis
        unfolding run w1(4) append_assoc whole part by blast
    next
      fix e w1
      assume w1: "prism_stream_write T (drop sent tx) w = (Err e, w1)" "screen w1 = screen w" "host_refuses T e"
      then have "write_all (Suc fuel) T tx sent (st, w) = (Err e, (st, w1))"
        using True by (subst write_all.simps) (simp add: monad_simps)
      moreover have "screen w1 = screen w @ take 0 (drop sent tx)" using w1(2) by simp
      ultimately show ?thesis using w1(3) by blast
    qed
  qed (use Suc.prems in \<open>subst write_all.simps, simp add: ret_def\<close>)
qed

text \<open>
  C15: a write to the terminal always ends, and it succeeds unless the host refuses a
  message.  When it succeeds it reports the bytes of the caller although newlines grow, and
  the host terminal shows exactly the transformed output without the cursor queries; when a
  message is refused, its error is the answer and the host shows a prefix of that output.
  The host is asked to accept at least one byte of every message it does not refuse; the
  number of rounds needed is then at most the number of bytes.
\<close>

theorem tty_write_shows:
  assumes "shows_output T screen"
    and "length (strip_dsr_queries (tty_output_transform (termios st) ubuf)) \<le> fuel" and "fuel \<le> usize_max"
  shows "\<exists>r k w'. tty_write fuel T ubuf (st, w) =
      (r,
       (if ubuf = [] then st
        else process_output (parser_new T) (parser_advance T) (tty_output_transform (termios st) ubuf) st, w')) \<and>
    screen w' = screen w @ take k (strip_dsr_queries (tty_output_transform (termios st) ubuf)) \<and>
    (r = Ok (Some (length ubuf)) \<and> k = length (strip_dsr_queries (tty_output_transform (termios st) ubuf)) \<or>
     (\<exists>e. r = Err e \<and> host_refuses T e))"
proof -
  let ?tx = "tty_output_transform (termios st) ubuf"
  let ?out = "strip_dsr_queries ?tx"
  let ?st = "process_output (parser_new T) (parser_advance T) ?tx st"
  have empty: "tty_output_transform (termios st) [] = []"
    by (simp add: tty_output_transform_def Let_def)
  show ?thesis
  proof (cases "ubuf = [] \<or> ?out = []")
    case True
    then show ?thesis
      by (intro exI[of _ "Ok (Some (length ubuf))"] exI[of _ "length ?out"] exI[of _ w])
        (auto simp: tty_write_def monad_simps Let_def empty)
  next
    case False
    from write_all_shows[OF assms(1), of ?out 0 fuel ?st w] assms(2,3)
    have "(\<exists>w'. write_all fuel T ?out 0 (?st, w) = (Ok (Some ()), (?st, w')) \<and> screen w' = screen w @ take (length ?out) ?out) \<or>
      (\<exists>e k w'. write_all fuel T ?out 0 (?st, w) = (Err e, (?st, w')) \<and> screen w' = screen w @ take k ?out \<and> host_refuses T e)"
      by simp
    then show ?thesis
    proof (elim disjE exE conjE)
      fix w' assume "write_all fuel T ?out 0 (?st, w) = (Ok (Some ()), (?st, w'))" "screen w' = screen w @ take (length ?out) ?out"
      with False show ?thesis
        by (intro exI[of _ "Ok (Some (length ubuf))"] exI[of _ "length ?out"] exI[of _ w'])
          (simp add: tty_write_def monad_simps Let_def)
    next
      fix e k w' assume "write_all fuel T ?out 0 (?st, w) = (Err e, (?st, w'))" "screen w' = screen w @ take k ?out"
        "host_refuses T e"
      with False show ?thesis
        by (intro exI[of _ "Err e"] exI[of _ k] exI[of _ w']) (simp add: tty_write_def monad_simps Let_def)
    qed
  qed
qed

text \<open>A terminal that records what it is sent and accepts one byte of each message.\<close>

definition example_term :: "(unit, byte list) term_env" where
  "example_term =
     \<lparr>term_get_winsize = throw NotSupported, term_set_winsize = (\<lambda>_. ret ()), term_set_mode = ret (),
      term_poll = ret 0, term_read = (\<lambda>_. ret (0, [])),
      term_write = (\<lambda>dat w. (Ok 1, w @ take 1 dat)), utcb_copied = length,
      parser_new = (), parser_advance = (\<lambda>_ _. ((), []))\<rparr>"

lemma example_term_shows: "shows_output example_term (\<lambda>w. w)"
  by (auto simp: shows_output_def example_term_def ret_def Suc_le_eq)

lemma example_term_accepts: "\<not> host_refuses example_term e"
  by (simp add: host_refuses_def example_term_def)

lemma example_line: "strip_dsr_queries (tty_output_transform (termios (tty_default p)) [65, 10]) = [65, 13, 10]"
proof -
  have t: "termios (tty_default p) = default_termios" by (simp add: tty_default_def)
  have f: "read_u32 default_termios OFLAG_OFFSET = 5"
    by (simp add: read_u32_def default_termios_def tty_consts put_slice_def u32_to_bytes_def u32_from_bytes_def Let_def)
  have "tty_output_transform (termios (tty_default p)) [65, 10] = [65, 13, 10]"
    unfolding t tty_output_transform_def f by (simp add: Let_def tty_consts OFLAG_OCRNL_def)
  then show ?thesis using strip_plain[of "[65, 13, 10]" "[]"] by simp
qed

theorem tty_write_shows_witness:
  "\<exists>st' w'. tty_write 9 example_term [65, 10] (tty_default (), []) = (Ok (Some 2), (st', w')) \<and> w' = [65, 13, 10]"
  using tty_write_shows[OF example_term_shows, of "tty_default ()" "[65, 10]" 9 "[]", unfolded example_line]
  by (auto simp: arith_defs example_term_accepts)

text \<open>
  A host that accepts nothing and says so loses output: the count 0 is read as the whole
  message, and the write reports success although the screen shows nothing.
\<close>

theorem zero_count_loses_output:
  "\<exists>st'. tty_write 1 (example_term\<lparr>term_write := \<lambda>dat w. (Ok 0, w)\<rparr>) [65, 10] (tty_default (), []) =
     (Ok (Some 2), (st', []))"
proof -
  have tx: "strip_dsr_queries (tty_output_transform (termios (tty_default ())) [65, 10]) = [65, 13, 10]"
    by (rule example_line)
  show ?thesis
    by (simp add: tty_write_def monad_simps Let_def tx write_all.simps prism_stream_write_def
        ensure_prism_stream_mode_def example_term_def sat_add_def arith_defs)
qed

section \<open>Device control\<close>

lemma u32_bytes_inverse: "u32_to_bytes (u32_from_bytes [a, b, c, d]) = [a, b, c, d]"
proof -
  have high: "\<not> bit x (8 + n)" "\<not> bit x (16 + n)" "\<not> bit x (24 + n)" for x :: byte and n
    using bit_imp_le_length[of x] by fastforce+
  show ?thesis by (auto simp: u32_from_bytes_def u32_to_bytes_def bit_simps high intro!: bit_word_eqI)
qed

lemma u16_bytes_inverse: "u16_to_bytes (u16_from_bytes (a # b # bs)) = [a, b]"
proof -
  have "word_of_nat (unat a + 256 * unat b) = a + 256 * b" by simp
  moreover have "256 * b = 0"
  proof -
    have "(256 :: byte) = 2 ^ LENGTH(8)" by simp
    then show ?thesis by (simp only: word_exp_length_eq_0 mult_zero_left)
  qed
  moreover have "(unat a + 256 * unat b) div 256 = unat b"
    using unsigned_less[of a, where 'a = nat] by simp
  ultimately show ?thesis by (simp add: u16_to_bytes_def u16_from_bytes_def)
qed

text \<open>
  What a program sets on the terminal it reads back: the mode bytes, by any of the
  three set commands, the foreground process group, and the window size, the last also
  when the host terminal refuses the new size.
\<close>

theorem tty_settings_roundtrip:
  assumes "length t = TTY_TERMIOS_SIZE" and "length ws = WINSIZE_SIZE" and "length g = 4"
    and "cmd \<in> {TCSETS, TCSETSW, TCSETSF}"
  shows "\<exists>s1 s2. tty_ioctl_ex T cmd (Some t) 0 s = (Ok (0, []), s1) \<and>
    tty_ioctl_ex T TCGETS None TTY_TERMIOS_SIZE s1 = (Ok (0, t), s1) \<and>
    tty_ioctl_ex T TIOCSPGRP (Some g) 0 s = (Ok (0, []), s2) \<and>
    tty_ioctl_ex T TIOCGPGRP None 4 s2 = (Ok (0, g), s2) \<and>
    (\<forall>r s3. tty_ioctl_ex T TIOCSWINSZ (Some ws) 0 s = (r, s3) \<longrightarrow>
       tty_ioctl_ex T TIOCGWINSZ None WINSIZE_SIZE s3 = (Ok (0, ws), s3))"
proof -
  obtain st w where s: "s = (st, w)" by (cases s)
  have cmds: "decode_tty_cmd cmd \<in> {Some Tcsets, Some Tcsetsw, Some Tcsetsf}"
    using assms(4) by (auto simp: decode_tty_cmd_def)
  have dec: "decode_tty_cmd TCGETS = Some Tcgets" "decode_tty_cmd TIOCSPGRP = Some Tiocspgrp"
    "decode_tty_cmd TIOCGPGRP = Some Tiocgpgrp" "decode_tty_cmd TIOCSWINSZ = Some Tiocswinsz"
    "decode_tty_cmd TIOCGWINSZ = Some Tiocgwinsz"
    by (simp_all add: decode_tty_cmd_def)
  have t1: "tty_ioctl_ex T cmd (Some t) 0 s = (Ok (0, []), (st\<lparr>termios := t\<rparr>, w))"
    using cmds assms(1) by (auto simp: tty_ioctl_ex_def set_termios_def monad_simps s put_slice_def)
  have t2: "tty_ioctl_ex T TCGETS None TTY_TERMIOS_SIZE (st\<lparr>termios := t\<rparr>, w) = (Ok (0, t), (st\<lparr>termios := t\<rparr>, w))"
    using assms(1) by (simp add: tty_ioctl_ex_def dec monad_simps)
  let ?st2 = "st\<lparr>pgrp := sint (u32_from_bytes g)\<rparr>"
  from assms(3) obtain a b c d where g: "g = [a, b, c, d]"
    by (auto simp: length_Suc_conv numeral_eq_Suc)
  have t3: "tty_ioctl_ex T TIOCSPGRP (Some g) 0 s = (Ok (0, []), (?st2, w))"
    using assms(3) by (simp add: tty_ioctl_ex_def dec monad_simps s)
  have t4: "tty_ioctl_ex T TIOCGPGRP None 4 (?st2, w) = (Ok (0, g), (?st2, w))"
    by (simp add: tty_ioctl_ex_def dec get_pgrp_bytes_def monad_simps g u32_bytes_inverse)
  have "host_window_size_to_linux_winsize (linux_winsize_to_host_window_size ws) = ws"
  proof -
    from assms(2) obtain b0 b1 b2 b3 b4 b5 b6 b7 where "ws = [b0, b1, b2, b3, b4, b5, b6, b7]"
      by (auto simp: WINSIZE_SIZE_def length_Suc_conv numeral_eq_Suc)
    then show ?thesis
      by (simp add: host_window_size_to_linux_winsize_def linux_winsize_to_host_window_size_def u16_bytes_inverse)
  qed
  then have t5: "tty_ioctl_ex T TIOCGWINSZ None WINSIZE_SIZE s3 = (Ok (0, ws), s3)"
    if "tty_ioctl_ex T TIOCSWINSZ (Some ws) 0 s = (r, s3)" for r s3
    using that assms(2)
    by (auto simp: tty_ioctl_ex_def dec monad_simps s Let_def split: prod.splits res.splits)
  from t1 t2 t3 t4 t5 show ?thesis by blast
qed

theorem tty_settings_roundtrip_witness:
  "\<exists>s1. tty_ioctl_ex example_term TCSETSW (Some (replicate 44 7)) 0 (tty_default (), []) = (Ok (0, []), s1) \<and>
     tty_ioctl_ex example_term TCGETS None 44 s1 = (Ok (0, replicate 44 7), s1)"
  using tty_settings_roundtrip[of "replicate 44 7" "replicate 8 0" "replicate 4 0" TCSETSW example_term "(tty_default (), [])"]
  by (simp add: TTY_TERMIOS_SIZE_def WINSIZE_SIZE_def) blast

text \<open>
  A smaller window leaves the tracked cursor outside the screen: device control stores the
  size and does not clamp the position.
\<close>

theorem winsize_strands_cursor:
  "\<exists>st w. cursor_ok st \<and> \<not> cursor_ok (fst (snd (tty_ioctl_ex example_term TIOCSWINSZ (Some [10, 0, 80, 0, 0, 0, 0, 0]) 0 (st, w))))"
proof (intro exI conjI)
  let ?st = "(tty_default ())\<lparr>cursor_row := 20\<rparr>"
  show "cursor_ok ?st" by (simp add: cursor_ok_def tty_default_def rows_max_def cols_max_def)
  show "\<not> cursor_ok (fst (snd (tty_ioctl_ex example_term TIOCSWINSZ (Some [10, 0, 80, 0, 0, 0, 0, 0]) 0 (?st, []))))"
    by (simp add: tty_ioctl_ex_def decode_tty_cmd_def monad_simps WINSIZE_SIZE_def Let_def example_term_def
        prism_set_winsize_def linux_winsize_to_host_window_size_def u16_from_bytes_def cursor_ok_def rows_max_def tty_default_def)
qed

end
