(* ===== verification/Devtmpfs.thy ===== *)
theory Devtmpfs
  imports Tty_Driver Pipe
begin

text \<open>
  The device file system (\<open>src/src/vfs/devtmpfs.rs\<close>), the empty temporary file
  system (\<open>src/src/vfs/tmpfs.rs\<close>), their namespaces (\<open>src/src/vfs/server.rs\<close>)
  and the kinds of the workers that serve them (\<open>src/src/vfs/worker.rs\<close>). The state
  of a device operation is that of the terminal device; the other devices have none. The
  two loops of the terminal take fuel, and so do the operations that reach them.
\<close>

section \<open>Device numbers\<close>

record linux_device_number =
  major :: "16 word"
  minor :: "32 word"

definition linux_mkdev :: "32 word \<Rightarrow> 32 word \<Rightarrow> usize" where
  "linux_mkdev mj mn =
     unat (push_bit 8 (mj AND 0x0fff) OR (mn AND 0x00ff) OR push_bit 12 (mn AND 0xffffff00))"

definition as_dev_t :: "linux_device_number \<Rightarrow> usize" where
  "as_dev_t d = linux_mkdev (ucast (major d)) (minor d)"

definition DEFAULT_DEV_MODE :: "32 word" where "DEFAULT_DEV_MODE = 438"

section \<open>File operations of the devices\<close>

text \<open>The implementations of the trait \<open>LinuxFileOperations\<close>, dispatched on the device.\<close>

datatype fops = NullFileOps | ZeroFileOps | RandomFileOps | FullFileOps | TtyFileOps

record linux_char_device =
  dev_mode :: "32 word"
  dev_no :: linux_device_number
  dev_fops :: fops

type_synonym ('p, 'w) dev_read_prog = "('p, 'w, (nat \<times> byte list) option) tty_prog"
type_synonym ('p, 'w) dev_write_prog = "('p, 'w, nat option) tty_prog"

definition null_read :: "byte list \<Rightarrow> ('p, 'w) dev_read_prog" where
  [simp]: "null_read dst = ret (Some (0, dst))"

definition null_write :: "byte list \<Rightarrow> ('p, 'w) dev_write_prog" where
  [simp]: "null_write src = ret (Some (length src))"

definition zero_read :: "byte list \<Rightarrow> ('p, 'w) dev_read_prog" where
  [simp]: "zero_read dst = ret (Some (length dst, replicate (length dst) 0))"

definition zero_write :: "byte list \<Rightarrow> ('p, 'w) dev_write_prog" where
  [simp]: "zero_write src = ret (Some (length src))"

definition random_read :: "byte list \<Rightarrow> ('p, 'w) dev_read_prog" where
  [simp]: "random_read dst = ret (Some (length dst, replicate (length dst) 0))"

definition random_write :: "byte list \<Rightarrow> ('p, 'w) dev_write_prog" where
  [simp]: "random_write src = ret (Some (length src))"

definition full_read :: "byte list \<Rightarrow> ('p, 'w) dev_read_prog" where
  [simp]: "full_read dst = ret (Some (length dst, replicate (length dst) 0))"

definition full_write :: "byte list \<Rightarrow> ('p, 'w) dev_write_prog" where
  [simp]: "full_write src = throw IoError"

definition tty_fops_read :: "nat \<Rightarrow> ('p, 'w) term_env \<Rightarrow> byte list \<Rightarrow> ('p, 'w) dev_read_prog" where
  [simp]: "tty_fops_read fuel T dst =
     andThen (tty_read fuel T (length dst)) (\<lambda>r.
     case r of None \<Rightarrow> ret None | Some bs \<Rightarrow> ret (Some (length bs, bs @ drop (length bs) dst)))"

definition tty_fops_write :: "nat \<Rightarrow> ('p, 'w) term_env \<Rightarrow> byte list \<Rightarrow> ('p, 'w) dev_write_prog" where
  [simp]: "tty_fops_write fuel T src = tty_write fuel T src"

text \<open>The call through the table of a device.\<close>

definition fops_read :: "nat \<Rightarrow> ('p, 'w) term_env \<Rightarrow> fops \<Rightarrow> usize \<Rightarrow> byte list \<Rightarrow> ('p, 'w) dev_read_prog" where
  "fops_read fuel T d off dst =
     (case d of
        NullFileOps \<Rightarrow> null_read dst
      | ZeroFileOps \<Rightarrow> zero_read dst
      | RandomFileOps \<Rightarrow> random_read dst
      | FullFileOps \<Rightarrow> full_read dst
      | TtyFileOps \<Rightarrow> tty_fops_read fuel T dst)"

definition fops_write :: "nat \<Rightarrow> ('p, 'w) term_env \<Rightarrow> fops \<Rightarrow> usize \<Rightarrow> byte list \<Rightarrow> ('p, 'w) dev_write_prog" where
  "fops_write fuel T d off src =
     (case d of
        NullFileOps \<Rightarrow> null_write src
      | ZeroFileOps \<Rightarrow> zero_write src
      | RandomFileOps \<Rightarrow> random_write src
      | FullFileOps \<Rightarrow> full_write src
      | TtyFileOps \<Rightarrow> tty_fops_write fuel T src)"

text \<open>No device overrides the plain \<open>unlocked_ioctl\<close>.\<close>

definition unlocked_ioctl :: "fops \<Rightarrow> 32 word \<Rightarrow> usize \<Rightarrow> ('s, usize) prog" where
  "unlocked_ioctl d cmd arg = throw NotSupported"

definition fops_ioctl_ex ::
  "('p, 'w) term_env \<Rightarrow> fops \<Rightarrow> 32 word \<Rightarrow> usize \<Rightarrow> byte list option \<Rightarrow> usize \<Rightarrow> ('p, 'w, usize \<times> byte list) tty_prog" where
  "fops_ioctl_ex T d cmd arg input out_len =
     (if d = TtyFileOps then tty_ioctl_ex T cmd input out_len
      else if (case input of Some b \<Rightarrow> b \<noteq> [] | None \<Rightarrow> False) \<or> out_len \<noteq> 0 then throw NotSupported
      else andThen (unlocked_ioctl d cmd arg) (\<lambda>v. ret (v, [])))"

definition fops_poll :: "nat \<Rightarrow> ('p, 'w) term_env \<Rightarrow> fops \<Rightarrow> 32 word \<Rightarrow> ('p, 'w, 32 word option) tty_prog" where
  "fops_poll fuel T d events =
     (if d = TtyFileOps then
        andThen (if events AND (POLLIN OR POLLPRI) \<noteq> 0 then poll_readable fuel T else ret (Some False)) (\<lambda>r.
        case r of
          None \<Rightarrow> ret None
        | Some readable \<Rightarrow>
            ret (Some ((if readable then events AND (POLLIN OR POLLPRI) else 0)
                        OR (if events AND POLLOUT \<noteq> 0 then POLLOUT else 0))))
      else ret (Some events))"

section \<open>Handles\<close>

definition char_device_stat :: "fs_proto \<Rightarrow> linux_char_device \<Rightarrow> fs_stat" where
  "char_device_stat K d =
     (stat_default K)\<lparr>st_mode := s_ifchr K OR dev_mode d, nlink := 1, rdev := as_dev_t (dev_no d), blksize := 4096\<rparr>"

text \<open>The handle of an open device is the device; \<open>TmpFsHandle\<close> has no data.\<close>

datatype dev_tmp_fs_handle = FileHandle | DeviceHandle linux_char_device

definition dev_close :: "dev_tmp_fs_handle \<Rightarrow> ('s, unit) prog" where
  "dev_close h = ret ()"

definition dev_stat :: "fs_proto \<Rightarrow> dev_tmp_fs_handle \<Rightarrow> ('s, fs_stat) prog" where
  "dev_stat K h = (case h of FileHandle \<Rightarrow> throw NotSupported | DeviceHandle d \<Rightarrow> ret (char_device_stat K d))"

definition dev_read ::
  "nat \<Rightarrow> ('p, 'w) term_env \<Rightarrow> dev_tmp_fs_handle \<Rightarrow> usize \<Rightarrow> byte list \<Rightarrow> ('p, 'w, (nat \<times> byte list) option) tty_prog" where
  "dev_read fuel T h off dst =
     (case h of FileHandle \<Rightarrow> throw NotSupported | DeviceHandle d \<Rightarrow> fops_read fuel T (dev_fops d) off dst)"

definition dev_write ::
  "nat \<Rightarrow> ('p, 'w) term_env \<Rightarrow> dev_tmp_fs_handle \<Rightarrow> usize \<Rightarrow> byte list \<Rightarrow> ('p, 'w, nat option) tty_prog" where
  "dev_write fuel T h off src =
     (case h of FileHandle \<Rightarrow> throw NotSupported | DeviceHandle d \<Rightarrow> fops_write fuel T (dev_fops d) off src)"

definition dev_getdents :: "dev_tmp_fs_handle \<Rightarrow> usize \<Rightarrow> ('s, 'e list) prog" where
  "dev_getdents h cnt = (case h of FileHandle \<Rightarrow> throw NotSupported | DeviceHandle d \<Rightarrow> throw InvalidType)"

definition dev_seek :: "dev_tmp_fs_handle \<Rightarrow> int \<Rightarrow> usize \<Rightarrow> ('s, usize) prog" where
  "dev_seek h off whence = (case h of FileHandle \<Rightarrow> throw NotSupported | DeviceHandle d \<Rightarrow> ret 0)"

definition dev_sync :: "dev_tmp_fs_handle \<Rightarrow> ('s, unit) prog" where
  "dev_sync h = ret ()"

definition dev_truncate :: "dev_tmp_fs_handle \<Rightarrow> usize \<Rightarrow> ('s, unit) prog" where
  "dev_truncate h sz = (case h of FileHandle \<Rightarrow> throw NotSupported | DeviceHandle d \<Rightarrow> throw InvalidType)"

text \<open>
  \<open>TmpFsHandle\<close> inherits \<open>ioctl\<close>, \<open>poll\<close> and \<open>ioctl_ex\<close> from the
  trait of the service library, whose answers are the arguments \<open>dflt\<close>; no path of
  the file system opens such a handle.
\<close>

definition dev_ioctl :: "('s, usize) prog \<Rightarrow> dev_tmp_fs_handle \<Rightarrow> 32 word \<Rightarrow> usize \<Rightarrow> ('s, usize) prog" where
  "dev_ioctl dflt h cmd arg = (case h of FileHandle \<Rightarrow> dflt | DeviceHandle d \<Rightarrow> unlocked_ioctl (dev_fops d) cmd arg)"

definition dev_poll ::
  "nat \<Rightarrow> ('p, 'w) term_env \<Rightarrow> ('p, 'w, 32 word option) tty_prog \<Rightarrow> dev_tmp_fs_handle \<Rightarrow> 32 word \<Rightarrow> ('p, 'w, 32 word option) tty_prog" where
  "dev_poll fuel T dflt h events = (case h of FileHandle \<Rightarrow> dflt | DeviceHandle d \<Rightarrow> fops_poll fuel T (dev_fops d) events)"

definition dev_ioctl_ex ::
  "('p, 'w) term_env \<Rightarrow> ('p, 'w, usize \<times> byte list) tty_prog \<Rightarrow> dev_tmp_fs_handle \<Rightarrow> 32 word \<Rightarrow> usize \<Rightarrow> byte list option \<Rightarrow> usize \<Rightarrow>
   ('p, 'w, usize \<times> byte list) tty_prog" where
  "dev_ioctl_ex T dflt h cmd arg input out_len =
     (case h of FileHandle \<Rightarrow> dflt | DeviceHandle d \<Rightarrow> fops_ioctl_ex T (dev_fops d) cmd arg input out_len)"

section \<open>The device file system\<close>

type_synonym dev_tmp_fs = "(string \<times> linux_char_device) list"

definition char_device :: "16 word \<Rightarrow> 32 word \<Rightarrow> fops \<Rightarrow> linux_char_device" where
  "char_device mj mn ops = \<lparr>dev_mode = DEFAULT_DEV_MODE, dev_no = \<lparr>major = mj, minor = mn\<rparr>, dev_fops = ops\<rparr>"

definition dev_tmp_fs_new :: dev_tmp_fs where
  "dev_tmp_fs_new =
     [(''null'', char_device 1 3 NullFileOps), (''zero'', char_device 1 5 ZeroFileOps),
      (''random'', char_device 1 8 RandomFileOps), (''urandom'', char_device 1 9 RandomFileOps),
      (''full'', char_device 1 7 FullFileOps), (''tty'', char_device 5 0 TtyFileOps)]"

definition devfs_open :: "dev_tmp_fs \<Rightarrow> string \<Rightarrow> dev_tmp_fs_handle res" where
  "devfs_open fs path =
     (let p = trim_start (CHR ''/'') path in
      if p = [] then Err InvalidType
      else case map_of fs p of Some d \<Rightarrow> Ok (DeviceHandle d) | None \<Rightarrow> Err NotFound)"

definition devfs_mkdir :: "dev_tmp_fs \<Rightarrow> string \<Rightarrow> unit res" where "devfs_mkdir fs path = Err NotSupported"
definition devfs_unlink :: "dev_tmp_fs \<Rightarrow> string \<Rightarrow> unit res" where "devfs_unlink fs path = Err NotSupported"

definition devfs_stat :: "fs_proto \<Rightarrow> dev_tmp_fs \<Rightarrow> string \<Rightarrow> fs_stat res" where
  "devfs_stat K fs path =
     (let p = trim_start (CHR ''/'') path in
      if p = [] then Ok ((stat_default K)\<lparr>st_mode := s_ifdir K OR 493, nlink := 2, blksize := 4096\<rparr>)
      else case map_of fs p of Some d \<Rightarrow> Ok (char_device_stat K d) | None \<Rightarrow> Err NotFound)"

definition devfs_readlink :: "dev_tmp_fs \<Rightarrow> string \<Rightarrow> string res" where "devfs_readlink fs path = Err InvalidType"

section \<open>The temporary file system\<close>

definition tmpfs_open :: "string \<Rightarrow> dev_tmp_fs_handle res" where "tmpfs_open path = Err NotSupported"
definition tmpfs_mkdir :: "string \<Rightarrow> unit res" where "tmpfs_mkdir path = Err NotSupported"
definition tmpfs_unlink :: "string \<Rightarrow> unit res" where "tmpfs_unlink path = Err NotSupported"
definition tmpfs_stat :: "string \<Rightarrow> fs_stat res" where "tmpfs_stat path = Err NotSupported"
definition tmpfs_readlink :: "string \<Rightarrow> string res" where "tmpfs_readlink path = Err NotSupported"

section \<open>Namespaces\<close>

text \<open>
  The server behind each worker: a namespace whose calls are those of the file system it
  wraps. A pipe lives in the registry of its namespace, so opening changes the namespace.
\<close>

datatype vfs_worker_kind = DevTmpFs | TmpFs | PipeFs

datatype namespace = DevTmpFsNamespace dev_tmp_fs | TmpFsNamespace | PipeFsNamespace pipe_registry

datatype ns_handle = NsDev dev_tmp_fs_handle | NsPipe pipe_handle

definition create_server :: "vfs_worker_kind \<Rightarrow> namespace" where
  "create_server kind =
     (case kind of
        DevTmpFs \<Rightarrow> DevTmpFsNamespace dev_tmp_fs_new
      | TmpFs \<Rightarrow> TmpFsNamespace
      | PipeFs \<Rightarrow> PipeFsNamespace pipe_registry_new)"

definition map_res :: "('a \<Rightarrow> 'b) \<Rightarrow> 'a res \<Rightarrow> 'b res" where
  "map_res f r = (case r of Ok x \<Rightarrow> Ok (f x) | Err e \<Rightarrow> Err e | Panic \<Rightarrow> Panic)"

definition ns_open :: "string \<Rightarrow> namespace \<Rightarrow> ns_handle res \<times> namespace" where
  "ns_open path ns =
     (case ns of
        DevTmpFsNamespace fs \<Rightarrow> (map_res NsDev (devfs_open fs path), ns)
      | TmpFsNamespace \<Rightarrow> (map_res NsDev (tmpfs_open path), ns)
      | PipeFsNamespace reg \<Rightarrow>
          (case pipefs_open path reg of (r, reg') \<Rightarrow> (map_res NsPipe r, PipeFsNamespace reg')))"

definition ns_mkdir :: "string \<Rightarrow> namespace \<Rightarrow> unit res" where
  "ns_mkdir path ns =
     (case ns of
        DevTmpFsNamespace fs \<Rightarrow> devfs_mkdir fs path
      | TmpFsNamespace \<Rightarrow> tmpfs_mkdir path
      | PipeFsNamespace reg \<Rightarrow> pipefs_mkdir path)"

definition ns_unlink :: "string \<Rightarrow> namespace \<Rightarrow> unit res" where
  "ns_unlink path ns =
     (case ns of
        DevTmpFsNamespace fs \<Rightarrow> devfs_unlink fs path
      | TmpFsNamespace \<Rightarrow> tmpfs_unlink path
      | PipeFsNamespace reg \<Rightarrow> pipefs_unlink path)"

definition ns_stat_path :: "fs_proto \<Rightarrow> string \<Rightarrow> namespace \<Rightarrow> fs_stat res" where
  "ns_stat_path K path ns =
     (case ns of
        DevTmpFsNamespace fs \<Rightarrow> devfs_stat K fs path
      | TmpFsNamespace \<Rightarrow> tmpfs_stat path
      | PipeFsNamespace reg \<Rightarrow> pipefs_stat_path path)"

definition ns_lstat_path :: "fs_proto \<Rightarrow> string \<Rightarrow> namespace \<Rightarrow> fs_stat res" where
  "ns_lstat_path K path ns =
     (case ns of
        DevTmpFsNamespace fs \<Rightarrow> devfs_stat K fs path
      | TmpFsNamespace \<Rightarrow> tmpfs_stat path
      | PipeFsNamespace reg \<Rightarrow> pipefs_lstat_path path)"

definition ns_readlink_path :: "string \<Rightarrow> namespace \<Rightarrow> string res" where
  "ns_readlink_path path ns =
     (case ns of
        DevTmpFsNamespace fs \<Rightarrow> devfs_readlink fs path
      | TmpFsNamespace \<Rightarrow> tmpfs_readlink path
      | PipeFsNamespace reg \<Rightarrow> pipefs_readlink_path path)"

section \<open>The devices keep the contract of a file handle\<close>

text \<open>An operation that is still spinning when the fuel is used up gives no answer.\<close>

definition finished :: "('s, 'a option) prog \<Rightarrow> ('s, 'a) prog" where
  "finished m s =
     (case m s of
        (Ok (Some v), s') \<Rightarrow> (Ok v, s')
      | (Ok None, s') \<Rightarrow> (Panic, s')
      | (Err e, s') \<Rightarrow> (Err e, s')
      | (Panic, s') \<Rightarrow> (Panic, s'))"

lemma finished_Ok: "finished m s = (Ok v, s') \<longleftrightarrow> m s = (Ok (Some v), s')"
  by (auto simp: finished_def split: prod.splits res.splits option.splits)

lemma tty_steps:
  "andThen get_tty f (st, w) = f st (st, w)" "andThen (set_tty g) h (st, w) = h () (g st, w)"
  by (simp_all add: monad_simps)

lemma tty_read_Suc:
  assumes "len \<noteq> 0" and "take_readable st len = (ready, st')"
  shows "tty_read (Suc fuel) T len (st, w) =
     (if ready \<noteq> [] then (Ok (Some ready), (st', w))
      else andThen (on_term (prism_stream_read T 256)) (\<lambda>input.
             if input = [] then tty_read fuel T len
             else andThen (feed_device fuel T input) (\<lambda>d.
               case d of None \<Rightarrow> ret None | Some _ \<Rightarrow> tty_read fuel T len)) (st', w))"
  using assms
  by (subst tty_read.simps) (simp add: tty_steps ret_def)

lemma tty_read_length:
  "tty_read fuel T len s = (Ok (Some bs), s') \<Longrightarrow> length bs \<le> len \<and> (0 < len \<longrightarrow> bs \<noteq> [])"
proof (induction fuel arbitrary: s)
  case 0
  then show ?case by (subst (asm) tty_read.simps) (auto simp: ret_def split: if_splits)
next
  case (Suc fuel)
  show ?case
  proof (cases "len = 0")
    case True
    with Suc.prems show ?thesis by (subst (asm) tty_read.simps) (auto simp: ret_def)
  next
    case False
    obtain st w where s: "s = (st, w)" by (cases s)
    obtain ready st' where take: "take_readable st len = (ready, st')" by (cases "take_readable st len")
    then have len: "length ready \<le> len" by (auto simp: take_readable_def take_loop_eq Let_def split: if_splits)
    note run = Suc.prems[unfolded s tty_read_Suc[OF False take]]
    show ?thesis
    proof (cases "ready = []")
      case True
      with run obtain input s1 where "(if input = [] then tty_read fuel T len
             else andThen (feed_device fuel T input) (\<lambda>d.
               case d of None \<Rightarrow> ret None | Some _ \<Rightarrow> tty_read fuel T len)) s1 = (Ok (Some bs), s')"
        by (auto simp: andThen_Ok)
      then obtain s2 where "tty_read fuel T len s2 = (Ok (Some bs), s')"
        by (auto simp: andThen_Ok ret_def split: if_splits option.splits)
      from Suc.IH[OF this] show ?thesis .
    next
      case False
      with run len show ?thesis by auto
    qed
  qed
qed

lemma tty_write_length:
  assumes "tty_write fuel T src s = (Ok (Some n), s')"
  shows "n = length src"
proof -
  obtain st w where s: "s = (st, w)" by (cases s)
  show ?thesis
    using assms unfolding s tty_write_def
    by (auto simp: tty_steps andThen_Ok ret_def Let_def split: if_splits option.splits)
qed

lemma fops_read_short:
  assumes "fops_read fuel T d off dst s = (Ok (Some (n, dst')), s')"
  shows "n \<le> length dst \<and> length dst' = length dst \<and> drop n dst' = drop n dst"
proof (cases d)
  case TtyFileOps
  with assms obtain bs where bs: "tty_read fuel T (length dst) s = (Ok (Some bs), s')"
    and n: "n = length bs" "dst' = bs @ drop (length bs) dst"
    by (auto simp: fops_read_def andThen_Ok ret_def split: option.splits)
  from tty_read_length[OF bs] n show ?thesis by simp
qed (use assms in \<open>auto simp: fops_read_def ret_def\<close>)

interpretation dev_file: file_handle
  "\<lambda>h off dst. finished (dev_read fuel T h off dst)" "\<lambda>h off src. finished (dev_write fuel T h off src)"
  for fuel T
proof unfold_locales
  fix h off dst s n dst' s'
  assume "finished (dev_read fuel T h off dst) s = (Ok (n, dst'), s')"
  then show "n \<le> length dst \<and> length dst' = length dst \<and> drop n dst' = drop n dst"
    by (cases h) (simp_all add: finished_Ok dev_read_def throw_def fops_read_short)
next
  fix h off src s n s'
  assume "finished (dev_write fuel T h off src) s = (Ok n, s')"
  then show "n \<le> length src"
    by (auto simp: finished_Ok dev_write_def fops_write_def throw_def ret_def
        split: dev_tmp_fs_handle.splits fops.splits dest: tty_write_length)
qed

text \<open>
  C39: a device keeps to the buffer of the caller. Whenever a read of any device, the
  terminal included, returns, the count it claims is at most the length of the buffer, the
  buffer keeps its length and every byte behind the claimed ones is as it was; whenever a
  write returns, it claims at most the bytes it was given.
\<close>

theorem dev_io_within_buffer:
  "(\<forall>n dst' s'. dev_read fuel T h off dst s = (Ok (Some (n, dst')), s') \<longrightarrow>
      n \<le> length dst \<and> length dst' = length dst \<and> drop n dst' = drop n dst) \<and>
   (\<forall>m s'. dev_write fuel T h off src s = (Ok (Some m), s') \<longrightarrow> m \<le> length src)"
proof (intro conjI allI impI)
  fix n dst' s' assume "dev_read fuel T h off dst s = (Ok (Some (n, dst')), s')"
  then have rd: "finished (dev_read fuel T h off dst) s = (Ok (n, dst'), s')" by (simp add: finished_Ok)
  from dev_file.rd_short[OF rd] show n: "n \<le> length dst" and len: "length dst' = length dst" by blast+
  have "dst' ! i = dst ! i" if "n \<le> i" "i < length dst" for i using dev_file.rd_rest_untouched[OF rd that] .
  with len show "drop n dst' = drop n dst" by (intro nth_equalityI) simp_all
next
  fix m s' assume "dev_write fuel T h off src s = (Ok (Some m), s')"
  then show "m \<le> length src" using dev_file.wr_short[of fuel T h off src s m s'] by (simp add: finished_Ok)
qed

theorem dev_io_within_buffer_witness:
  "(\<exists>s'. dev_read 1 example_term (DeviceHandle (char_device 1 5 ZeroFileOps)) 0 [5, 6] (tty_default (), []) = (Ok (Some (2, [0, 0])), s') \<and>
      2 \<le> length [5, 6 :: byte] \<and> drop 2 [0, 0 :: byte] = drop 2 [5, 6]) \<and>
   (\<exists>s'. dev_write 1 example_term (DeviceHandle (char_device 1 5 ZeroFileOps)) 0 [7] (tty_default (), []) = (Ok (Some 1), s') \<and>
      1 \<le> length [7 :: byte])"
proof -
  let ?h = "DeviceHandle (char_device 1 5 ZeroFileOps)"
  have rd: "dev_read 1 example_term ?h 0 [5, 6] (tty_default (), []) = (Ok (Some (2, [0, 0])), (tty_default (), []))"
    and wr: "dev_write 1 example_term ?h 0 [7] (tty_default (), []) = (Ok (Some 1), (tty_default (), []))"
    by (simp_all add: dev_read_def dev_write_def fops_read_def fops_write_def char_device_def ret_def)
  note io = dev_io_within_buffer[of 1 example_term ?h 0 "[5, 6]" "(tty_default (), [])" "[7]"]
  from io[THEN conjunct1, rule_format, OF rd] io[THEN conjunct2, rule_format, OF wr] rd wr show ?thesis by blast
qed

section \<open>Names and numbers\<close>

definition dev_major :: "usize \<Rightarrow> 32 word" where
  "dev_major t = drop_bit 8 (word_of_nat t) AND 0xfff"

definition dev_minor :: "usize \<Rightarrow> 32 word" where
  "dev_minor t = (word_of_nat t AND 0xff) OR (drop_bit 12 (word_of_nat t) AND 0xfffff00)"

text \<open>
  A device can be told from its number: the number that \<open>stat\<close> reports for it gives
  back the major and the minor it was registered with, for every major of 12 and every
  minor of 20 bits.
\<close>

lemma dev_masks:
  "(0xfff :: 32 word) = mask 12" "(0xff :: 32 word) = mask 8" "(0xfffff :: 32 word) = mask 20"
  "(0xffffff00 :: 32 word) = NOT (mask 8)" "(0xfffff00 :: 32 word) = mask 28 AND NOT (mask 8)"
  by (simp_all add: mask_eq_exp_minus_1)

theorem mkdev_roundtrip:
  assumes "mj AND 0xfff = mj" and "mn AND 0xfffff = mn"
  shows "dev_major (linux_mkdev mj mn) = mj \<and> dev_minor (linux_mkdev mj mn) = mn"
proof -
  have mj: "n < 12" if "bit mj n" for n
    using that assms(1) unfolding dev_masks by (metis bit_and_iff bit_mask_iff)
  have mn: "n < 20" if "bit mn n" for n
    using that assms(2) unfolding dev_masks by (metis bit_and_iff bit_mask_iff)
  have "dev_major (linux_mkdev mj mn) = mj"
    unfolding dev_major_def linux_mkdev_def dev_masks
    by (rule bit_word_eqI) (auto simp: bit_simps dest: mj mn)
  moreover have "dev_minor (linux_mkdev mj mn) = mn"
    unfolding dev_minor_def linux_mkdev_def dev_masks
    by (rule bit_word_eqI) (auto simp: bit_simps dest: mj mn)
  ultimately show ?thesis by simp
qed

theorem mkdev_roundtrip_witness:
  "dev_major (linux_mkdev 5 0x12345) = 5 \<and> dev_minor (linux_mkdev 5 0x12345) = 0x12345"
  by (rule mkdev_roundtrip) simp_all

end
