(* ===== verification/Dispatch.thy ===== *)
theory Dispatch
  imports Syscalls Fault Devtmpfs
begin

text \<open>
  From a system call message to its answer: the power calls
  (\<open>src/src/system/reboot.rs\<close>), the table of the system calls
  (\<open>src/src/syscall/dispatch.rs\<close>, \<open>entry.rs\<close>), the registers of a call
  (\<open>src/src/arch/riscv.rs\<close>) and the handler that also delivers a pending signal
  when the call returns (the end of \<open>src/src/ape/fault.rs\<close>).
\<close>

section \<open>The services that start-up and shutdown use\<close>

datatype service_state = ServiceStarting | ServiceRunning | ServiceStopped

record vfs_worker_config =
  vw_endpoint :: capptr
  vw_reply_slot :: capptr
  vw_recv_slot :: capptr
  vw_park_endpoint :: capptr
  vw_kind :: vfs_worker_kind

record 'w host_env =
  report_service :: "service_state \<Rightarrow> ('w, unit) prog"
  get_config :: "string \<Rightarrow> capptr \<Rightarrow> ('w, capptr \<times> usize) prog"
  parse_config :: "byte list \<Rightarrow> ape_config option"
  create_view :: "string \<Rightarrow> ('w, usize) prog"
  set_view :: "usize \<Rightarrow> ('w, unit) prog"
  spawn_vfs_worker :: "vfs_worker_config \<Rightarrow> usize \<Rightarrow> ('w, usize) prog"
  create_vt :: "string \<Rightarrow> capptr \<Rightarrow> ('w, usize \<times> capptr) prog"
  bind_seat :: "usize \<Rightarrow> usize \<Rightarrow> ('w, unit) prog"
  switch_vt :: "usize \<Rightarrow> usize \<Rightarrow> ('w, unit) prog"
  assign_device_to_seat :: "usize \<Rightarrow> string \<Rightarrow> ('w, unit) prog"
  OPEN_RDWR :: usize

section \<open>Power calls\<close>

definition valid_reboot_magic2 :: "usize \<Rightarrow> bool" where
  "valid_reboot_magic2 v =
     (v mod (u32_max + 1) \<in>
        {LINUX_REBOOT_MAGIC2, LINUX_REBOOT_MAGIC2A, LINUX_REBOOT_MAGIC2B, LINUX_REBOOT_MAGIC2C})"

definition stop_service :: "'w host_env \<Rightarrow> ('i, 'p, 'w, unit) ape_prog" where
  "stop_service H =
     andThen (modify (\<lambda>s. s\<lparr>ipc := (ipc s)\<lparr>running := False\<rparr>\<rparr>)) (\<lambda>_.
     ignore (ext (report_service H ServiceStopped)))"

definition do_reboot_runtime :: "('i, 'w) env \<Rightarrow> usize \<Rightarrow> ('i, 'p, 'w, unit) ape_prog" where
  "do_reboot_runtime E caller =
     andThen (gets (\<lambda>s. if get_process s 1 \<noteq> None then 1 else caller)) (\<lambda>init_pid.
     andThen (gets local_pids) (\<lambda>pids.
     andThen (forM pids (\<lambda>victim.
        if victim = init_pid then ret () else ignore (terminate_process E victim 0))) (\<lambda>_.
     andThen (gets (\<lambda>s. init_path (config (runtime s)))) (\<lambda>path.
     andThen (do_execve E init_pid path [] []) (\<lambda>_.
     andThen (gets (\<lambda>s. get_process s init_pid)) (\<lambda>t.
     case t of
       Some t \<Rightarrow> whenM (init_pid \<noteq> caller) (ignore (ext (tcb_resume (procs E) (task_tcb t))))
     | None \<Rightarrow> ret ()))))))"

definition do_reboot ::
  "'w host_env \<Rightarrow> ('i, 'w) env \<Rightarrow> usize \<Rightarrow> usize \<Rightarrow> usize \<Rightarrow> usize \<Rightarrow> ('i, 'p, 'w, int) ape_prog" where
  "do_reboot H E p magic magic2 cmd =
     (if magic \<noteq> LINUX_REBOOT_MAGIC1 \<or> \<not> valid_reboot_magic2 magic2 then throw InvalidArgs
      else
        let c = cmd mod (u32_max + 1) in
        if c \<in> {LINUX_REBOOT_CMD_CAD_ON, LINUX_REBOOT_CMD_CAD_OFF} then ret 0
        else if c \<in> {LINUX_REBOOT_CMD_RESTART, LINUX_REBOOT_CMD_RESTART2} then
          andThen (do_reboot_runtime E p) (\<lambda>_. ret 0)
        else if c \<in> {LINUX_REBOOT_CMD_POWER_OFF, LINUX_REBOOT_CMD_HALT} then
          andThen (stop_service H) (\<lambda>_. ret 0)
        else throw InvalidArgs)"

definition sys_reboot ::
  "'w host_env \<Rightarrow> ('i, 'w) env \<Rightarrow> usize \<Rightarrow> usize \<Rightarrow> usize \<Rightarrow> usize \<Rightarrow> usize \<Rightarrow> ('i, 'p, 'w, int) ape_prog" where
  "sys_reboot H E p magic magic2 cmd arg = do_reboot H E p magic magic2 cmd"

section \<open>The table of the system calls\<close>

definition returned :: "('s, 'a) prog \<Rightarrow> ('s, 'a option) prog" where
  "returned m = andThen m (\<lambda>v. ret (Some v))"

text \<open>
  \<open>None\<close> is the answer of a call that is still waiting after the given number of
  rounds; only \<open>ppoll\<close> and \<open>rt_sigtimedwait\<close> wait inside the service.
\<close>

definition route_syscall ::
  "nat \<Rightarrow> 'w host_env \<Rightarrow> ('i, 'w) env \<Rightarrow> usize \<Rightarrow> usize \<Rightarrow> usize list \<Rightarrow> ('i, 'p, 'w, int option) ape_prog" where
  "route_syscall fuel H E p sys_num args =
     (let a = (\<lambda>i. args ! i) in
      case decode_ape_syscall (lib E) sys_num of
        SysDup \<Rightarrow> returned (sys_dup E p (a 0))
      | SysDup3 \<Rightarrow> returned (sys_dup3 E p (a 0) (a 1) (a 2))
      | SysRead \<Rightarrow> returned (sys_read E p (a 0) (a 1) (a 2))
      | SysWrite \<Rightarrow> returned (sys_write E p (a 0) (a 1) (a 2))
      | SysReadv \<Rightarrow> returned (sys_readv E p (a 0) (a 1) (a 2))
      | SysWritev \<Rightarrow> returned (sys_writev E p (a 0) (a 1) (a 2))
      | SysOpenAt \<Rightarrow> returned (sys_openat E p (a 0) (a 1) (a 2) (a 3))
      | SysReadlinkAt \<Rightarrow> returned (sys_readlinkat E p (a 0) (a 1) (a 2) (a 3))
      | SysNewFstatAt \<Rightarrow> returned (sys_newfstatat E p (a 0) (a 1) (a 2) (a 3))
      | SysFstat \<Rightarrow> returned (sys_fstat E p (a 0) (a 1))
      | SysGetdents64 \<Rightarrow> returned (sys_getdents64 E p (a 0) (a 1) (a 2))
      | SysMkdirAt \<Rightarrow> returned (sys_mkdirat E p (a 0) (a 1) (a 2))
      | SysUnlinkAt \<Rightarrow> returned (sys_unlinkat E p (a 0) (a 1) (a 2))
      | SysLinkAt \<Rightarrow> returned (sys_linkat E p (a 0) (a 1) (a 2) (a 3) (a 4))
      | SysUtimensat \<Rightarrow> returned (sys_utimensat E p (a 0) (a 1) (a 2) (a 3))
      | SysMount \<Rightarrow> returned (sys_mount E p (a 0) (a 1) (a 2) (a 3) (a 4))
      | SysUmount2 \<Rightarrow> returned (sys_umount2 E p (a 0) (a 1))
      | SysPipe2 \<Rightarrow> returned (sys_pipe2 E p (a 0) (a 1))
      | SysClose \<Rightarrow> returned (sys_close E p (a 0))
      | SysGetCwd \<Rightarrow> returned (sys_getcwd E p (a 0) (a 1))
      | SysChdir \<Rightarrow> returned (sys_chdir E p (a 0))
      | SysFchdir \<Rightarrow> returned (sys_fchdir E p (a 0))
      | SysChroot \<Rightarrow> returned (sys_chroot E p (a 0))
      | SysExit \<Rightarrow> returned (sys_exit E p (a 0))
      | SysExitGroup \<Rightarrow> returned (sys_exit_group E p (a 0))
      | SysUname \<Rightarrow> returned (sys_uname E p (a 0))
      | SysGetPid \<Rightarrow> returned (sys_getpid p)
      | SysGetTid \<Rightarrow> returned (sys_gettid p)
      | SysGetPpid \<Rightarrow> returned (sys_getppid p)
      | SysSetTidAddress \<Rightarrow> returned (sys_set_tid_address p (a 0))
      | SysBrk \<Rightarrow> returned (sys_brk p (a 0))
      | SysMmap \<Rightarrow>
          returned (sys_mmap E p (a 0) (a 1) (word_of_nat (a 2)) (word_of_nat (a 3)) (a 4) (a 5))
      | SysMprotect \<Rightarrow> returned (sys_mprotect E p (a 0) (a 1) (word_of_nat (a 2)))
      | SysMunmap \<Rightarrow> returned (sys_munmap E p (a 0) (a 1))
      | SysMremap \<Rightarrow> returned (sys_mremap E p (a 0) (a 1) (a 2) (word_of_nat (a 3)) (a 4))
      | SysLseek \<Rightarrow> returned (sys_lseek E p (a 0) (i64_of_nat (a 1)) (a 2))
      | SysFcntl \<Rightarrow> returned (sys_fcntl E p (a 0) (a 1) (a 2))
      | SysIoctl \<Rightarrow> returned (sys_ioctl E p (a 0) (a 1) (a 2))
      | SysExecve \<Rightarrow> returned (sys_execve E p (a 0) (a 1) (a 2))
      | SysRtSigaction \<Rightarrow> returned (sys_rt_sigaction E p (a 0) (a 1) (a 2) (a 3))
      | SysRtSigsuspend \<Rightarrow> returned (sys_rt_sigsuspend E p (a 0) (a 1))
      | SysRtSigprocmask \<Rightarrow> returned (sys_rt_sigprocmask E p (a 0) (a 1) (a 2) (a 3))
      | SysRtSigpending \<Rightarrow> returned (sys_rt_sigpending E p (a 0) (a 1))
      | SysRtSigtimedwait \<Rightarrow> sys_rt_sigtimedwait fuel E p (a 0) (a 1) (a 2) (a 3)
      | SysRtSigreturn \<Rightarrow> returned (sys_rt_sigreturn p)
      | SysPrlimit64 \<Rightarrow> returned (sys_prlimit64 E p (a 0) (a 1) (a 2) (a 3))
      | SysClockGettime \<Rightarrow> returned (sys_clock_gettime E p (a 0) (a 1))
      | SysGettimeofday \<Rightarrow> returned (sys_gettimeofday E p (a 0) (a 1))
      | SysTimes \<Rightarrow> returned (sys_times E p (a 0))
      | SysNanosleep \<Rightarrow> returned (sys_nanosleep E p (a 0) (a 1))
      | SysPpoll \<Rightarrow> sys_ppoll fuel E p (a 0) (a 1) (a 2) (a 3) (a 4)
      | SysGetrandom \<Rightarrow> returned (sys_getrandom E p (a 0) (a 1) (a 2))
      | SysGetuid \<Rightarrow> returned (sys_getuid E p)
      | SysGeteuid \<Rightarrow> returned (sys_geteuid E p)
      | SysGetgid \<Rightarrow> returned (sys_getgid E p)
      | SysGetegid \<Rightarrow> returned (sys_getegid E p)
      | SysClone \<Rightarrow> returned (sys_clone E p (a 0) (a 1) (a 2) (a 3) (a 4))
      | SysWait4 \<Rightarrow> returned (sys_wait4 E p (i64_of_nat (a 0)) (a 1) (a 2) (a 3))
      | SysSetsid \<Rightarrow> returned (sys_setsid p)
      | SysGetsid \<Rightarrow> returned (sys_getsid p (a 0))
      | SysSetpgid \<Rightarrow> returned (sys_setpgid p (a 0) (a 1))
      | SysGetpgid \<Rightarrow> returned (sys_getpgid p (a 0))
      | SysKill \<Rightarrow> returned (sys_kill E p (i64_of_nat (a 0)) (i64_of_nat (a 1)))
      | SysReboot \<Rightarrow> returned (sys_reboot H E p (a 0) (a 1) (a 2) (a 3))
      | SysSchedYield \<Rightarrow> returned (sys_sched_yield p)
      | SysPrctl \<Rightarrow> returned (sys_prctl p (a 0) (a 1) (a 2) (a 3) (a 4))
      | SysFutex \<Rightarrow> returned (sys_futex E p (a 0) (a 1) (a 2) (a 3) (a 4) (a 5))
      | SysUnsupported \<Rightarrow> ret (Some (- ENOSYS))
      | SysStubBypass \<Rightarrow> returned sys_stub_bypass
      | SysStubKill \<Rightarrow> returned (sys_stub_kill E p)
      | SysStubOpen \<Rightarrow> returned (sys_stub_open p)
      | SysStubNOMSG \<Rightarrow> ret (Some (- ENOMSG))
      | SysStubSRCH \<Rightarrow> ret (Some (- ESRCH))
      | SysStubFAULT \<Rightarrow> ret (Some (- EFAULT))
      | SysStubINVAL \<Rightarrow> ret (Some (- EINVAL))
      | SysStubBADF \<Rightarrow> ret (Some (- EBADF))
      | SysStubPERM \<Rightarrow> ret (Some (- EPERM))
      | SysOther \<Rightarrow> ret (Some (- ENOSYS)))"

definition errno_of :: "lib_env \<Rightarrow> ('s, int option) prog \<Rightarrow> ('s, int option) prog" where
  "errno_of L m =
     andThen (attempt m) (\<lambda>r.
     case r of Inr v \<Rightarrow> ret v | Inl e \<Rightarrow> ret (Some (map_error_to_errno L e)))"

definition dispatch_syscall ::
  "nat \<Rightarrow> 'w host_env \<Rightarrow> ('i, 'w) env \<Rightarrow> usize \<Rightarrow> usize \<Rightarrow> usize list \<Rightarrow> ('i, 'p, 'w, int option) ape_prog" where
  "dispatch_syscall fuel H E p sys_num args = errno_of (lib E) (route_syscall fuel H E p sys_num args)"

section \<open>The handler of a system call message\<close>

definition parse_syscall_args :: "usize list \<Rightarrow> usize \<times> usize list" where
  "parse_syscall_args mrs = (mrs ! 7, [mrs ! 0, mrs ! 1, mrs ! 2, mrs ! 3, mrs ! 4, mrs ! 5])"

definition is_restartable_syscall :: "lib_env \<Rightarrow> usize \<Rightarrow> bool" where
  "is_restartable_syscall L sys_num =
     (decode_ape_syscall L sys_num \<in>
        {SysRead, SysWrite, SysReadv, SysWritev, SysWait4, SysNanosleep, SysPpoll, SysFutex})"

text \<open>The second half: what a pending signal does to the value of the call.\<close>

definition finish_syscall :: "('i, 'w) env \<Rightarrow> usize \<Rightarrow> usize \<Rightarrow> int \<Rightarrow> ('i, 'p, 'w, int) ape_prog" where
  "finish_syscall E p sys_num val0 =
     andThen (attempt (consume_deliverable_signal_on_syscall_return E p)) (\<lambda>act.
     case act of
       Inr (Interrupt restart) \<Rightarrow>
         ret (if val0 \<ge> 0 \<and> is_restartable_syscall (lib E) sys_num \<and> \<not> restart then - EINTR else val0)
     | Inr (Terminate exit_code) \<Rightarrow> andThen (terminate_process E p exit_code) (\<lambda>_. ret val0)
     | Inr NoAction \<Rightarrow> ret val0
     | Inl e \<Rightarrow> ret val0)"

text \<open>
  The answer is the word of the first message register; a call that parked its caller
  (\<open>Error::Success\<close>) is not answered and not interrupted.
\<close>

definition handle_syscall ::
  "nat \<Rightarrow> 'w host_env \<Rightarrow> ('i, 'w) env \<Rightarrow> usize \<Rightarrow> usize list \<Rightarrow> ('i, 'p, 'w, int option) ape_prog" where
  "handle_syscall fuel H E p mrs =
     (case parse_syscall_args mrs of
        (sys_num, args) \<Rightarrow>
          andThen (attempt (route_syscall fuel H E p sys_num args)) (\<lambda>r.
          case r of
            Inr None \<Rightarrow> ret None
          | Inr (Some v) \<Rightarrow> returned (finish_syscall E p sys_num v)
          | Inl e \<Rightarrow>
              if e = Success then throw Success
              else returned (finish_syscall E p sys_num (map_error_to_errno (lib E) e))))"

end
