(* ===== verification/Bootstrap.thy ===== *)
theory Bootstrap
  imports Dispatch
begin

text \<open>
  Start-up of the service (\<open>src/src/ape/bootstrap.rs\<close>, \<open>ApeConfig::load\<close> of
  \<open>src/src/config.rs\<close>): the configuration, the root file system, the workers of the
  file systems, the asynchronous runtime, the terminal of the standard streams and the
  first process. The terminal device is made at its first use, so the programs that reach
  it run on the pair of the device, if there is one yet, and the manager.
\<close>

section \<open>Configuration\<close>

definition APE_CONFIG_PATH :: string where "APE_CONFIG_PATH = ''ape.json''"

definition load_config :: "'w host_env \<Rightarrow> ('i, 'w) env \<Rightarrow> ('i, 'p, 'w, ape_config) ape_prog" where
  "load_config H E =
     andThen (ext (cspace_alloc (caps E))) (\<lambda>slot.
     andThen (ext (get_config H APE_CONFIG_PATH slot)) (\<lambda>(frame, sz).
     if sz = 0 then throw InvalidConfig
     else
       let pages = align_up (mp E) sz (PGSIZE (mp E)) div PGSIZE (mp E) in
       andThen (ext (vm_map_scratch (vm E) frame {PERM_READ} pages)) (\<lambda>addr.
       andThen (gets (\<lambda>s. mem_load (vm E) addr sz (world s))) (\<lambda>raw.
       let parsed = parse_config H (takeWhile (\<lambda>b. b \<noteq> 0) raw) in
       andThen (attempt (ext (vm_unmap (vm E) addr pages))) (\<lambda>unmapped.
       case (parsed, unmapped) of
         (None, _) \<Rightarrow> throw InvalidConfig
       | (Some c, Inl e) \<Rightarrow> throw e
       | (Some c, Inr _) \<Rightarrow> ret c)))))"

definition set_config :: "ape_config \<Rightarrow> ('i, 'p, 'w) ape \<Rightarrow> ('i, 'p, 'w) ape" where
  "set_config c s = s\<lparr>runtime := (runtime s)\<lparr>config := c\<rparr>\<rparr>"

definition set_stdio_term :: "capptr option \<Rightarrow> ('i, 'p, 'w) ape \<Rightarrow> ('i, 'p, 'w) ape" where
  "set_stdio_term t s = s\<lparr>runtime := (runtime s)\<lparr>stdio_term := t\<rparr>\<rparr>"

definition load_ape_config :: "'w host_env \<Rightarrow> ('i, 'w) env \<Rightarrow> ('i, 'p, 'w, unit) ape_prog" where
  "load_ape_config H E =
     andThen (attempt (load_config H E)) (\<lambda>r.
     case r of
       Inr c \<Rightarrow> modify (set_config c)
     | Inl _ \<Rightarrow> modify (set_config ape_config_default))"

section \<open>File systems\<close>

definition FIRST_USER_FD :: nat where "FIRST_USER_FD = 2 + 1"
definition ROOTFS_SLOT :: capptr where "ROOTFS_SLOT = 13"
definition STDIO_SLOT :: capptr where "STDIO_SLOT = 14"
definition DEFAULT_VT_NAME :: string where "DEFAULT_VT_NAME = ''vt0''"
definition DEFAULT_INIT_PROCESS_NAME :: string where "DEFAULT_INIT_PROCESS_NAME = ''init''"
definition DEFAULT_VIEW_ROOT :: string where "DEFAULT_VIEW_ROOT = ''/linux''"

definition mount_rootfs :: "('i, 'w) env \<Rightarrow> ('i, 'p, 'w, unit) ape_prog" where
  "mount_rootfs E =
     andThen (gets (\<lambda>s. root_partition (config (runtime s)))) (\<lambda>part.
     andThen (ext (vol_mount_partition (paths E) part ROOTFS_SLOT)) (\<lambda>ep.
     ext (path_mount (paths E) DEFAULT_VIEW_ROOT ep)))"

definition setup_view :: "'w host_env \<Rightarrow> ('i, 'p, 'w, unit) ape_prog" where
  "setup_view H =
     andThen (ext (create_view H DEFAULT_VIEW_ROOT)) (\<lambda>view. ext (set_view H view))"

definition mount_devtmpfs :: "('i, 'w) env \<Rightarrow> ('i, 'p, 'w, unit) ape_prog" where
  "mount_devtmpfs E =
     andThen (attempt (ext (path_mkdir (paths E) ''/linux/dev'' 493))) (\<lambda>r.
     andThen (case r of Inl e \<Rightarrow> if e = AlreadyExists then ret () else throw e | Inr _ \<Rightarrow> ret ()) (\<lambda>_.
     andThen (gets (\<lambda>s. dev_vfs_endpoint (fs_sub s))) (\<lambda>ep.
     andThen (lift_res (ok_or ep NotInitialized)) (\<lambda>dev_ep.
     ext (path_mount (paths E) ''/linux/dev'' dev_ep)))))"

section \<open>Workers of the file systems\<close>

definition VFS_WORKER_STACK_SIZE :: usize where "VFS_WORKER_STACK_SIZE = 64 * 1024"
definition DEVTMPFS_WORKER_STACK_BASE :: usize where "DEVTMPFS_WORKER_STACK_BASE = 0x57000000"
definition TMPFS_WORKER_STACK_BASE :: usize where "TMPFS_WORKER_STACK_BASE = DEVTMPFS_WORKER_STACK_BASE + 0x20000"
definition PIPEFS_WORKER_STACK_BASE :: usize where "PIPEFS_WORKER_STACK_BASE = TMPFS_WORKER_STACK_BASE + 0x20000"

definition alloc_worker_endpoint_and_windows ::
  "('i, 'w) env \<Rightarrow> ('i, 'p, 'w, capptr \<times> capptr \<times> capptr \<times> capptr) ape_prog" where
  "alloc_worker_endpoint_and_windows E =
     andThen (ext (cspace_alloc (caps E))) (\<lambda>ep.
     andThen (ext (res_alloc (caps E) CapEndpoint 0 ep)) (\<lambda>_.
     andThen (ext (cspace_alloc (caps E))) (\<lambda>rp.
     andThen (ext (cspace_alloc (caps E))) (\<lambda>rv.
     andThen (ext (cspace_alloc (caps E))) (\<lambda>park.
     andThen (ext (res_alloc (caps E) CapEndpoint 0 park)) (\<lambda>_.
     ret (ep, rp, rv, park)))))))"

definition alloc_worker_stack :: "('i, 'w) env \<Rightarrow> usize \<Rightarrow> ('i, 'p, 'w, usize) ape_prog" where
  "alloc_worker_stack E base =
     andThen (ext (cspace_alloc (caps E))) (\<lambda>slot.
     let pages = VFS_WORKER_STACK_SIZE div PGSIZE (mp E) in
     andThen (lift_res (ok_or (page_pages_to_level (caps E) pages) InvalidArgs)) (\<lambda>level.
     andThen (ext (res_alloc (caps E) CapPage level slot)) (\<lambda>_.
     andThen (ext (vm_map_page (vm E) slot base {PERM_READ, PERM_WRITE} pages)) (\<lambda>_.
     ret (wrap_add base VFS_WORKER_STACK_SIZE)))))"

definition worker_config :: "capptr \<times> capptr \<times> capptr \<times> capptr \<Rightarrow> vfs_worker_kind \<Rightarrow> vfs_worker_config" where
  "worker_config w kind =
     (case w of (ep, rp, rv, park) \<Rightarrow>
        \<lparr>vw_endpoint = ep, vw_reply_slot = rp, vw_recv_slot = rv, vw_park_endpoint = park, vw_kind = kind\<rparr>)"

definition start_vfs_workers :: "'w host_env \<Rightarrow> ('i, 'w) env \<Rightarrow> ('i, 'p, 'w, unit) ape_prog" where
  "start_vfs_workers H E =
     andThen (alloc_worker_endpoint_and_windows E) (\<lambda>d.
     andThen (alloc_worker_endpoint_and_windows E) (\<lambda>t.
     andThen (alloc_worker_endpoint_and_windows E) (\<lambda>p.
     andThen (alloc_worker_stack E DEVTMPFS_WORKER_STACK_BASE) (\<lambda>d_top.
     andThen (alloc_worker_stack E TMPFS_WORKER_STACK_BASE) (\<lambda>t_top.
     andThen (alloc_worker_stack E PIPEFS_WORKER_STACK_BASE) (\<lambda>p_top.
     andThen (ext (spawn_vfs_worker H (worker_config d DevTmpFs) d_top)) (\<lambda>_.
     andThen (ext (spawn_vfs_worker H (worker_config t TmpFs) t_top)) (\<lambda>_.
     andThen (ext (spawn_vfs_worker H (worker_config p PipeFs) p_top)) (\<lambda>_.
     modify (upd_fs_sub (\<lambda>f. f\<lparr>dev_vfs_endpoint := Some (fst d), tmp_vfs_endpoint := Some (fst t),
                               pipe_vfs_endpoint := Some (fst p)\<rparr>)))))))))))"

section \<open>Standard streams and the first process\<close>

definition init_stdio :: "'w host_env \<Rightarrow> ('i, 'p, 'w, unit) ape_prog" where
  "init_stdio H =
     andThen (gets (\<lambda>s. stdio (config (runtime s)))) (\<lambda>cfg.
     let name = (if vt_name cfg = [] then DEFAULT_VT_NAME else vt_name cfg) in
     andThen (ext (create_vt H name STDIO_SLOT)) (\<lambda>(vt_id, vt_ep).
     andThen (ext (bind_seat H (seat_id cfg) vt_id)) (\<lambda>_.
     andThen (ext (switch_vt H (seat_id cfg) vt_id)) (\<lambda>_.
     andThen (forM (devices cfg) (\<lambda>d. ext (assign_device_to_seat H (seat_id cfg) d))) (\<lambda>_.
     modify (set_stdio_term (Some vt_ep)))))))"

definition open_normal_handle :: "('i, 'w) env \<Rightarrow> string \<Rightarrow> usize \<Rightarrow> ('i, 'p, 'w, fd_handle) ape_prog" where
  "open_normal_handle E path flags =
     andThen (ext (cspace_alloc (caps E))) (\<lambda>slot.
     andThen (attempt (ext (fs_open (fss E) (fs_endpoint (fss E)) path flags 0 slot))) (\<lambda>r.
     case r of
       Inl e \<Rightarrow> andThen (free_slot E slot) (\<lambda>_. throw e)
     | Inr _ \<Rightarrow> ret (new_handle slot None)))"

definition stdio_files :: "fd_handle \<Rightarrow> files_state \<Rightarrow> files_state" where
  "stdio_files tty f =
     f\<lparr>fds := bt_insert 2 tty (bt_insert 1 tty (bt_insert 0 tty (fds f))),
       fd_paths := bt_insert 2 ''/dev/tty'' (bt_insert 1 ''/dev/tty'' (bt_insert 0 ''/dev/tty'' (fd_paths f))),
       next_fd := FIRST_USER_FD\<rparr>"

text \<open>The global terminal device.\<close>

type_synonym ('i, 'p, 'w, 'a) boot_prog = "('p tty_state option \<times> ('i, 'p, 'w) ape, 'a) prog"

definition tty_global :: "('p, 'w) term_env \<Rightarrow> ('i, 'p, 'w, unit) boot_prog" where
  "tty_global T =
     (\<lambda>(d, s).
        case d of
          Some _ \<Rightarrow> (Ok (), (d, s))
        | None \<Rightarrow>
            (case ext (new_stdio T) s of
               (Ok st, s') \<Rightarrow> (Ok (), (Some st, s'))
             | (Err e, s') \<Rightarrow> (Err e, (None, s'))
             | (Panic, s') \<Rightarrow> (Panic, (None, s'))))"

definition on_device :: "('p tty_state \<Rightarrow> 'p tty_state) \<Rightarrow> ('i, 'p, 'w, unit) boot_prog" where
  "on_device f = modify (\<lambda>(d, s). (map_option f d, s))"

definition init_files ::
  "'w host_env \<Rightarrow> ('i, 'w) env \<Rightarrow> ('p, 'w) term_env \<Rightarrow> usize \<Rightarrow> capptr \<Rightarrow> ('i, 'p, 'w, unit) boot_prog" where
  "init_files H E T p term =
     andThen (tty_global T) (\<lambda>_.
     andThen (on_device (\<lambda>st. st\<lparr>pgrp := sint (word_of_nat p :: 32 word)\<rparr>)) (\<lambda>_.
     andThen (on_mgr (resolve_path_for_process E p ''/dev/tty'')) (\<lambda>path.
     andThen (on_mgr (open_normal_handle E path (OPEN_RDWR H))) (\<lambda>tty.
     andThen (on_mgr (gets (\<lambda>s. get_process s p))) (\<lambda>t.
     case t of
       None \<Rightarrow> panic
     | Some _ \<Rightarrow>
         on_mgr (modify (upd_task p (\<lambda>t. upd_files (stdio_files tty) (t\<lparr>controlling_tty := term\<rparr>)))))))))"

definition load_init :: "'w host_env \<Rightarrow> ('i, 'w) env \<Rightarrow> ('p, 'w) term_env \<Rightarrow> ('i, 'p, 'w, unit) boot_prog" where
  "load_init H E T =
     andThen (on_mgr (ext (proc_create (procs E) DEFAULT_INIT_PROCESS_NAME))) (\<lambda>host.
     andThen (on_mgr (ext (cspace_alloc (caps E)))) (\<lambda>slot.
     andThen (on_mgr (ext (proc_get_cnode (procs E) host slot))) (\<lambda>cnode.
     andThen (on_mgr (register_process E 0 host cnode)) (\<lambda>p.
     andThen (on_mgr (gets (\<lambda>s. stdio_term (runtime s)))) (\<lambda>term.
     andThen (case term of Some t \<Rightarrow> init_files H E T p t | None \<Rightarrow> ret ()) (\<lambda>_.
     andThen (on_mgr (gets (\<lambda>s. init_path (config (runtime s))))) (\<lambda>path.
     andThen (on_mgr (do_execve E p path [] [])) (\<lambda>_.
     andThen (on_mgr (task_or NotFound p)) (\<lambda>t.
     on_mgr (ext (tcb_resume (procs E) (task_tcb t))))))))))))"

definition bootstrap :: "'w host_env \<Rightarrow> ('i, 'w) env \<Rightarrow> ('p, 'w) term_env \<Rightarrow> ('i, 'p, 'w, unit) boot_prog" where
  "bootstrap H E T =
     andThen (on_mgr (ext (report_service H ServiceStarting))) (\<lambda>_.
     andThen (on_mgr (load_ape_config H E)) (\<lambda>_.
     andThen (on_mgr (mount_rootfs E)) (\<lambda>_.
     andThen (on_mgr (setup_view H)) (\<lambda>_.
     andThen (on_mgr (start_vfs_workers H E)) (\<lambda>_.
     andThen (on_mgr (start_async_runtime E)) (\<lambda>_.
     andThen (on_mgr (mount_devtmpfs E)) (\<lambda>_.
     andThen (on_mgr (init_stdio H)) (\<lambda>_.
     load_init H E T))))))))"

end
