(* ===== verification/Server.thy ===== *)
theory Server
  imports Bootstrap
begin

text \<open>
  The message loop of the service (\<open>src/src/ape/server.rs\<close>): a dispatcher receives a
  message of the kernel, runs its handler under the lock of the manager and answers it. One
  round of the loop is one program; a round takes the lock once for its handler, so several
  dispatchers interleave rounds. The receive and reply primitives of the kernel are the
  record \<open>ipc_env\<close>.
\<close>

section \<open>Messages\<close>

record message =
  msg_badge :: usize
  msg_proto :: usize
  msg_label :: usize
  msg_mrs :: "usize list"

text \<open>
  A handler answers a system call with a value, lets a faulting thread resume, or is still
  waiting when its fuel is used up.
\<close>

datatype answer = Value int | Resume | Waiting

record 'w ipc_env =
  ipc_recv :: "capptr \<Rightarrow> capptr \<Rightarrow> capptr \<Rightarrow> ('w, message) prog"
  ipc_reply :: "capptr \<Rightarrow> int option \<Rightarrow> ('w, unit) prog"
  KERNEL_PROTO :: usize
  LABEL_SYSCALL :: usize
  LABEL_PAGE_FAULT :: usize
  LABEL_ILLEGAL_INSTRUCTION :: usize
  LABEL_BREAKPOINT :: usize
  LABEL_ACCESS_FAULT :: usize
  LABEL_VIRT_EXIT :: usize
  LABEL_UNKNOWN_FAULT :: usize
  LABEL_NOTIFY :: usize
  spawn_dispatch_worker :: "capptr \<Rightarrow> capptr \<Rightarrow> capptr \<Rightarrow> capptr \<Rightarrow> usize \<Rightarrow> usize \<Rightarrow> ('w, unit) prog"
  REPLY_SLOT :: capptr
  RECV_SLOT :: capptr

definition APE_ASYNC_NOTIFY_BADGE_BITS :: usize where "APE_ASYNC_NOTIFY_BADGE_BITS = 2 ^ 63"
definition APE_DISPATCHER_COUNT :: usize where "APE_DISPATCHER_COUNT = 1"
definition APE_DISPATCHER_STACK_SIZE :: usize where "APE_DISPATCHER_STACK_SIZE = 64 * 1024"
definition APE_DISPATCHER_STACK0_BASE :: usize where "APE_DISPATCHER_STACK0_BASE = 0x57400000"
definition APE_DISPATCHER_STACK_SPAN :: usize where "APE_DISPATCHER_STACK_SPAN = 0x20000"

section \<open>Dispatch\<close>

definition resumed :: "('i, 'p, 'w, unit) ape_prog \<Rightarrow> ('i, 'p, 'w, answer) ape_prog" where
  "resumed m = andThen m (\<lambda>_. ret Resume)"

definition dispatch ::
  "nat \<Rightarrow> 'w ipc_env \<Rightarrow> 'w host_env \<Rightarrow> ('i, 'w) env \<Rightarrow> message \<Rightarrow> ('i, 'p, 'w, answer) ape_prog" where
  "dispatch fuel K H E m =
     (let p = msg_badge m; mr = (\<lambda>i. msg_mrs m ! i) in
      if msg_proto m \<noteq> KERNEL_PROTO K then throw InvalidProtocol
      else if msg_label m = LABEL_SYSCALL K then
        andThen (handle_syscall fuel H E p [mr 0, mr 1, mr 2, mr 3, mr 4, mr 5, mr 6, mr 7]) (\<lambda>v.
        ret (case v of None \<Rightarrow> Waiting | Some x \<Rightarrow> Value x))
      else if msg_label m = LABEL_PAGE_FAULT K then resumed (page_fault E p (mr 0) (mr 1) (mr 2))
      else if msg_label m = LABEL_ILLEGAL_INSTRUCTION K then resumed (illegal_instruction E p)
      else if msg_label m = LABEL_BREAKPOINT K then resumed (breakpoint E p)
      else if msg_label m = LABEL_ACCESS_FAULT K then resumed (access_fault E p)
      else if msg_label m = LABEL_VIRT_EXIT K then resumed (virt_exit E p)
      else if msg_label m = LABEL_UNKNOWN_FAULT K then resumed (unknown_fault E p)
      else if msg_label m = LABEL_NOTIFY K then
        andThen (ignore (drain_async_events E)) (\<lambda>_. throw Success)
      else throw InvalidProtocol)"

definition listen :: "capptr \<Rightarrow> capptr \<Rightarrow> capptr \<Rightarrow> ('i, 'p, 'w, unit) ape_prog" where
  "listen ep rp rv = modify (\<lambda>s. s\<lparr>ipc := (ipc s)\<lparr>endpoint := ep, reply := rp, recv := rv\<rparr>\<rparr>)"

section \<open>The loop\<close>

text \<open>What a round of a dispatcher did.\<close>

datatype round = Exited | Served | Stuck

definition answer_caller :: "'w ipc_env \<Rightarrow> capptr \<Rightarrow> error + answer \<Rightarrow> ('i, 'p, 'w, round) ape_prog" where
  "answer_caller K rp r =
     (case r of
        Inr Waiting \<Rightarrow> ret Stuck
      | Inr (Value v) \<Rightarrow> andThen (ignore (ext (ipc_reply K rp (Some v)))) (\<lambda>_. ret Served)
      | Inr Resume \<Rightarrow> andThen (ignore (ext (ipc_reply K rp None))) (\<lambda>_. ret Served)
      | Inl e \<Rightarrow> ret Served)"

definition handle_message ::
  "nat \<Rightarrow> 'w ipc_env \<Rightarrow> 'w host_env \<Rightarrow> ('i, 'w) env \<Rightarrow> message \<Rightarrow> ('i, 'p, 'w, error + answer) ape_prog" where
  "handle_message fuel K H E m =
     andThen (modify (set_active_caller_pid (msg_badge m))) (\<lambda>_.
     andThen (attempt (dispatch fuel K H E m)) (\<lambda>r.
     andThen (modify clear_active_caller_pid) (\<lambda>_. ret r)))"

definition dispatch_round ::
  "nat \<Rightarrow> 'w ipc_env \<Rightarrow> 'w host_env \<Rightarrow> ('i, 'w) env \<Rightarrow> capptr \<Rightarrow> capptr \<Rightarrow> capptr \<Rightarrow> ('i, 'p, 'w, round) ape_prog" where
  "dispatch_round fuel K H E ep rp rv =
     andThen (gets (\<lambda>s. running (ipc s))) (\<lambda>on.
     if \<not> on then ret Exited
     else
       andThen (attempt (ext (ipc_recv K ep rp rv))) (\<lambda>got.
       case got of
         Inl e \<Rightarrow> ret Served
       | Inr m \<Rightarrow>
           if msg_badge m = APE_ASYNC_NOTIFY_BADGE_BITS then
             andThen (ignore (drain_async_events E)) (\<lambda>_. ret Served)
           else
             andThen (listen ep rp rv) (\<lambda>_.
             andThen (handle_message fuel K H E m) (\<lambda>r. answer_caller K rp r))))"

fun run_dispatch_loop ::
  "nat \<Rightarrow> nat \<Rightarrow> 'w ipc_env \<Rightarrow> 'w host_env \<Rightarrow> ('i, 'w) env \<Rightarrow> capptr \<Rightarrow> capptr \<Rightarrow> capptr \<Rightarrow> ('i, 'p, 'w, round) ape_prog" where
  "run_dispatch_loop 0 fuel K H E ep rp rv = ret Stuck"
| "run_dispatch_loop (Suc n) fuel K H E ep rp rv =
     andThen (dispatch_round fuel K H E ep rp rv) (\<lambda>r.
     case r of Served \<Rightarrow> run_dispatch_loop n fuel K H E ep rp rv | _ \<Rightarrow> ret r)"

text \<open>The loop of the single-threaded service.\<close>

definition run_round :: "nat \<Rightarrow> 'w ipc_env \<Rightarrow> 'w host_env \<Rightarrow> ('i, 'w) env \<Rightarrow> ('i, 'p, 'w, round) ape_prog" where
  "run_round fuel K H E =
     andThen (ignore (drain_async_events E)) (\<lambda>_.
     andThen (gets ipc) (\<lambda>i.
     andThen (attempt (ext (ipc_recv K (endpoint i) (reply i) (recv i)))) (\<lambda>got.
     case got of
       Inl e \<Rightarrow> ret Served
     | Inr m \<Rightarrow>
         if msg_badge m = APE_ASYNC_NOTIFY_BADGE_BITS then
           andThen (ignore (drain_async_events E)) (\<lambda>_. ret Served)
         else andThen (handle_message fuel K H E m) (\<lambda>r. answer_caller K (reply i) r))))"

fun run_loop :: "nat \<Rightarrow> nat \<Rightarrow> 'w ipc_env \<Rightarrow> 'w host_env \<Rightarrow> ('i, 'w) env \<Rightarrow> ('i, 'p, 'w, round) ape_prog" where
  "run_loop 0 fuel K H E = ret Stuck"
| "run_loop (Suc n) fuel K H E =
     andThen (gets (\<lambda>s. running (ipc s))) (\<lambda>on.
     if \<not> on then ret Exited
     else
       andThen (run_round fuel K H E) (\<lambda>r.
       case r of Served \<Rightarrow> run_loop n fuel K H E | _ \<Rightarrow> ret r))"

definition run :: "nat \<Rightarrow> nat \<Rightarrow> 'w ipc_env \<Rightarrow> 'w host_env \<Rightarrow> ('i, 'w) env \<Rightarrow> ('i, 'p, 'w, round) ape_prog" where
  "run n fuel K H E =
     andThen (gets ipc) (\<lambda>i.
     if endpoint i = 0 \<or> reply i = 0 then throw NotInitialized
     else
       andThen (ext (report_service H ServiceRunning)) (\<lambda>_.
       andThen (modify (\<lambda>s. s\<lparr>ipc := (ipc s)\<lparr>running := True\<rparr>\<rparr>)) (\<lambda>_.
       run_loop n fuel K H E)))"

section \<open>Starting the dispatchers\<close>

record ape_dispatch_thread_spec =
  sp_stack_top :: usize
  sp_reply_slot :: capptr
  sp_recv_slot :: capptr
  sp_park :: capptr
  sp_worker_id :: usize

definition alloc_dispatch_stack :: "('i, 'w) env \<Rightarrow> usize \<Rightarrow> ('i, 'p, 'w, usize) ape_prog" where
  "alloc_dispatch_stack E base =
     andThen (ext (cspace_alloc (caps E))) (\<lambda>slot.
     let pages = APE_DISPATCHER_STACK_SIZE div PGSIZE (mp E) in
     andThen (lift_res (ok_or (page_pages_to_level (caps E) pages) InvalidArgs)) (\<lambda>level.
     andThen (ext (res_alloc (caps E) CapPage level slot)) (\<lambda>_.
     andThen (ext (vm_map_page (vm E) slot base {PERM_READ, PERM_WRITE} pages)) (\<lambda>_.
     ret (wrap_add base APE_DISPATCHER_STACK_SIZE)))))"

definition alloc_dispatch_thread_spec :: "('i, 'w) env \<Rightarrow> usize \<Rightarrow> ('i, 'p, 'w, ape_dispatch_thread_spec) ape_prog" where
  "alloc_dispatch_thread_spec E worker_id =
     andThen (ext (cspace_alloc (caps E))) (\<lambda>rp.
     andThen (ext (cspace_alloc (caps E))) (\<lambda>rv.
     andThen (ext (cspace_alloc (caps E))) (\<lambda>park.
     andThen (ext (res_alloc (caps E) CapEndpoint 0 park)) (\<lambda>_.
     andThen (alloc_dispatch_stack E
        (wrap_add APE_DISPATCHER_STACK0_BASE (wrap_mul (wrap_sub worker_id 1) APE_DISPATCHER_STACK_SPAN))) (\<lambda>top.
     ret \<lparr>sp_stack_top = top, sp_reply_slot = rp, sp_recv_slot = rv, sp_park = park, sp_worker_id = worker_id\<rparr>)))))"

text \<open>\<open>expect\<close>: an error becomes a panic of the service.\<close>

definition expect :: "('s, 'a) prog \<Rightarrow> ('s, 'a) prog" where
  "expect m = andThen (attempt m) (\<lambda>r. case r of Inr v \<Rightarrow> ret v | Inl _ \<Rightarrow> panic)"

fun alloc_specs :: "('i, 'w) env \<Rightarrow> usize list \<Rightarrow> ape_dispatch_thread_spec list \<Rightarrow> ('i, 'p, 'w, ape_dispatch_thread_spec list) ape_prog" where
  "alloc_specs E [] out = ret out"
| "alloc_specs E (i # is) out =
     andThen (expect (alloc_dispatch_thread_spec E i)) (\<lambda>sp. alloc_specs E is (out @ [sp]))"

definition run_multithreaded ::
  "nat \<Rightarrow> nat \<Rightarrow> 'w ipc_env \<Rightarrow> 'w host_env \<Rightarrow> ('i, 'w) env \<Rightarrow> ('i, 'p, 'w, round) ape_prog" where
  "run_multithreaded n fuel K H E =
     andThen (gets ipc) (\<lambda>i.
     if endpoint i = 0 \<or> reply i = 0 then panic
     else
       andThen (expect (ext (report_service H ServiceRunning))) (\<lambda>_.
       andThen (modify (\<lambda>s. s\<lparr>ipc := (ipc s)\<lparr>running := True\<rparr>\<rparr>)) (\<lambda>_.
       andThen (alloc_specs E [1..<APE_DISPATCHER_COUNT] []) (\<lambda>specs.
       andThen (forM specs (\<lambda>sp. expect (ext (spawn_dispatch_worker K (endpoint i) (sp_reply_slot sp)
          (sp_recv_slot sp) (sp_park sp) (sp_worker_id sp) (sp_stack_top sp))))) (\<lambda>_.
       run_dispatch_loop n fuel K H E (endpoint i) (REPLY_SLOT K) (RECV_SLOT K))))))"

end
