(* ===== verification/Process_Exit.thy ===== *)
theory Process_Exit
  imports Lifecycle File_Io
begin

text \<open>
  What is left of a process that ends: the effect of \<open>terminate_process\<close>
  (\<open>src/src/task/lifecycle.rs\<close>) on the tables of the service, and that none of its
  steps can fail half-way.
\<close>

section \<open>Programs without error results\<close>

named_theorems sure_intro \<open>rules on programs that return no error\<close>

definition sure :: "('s, 'a) prog \<Rightarrow> bool" where
  "sure m \<longleftrightarrow> (\<forall>s e s'. m s \<noteq> (Err e, s'))"

lemma sure_basic [sure_intro]: "sure (ret x)" "sure (gets f)" "sure (modify g)" "sure panic"
  by (simp_all add: sure_def monad_simps)

lemma sure_ext_do [sure_intro]: "sure (ext_do f)"
  by (simp add: sure_def monad_simps)

lemma sure_attempt [sure_intro]: "sure (attempt m)"
  by (auto simp: sure_def attempt_def split: prod.splits res.splits)

lemma sure_andThen [sure_intro]: "sure m \<Longrightarrow> (\<And>x. sure (f x)) \<Longrightarrow> sure (andThen m f)"
  by (fastforce simp: sure_def andThen_def split: prod.splits res.splits)

lemma sure_ignore [sure_intro]: "sure (ignore m)"
  unfolding ignore_def by (intro sure_intro)

lemma sure_whenM [sure_intro]: "sure m \<Longrightarrow> sure (whenM b m)"
  by (simp add: whenM_def sure_basic)

lemma sure_if [sure_intro]: "(b \<Longrightarrow> sure m) \<Longrightarrow> (\<not> b \<Longrightarrow> sure n) \<Longrightarrow> sure (if b then m else n)"
  by simp

lemma sure_case_option [sure_intro]:
  "sure m \<Longrightarrow> (\<And>v. sure (f v)) \<Longrightarrow> sure (case x of None \<Rightarrow> m | Some v \<Rightarrow> f v)"
  by (cases x) simp_all

lemma sure_case_sum [sure_intro]:
  "(\<And>e. sure (f e)) \<Longrightarrow> (\<And>v. sure (g v)) \<Longrightarrow> sure (case x of Inl e \<Rightarrow> f e | Inr v \<Rightarrow> g v)"
  by (cases x) simp_all

lemma sure_case_prod [sure_intro]: "(\<And>a b. sure (f a b)) \<Longrightarrow> sure (case x of (a, b) \<Rightarrow> f a b)"
  by (cases x) simp_all

lemma sure_Let [sure_intro]: "(\<And>x. sure (f x)) \<Longrightarrow> sure (let x = t in f x)"
  by (simp add: Let_def)

lemma sure_forM [sure_intro]: "(\<And>x. sure (f x)) \<Longrightarrow> sure (forM xs f)"
  by (induction xs) (auto intro!: sure_intro)

lemma sure_tables [sure_intro]:
  "sure (take_wait4_reply p)" "sure (ledger_take_process p)" "sure (take_pending_sleep_reply p)"
  "sure (pop_waitable_child_event p i o' g)" "sure (release_shared_frame_cap slot)"
  by (auto simp: sure_def take_wait4_reply_def ledger_take_process_def take_pending_sleep_reply_def
      pop_waitable_child_event_def release_shared_frame_cap_def Let_def split: prod.splits option.splits)

lemma sure_exit_steps [sure_intro]:
  "sure (release_memory E p st)" "sure (release_cnode E p)" "sure (drop_process E p)"
  "sure (notify_parent E p q g code)"
  unfolding release_memory_def release_process_frame_slot_def release_cnode_def drop_process_def drop_wait4_reply_def
    drop_pending_sleep_reply_def notify_parent_def try_wake_pending_wait4_reply_def wait4_answer_def
  by (intro sure_intro)+

section \<open>Nothing is left of the process\<close>

definition absent :: "usize \<Rightarrow> ape_ipc \<Rightarrow> ('i, 'p, 'w) ape \<Rightarrow> bool" where
  "absent p i s \<longleftrightarrow>
     ipc s = i \<and> get_process s p = None \<and> peek_wait4_reply s p = None \<and>
     (case async_runtime s of None \<Rightarrow> True | Some r \<Rightarrow> bt_get (pending_sleep_replies r) p = None)"

lemma keeps_ipc_tables [keeps_intro]:
  "keeps (\<lambda>s. ipc s = i) (release_shared_frame_cap slot)"
  by (auto simp: keeps_def release_shared_frame_cap_def Let_def split: prod.splits)

lemma keeps_ipc_close [keeps_intro]: "keeps (\<lambda>s. ipc s = i) (do_close E p fd)"
  unfolding do_close_def close_handle_def
  by (auto intro!: keeps_intro keeps_ext keeps_ext_do keeps_modify
      simp: recycle_fs_async_region_def ledger_record_fd_close_def split: file_type.split)

lemma keeps_ipc_release [keeps_intro]:
  "keeps (\<lambda>s. ipc s = i) (release_memory E p st)" "keeps (\<lambda>s. ipc s = i) (release_cnode E p)"
  unfolding release_memory_def release_cnode_def release_process_frame_slot_def unmap_process_pages_def
  by (auto intro!: keeps_intro keeps_ext keeps_ext_do keeps_modify simp: ledger_record_frame_free_def split: prod.split)

lemma keeps_ipc_drop [keeps_intro]:
  "keeps (\<lambda>s. ipc s = i) (release_process_intermediate_page_tables E p)"
  "keeps (\<lambda>s. ipc s = i) (modify (remove_host_pid_mapping h))"
  unfolding release_process_intermediate_page_tables_def release_pagetable_slot_def
  by (auto intro!: keeps_intro keeps_ext keeps_ext_do keeps_modify
      simp: remove_host_pid_mapping_def ledger_record_pagetable_free_def)

lemma drop_wait4_peek:
  assumes "drop_wait4_reply E p s = (Ok u, s')"
  shows "ipc s' = ipc s \<and> peek_wait4_reply s' p = None"
  using assms
  by (auto simp: drop_wait4_reply_def ok_iff take_wait4_reply_def take_pending_wait_reply_def peek_wait4_reply_def
      peek_pending_wait_reply_def ext_def ext_do_def Let_def split: option.splits prod.splits)

lemma drop_sleep_peek:
  assumes "drop_pending_sleep_reply E p s = (Ok u, s')"
  shows "ipc s' = ipc s \<and> ts s' = ts s \<and>
    (case async_runtime s' of None \<Rightarrow> True | Some r \<Rightarrow> bt_get (pending_sleep_replies r) p = None)"
  using assms
  by (auto simp: drop_pending_sleep_reply_def ok_iff take_pending_sleep_reply_def
      ext_def ext_do_def Let_def split: option.splits prod.splits)

lemma drop_process_absent:
  assumes "drop_process E p s = (Ok u, s')"
  shows "absent p (ipc s) s'"
proof -
  have "keeps (\<lambda>x. ipc x = ipc s) (case host of None \<Rightarrow> ret ()
     | Some h \<Rightarrow> andThen (ignore (ext (proc_kill (procs E) h))) (\<lambda>_. modify (remove_host_pid_mapping h)))" for host
    by (auto intro!: keeps_intro keeps_ext split: option.split)
  note first = keepsD[OF this refl]
  have "keeps (\<lambda>x. ipc x = ipc s) (ignore (release_process_intermediate_page_tables E p))"
    by (intro keeps_intro)
  note second = keepsD[OF this]
  from assms[unfolded drop_process_def andThen_Ok basic_Ok(2)] obtain host s1 s2 s3 s4 where
    s1: "(case host of None \<Rightarrow> ret ()
       | Some h \<Rightarrow> andThen (ignore (ext (proc_kill (procs E) h))) (\<lambda>_. modify (remove_host_pid_mapping h))) s = (Ok (), s1)"
    and s2: "ignore (release_process_intermediate_page_tables E p) s1 = (Ok (), s2)"
    and w: "drop_wait4_reply E p s2 = (Ok (), s3)" and d: "drop_pending_sleep_reply E p s3 = (Ok (), s4)"
    and e: "\<exists>x s5. ledger_take_process p s4 = (Ok x, s5) \<and> modify (remove_process_record p) s5 = (Ok u, s')"
    by auto
  from second[OF first[OF s1] s2] have i: "ipc s2 = ipc s" .
  from drop_wait4_peek[OF w] drop_sleep_peek[OF d] i e show ?thesis
    by (auto simp: absent_def ok_iff ledger_take_process_def remove_process_record_def remove_process_def
        get_process_def process_def peek_wait4_reply_def peek_pending_wait_reply_def Let_def split: prod.splits)
qed

section \<open>Telling the parent\<close>

lemma absent_simps [simp]:
  "absent p i (upd_task q f s) = absent p i s" "absent p i (s\<lparr>world := w\<rparr>) = absent p i s"
  by (auto simp: absent_def get_process_def process_def peek_wait4_reply_def peek_pending_wait_reply_def)

lemma absent_mem: "absent p i s \<Longrightarrow> mem_only q s s' \<Longrightarrow> absent p i s'"
  unfolding absent_def mem_only_def peek_wait4_reply_def peek_pending_wait_reply_def
  by (cases "q = p") (auto dest: arg_cong[of _ _ pending_wait_replies])

lemma keeps_absent_copy [keeps_intro]:
  "keeps (absent p i) (copy_to_user E q a bs)" "keeps (absent p i) (write_obj_to_user E q a bs)"
  by (rule keeps_mem_pred[of q, OF user_access_mem(2)] keeps_mem_pred[of q, OF user_access_mem(5)]; blast intro: absent_mem)+

lemma keeps_absent_tables [keeps_intro]:
  "keeps (absent p i) (pop_waitable_child_event q t o' g)" "keeps (absent p i) (take_wait4_reply q)"
  "keeps (absent p i) (take_pending_sleep_reply q)"
  by (auto simp: keeps_def absent_def pop_waitable_child_event_def pop_child_event_matching_def take_wait4_reply_def
      take_pending_wait_reply_def take_pending_sleep_reply_def get_process_def process_def peek_wait4_reply_def
      peek_pending_wait_reply_def bt_get_remove Let_def split: option.splits)

lemma absent_upd_ts [simp]:
  "absent p i (upd_ts (mark_process_exited q par g status) s) = absent p i s"
  "absent p i (upd_ts (ts_record_child_exit par q status g) s) = absent p i s"
  by (simp_all add: absent_def upd_ts_def mark_process_exited_def ts_record_child_exit_def push_child_event_def
      get_process_def process_def peek_wait4_reply_def peek_pending_wait_reply_def)

lemma keeps_absent_signal [keeps_intro]: "keeps (absent p i) (queue_process_signal E q sig)"
  unfolding queue_process_signal_def interrupt_pending_sleep_reply_def reply_pending_sleep_def wake_sigsuspend_def
  by (auto intro!: keeps_intro keeps_ext keeps_ext_do keeps_modify)

lemma notify_parent_absent: "keeps (absent p i) (notify_parent E p q g code)"
  unfolding notify_parent_def try_wake_pending_wait4_reply_def wait4_answer_def
  by (auto intro!: keeps_intro keeps_ext keeps_ext_do keeps_modify
      simp: mark_process_exited_snapshot_def record_child_exit_def)

text \<open>None of the steps touches the state of the message loop.\<close>

lemma mem_only_ipc: "ipc s = i \<Longrightarrow> mem_only q s s' \<Longrightarrow> ipc s' = i"
  by (simp add: mem_only_def)

lemma keeps_ipc_notify_steps [keeps_intro]:
  "keeps (\<lambda>s. ipc s = i) (copy_to_user E q a bs)" "keeps (\<lambda>s. ipc s = i) (write_obj_to_user E q a bs)"
  "keeps (\<lambda>s. ipc s = i) (pop_waitable_child_event q t o' g)" "keeps (\<lambda>s. ipc s = i) (take_wait4_reply q)"
  "keeps (\<lambda>s. ipc s = i) (take_pending_sleep_reply q)" "keeps (\<lambda>s. ipc s = i) (ledger_take_process q)"
      apply (rule keeps_mem_pred[of q, OF user_access_mem(2)], erule (1) mem_only_ipc)
     apply (rule keeps_mem_pred[of q, OF user_access_mem(5)], erule (1) mem_only_ipc)
  by (auto simp: keeps_def pop_waitable_child_event_def take_wait4_reply_def take_pending_sleep_reply_def
      ledger_take_process_def Let_def split: option.splits prod.splits)

lemma keeps_ipc_terminate [keeps_intro]: "keeps (\<lambda>s. ipc s = i) (terminate_process E p code)"
  unfolding terminate_process_def notify_parent_def try_wake_pending_wait4_reply_def wait4_answer_def finish_exit_def
    drop_process_def drop_wait4_reply_def drop_pending_sleep_reply_def
    queue_process_signal_def interrupt_pending_sleep_reply_def reply_pending_sleep_def wake_sigsuspend_def
  by (auto intro!: keeps_intro keeps_ext keeps_ext_do keeps_modify
      simp: mark_process_exited_snapshot_def record_child_exit_def remove_process_record_def upd_ts_def)

lemma keeps_ipc_consume [keeps_intro]: "keeps (\<lambda>s. ipc s = i) (consume_deliverable_signal_on_syscall_return E p)"
  unfolding consume_deliverable_signal_on_syscall_return_def default_stop_def default_continue_def
  by (auto intro!: keeps_intro keeps_ext keeps_modify simp: record_child_stopped_def record_child_continued_def upd_ts_def)

section \<open>The whole termination\<close>

lemma sure_step:
  assumes "sure m" and "andThen m f s = (r, s')" and "r \<noteq> Panic"
  obtains x s1 where "m s = (Ok x, s1)" and "f x s1 = (r, s')"
  using assms by (cases "m s"; cases "fst (m s)") (auto simp: andThen_def sure_def)

lemma sure_closing: "sure (forM xs (\<lambda>fd. ignore (do_close E p fd)))"
  by (intro sure_intro)

lemma finish_exit_result:
  assumes "finish_exit E skip s = (r, s')" and "r \<noteq> Panic" and "absent p i s"
  shows "r = (if skip then Err Success else Ok ()) \<and> absent p i s'"
  using assms
  by (cases "cap_delete (caps E) (reply (ipc s)) (world s)"; cases "fst (cap_delete (caps E) (reply (ipc s)) (world s))")
    (auto simp: finish_exit_def monad_simps ext_simps split: if_splits)

text \<open>From the removal of the records to the end.\<close>

lemma exit_tail:
  assumes "andThen (drop_process E p) (\<lambda>_. andThen (whenM b (notify_parent E p q g code)) (\<lambda>_.
       if p = 1 then panic else finish_exit E skip)) s = (r, s')" and "r \<noteq> Panic"
  shows "r = (if skip then Err Success else Ok ()) \<and> absent p (ipc s) s'"
proof -
  from sure_step[OF sure_exit_steps(3) assms] obtain x s1 where s1: "drop_process E p s = (Ok x, s1)"
    and r1: "andThen (whenM b (notify_parent E p q g code)) (\<lambda>_. if p = 1 then panic else finish_exit E skip) s1 = (r, s')" .
  from sure_step[OF sure_whenM[OF sure_exit_steps(4)] r1 assms(2)] obtain y s2 where
    s2: "whenM b (notify_parent E p q g code) s1 = (Ok y, s2)"
    and r2: "(if p = 1 then panic else finish_exit E skip) s2 = (r, s')" .
  have "absent p (ipc s) s2"
    by (rule keepsD[OF keeps_whenM[OF notify_parent_absent] drop_process_absent[OF s1] s2])
  with r2 assms(2) show ?thesis
    using finish_exit_result[of E skip s2 r s' p "ipc s"] by (cases "p = 1") (auto simp: panic_def)
qed

text \<open>
  The steps before the removal of the records cannot fail, so a predicate that they keep
  holds where the removal starts.
\<close>

lemma terminate_to_tail:
  assumes "terminate_process E p code s = (r, s')" and "get_process s p = Some t" and "r \<noteq> Panic"
    and "P (upd_task p (set_lifecycle Exiting) s)" and "\<And>fd. keeps P (do_close E p fd)"
    and "keeps P (release_memory E p (task_mem t))" and "keeps P (release_cnode E p)"
  shows "\<exists>s0. P s0 \<and> andThen (drop_process E p) (\<lambda>_.
     andThen (whenM (parent_pid t \<noteq> 0) (notify_parent E p (parent_pid t) (process_group_id t) code)) (\<lambda>_.
     if p = 1 then panic else finish_exit E (active_caller_pid (ipc s0) = Some p))) s0 = (r, s')"
proof -
  let ?s0 = "upd_task p (set_lifecycle Exiting) s"
  let ?tail = "\<lambda>skip. andThen (drop_process E p) (\<lambda>_.
     andThen (whenM (parent_pid t \<noteq> 0) (notify_parent E p (parent_pid t) (process_group_id t) code)) (\<lambda>_.
     if p = 1 then panic else finish_exit E skip))"
  let ?own = "gets (\<lambda>s :: ('a, 'b, 'c) ape. active_caller_pid (ipc s) = Some p)"
  have "andThen (forM (bt_keys (fds (task_files t))) (\<lambda>fd. ignore (do_close E p fd))) (\<lambda>_.
      andThen (release_memory E p (task_mem t)) (\<lambda>_. andThen (release_cnode E p) (\<lambda>_. andThen ?own ?tail))) ?s0 = (r, s')"
    using assms(1,2) by (simp add: terminate_process_def andThen_def[of "task_or NotFound p"]
        andThen_def[of "modify f" for f] monad_simps)
  from sure_step[OF sure_closing this assms(3)] obtain x1 s1 where
    s1: "forM (bt_keys (fds (task_files t))) (\<lambda>fd. ignore (do_close E p fd)) ?s0 = (Ok x1, s1)"
    and r1: "andThen (release_memory E p (task_mem t)) (\<lambda>_. andThen (release_cnode E p) (\<lambda>_. andThen ?own ?tail)) s1 = (r, s')" .
  from sure_step[OF sure_exit_steps(1) r1 assms(3)] obtain x2 s2 where
    s2: "release_memory E p (task_mem t) s1 = (Ok x2, s2)"
    and r2: "andThen (release_cnode E p) (\<lambda>_. andThen ?own ?tail) s2 = (r, s')" .
  from sure_step[OF sure_exit_steps(2) r2 assms(3)] obtain x3 s3 where s3: "release_cnode E p s2 = (Ok x3, s3)"
    and "andThen ?own ?tail s3 = (r, s')" .
  then have "?tail (active_caller_pid (ipc s3) = Some p) s3 = (r, s')"
    by (simp add: andThen_def[of "gets f" for f] monad_simps)
  moreover have "keeps P (forM (bt_keys (fds (task_files t))) (\<lambda>fd. ignore (do_close E p fd)))"
    by (intro keeps_intro assms(5))
  with assms(4,6,7) s1 s2 s3 have "P s3" by (metis keepsD)
  ultimately show ?thesis by blast
qed

text \<open>
  C2: however the services behind it answer, the termination of a process leaves nothing
  of it behind: its record, the reply it may have parked in \<open>wait4\<close> and the reply of
  a sleep are gone, and the caller is told not to answer exactly when the process that ends
  is the one whose message is being handled.
\<close>

theorem terminate_removes_process:
  assumes "terminate_process E p code s = (r, s')" and "get_process s p = Some t" and "r \<noteq> Panic"
  shows "r = (if active_caller_pid (ipc s) = Some p then Err Success else Ok ()) \<and>
    get_process s' p = None \<and> peek_wait4_reply s' p = None \<and>
    (case async_runtime s' of None \<Rightarrow> True | Some rt \<Rightarrow> bt_get (pending_sleep_replies rt) p = None)"
proof -
  have "ipc (upd_task p (set_lifecycle Exiting) s) = ipc s" by simp
  from terminate_to_tail[where P = "\<lambda>x. ipc x = ipc s", OF assms this keeps_ipc_close keeps_ipc_release] obtain s0 where
    "ipc s0 = ipc s" and tail: "andThen (drop_process E p) (\<lambda>_.
     andThen (whenM (parent_pid t \<noteq> 0) (notify_parent E p (parent_pid t) (process_group_id t) code)) (\<lambda>_.
     if p = 1 then panic else finish_exit E (active_caller_pid (ipc s0) = Some p))) s0 = (r, s')"
    by blast
  with exit_tail[OF tail assms(3)] show ?thesis by (auto simp: absent_def split: option.split)
qed

section \<open>An instance\<close>

named_theorems calm_intro \<open>rules on programs that do not panic\<close>

definition calm :: "('s, 'a) prog \<Rightarrow> bool" where
  "calm m \<longleftrightarrow> (\<forall>s. fst (m s) \<noteq> Panic)"

lemma calm_basic [calm_intro]: "calm (ret x)" "calm (gets f)" "calm (modify g)" "calm (throw e)"
  by (simp_all add: calm_def monad_simps)

lemma calm_ext [calm_intro]: "calm m \<Longrightarrow> calm (ext m)" "calm (ext_do f)" "calm ok_call" "calm (task_or e p)"
  by (auto simp: calm_def ext_def ext_do_def ok_call_def task_or_def ok_or_def Let_def split: prod.split option.split)
    (metis fst_conv)

lemma calm_andThen [calm_intro]: "calm m \<Longrightarrow> (\<And>x. calm (f x)) \<Longrightarrow> calm (andThen m f)"
  by (auto simp: calm_def andThen_def split: prod.splits res.splits) (metis fst_conv)

lemma calm_attempt [calm_intro]: "calm m \<Longrightarrow> calm (attempt m)"
  by (auto simp: calm_def attempt_def split: prod.splits res.splits) (metis fst_conv)

lemma calm_ignore [calm_intro]: "calm m \<Longrightarrow> calm (ignore m)"
  unfolding ignore_def by (intro calm_intro)

lemma calm_control [calm_intro]:
  "calm m \<Longrightarrow> calm (whenM b m)" "calm m \<Longrightarrow> calm n \<Longrightarrow> calm (if b then m else n)"
  "calm m \<Longrightarrow> (\<And>v. calm (f v)) \<Longrightarrow> calm (case x of None \<Rightarrow> m | Some v \<Rightarrow> f v)"
  "(\<And>e. calm (g e)) \<Longrightarrow> (\<And>v. calm (f' v)) \<Longrightarrow> calm (case y of Inl e \<Rightarrow> g e | Inr v \<Rightarrow> f' v)"
  "(\<And>c. calm (h c)) \<Longrightarrow> calm (let c = t in h c)"
  by (simp_all add: whenM_def calm_basic Let_def split: option.split sum.split)

lemma calm_forM [calm_intro]: "(\<And>x. calm (f x)) \<Longrightarrow> calm (forM xs f)"
  by (induction xs) (auto intro!: calm_intro)

lemma calm_tables [calm_intro]:
  "calm (take_wait4_reply p)" "calm (take_pending_sleep_reply p)" "calm (ledger_take_process p)"
  by (auto simp: calm_def take_wait4_reply_def take_pending_sleep_reply_def ledger_take_process_def Let_def
      split: prod.split option.split)

lemma calm_example: "calm (release_cnode example_env p)" "calm (drop_process example_env p)"
  unfolding release_cnode_def drop_process_def release_process_intermediate_page_tables_def release_pagetable_slot_def
    drop_wait4_reply_def drop_pending_sleep_reply_def
  by (simp_all only: example_caps_calls example_procs_calls) (intro calm_intro)+

lemma sure_calm_returns: "sure m \<Longrightarrow> calm m \<Longrightarrow> \<exists>x s'. m s = (Ok x, s')"
  unfolding sure_def calm_def by (cases "m s"; cases "fst (m s)") (auto, metis fst_conv)

lemma example_terminate:
  "\<exists>s'. terminate_process example_env 2 0 (example_ape [example_task 2 0]) = (Ok (), s')"
proof -
  let ?t = "example_task 2 0" and ?s = "upd_task 2 (set_lifecycle Exiting) (example_ape [example_task 2 0])"
  obtain s1 where s1: "release_cnode example_env 2 ?s = (Ok (), s1)"
    using sure_calm_returns[OF sure_exit_steps(2) calm_example(1)] by auto
  obtain s2 where s2: "drop_process example_env 2 s1 = (Ok (), s2)"
    using sure_calm_returns[OF sure_exit_steps(3) calm_example(2)] by auto
  have "keeps (\<lambda>x. ipc x = ipc ?s) (release_cnode example_env 2)" by (rule keeps_ipc_release)
  from keepsD[OF this refl s1] have "ipc s1 = ipc ?s" .
  then have own: "active_caller_pid (ipc s1) = None"
    by (simp add: example_ape_def ape_new_def)
  have t: "task_pid ?t = 2" "parent_pid ?t = 0" "bt_keys (fds (task_files ?t)) = []"
    "mapped_pages_of example_mem_params (task_mem ?t) = []" "frame_pages_of example_mem_params (task_mem ?t) = []"
    by (simp_all add: example_task_def task_struct_new_def files_struct_new_def mm_struct_new_def task_mem_def
        mapped_pages_of_def frame_pages_of_def bt_keys_def bt_values_def)
  show ?thesis
    using s1 s2 own by (simp add: terminate_process_def t release_memory_def finish_exit_def monad_simps)
qed

theorem terminate_removes_process_witness:
  "\<exists>s'. terminate_process example_env 2 0 (example_ape [example_task 2 0]) = (Ok (), s') \<and>
     get_process s' 2 = None"
proof -
  obtain s' where run: "terminate_process example_env 2 0 (example_ape [example_task 2 0]) = (Ok (), s')"
    using example_terminate by blast
  have "get_process (example_ape [example_task 2 0]) 2 = Some (example_task 2 0)"
    by (simp add: example_task_def task_struct_new_def)
  from terminate_removes_process[OF run this] run show ?thesis by auto
qed

end
