(* ===== verification/Answers.thy ===== *)
theory Answers
  imports Server Process_Exit
begin

text \<open>
  What the answers of the system calls look like: a calculus of the values a program may
  return, applied to every call of the table.
\<close>

section \<open>The values a program returns\<close>

named_theorems yields_intro \<open>rules on the values a program returns\<close>

definition yields :: "('a \<Rightarrow> bool) \<Rightarrow> ('s, 'a) prog \<Rightarrow> bool" where
  "yields P m \<longleftrightarrow> (\<forall>s v s'. m s = (Ok v, s') \<longrightarrow> P v)"

lemma yieldsD: "yields P m \<Longrightarrow> m s = (Ok v, s') \<Longrightarrow> P v"
  by (auto simp: yields_def)

lemma yields_ret [yields_intro]: "P x \<Longrightarrow> yields P (ret x)"
  and yields_throw [yields_intro]: "yields P (throw e)"
  and yields_panic [yields_intro]: "yields P panic"
  by (simp_all add: yields_def monad_simps)

lemma yields_andThen [yields_intro]: "(\<And>x. yields P (f x)) \<Longrightarrow> yields P (andThen m f)"
  by (auto simp: yields_def andThen_Ok)

lemma yields_bind: "yields Q m \<Longrightarrow> (\<And>x. Q x \<Longrightarrow> yields P (f x)) \<Longrightarrow> yields P (andThen m f)"
  unfolding yields_def andThen_Ok by blast

lemma yields_u32: "(\<And>x. x \<le> u32_max \<Longrightarrow> yields P (f x)) \<Longrightarrow> yields P (andThen (lift_res (ok_or (u32_try_from n) e)) f)"
  by (rule yields_bind[of "\<lambda>x. x \<le> u32_max"]) (auto simp: yields_def ok_iff)

lemma yields_attempt: "yields Q m \<Longrightarrow> yields (\<lambda>r. case r of Inl e \<Rightarrow> True | Inr v \<Rightarrow> Q v) (attempt m)"
  unfolding yields_def attempt_Ok by (auto split: sum.split)

lemma yields_if [yields_intro]:
  "(b \<Longrightarrow> yields P m) \<Longrightarrow> (\<not> b \<Longrightarrow> yields P n) \<Longrightarrow> yields P (if b then m else n)"
  by simp

lemma yields_case_option [yields_intro]:
  "(x = None \<Longrightarrow> yields P m) \<Longrightarrow> (\<And>v. x = Some v \<Longrightarrow> yields P (f v)) \<Longrightarrow>
   yields P (case x of None \<Rightarrow> m | Some v \<Rightarrow> f v)"
  by (cases x) simp_all

lemma yields_case_sum [yields_intro]:
  "(\<And>e. x = Inl e \<Longrightarrow> yields P (f e)) \<Longrightarrow> (\<And>v. x = Inr v \<Longrightarrow> yields P (g v)) \<Longrightarrow>
   yields P (case x of Inl e \<Rightarrow> f e | Inr v \<Rightarrow> g v)"
  by (cases x) simp_all

lemma yields_case_prod [yields_intro]:
  "(\<And>a b. x = (a, b) \<Longrightarrow> yields P (f a b)) \<Longrightarrow> yields P (case x of (a, b) \<Rightarrow> f a b)"
  by (cases x) simp_all

lemma yields_Let [yields_intro]: "(\<And>x. x = t \<Longrightarrow> yields P (f x)) \<Longrightarrow> yields P (let x = t in f x)"
  by (simp add: Let_def)

section \<open>Answers fit a register\<close>

definition isize_ok :: "int \<Rightarrow> bool" where
  "isize_ok v \<longleftrightarrow> - (2 ^ 63) \<le> v \<and> v < 2 ^ 63"

lemma isize_ok_i64 [simp]: "isize_ok (i64_of_nat n)"
  using sint_range_size[of "word_of_nat n :: 64 word"] by (simp add: isize_ok_def i64_of_nat_def word_size)

lemma isize_ok_numeral [simp]: "isize_ok 0" "isize_ok 1" "isize_ok (- 1)"
  "isize_ok (- numeral k) \<longleftrightarrow> numeral k \<le> (2 :: int) ^ 63"
  by (simp_all add: isize_ok_def)

lemma isize_ok_if [simp]: "isize_ok (if b then x else y) \<longleftrightarrow> (if b then isize_ok x else isize_ok y)"
  by simp

lemma isize_ok_u32: "fd \<le> u32_max \<Longrightarrow> isize_ok (int fd)"
  by (simp add: isize_ok_def u32_max_def)

lemma isize_ok_saturate [simp]: "isize_ok (i64_saturate n)"
  by (simp add: isize_ok_def i64_saturate_def i64_max_def)

lemma yields_on_mgr [yields_intro]: "yields P m \<Longrightarrow> yields P (on_mgr m)"
  by (auto simp: yields_def on_mgr_def split: prod.splits)

lemma yields_fd_handle [yields_intro]:
  assumes "yields P f"
  shows "yields P (with_fd_handle_mut p fd f)"
  unfolding with_fd_handle_mut_def
  by (intro yields_andThen) (auto simp: yields_def split: file_type.splits prod.splits dest: yieldsD[OF assms])

lemma isize_small_calls [yields_intro]:
  "yields isize_ok (write_stat E p a st)" "yields isize_ok (set_fs p g)" "yields isize_ok (open_via_nexus_fs E p path a b)"
  "yields isize_ok (list_entries E p h a b)"
  by (auto simp: write_stat_def set_fs_def open_via_nexus_fs_def list_entries_def intro!: yields_intro split: file_type.split)

lemmas isize_list_entries = isize_small_calls(4)

lemma isize_rw_vector [yields_intro]:
  assumes "\<And>a b. yields isize_ok (rw a b)"
  shows "yields isize_ok (sys_rw_vector E p iov n rw)"
proof -
  have "yields isize_ok (rw_vector_loop E p iov rw is tot)" for "is" tot
    by (induction "is" arbitrary: tot) (auto simp: Let_def intro!: yields_intro yields_bind[OF assms])
  then show ?thesis by (auto simp: sys_rw_vector_def intro!: yields_intro)
qed

lemma isize_file_calls [yields_intro]:
  "yields isize_ok (do_close E p fd)"
  "yields isize_ok (do_openat E p a b c d)"
  "yields isize_ok (do_readlinkat E p a b c d)"
  "yields isize_ok (do_newfstatat E p a b c d)"
  "yields isize_ok (do_fstat E p a b)"
  "yields isize_ok (do_mkdirat E p a b c)"
  "yields isize_ok (do_unlinkat E p a b c)"
  "yields isize_ok (do_linkat E p a b c d e)"
  "yields isize_ok (do_utimensat E p a b c d)"
  "yields isize_ok (do_mount E p a b c d e)"
  "yields isize_ok (do_umount2 E p a b)"
  "yields isize_ok (do_pipe2 E p a fl)"
  "yields isize_ok (do_read E p a b c)"
  "yields isize_ok (do_write E p a b c)"
  "yields isize_ok (do_getcwd E p a b)"
  "yields isize_ok (do_chdir E p a)"
  "yields isize_ok (do_fchdir E p a)"
  "yields isize_ok (do_chroot E p a)"
  unfolding do_close_def do_openat_def do_readlinkat_def do_newfstatat_def do_fstat_def do_mkdirat_def do_unlinkat_def do_linkat_def do_utimensat_def do_mount_def do_umount2_def do_pipe2_def do_read_def do_write_def do_getcwd_def do_chdir_def do_fchdir_def do_chroot_def
  by (auto intro!: yields_intro split del: if_split)

lemma isize_ioctl [yields_intro]:
  "yields isize_ok (do_ioctl_fs_passthrough E p a req c)"
  unfolding do_ioctl_fs_passthrough_def
  by (auto intro!: yields_intro split del: if_split)

lemma isize_vector_calls [yields_intro]:
  "yields isize_ok (do_ioctl E p a b c)"
  "yields isize_ok (do_readv E p a b c)"
  "yields isize_ok (do_writev E p a b c)"
  unfolding do_ioctl_def do_readv_def do_writev_def
  by (auto intro!: yields_intro split del: if_split)

lemma isize_process_calls [yields_intro]:
  "yields isize_ok (do_munmap E p a b)"
  "yields isize_ok (do_mprotect E p a b prot)"
  "yields isize_ok (do_clone E p fl a b c d)"
  "yields isize_ok (do_wait4 E p i a fl b)"
  "yields isize_ok (do_setpgid p a b)"
  "yields isize_ok (do_kill E p i j)"
  "yields isize_ok (do_reboot H E p a b c)"
  unfolding do_munmap_def do_mprotect_def do_clone_def do_wait4_def do_setpgid_def do_kill_def do_reboot_def
  by (auto intro!: yields_intro split del: if_split)

lemma isize_system_calls [yields_intro]:
  "yields isize_ok (do_uname E p a)"
  "yields isize_ok (do_rt_sigaction E p a b c d)"
  "yields isize_ok (do_rt_sigprocmask E p a b c d)"
  "yields isize_ok (do_rt_sigpending E p a b)"
  "yields isize_ok (do_rt_sigsuspend E p a b)"
  "yields isize_ok (do_rt_sigreturn p)"
  "yields isize_ok (do_prlimit64 E p a b c d)"
  "yields isize_ok (do_clock_gettime E p a b)"
  "yields isize_ok (do_gettimeofday E p a b)"
  "yields isize_ok (do_times E p a)"
  "yields isize_ok (do_nanosleep E p a b)"
  "yields isize_ok (do_getrandom E p a b c)"
  "yields isize_ok (do_getuid E p)"
  "yields isize_ok (do_geteuid E p)"
  "yields isize_ok (do_getgid E p)"
  "yields isize_ok (do_getegid E p)"
  "yields isize_ok (do_sched_yield p)"
  "yields isize_ok (do_prctl p as)"
  unfolding do_uname_def do_rt_sigaction_def do_rt_sigprocmask_def do_rt_sigpending_def do_rt_sigsuspend_def do_rt_sigreturn_def do_prlimit64_def do_clock_gettime_def do_gettimeofday_def do_times_def do_nanosleep_def do_getrandom_def do_getuid_def do_geteuid_def do_getgid_def do_getegid_def do_sched_yield_def do_prctl_def
  by (auto intro!: yields_intro split del: if_split)

lemma next_free_fd_u32: "next_free_fd m fd = Some n \<Longrightarrow> fd \<le> u32_max \<Longrightarrow> n \<le> u32_max"
proof (induction m fd rule: next_free_fd.induct)
  case (1 m fd)
  then show ?case
    by (subst (asm) (2) next_free_fd.simps) (auto simp: u32_checked_add_def split: if_splits option.splits)
qed

lemma yields_free_fd:
  "x \<le> u32_max \<Longrightarrow> (\<And>y. y \<le> u32_max \<Longrightarrow> yields P (f y)) \<Longrightarrow> yields P (andThen (lift_res (ok_or (next_free_fd m x) e)) f)"
  by (rule yields_bind[of "\<lambda>y. y \<le> u32_max"]) (auto simp: yields_def ok_iff dest: next_free_fd_u32)

lemma isize_fcntl_dup [yields_intro]: "yields isize_ok (fcntl_dup E p fd c arg)"
  unfolding fcntl_dup_def
  by (rule yields_andThen, rule yields_Let, rule yields_if, rule yields_throw, rule yields_u32, rule yields_free_fd)
    (auto intro!: yields_intro simp: isize_ok_u32)

lemma isize_do_fcntl [yields_intro]: "yields isize_ok (do_fcntl E p fd cmd arg)"
  unfolding do_fcntl_def by (auto intro!: yields_intro split: if_splits)

lemma isize_do_dup3 [yields_intro]: "yields isize_ok (do_dup3 E p a b fl)"
  unfolding do_dup3_def by (intro yields_intro yields_u32 isize_ok_u32)

lemma isize_do_getdents64 [yields_intro]: "yields isize_ok (do_getdents64 E p a b c)"
  unfolding do_getdents64_def
  by (auto intro!: yields_intro yields_bind[OF yields_attempt[OF isize_list_entries]] split del: if_split)

lemma isize_do_lseek [yields_intro]: "yields isize_ok (do_lseek E p a i c)"
  unfolding do_lseek_def by (auto simp: isize_ok_def i64_max_def intro!: yields_intro split del: if_split)

lemma isize_do_futex [yields_intro]: "yields isize_ok (do_futex E p a)"
  unfolding do_futex_def by (auto intro!: yields_intro split: futex_op_class.split)

section \<open>The table\<close>

abbreviation answer_ok :: "int option \<Rightarrow> bool" where
  "answer_ok r \<equiv> (case r of None \<Rightarrow> True | Some v \<Rightarrow> isize_ok v)"

lemma yields_returned [yields_intro]:
  "yields isize_ok m \<Longrightarrow> (\<And>v. isize_ok v \<Longrightarrow> P (Some v)) \<Longrightarrow> yields P (returned m)"
  unfolding returned_def by (rule yields_bind[of isize_ok]) (auto intro: yields_ret)

lemma isize_as_isize [yields_intro]: "yields isize_ok (as_isize m)"
  unfolding as_isize_def by (intro yields_intro) simp

lemma answer_sigtimedwait: "yields answer_ok (do_rt_sigtimedwait fuel E p a b c d)"
  unfolding do_rt_sigtimedwait_def by (auto intro!: yields_intro)

lemma answer_ppoll: "yields answer_ok (do_ppoll fuel E p a b c d e)"
proof -
  have loop: "yields answer_ok (ppoll_loop fuel E p a b dl)" for dl
    by (induction fuel) (auto intro!: yields_intro)
  have body: "yields answer_ok (andThen (map_err InvalidArgs (poll_deadline E p c)) (\<lambda>dl. ppoll_loop fuel E p a b dl))"
    by (intro yields_andThen loop)
  show ?thesis
    unfolding do_ppoll_def
    by (auto intro!: yields_intro yields_bind[OF yields_attempt[OF body]] split del: if_split split: option.split)
qed

definition waiting_call :: "lib_env \<Rightarrow> usize \<Rightarrow> bool" where
  "waiting_call L sys_num \<longleftrightarrow> decode_ape_syscall L sys_num \<in> {SysPpoll, SysRtSigtimedwait}"

lemmas call_adapters =
  sys_dup_def sys_dup3_def sys_openat_def sys_readlinkat_def sys_newfstatat_def sys_fstat_def sys_getdents64_def
  sys_mkdirat_def sys_unlinkat_def sys_linkat_def sys_utimensat_def sys_mount_def sys_umount2_def sys_pipe2_def
  sys_close_def sys_fcntl_def sys_read_def sys_write_def sys_ioctl_def sys_readv_def sys_writev_def sys_lseek_def
  sys_brk_def sys_mmap_def sys_munmap_def sys_mprotect_def sys_mremap_def sys_getpid_def sys_gettid_def
  sys_set_tid_address_def sys_exit_def sys_exit_group_def sys_getppid_def sys_clone_def sys_wait4_def sys_setsid_def
  sys_getsid_def sys_setpgid_def sys_getpgid_def sys_kill_def sys_execve_def sys_uname_def sys_rt_sigaction_def
  sys_rt_sigprocmask_def sys_rt_sigpending_def sys_rt_sigsuspend_def sys_rt_sigreturn_def sys_prlimit64_def
  sys_clock_gettime_def sys_gettimeofday_def sys_times_def sys_nanosleep_def sys_getrandom_def sys_getuid_def
  sys_geteuid_def sys_getgid_def sys_getegid_def sys_getcwd_def sys_chdir_def sys_fchdir_def sys_chroot_def
  sys_sched_yield_def sys_prctl_def sys_futex_def sys_reboot_def sys_stub_bypass_def sys_stub_kill_def

lemma isize_stub_open [yields_intro]: "yields P (sys_stub_open p)"
  by (simp add: yields_def sys_stub_open_def)

lemma route_answers:
  "yields (\<lambda>r. answer_ok r \<and> (r = None \<longrightarrow> waiting_call (lib E) n)) (route_syscall fuel H E p n args)"
proof (cases "decode_ape_syscall (lib E) n")
  case SysPpoll
  then show ?thesis
    using answer_ppoll by (auto simp: route_syscall_def sys_ppoll_def waiting_call_def Let_def)
next
  case SysRtSigtimedwait
  then show ?thesis
    using answer_sigtimedwait by (auto simp: route_syscall_def sys_rt_sigtimedwait_def waiting_call_def Let_def)
qed (auto simp: route_syscall_def call_adapters do_dup_def intro!: yields_intro)

text \<open>
  When the handler returns a value for a system call, the value is a signed machine word,
  as long as the table of error numbers holds machine words; and the rounds given to the
  model's loops run out in no other calls than the two that wait inside the service.
  (Calls that park their caller or end it return \<open>Success\<close> as an error and are not concerned.)
\<close>

theorem syscall_answers_fit_register:
  assumes "\<And>e. isize_ok (map_error_to_errno (lib E) e)"
    and "handle_syscall fuel H E p mrs s = (Ok r, s')"
  shows "case r of None \<Rightarrow> waiting_call (lib E) (mrs ! 7) | Some v \<Rightarrow> - (2 ^ 63) \<le> v \<and> v < 2 ^ 63"
proof -
  let ?Q = "\<lambda>r. answer_ok r \<and> (r = None \<longrightarrow> waiting_call (lib E) (mrs ! 7))"
  have finish: "yields isize_ok (finish_syscall E p n v)" if "isize_ok v" for n v
    unfolding finish_syscall_def using that
    by (auto intro!: yields_intro split: sum.split pending_signal_action.split)
  have "yields ?Q (handle_syscall fuel H E p mrs)"
    unfolding handle_syscall_def parse_syscall_args_def
    by (auto intro!: yields_intro yields_bind[OF yields_attempt[OF route_answers]] finish assms(1)
        split: sum.split option.split)
  from yieldsD[OF this assms(2)] show ?thesis by (auto simp: isize_ok_def split: option.splits)
qed

section \<open>An instance\<close>

text \<open>A host that accepts every call, and the numbers of three system calls.\<close>

definition example_host :: "nat host_env" where
  "example_host =
     \<lparr>report_service = (\<lambda>_. ok_call), get_config = (\<lambda>_ c w. (Ok (c, 0), w)), parse_config = (\<lambda>_. None),
      create_view = (\<lambda>_ w. (Ok 1, w)), set_view = (\<lambda>_. ok_call), spawn_vfs_worker = (\<lambda>_ _ w. (Ok 1, w)),
      create_vt = (\<lambda>_ c w. (Ok (1, c), w)), bind_seat = (\<lambda>_ _. ok_call), switch_vt = (\<lambda>_ _. ok_call),
      assign_device_to_seat = (\<lambda>_ _. ok_call), OPEN_RDWR = 2\<rparr>"

definition example_table :: "usize \<Rightarrow> ape_syscall" where
  "example_table n = (if n = 172 then SysGetPid else if n = 142 then SysReboot else SysOther)"

definition example_sys_env :: "(unit, nat) env" where
  "example_sys_env = example_env\<lparr>lib := example_lib\<lparr>decode_ape_syscall := example_table\<rparr>\<rparr>"

lemma example_sys_lib [simp]:
  "decode_ape_syscall (lib example_sys_env) = example_table" "map_error_to_errno (lib example_sys_env) e = -22"
  by (simp_all add: example_sys_env_def example_lib_def)

lemma finish_without_process:
  "get_process s p = None \<Longrightarrow> finish_syscall E p n v s = (Ok v, s)"
  by (simp add: finish_syscall_def consume_deliverable_signal_on_syscall_return_def andThen_def attempt_def gets_def ret_def)

lemma example_getpid:
  "route_syscall 0 example_host example_sys_env 1 172 [0, 0, 0, 0, 0, 0] (example_ape []) = (Ok (Some 1), example_ape [])"
  by (simp add: route_syscall_def example_table_def sys_getpid_def do_getpid_def as_isize_def returned_def Let_def
      i64_of_nat_def ret_def andThen_def)

theorem syscall_answers_fit_register_witness:
  "\<exists>v s'. handle_syscall 0 example_host example_sys_env 1 [0, 0, 0, 0, 0, 0, 0, 172] (example_ape [])
      = (Ok (Some v), s') \<and> - (2 ^ 63) \<le> v \<and> v < 2 ^ 63"
proof -
  have run: "handle_syscall 0 example_host example_sys_env 1 [0, 0, 0, 0, 0, 0, 0, 172] (example_ape [])
      = (Ok (Some 1), example_ape [])"
    using finish_without_process[of "example_ape []" 1] example_getpid
    by (simp add: handle_syscall_def parse_syscall_args_def returned_def andThen_def attempt_def ret_def)
  have "isize_ok (map_error_to_errno (lib example_sys_env) e)" for e by simp
  from syscall_answers_fit_register[OF this run] run show ?thesis by auto
qed

section \<open>Stopping the service\<close>

lemma keeps_ipc_finish: "keeps (\<lambda>s. ipc s = i) (finish_syscall E p n v)"
  unfolding finish_syscall_def
  by (auto intro!: keeps_intro split: sum.split pending_signal_action.split)

lemma stop_service_result:
  "stop_service H s = (r, s') \<Longrightarrow> r \<noteq> Panic \<Longrightarrow> r = Ok () \<and> \<not> running (ipc s')"
  by (cases "report_service H ServiceStopped (world s)"; cases "fst (report_service H ServiceStopped (world s))")
    (auto simp: stop_service_def monad_simps ext_simps)

lemma power_off_program:
  assumes "decode_ape_syscall (lib E) n = SysReboot"
    and "a0 = LINUX_REBOOT_MAGIC1" "valid_reboot_magic2 a1"
    and "a2 mod (u32_max + 1) \<in> {LINUX_REBOOT_CMD_POWER_OFF, LINUX_REBOOT_CMD_HALT}"
  shows "route_syscall fuel H E p n [a0, a1, a2, a3, a4, a5] s = andThen (stop_service H) (\<lambda>_. ret (Some 0)) s"
  using assms by (auto simp: route_syscall_def sys_reboot_def do_reboot_def returned_def Let_def andThen_assoc)

lemma power_off_route:
  assumes "decode_ape_syscall (lib E) n = SysReboot"
    and "a0 = LINUX_REBOOT_MAGIC1" "valid_reboot_magic2 a1"
    and "a2 mod (u32_max + 1) \<in> {LINUX_REBOOT_CMD_POWER_OFF, LINUX_REBOOT_CMD_HALT}"
    and "route_syscall fuel H E p n [a0, a1, a2, a3, a4, a5] s = (r, s')" and "r \<noteq> Panic"
  shows "r = Ok (Some 0) \<and> \<not> running (ipc s')"
proof -
  from assms(5) have run: "andThen (stop_service H) (\<lambda>_. ret (Some 0)) s = (r, s')"
    unfolding power_off_program[OF assms(1-4)] .
  have "sure (stop_service H)"
    unfolding stop_service_def by (intro sure_intro)
  from sure_step[OF this run assms(6)] obtain x s1 where "stop_service H s = (Ok x, s1)" and "ret (Some 0) s1 = (r, s')" .
  with stop_service_result[of H s] show ?thesis by (auto simp: ret_def)
qed

lemma power_off_call:
  assumes "decode_ape_syscall (lib E) (mrs ! 7) = SysReboot"
    and "mrs ! 0 = LINUX_REBOOT_MAGIC1" "valid_reboot_magic2 (mrs ! 1)"
    and "mrs ! 2 mod (u32_max + 1) \<in> {LINUX_REBOOT_CMD_POWER_OFF, LINUX_REBOOT_CMD_HALT}"
    and "handle_syscall fuel H E p mrs s = (r, s')" and "r \<noteq> Panic"
  shows "r \<noteq> Ok None \<and> \<not> running (ipc s')"
proof -
  let ?args = "[mrs ! 0, mrs ! 1, mrs ! 2, mrs ! 3, mrs ! 4, mrs ! 5]"
  from assms(5)[unfolded handle_syscall_def parse_syscall_args_def prod.case]
  obtain x s1 where x: "attempt (route_syscall fuel H E p (mrs ! 7) ?args) s = (Ok x, s1)"
    and rest: "(case x of Inr None \<Rightarrow> ret None
        | Inr (Some v) \<Rightarrow> returned (finish_syscall E p (mrs ! 7) v)
        | Inl e \<Rightarrow> if e = Success then throw Success
            else returned (finish_syscall E p (mrs ! 7) (map_error_to_errno (lib E) e))) s1 = (r, s')"
    by (rule sure_step[OF sure_attempt _ assms(6)])
  from x have route: "route_syscall fuel H E p (mrs ! 7) ?args s
      = (case x of Inl e \<Rightarrow> Err e | Inr v \<Rightarrow> Ok v, s1)"
    by (auto simp: attempt_def split: prod.splits res.splits)
  have "(case x of Inl e \<Rightarrow> Err e | Inr v \<Rightarrow> Ok v) \<noteq> Panic" by (simp split: sum.split)
  from power_off_route[OF assms(1-4) route this] have x0: "x = Inr (Some 0)" and off: "\<not> running (ipc s1)"
    by (auto split: sum.splits)
  have "keeps (\<lambda>z. ipc z = ipc s1) (returned (finish_syscall E p (mrs ! 7) 0))"
    unfolding returned_def by (intro keeps_intro keeps_ipc_finish)
  from keepsD[OF this refl] rest x0 have "ipc s' = ipc s1" by simp
  moreover have "r \<noteq> Ok None"
    using rest x0 by (auto simp: returned_def ok_iff)
  ultimately show ?thesis using off by simp
qed

lemma power_off_message:
  assumes "decode_ape_syscall (lib E) (msg_mrs m ! 7) = SysReboot"
    and "msg_proto m = KERNEL_PROTO K" "msg_label m = LABEL_SYSCALL K"
    and "msg_mrs m ! 0 = LINUX_REBOOT_MAGIC1" "valid_reboot_magic2 (msg_mrs m ! 1)"
    and "msg_mrs m ! 2 mod (u32_max + 1) \<in> {LINUX_REBOOT_CMD_POWER_OFF, LINUX_REBOOT_CMD_HALT}"
    and "handle_message fuel K H E m s = (r, s')" and "r \<noteq> Panic"
  shows "\<exists>a. r = Ok a \<and> a \<noteq> Inr Waiting \<and> \<not> running (ipc s')"
proof -
  let ?mrs = "map (\<lambda>i. msg_mrs m ! i) [0, 1, 2, 3, 4, 5, 6, 7]"
  let ?s0 = "set_active_caller_pid (msg_badge m) s"
  have disp: "dispatch fuel K H E m ?s0 = andThen (handle_syscall fuel H E (msg_badge m) ?mrs)
      (\<lambda>v. ret (case v of None \<Rightarrow> Waiting | Some x \<Rightarrow> Value x)) ?s0"
    using assms(2,3) by (simp add: dispatch_def Let_def)
  from assms(7) have "andThen (attempt (dispatch fuel K H E m)) (\<lambda>r. andThen (modify clear_active_caller_pid) (\<lambda>_. ret r)) ?s0 = (r, s')"
    by (simp add: handle_message_def andThen_def[of "modify f" for f] modify_def)
  from sure_step[OF sure_attempt this assms(8)] obtain x s1 where x: "attempt (dispatch fuel K H E m) ?s0 = (Ok x, s1)"
    and rest: "andThen (modify clear_active_caller_pid) (\<lambda>_. ret x) s1 = (r, s')" .
  obtain r1 s2 where h: "handle_syscall fuel H E (msg_badge m) ?mrs ?s0 = (r1, s2)" by fastforce
  with x disp have "r1 \<noteq> Panic" "s1 = s2" "r1 \<noteq> Ok None \<longrightarrow> x \<noteq> Inr Waiting"
    by (auto simp: attempt_def andThen_def ret_def split: res.splits option.splits)
  with power_off_call[OF _ _ _ _ h] assms(1,4-6) have "\<not> running (ipc s1)" "x \<noteq> Inr Waiting" by simp_all
  with rest show ?thesis
    by (auto simp: andThen_def modify_def ret_def clear_active_caller_pid_def)
qed

lemma answer_caller_result:
  assumes "answer_caller K rp a s = (r, s')" and "r \<noteq> Panic" and "a \<noteq> Inr Waiting"
  shows "r = Ok Served \<and> ipc s' = ipc s"
proof (cases a)
  case (Inl e)
  with assms show ?thesis by (simp add: answer_caller_def ret_def)
next
  case (Inr b)
  have send: "r = Ok Served \<and> ipc s' = ipc s"
    if "andThen (ignore (ext (ipc_reply K rp v))) (\<lambda>_. ret Served) s = (r, s')" for v
    using that assms(2) by (cases "ipc_reply K rp v (world s)"; cases "fst (ipc_reply K rp v (world s))")
      (auto simp: monad_simps ext_def)
  from Inr assms send show ?thesis by (cases b) (auto simp: answer_caller_def)
qed

text \<open>
  C12: the power-off and halt commands of \<open>reboot\<close> stop the service: whatever the
  handler of the call meets on its way out, the round that served the call ends with the
  service marked as not running, and the dispatcher leaves its loop before it receives
  another message.
\<close>

theorem power_off_stops_service:
  assumes "running (ipc s)" and "ipc_recv K ep rp rv (world s) = (Ok m, w)"
    and "msg_badge m \<noteq> APE_ASYNC_NOTIFY_BADGE_BITS"
    and "msg_proto m = KERNEL_PROTO K" and "msg_label m = LABEL_SYSCALL K"
    and "decode_ape_syscall (lib E) (msg_mrs m ! 7) = SysReboot"
    and "msg_mrs m ! 0 = LINUX_REBOOT_MAGIC1" and "valid_reboot_magic2 (msg_mrs m ! 1)"
    and "msg_mrs m ! 2 mod (u32_max + 1) \<in> {LINUX_REBOOT_CMD_POWER_OFF, LINUX_REBOOT_CMD_HALT}"
    and "dispatch_round fuel K H E ep rp rv s = (r, s')" and "r \<noteq> Panic"
  shows "r = Ok Served \<and> run_dispatch_loop (Suc n) fuel K H E ep rp rv s' = (Ok Exited, s')"
proof -
  let ?s1 = "(s\<lparr>world := w\<rparr>)\<lparr>ipc := (ipc s)\<lparr>endpoint := ep, reply := rp, recv := rv\<rparr>\<rparr>"
  have run: "andThen (handle_message fuel K H E m) (answer_caller K rp) ?s1 = (r, s')"
    using assms(1,2,3,10)
    by (simp add: dispatch_round_def listen_def andThen_def[of "gets f" for f] andThen_def[of "modify f" for f]
        andThen_def[of "attempt f" for f] attempt_def ext_def modify_def gets_def)
  have "sure (handle_message fuel K H E m)"
    unfolding handle_message_def by (intro sure_intro)
  from sure_step[OF this run assms(11)] obtain a s2 where a: "handle_message fuel K H E m ?s1 = (Ok a, s2)"
    and ans: "answer_caller K rp a s2 = (r, s')" .
  from power_off_message[OF assms(6,4,5,7,8,9) a] have off: "\<not> running (ipc s2)" and "a \<noteq> Inr Waiting" by auto
  with answer_caller_result[OF ans assms(11)] have "r = Ok Served" "\<not> running (ipc s')" by simp_all
  then show ?thesis by (simp add: dispatch_round_def andThen_def gets_def ret_def)
qed

text \<open>A kernel that delivers the power-off message of process 1.\<close>

definition example_power_off :: message where
  "example_power_off =
     \<lparr>msg_badge = 1, msg_proto = 1, msg_label = 2,
      msg_mrs = [LINUX_REBOOT_MAGIC1, LINUX_REBOOT_MAGIC2, LINUX_REBOOT_CMD_POWER_OFF, 0, 0, 0, 0, 142]\<rparr>"

definition example_ipc :: "nat ipc_env" where
  "example_ipc =
     \<lparr>ipc_recv = (\<lambda>_ _ _ w. (Ok example_power_off, w)),
      ipc_reply = (\<lambda>_ _. ok_call), KERNEL_PROTO = 1, LABEL_SYSCALL = 2, LABEL_PAGE_FAULT = 3,
      LABEL_ILLEGAL_INSTRUCTION = 4, LABEL_BREAKPOINT = 5, LABEL_ACCESS_FAULT = 6, LABEL_VIRT_EXIT = 7,
      LABEL_UNKNOWN_FAULT = 8, LABEL_NOTIFY = 9, spawn_dispatch_worker = (\<lambda>_ _ _ _ _ _. ok_call),
      REPLY_SLOT = 20, RECV_SLOT = 21\<rparr>"

definition example_running :: "(unit, unit, nat) ape" where
  "example_running = (example_ape [])\<lparr>ipc := (ipc (example_ape []))\<lparr>running := True\<rparr>\<rparr>"

lemma example_power_off_message:
  "msg_badge example_power_off \<noteq> APE_ASYNC_NOTIFY_BADGE_BITS" "msg_proto example_power_off = KERNEL_PROTO example_ipc"
  "msg_label example_power_off = LABEL_SYSCALL example_ipc" "msg_mrs example_power_off ! 0 = LINUX_REBOOT_MAGIC1"
  "valid_reboot_magic2 (msg_mrs example_power_off ! 1)"
  "msg_mrs example_power_off ! 2 mod (u32_max + 1) \<in> {LINUX_REBOOT_CMD_POWER_OFF, LINUX_REBOOT_CMD_HALT}"
  "decode_ape_syscall (lib example_sys_env) (msg_mrs example_power_off ! 7) = SysReboot"
  "running (ipc example_running)" "ipc_recv example_ipc c d e w = (Ok example_power_off, w)"
  by (simp_all add: example_power_off_def example_ipc_def example_running_def example_table_def
      APE_ASYNC_NOTIFY_BADGE_BITS_def valid_reboot_magic2_def u32_max_def)

lemma example_answer: "a \<noteq> Inr Waiting \<Longrightarrow> answer_caller example_ipc rp a s = (Ok Served, s)"
  by (auto simp: answer_caller_def example_ipc_def ignore_def attempt_def andThen_def ret_def ext_def
      split: sum.split answer.split)

lemma example_round:
  "\<exists>s'. dispatch_round 0 example_ipc example_host example_sys_env 10 20 21 example_running = (Ok Served, s')"
proof -
  let ?s = "example_running\<lparr>ipc := (ipc example_running)\<lparr>endpoint := 10, reply := 20, recv := 21\<rparr>\<rparr>"
  let ?a = "set_active_caller_pid 1 ?s"
  let ?z = "?a\<lparr>ipc := (ipc ?a)\<lparr>running := False\<rparr>\<rparr>"
  have "get_process ?z 1 = None"
    by (simp add: set_active_caller_pid_def example_running_def get_process_def process_def example_ape_def ape_task_state_new_def)
  note finish = finish_without_process[OF this]
  have "handle_message 0 example_ipc example_host example_sys_env example_power_off ?s
      = (Ok (Inr (Value 0)), clear_active_caller_pid ?z)"
  proof -
    have "stop_service example_host ?a = (Ok (), ?z)"
      by (simp add: stop_service_def example_host_def monad_simps ext_simps)
    then have "handle_syscall 0 example_host example_sys_env 1
        (map (\<lambda>i. msg_mrs example_power_off ! i) [0, 1, 2, 3, 4, 5, 6, 7]) ?a = (Ok (Some 0), ?z)"
      using example_power_off_message(4-7) finish
      by (simp add: handle_syscall_def parse_syscall_args_def power_off_program returned_def attempt_def andThen_def ret_def)
    moreover have "msg_badge example_power_off = 1" by (simp add: example_power_off_def)
    ultimately show ?thesis
      using example_power_off_message(2,3)
      by (simp add: handle_message_def dispatch_def Let_def attempt_def andThen_def ret_def modify_def)
  qed
  then show ?thesis
    using example_power_off_message(1,8,9)
    by (simp add: dispatch_round_def listen_def example_answer andThen_def attempt_def ext_def modify_def gets_def)
qed

theorem power_off_stops_service_witness:
  "\<exists>s'. dispatch_round 0 example_ipc example_host example_sys_env 10 20 21 example_running = (Ok Served, s') \<and>
     run_dispatch_loop 1 0 example_ipc example_host example_sys_env 10 20 21 s' = (Ok Exited, s')"
proof -
  obtain s' where run: "dispatch_round 0 example_ipc example_host example_sys_env 10 20 21 example_running = (Ok Served, s')"
    using example_round by blast
  note facts = example_power_off_message
  from power_off_stops_service[OF facts(8,9,1,2,3,7,4,5,6) run, of 0] run show ?thesis by auto
qed

section \<open>Interrupted calls\<close>

text \<open>
  A handler without \<open>SA_RESTART\<close> turns the result of a call that has already done its
  work into \<open>EINTR\<close>: the bytes a \<open>read\<close> took from its file are lost to the caller.
\<close>

lemma completed_call_reported_interrupted:
  assumes "route_syscall fuel H E p (mrs ! 7) [mrs ! 0, mrs ! 1, mrs ! 2, mrs ! 3, mrs ! 4, mrs ! 5] s = (Ok (Some v), s1)"
    and "0 \<le> v" and "is_restartable_syscall (lib E) (mrs ! 7)"
    and "consume_deliverable_signal_on_syscall_return E p s1 = (Ok (Interrupt False), s2)"
  shows "handle_syscall fuel H E p mrs s = (Ok (Some (- EINTR)), s2)"
  using assms
  by (simp add: handle_syscall_def parse_syscall_args_def returned_def finish_syscall_def andThen_def attempt_def ret_def)

end
