(* ===== verification/Access_Steps.thy ===== *)
theory Access_Steps
  imports User_Access
begin

text \<open>
  What an access to the memory of a process does to the manager and to the services,
  step by step.  Reading user memory (\<open>src/src/ape/user.rs\<close>) and mapping frames (the first
  half of \<open>src/src/ape/fault.rs\<close>) only ask the kernel and the resource service for slots,
  frames, tables and mappings, note them in the ledger of that process and record tables
  and stack pages in its memory map.  The locale \<open>access_frame\<close> carries any predicate that
  survives such a step through these programs.
\<close>

section \<open>The steps\<close>

text \<open>
  The calls that manage slots, frames, tables and mappings.  The files, the paths, the
  threads, the clock and the bytes of memory are out of their reach.
\<close>

inductive memory_call :: "('i, 'w) env \<Rightarrow> 'w \<Rightarrow> 'w \<Rightarrow> bool" for E where
  call_alloc: "memory_call E w (snd (cspace_alloc (caps E) w))"
| call_free: "memory_call E w (cspace_free (caps E) c w)"
| call_delete: "memory_call E w (snd (cap_delete (caps E) c w))"
| call_res_alloc: "memory_call E w (snd (res_alloc (caps E) k n c w))"
| call_res_free: "memory_call E w (snd (res_free (caps E) c w))"
| call_table: "memory_call E w (snd (vs_map_table (vm E) v c a l w))"
| call_map: "memory_call E w (snd (vs_map (vm E) v c a prm n w))"
| call_unmap: "memory_call E w (snd (vs_unmap (vm E) v a n w))"
| call_scratch: "memory_call E w (snd (vm_map_scratch (vm E) c prm n w))"
| call_unscratch: "memory_call E w (snd (vm_unmap (vm E) a n w))"

text \<open>The memory map of a process whose stack grows by the page at \<open>v\<close>.\<close>

definition stack_page :: "('i, 'w) env \<Rightarrow> capptr \<Rightarrow> usize \<Rightarrow> memory_map" where
  "stack_page E slot v =
     \<lparr>map_vaddr = v, map_paddr = 0, map_size = PGSIZE (mp E), map_flags = {PERM_READ, PERM_WRITE}, mem_type = Stack,
      map_cow = False, frame_cap = slot, file_backing_fd = None, file_backing_offset = 0\<rparr>"

definition grown_stack :: "('i, 'w) env \<Rightarrow> capptr \<Rightarrow> usize \<Rightarrow> mm_state \<Rightarrow> mm_state" where
  "grown_stack E slot v m = (add_memory_map (stack_page E slot v) m)\<lparr>stack_size := sat_add (stack_size m) (PGSIZE (mp E))\<rparr>"

inductive access_step :: "('i, 'w) env \<Rightarrow> usize \<Rightarrow> ('i, 'p, 'w) ape \<Rightarrow> ('i, 'p, 'w) ape \<Rightarrow> bool" for E p where
  step_call: "memory_call E (world s) w \<Longrightarrow> access_step E p s (s\<lparr>world := w\<rparr>)"
| step_frame: "access_step E p s (ledger_record_frame_alloc p c n s)"
| step_table: "access_step E p s (ledger_record_pagetable_alloc p c s)"
| step_table_gone: "access_step E p s (ledger_record_pagetable_free p c s)"
| step_record: "access_step E p s (upd_task p (upd_mem (record_intermediate_page_table l pre c)) s)"
| step_stack: "access_step E p s (upd_task p (upd_mem (grown_stack E c v)) s)"

lemma access_step_mem: "access_step E p s s' \<Longrightarrow> mem_only p s0 s \<Longrightarrow> mem_only p s0 s'"
  by (erule access_step.cases)
    (simp_all add: ledger_record_frame_alloc_def ledger_record_pagetable_alloc_def ledger_record_pagetable_free_def)

lemma access_step_world: "access_step E p s s' \<Longrightarrow> world s' = world s \<or> memory_call E (world s) (world s')"
  by (erule access_step.cases)
    (auto simp: ledger_record_frame_alloc_def ledger_record_pagetable_alloc_def ledger_record_pagetable_free_def
      upd_resources_def upd_task_def upd_ts_def)

lemma access_steps_mem: "(access_step E p)\<^sup>*\<^sup>* s s' \<Longrightarrow> mem_only p s s'"
  by (induction rule: rtranclp_induct) (auto intro: access_step_mem)

section \<open>Programs that only take such steps\<close>

locale access_frame =
  fixes E :: "('i, 'w) env" and p :: usize and P :: "('i, 'p, 'w) ape \<Rightarrow> bool"
  assumes step: "P s \<Longrightarrow> access_step E p s s' \<Longrightarrow> P s'"
begin

lemma keeps_call: "(\<And>w. memory_call E w (snd (m w))) \<Longrightarrow> keeps P (ext m)"
proof (rule keepsI)
  fix s assume call: "\<And>w. memory_call E w (snd (m w))" and "P s"
  from this(2) have "P (s\<lparr>world := snd (m (world s))\<rparr>)" by (rule step[OF _ step_call[OF call]])
  then show "P (snd (ext m s))" by (cases "m (world s)") (simp add: ext_def)
qed

lemma keeps_do: "(\<And>w. memory_call E w (f w)) \<Longrightarrow> keeps P (ext_do f)"
  by (rule keepsI) (auto simp: ext_do_def modify_def intro: step[OF _ step_call])

lemmas calls =
  keeps_call[OF call_alloc] keeps_do[OF call_free] keeps_call[OF call_delete] keeps_call[OF call_res_alloc]
  keeps_call[OF call_res_free] keeps_call[OF call_table] keeps_call[OF call_map] keeps_call[OF call_unmap]
  keeps_call[OF call_scratch] keeps_call[OF call_unscratch]

lemma keeps_modify_step: "(\<And>s. access_step E p s (f s)) \<Longrightarrow> keeps P (modify f)"
  by (rule keeps_modify) (rule step)

lemmas records =
  keeps_modify_step[OF step_frame] keeps_modify_step[OF step_table] keeps_modify_step[OF step_table_gone]
  keeps_modify_step[OF step_record] keeps_modify_step[OF step_stack]

lemma release_pagetable: "keeps P (release_pagetable_slot E p c)"
  unfolding release_pagetable_slot_def by (intro keeps_intro calls records)

lemma ensure: "keeps P (ensure_intermediate_page_tables_with_leaf E p a leaf)"
  unfolding ensure_intermediate_page_tables_with_leaf_def add_page_table_def
  by (auto intro!: keeps_intro calls records release_pagetable split: prod.split)

lemma ensure_loop: "keeps P (ensure_tables_loop E p v pages i)"
proof (induction "pages - i" arbitrary: i rule: less_induct)
  case less
  have "0 < L1_HUGE_PAGES E" by (simp add: L1_HUGE_PAGES_def)
  then show ?case
    by (subst ensure_tables_loop.simps) (auto intro!: keeps_intro ensure less simp: Let_def)
qed

lemma map_frame: "keeps P (map_process_frame E p c v prm n)"
  unfolding map_process_frame_def by (intro keeps_intro calls ensure ensure_loop)

lemma unmap_pages: "keeps P (unmap_process_pages E p v n)"
  unfolding unmap_process_pages_def by (intro keeps_intro calls)

lemma grow_page: "keeps P (grow_stack_page E p v)"
  unfolding grow_stack_page_def stack_page_def[symmetric] grown_stack_def[symmetric]
  by (intro keeps_intro calls records map_frame)

lemma find_map: "keeps P (lookup_map E p a req)"
  unfolding lookup_map_def try_grow_stack_for_user_addr_def by (intro keeps_intro grow_page)

text \<open>The sessions, on the manager's half of their state.\<close>

abbreviation half :: "'x \<times> ('i, 'p, 'w) ape \<Rightarrow> bool" where
  "half x \<equiv> P (snd x)"

lemma release_slot: "keeps half (unmap_slot E slot)"
  unfolding unmap_slot_def by (intro keeps_intro calls)

lemma pick: "keeps half pool_pick_slot"
  by (auto simp: keeps_def pool_pick_slot_def split: prod.splits)

lemma take_page: "keeps half (acquire E m prm)"
  unfolding acquire_def by (intro keeps_intro calls release_slot pick)

lemma release_pool: "keeps half (release_all E)"
  unfolding release_all_def by (intro keeps_intro release_slot)

lemma copy_from: "keeps half (copy_from_loop E p c n)"
proof (induction n arbitrary: c rule: less_induct)
  case (less n)
  show ?case
    by (subst copy_from_loop.simps) (auto intro!: keeps_intro take_page find_map less simp: Let_def)
qed

lemma strncpy: "keeps half (strncpy_loop E p c n out)"
proof (induction n arbitrary: c out rule: less_induct)
  case (less n)
  show ?case
    by (subst strncpy_loop.simps) (auto intro!: keeps_intro take_page find_map less simp: Let_def)
qed

lemma session:
  assumes "keeps half f"
  shows "keeps P (with_user_session E f)"
proof (rule keepsI)
  fix s assume "P s"
  then have a: "half (snd (f (page_pool_new, s)))"
    using keeps_state[OF assms, of "(page_pool_new, s)"] by simp
  have b: "half (snd (release_all E x))" if "half x" for x
    using keeps_state[OF release_pool that] .
  show "P (snd (with_user_session E f s))"
    using a b unfolding with_user_session_def
    by (auto split: prod.split res.split) (metis snd_conv)+
qed

lemma string_array: "keeps half (read_user_string_array E p a n m)"
proof -
  have "keeps half (read_strings_loop is E p a m out)" for "is" out
    by (induction "is" arbitrary: out)
      (auto intro!: keeps_intro copy_from strncpy
        simp: read_user_usize_def sess_copy_from_user_def sess_strncpy_from_user_def)
  then show ?thesis by (auto simp: read_user_string_array_def intro!: keeps_intro)
qed

lemma reads:
  "keeps P (copy_from_user E p src n)" "keeps P (strncpy_from_user E p src n)"
  "keeps P (parse_execve_user_input E p a b c)"
  unfolding copy_from_user_def strncpy_from_user_def parse_execve_user_input_def sess_copy_from_user_def
    sess_strncpy_from_user_def sess_parse_execve_user_input_def
  by (auto intro!: session keeps_intro copy_from strncpy string_array)

end

text \<open>The predicates that this is used for: states reached by steps, and worlds reached by calls.\<close>

interpretation reached: access_frame E p "(access_step E p)\<^sup>*\<^sup>* s0" for E p s0
  by unfold_locales (rule rtranclp.rtrancl_into_rtrancl)

interpretation called: access_frame E p "\<lambda>s. (memory_call E)\<^sup>*\<^sup>* w0 (world s)" for E p w0
  by unfold_locales (metis access_step_world rtranclp.rtrancl_into_rtrancl)

end
