(* ===== verification/Strace.thy ===== *)
theory Strace
  imports Strace_Format Answers Access_Steps
begin

text \<open>
  The call tracer of the \<open>strace\<close> feature (\<open>src/src/ape/utils/strace.rs\<close>): one line of
  text per system call, made from the registers, from the memory of the caller and from the
  result, and the handler of a system call with the tracer switched on
  (\<open>handle_syscall\<close> of \<open>src/src/ape/fault.rs\<close>). The tick counter and the log are the record
  \<open>trace_env\<close>.
\<close>

section \<open>Reading the arguments\<close>



type_synonym ('i, 'p, 'w) text_prog = "('i, 'p, 'w, string) ape_prog"

definition read_user_path :: "('i, 'w) env \<Rightarrow> usize \<Rightarrow> usize \<Rightarrow> ('i, 'p, 'w) text_prog" where
  "read_user_path E p ptr =
     (if ptr = 0 then ret ''NULL''
      else
        andThen (attempt (strncpy_from_user E p ptr USER_PATH_MAX)) (\<lambda>r.
        ret (case r of Inr path \<Rightarrow> quote_string path | Inl _ \<Rightarrow> hex ptr)))"

definition preview_user_buffer ::
  "('i, 'w) env \<Rightarrow> usize \<Rightarrow> usize \<Rightarrow> usize \<Rightarrow> usize \<Rightarrow> ('i, 'p, 'w, string option) ape_prog" where
  "preview_user_buffer E p ptr len preview_len =
     (let to_read = min len preview_len in
      if ptr = 0 then ret (Some ''NULL'')
      else if len = 0 \<or> to_read = 0 then ret (Some [DQ, DQ])
      else
        andThen (attempt (copy_from_user E p ptr to_read)) (\<lambda>r.
        ret (case r of
               Inl _ \<Rightarrow> None
             | Inr bs \<Rightarrow> Some ([DQ] @ escape_bytes bs @ [DQ] @ (if len > to_read then ''...'' else [])))))"

text \<open>An \<open>iovec\<close> is its base and its length.\<close>

definition read_user_iovec ::
  "('i, 'w) env \<Rightarrow> usize \<Rightarrow> usize \<Rightarrow> ('i, 'p, 'w, (usize \<times> usize) option) ape_prog" where
  "read_user_iovec E p ptr =
     (if ptr = 0 then ret None
      else
        andThen (attempt (copy_from_user E p ptr 16)) (\<lambda>r.
        ret (case r of
               Inl _ \<Rightarrow> None
             | Inr raw \<Rightarrow> Some (bytes_to_nat (take 8 raw), bytes_to_nat (take 8 (drop 8 raw))))))"

fun scan_iovecs ::
  "('i, 'w) env \<Rightarrow> usize \<Rightarrow> usize \<Rightarrow> nat list \<Rightarrow> ('i, 'p, 'w, (usize \<times> usize) option) ape_prog" where
  "scan_iovecs E p iov_ptr [] = ret None"
| "scan_iovecs E p iov_ptr (idx # rest) =
     (case checked_add iov_ptr (idx * 16) of
        None \<Rightarrow> ret None
      | Some ptr \<Rightarrow>
          andThen (read_user_iovec E p ptr) (\<lambda>r.
          case r of
            None \<Rightarrow> ret None
          | Some (base, len) \<Rightarrow>
              if len > 0 then ret (Some (base, len)) else scan_iovecs E p iov_ptr rest))"

definition read_first_nonempty_iovec ::
  "('i, 'w) env \<Rightarrow> usize \<Rightarrow> usize \<Rightarrow> usize \<Rightarrow> ('i, 'p, 'w, (usize \<times> usize) option) ape_prog" where
  "read_first_nonempty_iovec E p iov_ptr iov_cnt = scan_iovecs E p iov_ptr [0..<min iov_cnt 8]"

definition trace_read_timespec ::
  "('i, 'w) env \<Rightarrow> usize \<Rightarrow> usize \<Rightarrow> ('i, 'p, 'w, (int \<times> int) option) ape_prog" where
  "trace_read_timespec E p ptr =
     (if ptr = 0 then ret None
      else
        andThen (attempt (copy_from_user E p ptr 16)) (\<lambda>r.
        ret (case r of
               Inl _ \<Rightarrow> None
             | Inr raw \<Rightarrow>
                 Some (i64_of_nat (bytes_to_nat (take 8 raw)), i64_of_nat (bytes_to_nat (take 8 (drop 8 raw)))))))"

definition format_timespec :: "('i, 'w) env \<Rightarrow> usize \<Rightarrow> usize \<Rightarrow> ('i, 'p, 'w) text_prog" where
  "format_timespec E p ptr =
     (if ptr = 0 then ret ''NULL''
      else
        andThen (trace_read_timespec E p ptr) (\<lambda>r.
        ret (case r of
               Some (sec, nsec) \<Rightarrow> ''{tv_sec='' @ show_isize sec @ '', tv_nsec='' @ show_isize nsec @ ''}''
             | None \<Rightarrow> format_ptr ptr)))"

section \<open>One line per call\<close>





















































section \<open>Before and after a call\<close>










section \<open>Tracing only looks\<close>




lemma scan_iovecs_sure: "sure (scan_iovecs E p iov idxs)"
  by (induction idxs) (auto simp: read_user_iovec_def intro!: sure_intro)

lemmas trace_reads = read_user_path_def preview_user_buffer_def read_user_iovec_def
  read_first_nonempty_iovec_def trace_read_timespec_def format_timespec_def



lemma trace_reads_sure [sure_intro]:
  "sure (read_user_path E p a)" "sure (preview_user_buffer E p a n m)" "sure (read_user_iovec E p a)"
  "sure (read_first_nonempty_iovec E p a n)" "sure (format_timespec E p a)"
  unfolding trace_reads by (intro sure_intro scan_iovecs_sure)+
















end
