(* ===== verification/Entry.thy ===== *)
theory Entry
  imports Server
begin

text \<open>
  The entry point of the service (\<open>src/src/main.rs\<close>): it fetches the endpoints of the other
  services from the monitor, makes and registers its own endpoint, and runs start-up and the
  message loop. The monitor is the record \<open>monitor_env\<close>. A failure before the loop is a panic.
\<close>

record 'w monitor_env =
  res_status :: "('w, usize \<times> usize) prog"
  get_cap :: "usize \<Rightarrow> capptr \<Rightarrow> ('w, unit) prog"
  register_cap :: "usize \<Rightarrow> capptr \<Rightarrow> ('w, unit) prog"
  init_current_thread :: "capptr \<Rightarrow> ('w, unit) prog"
  INIT_ENDPOINT :: usize
  FS_ENDPOINT :: usize
  VOLUME_ENDPOINT :: usize
  VT_ENDPOINT :: usize
  TIME_ENDPOINT :: usize
  FACTOTUM_ENDPOINT :: usize
  APE_ENDPOINT :: usize
  ENDPOINT_SLOT :: capptr

definition INIT_SLOT :: capptr where "INIT_SLOT = 9"
definition VT_SLOT :: capptr where "VT_SLOT = 10"
definition FS_SLOT :: capptr where "FS_SLOT = 11"
definition VOLUME_SLOT :: capptr where "VOLUME_SLOT = 12"
definition TIME_SLOT :: capptr where "TIME_SLOT = 15"
definition AUTH_SLOT :: capptr where "AUTH_SLOT = 16"

definition fetch_services :: "'w monitor_env \<Rightarrow> ('i, 'p, 'w, unit) ape_prog" where
  "fetch_services M =
     forM [(INIT_ENDPOINT M, INIT_SLOT), (FS_ENDPOINT M, FS_SLOT), (VOLUME_ENDPOINT M, VOLUME_SLOT),
           (VT_ENDPOINT M, VT_SLOT), (TIME_ENDPOINT M, TIME_SLOT), (FACTOTUM_ENDPOINT M, AUTH_SLOT)]
       (\<lambda>(ep, slot). expect (ext (get_cap M ep slot)))"

definition setup_endpoints :: "'w monitor_env \<Rightarrow> ('i, 'w) env \<Rightarrow> ('i, 'p, 'w, unit) ape_prog" where
  "setup_endpoints M E =
     andThen (expect (ext (res_alloc (caps E) CapEndpoint 0 (ENDPOINT_SLOT M)))) (\<lambda>_.
     andThen (expect (ext (cspace_alloc (caps E)))) (\<lambda>park.
     andThen (expect (ext (res_alloc (caps E) CapEndpoint 0 park))) (\<lambda>_.
     andThen (expect (ext (init_current_thread M park))) (\<lambda>_.
     expect (ext (register_cap M (APE_ENDPOINT M) (ENDPOINT_SLOT M)))))))"

text \<open>The manager is made with an empty state between the set-up and the start-up.\<close>

definition main ::
  "nat \<Rightarrow> nat \<Rightarrow> 'w monitor_env \<Rightarrow> 'w ipc_env \<Rightarrow> 'w host_env \<Rightarrow> ('i, 'w) env \<Rightarrow> ('p, 'w) term_env \<Rightarrow> ('i, 'p, 'w, round) boot_prog" where
  "main n fuel M K H E T =
     andThen (on_mgr (expect (ext (res_status M)))) (\<lambda>_.
     andThen (on_mgr (fetch_services M)) (\<lambda>_.
     andThen (on_mgr (setup_endpoints M E)) (\<lambda>_.
     andThen (modify (\<lambda>(d, s). (None, ape_new (world s)))) (\<lambda>_.
     andThen (on_mgr (expect (listen (ENDPOINT_SLOT M) (REPLY_SLOT K) (RECV_SLOT K)))) (\<lambda>_.
     andThen (expect (bootstrap H E T)) (\<lambda>_.
     on_mgr (run_multithreaded n fuel K H E)))))))"

end
