(* ===== verification/Prog_Laws.thy ===== *)
theory Prog_Laws
  imports Prelude
begin

text \<open>
  What a program establishes when it returns a value: \<open>leads P Q m\<close> relates the state
  before to the value and the state after. Steps that keep a predicate compose with
  steps that change it.
\<close>

definition leads :: "('s \<Rightarrow> bool) \<Rightarrow> ('a \<Rightarrow> 's \<Rightarrow> bool) \<Rightarrow> ('s, 'a) prog \<Rightarrow> bool" where
  "leads P Q m \<longleftrightarrow> (\<forall>s x s'. P s \<longrightarrow> m s = (Ok x, s') \<longrightarrow> Q x s')"

lemma leadsD: "leads P Q m \<Longrightarrow> P s \<Longrightarrow> m s = (Ok x, s') \<Longrightarrow> Q x s'"
  by (auto simp: leads_def)

lemma leads_keeps: "keeps P m \<Longrightarrow> leads P (\<lambda>_. P) m"
  unfolding leads_def by (metis keepsD)

lemma leads_bind: "leads P R m \<Longrightarrow> (\<And>x. leads (R x) Q (f x)) \<Longrightarrow> leads P Q (andThen m f)"
  unfolding leads_def andThen_Ok by blast

lemma leads_andThen: "keeps P m \<Longrightarrow> (\<And>x. leads P Q (f x)) \<Longrightarrow> leads P Q (andThen m f)"
  by (rule leads_bind[OF leads_keeps])

lemma leads_ret: "(\<And>s. P s \<Longrightarrow> Q x s) \<Longrightarrow> leads P Q (ret x)"
  by (simp add: leads_def ret_def)

lemma leads_weaken: "leads P R m \<Longrightarrow> (\<And>x s. R x s \<Longrightarrow> Q x s) \<Longrightarrow> leads P Q m"
  by (auto simp: leads_def)

lemma leads_pre: "leads R Q m \<Longrightarrow> (\<And>s. P s \<Longrightarrow> R s) \<Longrightarrow> leads P Q m"
  by (auto simp: leads_def)

lemma leads_ex: "(\<And>y. leads (P y) Q m) \<Longrightarrow> leads (\<lambda>s. \<exists>y. P y s) Q m"
  by (auto simp: leads_def)

lemma leads_pure: "(A \<Longrightarrow> leads P Q m) \<Longrightarrow> leads (\<lambda>s. A \<and> P s) Q m"
  by (auto simp: leads_def)

lemma leads_lift: "(\<And>x. r = Ok x \<Longrightarrow> leads P Q (f x)) \<Longrightarrow> leads P Q (andThen (lift_res r) f)"
  by (auto simp: leads_def andThen_Ok lift_res_def)

lemma leads_fails: "(\<And>x. leads (\<lambda>_. True) Q (f x)) \<Longrightarrow> leads P Q (andThen m f)"
  by (auto simp: leads_def andThen_Ok)

lemma leads_control:
  "leads P Q (throw e)" "(b \<Longrightarrow> leads P Q m) \<Longrightarrow> (\<not> b \<Longrightarrow> leads P Q n) \<Longrightarrow> leads P Q (if b then m else n)"
  "(\<And>c. c = t \<Longrightarrow> leads P Q (h c)) \<Longrightarrow> leads P Q (let c = t in h c)"
  "(\<And>a b. y = (a, b) \<Longrightarrow> leads P Q (g a b)) \<Longrightarrow> leads P Q (case y of (a, b) \<Rightarrow> g a b)"
  by (auto simp: leads_def throw_def Let_def split: prod.split)

lemma leads_case_option:
  "(z = None \<Longrightarrow> leads P Q m) \<Longrightarrow> (\<And>v. z = Some v \<Longrightarrow> leads P Q (k v)) \<Longrightarrow>
   leads P Q (case z of None \<Rightarrow> m | Some v \<Rightarrow> k v)"
  by (simp split: option.split)

lemma leads_case_sum:
  "(\<And>e. w = Inl e \<Longrightarrow> leads P Q (h e)) \<Longrightarrow> (\<And>v. w = Inr v \<Longrightarrow> leads P Q (k v)) \<Longrightarrow>
   leads P Q (case w of Inl e \<Rightarrow> h e | Inr v \<Rightarrow> k v)"
  by (simp split: sum.split)

lemma leads_forM:
  assumes "\<And>x rest. leads (I (x # rest)) (\<lambda>_. I rest) (f x)"
  shows "leads (I xs) (\<lambda>_. I []) (forM xs f)"
proof (induction xs)
  case Nil
  show ?case by (auto intro: leads_ret)
next
  case (Cons x xs)
  show ?case using assms Cons by (auto intro: leads_bind)
qed

lemmas leads_intro = leads_andThen leads_control leads_case_option leads_case_sum

section \<open>Programs that return\<close>

text \<open>From a state with the predicate the program returns a value, in a state with the predicate.\<close>

definition okay :: "('s \<Rightarrow> bool) \<Rightarrow> ('s, 'a) prog \<Rightarrow> bool" where
  "okay P m \<longleftrightarrow> (\<forall>s. P s \<longrightarrow> (\<exists>x s'. m s = (Ok x, s') \<and> P s'))"

named_theorems okay_intro \<open>rules on programs that return under a predicate\<close>

lemma okayI: "keeps P m \<Longrightarrow> (\<And>s. P s \<Longrightarrow> \<exists>x s'. m s = (Ok x, s')) \<Longrightarrow> okay P m"
  unfolding okay_def by (metis keepsD)

lemma okayD: "okay P m \<Longrightarrow> P s \<Longrightarrow> \<exists>x s'. m s = (Ok x, s') \<and> P s'"
  by (simp add: okay_def)

lemma okay_andThen [okay_intro]: "okay P m \<Longrightarrow> (\<And>x. okay P (f x)) \<Longrightarrow> okay P (andThen m f)"
  unfolding okay_def andThen_Ok by blast

lemma okay_ret [okay_intro]: "okay P (ret x)"
  by (simp add: okay_def ret_def)

lemma okay_ignore [okay_intro]: "okay P m \<Longrightarrow> okay P (ignore m)"
  unfolding okay_def ignore_Ok by blast

lemma okay_whenM [okay_intro]: "okay P m \<Longrightarrow> okay P (whenM b m)"
  by (simp add: whenM_def okay_ret)

lemma okay_forM [okay_intro]: "(\<And>x. okay P (f x)) \<Longrightarrow> okay P (forM xs f)"
  by (induction xs) (auto intro!: okay_intro)

lemma okay_case_prod [okay_intro]: "(\<And>a b. okay P (f a b)) \<Longrightarrow> okay P (case y of (a, b) \<Rightarrow> f a b)"
  by (cases y) simp

lemma okay_tried [okay_intro]:
  "okay P m \<Longrightarrow> (\<And>x. okay P (f (Inr x))) \<Longrightarrow> okay P (andThen (attempt m) f)"
  unfolding okay_def andThen_Ok attempt_Ok by fastforce

lemma okay_lift [okay_intro]: "okay P (lift_res (Ok x))"
  by (simp add: okay_def lift_res_def)

end
