(* ===== verification/Example_Runs.thy ===== *)
theory Example_Runs
  imports Vspace Prog_Laws
begin

text \<open>
  Runs in an environment whose memory services always succeed: as long as the process
  exists, the steps that map and release frames return.
\<close>

definition serves :: "(unit, nat) env \<Rightarrow> bool" where
  "serves E \<longleftrightarrow> caps E = caps example_env \<and> vm E = vm example_env"

definition alive :: "usize \<Rightarrow> ('i, 'p, 'w) ape \<Rightarrow> bool" where
  "alive p s \<longleftrightarrow> get_process s p \<noteq> None"

lemma serves_example: "serves example_env"
  by (simp add: serves_def)

lemma okay_alive_ext [okay_intro]:
  assumes "\<And>w. \<exists>x w'. m w = (Ok x, w')"
  shows "okay (alive p :: ('i, 'p, 'w) ape \<Rightarrow> bool) (ext m)"
  unfolding okay_def
proof (intro allI impI)
  fix s :: "('i, 'p, 'w) ape"
  assume "alive p s"
  moreover obtain x w' where "m (world s) = (Ok x, w')" using assms by blast
  ultimately show "\<exists>x s'. ext m s = (Ok x, s') \<and> alive p s'" by (simp add: ext_simps(2) alive_def)
qed

lemma okay_alive [okay_intro]:
  "okay (alive p) (task_or e p)" "okay (alive p) (ext_do g)" "okay (alive p) (modify (upd_task p f))"
  "okay (alive p) (release_shared_frame_cap c)" "okay (alive p) (modify (ledger_record_frame_alloc p c n))"
  "okay (alive p) (modify (ledger_record_frame_free p c n))" "okay (alive p) (modify (ledger_record_pagetable_alloc p c))"
  by (auto simp: okay_def alive_def task_or_def ext_do_def modify_def release_shared_frame_cap_def release_frame_cap_def
      ledger_record_frame_alloc_def ledger_record_frame_free_def ledger_record_pagetable_alloc_def get_process_def
      process_def Let_def split: prod.splits option.splits if_splits)

lemma okay_tables:
  assumes "serves E"
  shows "okay (alive p) (ensure_intermediate_page_tables_with_leaf E p a leaf)"
  unfolding ensure_intermediate_page_tables_with_leaf_def add_page_table_def
  using assms by (auto simp: serves_def intro!: okay_intro)

lemma okay_tables_loop:
  assumes "serves E"
  shows "okay (alive p) (ensure_tables_loop E p v pages i)"
  using assms
proof (induction E p v pages i rule: ensure_tables_loop.induct)
  case (1 E p v pages i)
  then show ?case
    by (subst ensure_tables_loop.simps) (auto simp: Let_def intro!: okay_andThen okay_ret okay_tables)
qed

lemma okay_frames:
  assumes "serves E"
  shows "okay (alive p) (map_process_frame E p c v prm n)" "okay (alive p) (unmap_process_pages E p v n)"
    "okay (alive p) (release_process_frame_slot E p c n)"
  unfolding map_process_frame_def unmap_process_pages_def release_process_frame_slot_def
  using assms by (auto simp: serves_def intro!: okay_intro okay_tables_loop)

end
