(* ===== verification/Exec_Files.thy ===== *)
theory Exec_Files
  imports Exec Bootstrap Example_Runs
begin

text \<open>
  What a new program inherits: the descriptors of a process across \<open>execve\<close>
  (\<open>src/src/task/exec.rs\<close>), and the descriptors the first process starts with
  (\<open>load_init\<close> of \<open>src/src/ape/bootstrap.rs\<close>).
\<close>

section \<open>The descriptor table of a process\<close>

definition has_files :: "usize \<Rightarrow> files_state \<Rightarrow> ('i, 'p, 'w) ape \<Rightarrow> bool" where
  "has_files p F s \<longleftrightarrow> (\<exists>t. get_process s p = Some t \<and> task_files t = F)"

lemma has_files_world [simp]: "has_files p F (s\<lparr>world := w\<rparr>) = has_files p F s"
  by (simp add: has_files_def)

lemma has_files_upd_mem [simp]: "has_files p F (upd_task p (upd_mem f) s) = has_files p F s"
  by (auto simp: has_files_def)

lemma has_files_mem: "has_files p F s \<Longrightarrow> mem_only p s s' \<Longrightarrow> has_files p F s'"
  by (auto simp: has_files_def mem_only_def)

lemma has_files_ledger [simp]:
  "has_files p F (ledger_record_frame_alloc p c n s) = has_files p F s"
  "has_files p F (ledger_record_frame_free p c n s) = has_files p F s"
  "has_files p F (ledger_record_fd_close p s) = has_files p F s"
  by (simp_all add: has_files_def ledger_record_frame_alloc_def ledger_record_frame_free_def ledger_record_fd_close_def)

lemma files_steps [keeps_intro]:
  "keeps (has_files p F) (ext m)" "keeps (has_files p F) (ext_do g)"
  "keeps (has_files p F) (map_process_frame E p c v prm n)" "keeps (has_files p F) (unmap_process_pages E p v n)"
  "keeps (has_files p F) (release_shared_frame_cap c)" "keeps (has_files p F) (modify (upd_task p (upd_mem f)))"
  "keeps (has_files p F) (modify (ledger_record_frame_alloc p c n))"
  "keeps (has_files p F) (modify (ledger_record_frame_free p c n))"
proof -
  show "keeps (has_files p F) (map_process_frame E p c v prm n)"
    by (rule keeps_mem_pred[of p, OF map_process_frame_mem]) (erule (1) has_files_mem)
  show "keeps (has_files p F) (unmap_process_pages E p v n)"
    by (rule keeps_mem_pred[of p, OF unmap_process_pages_mem]) (erule (1) has_files_mem)
  show "keeps (has_files p F) (release_shared_frame_cap c)"
    by (auto simp: keeps_def release_shared_frame_cap_def release_frame_cap_def has_files_def get_process_def
        process_def Let_def split: prod.splits option.splits if_splits)
qed (auto intro: keeps_ext keeps_ext_do keeps_modify)

lemma files_alloc_frame [keeps_intro]: "keeps (has_files p F) (alloc_frame E p n m)"
  unfolding alloc_frame_def by (intro keeps_intro)

lemma files_image_loop [keeps_intro]: "keeps (has_files p F) (image_loop E slot sz acc)"
proof (induction E slot sz acc rule: image_loop.induct)
  case (1 E slot sz acc)
  then show ?case
    by (subst image_loop.simps) (auto simp: free_slot_def Let_def intro!: keeps_intro)
qed

lemma files_load [keeps_intro]:
  "keeps (has_files p F) (read_exec_image_from_fs E path)" "keeps (has_files p F) (release_memory E p st)"
  "keeps (has_files p F) (load_page E p data ph a b)" "keeps (has_files p F) (setup_initial_stack E p x argv envp auxv)"
  "keeps (has_files p F) (setup_initial_tls E p)" "keeps (has_files p F) (start_thread E p en sp tp)"
  unfolding read_exec_image_from_fs_def open_slot_def free_slot_def release_memory_def release_process_frame_slot_def
    load_page_def setup_initial_stack_def setup_initial_tls_def start_thread_def
  by (auto simp only: Let_def split: prod.split intro!: keeps_intro)

lemma files_load_loop [keeps_intro]: "keeps (has_files p F) (load_loop E p f bias is acc)"
  by (induction E p f bias "is" acc rule: load_loop.induct)
    (auto simp: load_segment_def Let_def split: prod.split intro!: keeps_intro)

lemma files_load_elf [keeps_intro]:
  "keeps (has_files p F) (load_elf_into_process E p data bias)" "keeps (has_files p F) (load_interpreter E p interp info)"
  unfolding load_interpreter_def load_elf_into_process_def
  by (auto simp only: Let_def split: prod.split intro!: keeps_intro)

section \<open>Closing on exec\<close>

lemma do_close_files:
  assumes "do_close E p fd s = (Ok r, s')" and "has_files p F s"
  shows "has_files p (snd (drop_fd fd F)) s'"
proof -
  from assms(2) obtain t where t: "get_process s p = Some t" "task_files t = F" by (auto simp: has_files_def)
  let ?s = "upd_task p (upd_files (\<lambda>f. snd (drop_fd fd f))) s"
  from assms(1) t obtain h s1 where c: "close_handle E h ?s = (Ok (), s1)" and s': "s' = ledger_record_fd_close p s1"
    by (auto simp: do_close_def ok_iff u32_try_from_def drop_fd_def split: if_splits)
  have k: "keeps (has_files p (snd (drop_fd fd F))) (close_handle E h)"
    unfolding close_handle_def
    by (auto simp: recycle_fs_async_region_def has_files_def intro!: keeps_intro keeps_modify split: file_type.split)
  have "has_files p (snd (drop_fd fd F)) ?s" using t by (auto simp: has_files_def)
  from keepsD[OF k this c] s' show ?thesis by simp
qed

lemma close_all_files:
  assumes "forM xs (\<lambda>fd. andThen (do_close E p fd) (\<lambda>_. ret ())) s = (Ok (), s')" and "has_files p F s"
  shows "has_files p (fold (\<lambda>fd f. snd (drop_fd fd f)) xs F) s'"
  using assms
proof (induction xs arbitrary: s F)
  case (Cons x xs)
  then show ?case by (auto simp: andThen_Ok ret_def dest: do_close_files)
qed (simp add: ret_def)

lemma fold_drop_fds:
  "bt_get (fds (fold (\<lambda>fd f. snd (drop_fd fd f)) xs F)) x = (if x \<in> set xs then None else bt_get (fds F) x)"
  by (induction xs arbitrary: F) (auto simp: drop_fd_def)

lemma cloexec_members: "bt_ok m \<Longrightarrow> fd \<in> set (map fst (filter snd m)) \<longleftrightarrow> bt_get m fd = Some True"
  by (force simp: bt_get_in_set)

lemma cloexec_leads:
  "leads (has_files p F) (\<lambda>_. has_files p (fold (\<lambda>fd f. snd (drop_fd fd f)) (map fst (filter snd (fd_cloexec F))) F))
     (close_cloexec_fds E p)"
  unfolding leads_def close_cloexec_fds_def
  by (auto simp: andThen_Ok task_or_def has_files_def dest!: close_all_files[where F = F])

lemma do_execve_leads:
  "leads (has_files p F) (\<lambda>_. has_files p (fold (\<lambda>fd f. snd (drop_fd fd f)) (map fst (filter snd (fd_cloexec F))) F))
     (do_execve E p path argv envp)"
  unfolding do_execve_def by (intro leads_intro keeps_intro cloexec_leads)

text \<open>
  C18: a new program inherits the open descriptors of the old one: a successful \<open>execve\<close> closes
  the descriptors marked close-on-exec and leaves every other descriptor of the process,
  with its handle and its offset, as it was.
\<close>

theorem execve_descriptors:
  assumes "do_execve E p path argv envp s = (Ok (), s')" and "get_process s p = Some t"
    and "bt_ok (fd_cloexec (task_files t))"
  shows "\<exists>t'. get_process s' p = Some t' \<and>
    bt_get (fds (task_files t')) fd =
      (if bt_get (fd_cloexec (task_files t)) fd = Some True then None else bt_get (fds (task_files t)) fd)"
proof -
  let ?closed = "map fst (filter snd (fd_cloexec (task_files t)))"
  have "has_files p (task_files t) s" using assms(2) by (simp add: has_files_def)
  from leadsD[OF do_execve_leads this assms(1)] obtain t' where "get_process s' p = Some t'"
    and t': "task_files t' = fold (\<lambda>fd f. snd (drop_fd fd f)) ?closed (task_files t)"
    by (auto simp: has_files_def)
  moreover have "bt_get (fds (task_files t')) fd =
      (if bt_get (fd_cloexec (task_files t)) fd = Some True then None else bt_get (fds (task_files t)) fd)"
    unfolding t' fold_drop_fds cloexec_members[OF assms(3)] ..
  ultimately show ?thesis by blast
qed

section \<open>An instance\<close>

text \<open>
  A program without segments in a file of 64 bytes. In the example environment every step
  of \<open>execve\<close> succeeds as long as the process exists.
\<close>

definition example_program :: "byte list" where
  "example_program = [0x7f, 0x45, 0x4c, 0x46] @ replicate 12 0 @ [2] @ replicate 47 0"

definition exec_env :: "(unit, nat) env" where
  "exec_env = example_env
     \<lparr>fss := example_fss\<lparr>fs_read := (\<lambda>_ off n w. (Ok (take n (drop off example_program)), w))\<rparr>,
      paths := example_paths\<lparr>path_stat := (\<lambda>_ w. (Ok (example_stat\<lparr>st_size := 64\<rparr>), w))\<rparr>\<rparr>"

lemma exec_env_parts [simp]:
  "caps exec_env = caps example_env" "vm exec_env = vm example_env" "procs exec_env = procs example_env"
  "mp exec_env = example_mem_params" "lib exec_env = example_lib"
  "fs_open (fss exec_env) = fs_open (fss example_env)" "fs_close (fss exec_env) = fs_close (fss example_env)"
  "fs_read (fss exec_env) c off n w = (Ok (take n (drop off example_program)), w)"
  "path_stat (paths exec_env) x w = (Ok (example_stat\<lparr>st_size := 64\<rparr>), w)"
  by (simp_all add: exec_env_def example_env_def)

lemma exec_env_set_entrypoint [simp]: "tcb_set_entrypoint (procs example_env) c en sp tp = ok_call"
  by (simp add: example_env_def example_procs_def)

lemma exec_serves: "serves exec_env"
  by (simp add: serves_def)

lemma files_okay: "keeps (has_files p F) m \<Longrightarrow> okay (alive p) m \<Longrightarrow> okay (has_files p F) m"
  by (rule okayI) (auto simp: okay_def alive_def has_files_def)

lemmas exec_okay [okay_intro] = okay_frames[OF exec_serves]

lemma okay_exec_steps [okay_intro]:
  "okay (alive p) (release_memory exec_env p st)" "okay (alive p) (setup_initial_tls exec_env p)"
  "okay (alive p) (start_thread exec_env p en sp tp)"
  unfolding release_memory_def setup_initial_tls_def start_thread_def
  by (auto simp: Let_def intro!: okay_intro)

lemma okay_initial_stack [okay_intro]:
  assumes "length auxv = 6"
  shows "okay (alive p) (setup_initial_stack exec_env p ''/'' [] [] auxv)"
proof -
  obtain r where "build_stack (PGSIZE example_mem_params) (STACK_BASE example_mem_params - PGSIZE example_mem_params)
      [''/''] [] auxv = Ok r"
    using assms
    by (simp add: build_stack_def Let_def stack_words_def INITIAL_STACK_ALIGN_def checked_add_def usize_max_def
        string_bytes_def example_mem_params_def length_concat comp_def case_prod_beta sum_list_triv)
  then show ?thesis
    unfolding setup_initial_stack_def alloc_frame_def by (auto simp: Let_def intro!: okay_intro)
qed

lemma example_elf_file:
  "elf_new example_program = Some \<lparr>elf_data = example_program, header =
     \<lparr>e_type = 2, e_entry = 0, e_phoff = 0, e_phentsize = 0, e_phnum = 0\<rparr>\<rparr>"
proof -
  have z: "bytes_to_nat (replicate n 0) = 0" for n by (induction n) (simp_all add: bytes_to_nat_def)
  show ?thesis
    by (simp add: elf_new_def example_program_def EHDR_SIZE_def decode_ehdr_def field_def z)
      (simp add: bytes_to_nat_def)
qed

lemma example_image_loop: "image_loop exec_env slot 64 [] s = (Ok example_program, s)"
proof -
  have "length example_program = 64" by (simp add: example_program_def)
  then have full: "image_loop exec_env slot 64 example_program s = (Ok example_program, s)"
    by (subst image_loop.simps) (simp add: ret_def)
  from \<open>length example_program = 64\<close> have "example_program \<noteq> []" by auto
  with full \<open>length example_program = 64\<close> show ?thesis
    by (subst image_loop.simps) (simp add: monad_simps ext_simps Let_def)
qed

lemma example_read_image:
  assumes "has_files p F s"
  shows "\<exists>s'. read_exec_image_from_fs exec_env path s = (Ok example_program, s') \<and> has_files p F s'"
  using assms
  by (simp add: read_exec_image_from_fs_def open_slot_def free_slot_def monad_simps ext_simps example_image_loop)

lemma lift_known: "andThen (lift_res (Ok x)) f = f x"
  by (simp add: fun_eq_iff andThen_def lift_res_def)

lemma okay_load [okay_intro]: "okay (alive p) (load_elf_into_process exec_env p example_program bias)"
  unfolding load_elf_into_process_def example_elf_file
  by (auto simp: lift_known ph_num_def intro!: okay_intro)

text \<open>The last step may leave the predicate.\<close>

definition returns :: "('s \<Rightarrow> bool) \<Rightarrow> ('s, unit) prog \<Rightarrow> bool" where
  "returns P m \<longleftrightarrow> (\<forall>s. P s \<longrightarrow> (\<exists>s'. m s = (Ok (), s')))"

lemma returns_andThen: "okay P m \<Longrightarrow> (\<And>x. returns P (f x)) \<Longrightarrow> returns P (andThen m f)"
  unfolding returns_def okay_def andThen_Ok by blast

lemma returns_case_prod: "(\<And>a b. returns P (f a b)) \<Longrightarrow> returns P (case y of (a, b) \<Rightarrow> f a b)"
  by (cases y) simp

lemma known_then: "m s = (Ok x, s1) \<Longrightarrow> P s1 \<Longrightarrow> returns P (f x) \<Longrightarrow> \<exists>s'. andThen m f s = (Ok (), s')"
  by (auto simp: andThen_Ok returns_def)

definition example_exec_files :: files_state where
  "example_exec_files = \<lparr>fds = [(0, new_handle 7 None), (1, new_handle 8 None)], fd_paths = [], fd_cloexec = [(1, True)], next_fd = 2\<rparr>"

lemma exec_close_handle: "\<exists>s'. close_handle exec_env h s = (Ok (), s')"
proof (cases "file_type h")
  case (Normal n)
  then show ?thesis
    by (cases "slot_in_use s (nf_fs_ep_slot n)"; cases "nf_fs_ep_slot n = 0"; cases "nf_async_io n")
      (simp_all add: close_handle_def monad_simps ext_simps)
qed

lemma exec_close_cloexec:
  assumes "has_files p example_exec_files s"
  shows "\<exists>s'. close_cloexec_fds exec_env p s = (Ok (), s')"
proof -
  from assms obtain t where t: "get_process s p = Some t" "task_files t = example_exec_files"
    by (auto simp: has_files_def)
  obtain s1 where "close_handle exec_env (new_handle 8 None)
      (upd_task p (upd_files (\<lambda>f. snd (drop_fd 1 f))) s) = (Ok (), s1)"
    using exec_close_handle by blast
  with t show ?thesis
    by (simp add: close_cloexec_fds_def do_close_def monad_simps task_or_def drop_fd_def u32_try_from_def bt_get_def
        example_exec_files_def u32_max_def)
qed

lemma example_execve:
  assumes "has_files p example_exec_files s"
  shows "\<exists>s'. do_execve exec_env p ''/'' [] [] s = (Ok (), s')"
proof -
  let ?P = "has_files p example_exec_files"
  from example_read_image[OF assms] obtain s1 where
    s1: "read_exec_image_from_fs exec_env ''/'' s = (Ok example_program, s1)" "?P s1" by blast
  have close: "returns ?P (close_cloexec_fds exec_env p)"
    by (simp add: returns_def exec_close_cloexec)
  show ?thesis
    unfolding do_execve_def
    by (rule known_then[where P = "?P", of "read_exec_image_from_fs exec_env ''/''" s, OF s1])
      (auto simp: example_elf_file lift_known elf_file_type_def interpreter_path_def ph_num_def load_interpreter_def Let_def
        intro!: returns_andThen files_okay okay_intro keeps_intro close)
qed

text \<open>
  A program that replaces itself keeps its first descriptor and loses the second one, which is marked.
\<close>

theorem execve_descriptors_witness:
  "\<exists>s' t'. do_execve exec_env 1 ''/'' [] [] (example_ape [upd_files (\<lambda>_. example_exec_files) (example_task 1 0)]) = (Ok (), s') \<and>
     get_process s' 1 = Some t' \<and> bt_get (fds (task_files t')) 0 = Some (new_handle 7 None) \<and>
     bt_get (fds (task_files t')) 1 = None"
proof -
  let ?t = "upd_files (\<lambda>_. example_exec_files) (example_task 1 0)"
  have t: "task_pid ?t = 1" "task_files ?t = example_exec_files"
    by (simp_all add: example_task_def task_struct_new_def upd_files_def)
  then have g: "get_process (example_ape [?t]) 1 = Some ?t" by simp
  with t have "has_files 1 example_exec_files (example_ape [?t])" by (simp add: has_files_def)
  then obtain s' where s': "do_execve exec_env 1 ''/'' [] [] (example_ape [?t]) = (Ok (), s')"
    using example_execve by blast
  have "bt_ok (fd_cloexec (task_files ?t))" by (simp add: t example_exec_files_def bt_ok_Cons)
  note inherit = execve_descriptors[OF s' g this]
  from inherit[of 0] inherit[of 1] s' show ?thesis by (auto simp: t example_exec_files_def bt_get_def)
qed

end
