(* ===== verification/Wait_Laws.thy ===== *)
theory Wait_Laws
  imports Process_Exit Prog_Laws
begin

text \<open>
  The end of a process reaches its parent (\<open>src/src/task/lifecycle.rs\<close>): the event that
  \<open>terminate_process\<close> queues is the one that \<open>wait4\<close> collects.
\<close>

section \<open>A parent that is not waiting\<close>

text \<open>Process \<open>p\<close> exists, has no reply parked in \<open>wait4\<close>, and these are the events of every process.\<close>

definition quiet :: "usize \<Rightarrow> (usize \<Rightarrow> child_state_event list) \<Rightarrow> ('i, 'p, 'w) ape \<Rightarrow> bool" where
  "quiet p ev s \<longleftrightarrow> events_of (ts s) = ev \<and> peek_wait4_reply s p = None \<and> get_process s p \<noteq> None"

lemma events_of_fields [simp]:
  "events_of (st\<lparr>tasks := x\<rparr>) = events_of st" "events_of (st\<lparr>lifecycle := l\<rparr>) = events_of st"
  "events_of (st\<lparr>pending_wait_replies := r\<rparr>) = events_of st" "events_of (st\<lparr>frame_cap_refs := c\<rparr>) = events_of st"
  "events_of (st\<lparr>host_pid_map := h\<rparr>) = events_of st"
  by (simp_all add: events_of_def fun_eq_iff)

lemma quiet_simps [simp]:
  "quiet p ev (upd_task q f s) = quiet p ev s" "quiet p ev (s\<lparr>world := w\<rparr>) = quiet p ev s"
  "quiet p ev (upd_resources g s) = quiet p ev s" "quiet p ev (s\<lparr>resources := l\<rparr>) = quiet p ev s"
  "quiet p ev (s\<lparr>async_runtime := a\<rparr>) = quiet p ev s" "quiet p ev (upd_fs_sub h s) = quiet p ev s"
  by (auto simp: quiet_def get_process_def process_def peek_wait4_reply_def peek_pending_wait_reply_def)

lemma quiet_close [keeps_intro]: "keeps (quiet p ev) (do_close E q fd)"
  unfolding do_close_def close_handle_def
  by (auto intro!: keeps_intro keeps_ext keeps_ext_do keeps_modify
      simp: recycle_fs_async_region_def ledger_record_fd_close_def split: file_type.split)

lemma quiet_tables [keeps_intro]:
  "keeps (quiet p ev) (release_shared_frame_cap slot)" "keeps (quiet p ev) (take_wait4_reply q)"
  "keeps (quiet p ev) (take_pending_sleep_reply q)" "keeps (quiet p ev) (ledger_take_process q)"
  by (auto simp: keeps_def quiet_def release_shared_frame_cap_def release_frame_cap_def take_wait4_reply_def
      take_pending_wait_reply_def take_pending_sleep_reply_def ledger_take_process_def get_process_def process_def
      peek_wait4_reply_def peek_pending_wait_reply_def bt_get_remove Let_def split: prod.splits option.splits if_splits)

lemma quiet_release [keeps_intro]:
  "keeps (quiet p ev) (release_memory E q st)" "keeps (quiet p ev) (release_cnode E q)"
  unfolding release_memory_def release_cnode_def release_process_frame_slot_def unmap_process_pages_def
  by (auto intro!: keeps_intro keeps_ext keeps_ext_do keeps_modify simp: ledger_record_frame_free_def split: prod.split)

lemma quiet_drop: "p \<noteq> q \<Longrightarrow> keeps (quiet p ev) (drop_process E q)"
  unfolding drop_process_def drop_wait4_reply_def drop_pending_sleep_reply_def
    release_process_intermediate_page_tables_def release_pagetable_slot_def
  by (auto intro!: keeps_intro keeps_ext keeps_ext_do keeps_modify
      simp: remove_host_pid_mapping_def remove_host_pid_def ledger_record_pagetable_free_def remove_process_record_def
        remove_process_def quiet_def get_process_def process_def peek_wait4_reply_def peek_pending_wait_reply_def)

section \<open>Telling the parent\<close>

definition exit_event :: "usize \<Rightarrow> usize \<Rightarrow> usize \<Rightarrow> child_state_event" where
  "exit_event c code g =
     \<lparr>ev_child_pid = c, ev_wait_status = encode_wait_status code, ev_process_group_id = g, ev_kind = EvExited\<rparr>"

lemma quiet_mem: "quiet p ev s \<Longrightarrow> mem_only q s s' \<Longrightarrow> quiet p ev s'"
proof -
  assume q: "quiet p ev s" and m: "mem_only q s s'"
  then have ts: "(ts s')\<lparr>tasks := []\<rparr> = (ts s)\<lparr>tasks := []\<rparr>" by (simp add: mem_only_def)
  have "events_of (ts s') = events_of (ts s)" "pending_wait_replies (ts s') = pending_wait_replies (ts s)"
    using arg_cong[OF ts, of events_of] arg_cong[OF ts, of pending_wait_replies] by simp_all
  with q m show "quiet p ev s'"
    by (cases "q = p") (auto simp: quiet_def mem_only_def peek_wait4_reply_def peek_pending_wait_reply_def)
qed

lemma quiet_copy [keeps_intro]:
  "keeps (quiet p ev) (copy_to_user E q a bs)" "keeps (quiet p ev) (write_obj_to_user E q a bs)"
  by (rule keeps_mem_pred[of q, OF user_access_mem(2)] keeps_mem_pred[of q, OF user_access_mem(5)]; blast intro: quiet_mem)+

lemma quiet_signal [keeps_intro]: "keeps (quiet p ev) (queue_process_signal E q sig)"
  unfolding queue_process_signal_def interrupt_pending_sleep_reply_def reply_pending_sleep_def wake_sigsuspend_def
  by (auto intro!: keeps_intro keeps_ext keeps_ext_do keeps_modify)

lemma quiet_wake [keeps_intro]: "keeps (quiet p ev) (try_wake_pending_wait4_reply E p)"
  by (auto simp: keeps_def quiet_def try_wake_pending_wait4_reply_def monad_simps)

lemma quiet_record:
  "leads (quiet p ev) (\<lambda>_. quiet p (ev(p := ev p @ [exit_event c code g])))
     (modify (record_child_exit p c (encode_wait_status code) g))"
  by (auto simp: leads_def modify_def quiet_def record_child_exit_def ts_record_child_exit_def exit_event_def)
    (auto simp: push_child_event_def get_process_def process_def peek_wait4_reply_def peek_pending_wait_reply_def)

lemma quiet_notify:
  "leads (quiet p ev) (\<lambda>_. quiet p (ev(p := ev p @ [exit_event c code g]))) (notify_parent E c p g code)"
  unfolding notify_parent_def Let_def
proof (rule leads_andThen, goal_cases)
  case 1
  show ?case
    by (auto intro!: keeps_modify simp: mark_process_exited_snapshot_def mark_process_exited_def quiet_def get_process_def
        process_def peek_wait4_reply_def peek_pending_wait_reply_def)
next
  case 2
  show ?case by (rule leads_bind[OF quiet_record], rule leads_keeps) (auto intro!: keeps_intro keeps_ext keeps_modify)
qed

lemma quiet_tail:
  assumes run: "andThen (drop_process E c) (\<lambda>_. andThen (whenM True (notify_parent E c p g code)) (\<lambda>_.
       if c = 1 then panic else finish_exit E skip)) s = (r, s')" and "r \<noteq> Panic" and "p \<noteq> c" and "quiet p ev s"
  shows "quiet p (ev(p := ev p @ [exit_event c code g])) s'"
proof -
  from sure_step[OF sure_exit_steps(3) assms(1,2)] obtain x s1 where s1: "drop_process E c s = (Ok x, s1)"
    and r1: "andThen (whenM True (notify_parent E c p g code)) (\<lambda>_. if c = 1 then panic else finish_exit E skip) s1 = (r, s')" .
  from sure_step[OF sure_whenM[OF sure_exit_steps(4)] r1 assms(2)] obtain y s2 where
    s2: "whenM True (notify_parent E c p g code) s1 = (Ok y, s2)"
    and r2: "(if c = 1 then panic else finish_exit E skip) s2 = (r, s')" .
  have "quiet p ev s1" by (rule keepsD[OF quiet_drop[OF assms(3)] assms(4) s1])
  from leadsD[OF quiet_notify this] s2 have q: "quiet p (ev(p := ev p @ [exit_event c code g])) s2" by (simp add: whenM_def)
  have "keeps (quiet p ev') (if c = 1 then panic else finish_exit E skip)" for ev'
    unfolding finish_exit_def by (auto intro!: keeps_intro keeps_ext)
  from keepsD[OF this q r2] show ?thesis .
qed

section \<open>Collecting the child\<close>

lemma position_last: "\<forall>x \<in> set xs. \<not> P x \<Longrightarrow> P y \<Longrightarrow> position P (xs @ [y]) = Some (length xs)"
  by (induction xs) auto

lemma wait4_collects:
  assumes "get_process s p = Some tp" and ev: "events_of (ts s) = ev(p := ev p @ [e])"
    and "event_matches target options (process_group_id tp) e"
    and "\<forall>x \<in> set (ev p). \<not> event_matches target options (process_group_id tp) x"
  shows "\<exists>s2. do_wait4 E p target wstatus options rusage s =
      andThen (whenM (wstatus \<noteq> 0) (copy_to_user E p wstatus (i32_to_bytes (ev_wait_status e)))) (\<lambda>_.
      andThen (modify (clear_process_lifecycle_snapshot (ev_child_pid e))) (\<lambda>_. ret (i64_of_nat (ev_child_pid e)))) s2 \<and>
    events_of (ts s2) = ev \<and> (\<forall>q. q \<noteq> p \<longrightarrow> get_process s2 q = get_process s q)"
proof -
  let ?s = "upd_task p (upd_signal clear_wait4_block) s" and ?m = "event_matches target options (process_group_id tp)"
  let ?pop = "pop_child_event_matching p target options (process_group_id tp) (ts ?s)"
  have evs: "events_of (ts ?s) p = ev p @ [e]" "events_of (ts ?s) = ev(p := ev p @ [e])" using ev by simp_all
  have pos: "position ?m (events_of (ts ?s) p) = Some (length (ev p))" unfolding evs(1) using assms(3,4) by (simp add: position_last)
  from pop_child_event_cases[of p target options "process_group_id tp" "ts ?s"]
  have pop: "?pop = (Some (ev_child_pid e, ev_wait_status e), snd ?pop)" unfolding pos unfolding evs(1) by simp
  have "events_of (snd ?pop) = ev" using events_of_pop[OF pos] unfolding evs by (simp add: remove_at_def)
  moreover obtain xs where "snd ?pop = (ts ?s)\<lparr>child_events := xs\<rparr>" using pop_child_event_only_events by blast
  then have "get_process (?s\<lparr>ts := snd ?pop\<rparr>) q = get_process s q" if "q \<noteq> p" for q
    using that by (simp add: get_process_def process_def)
  moreover have "do_wait4 E p target wstatus options rusage s =
      andThen (whenM (wstatus \<noteq> 0) (copy_to_user E p wstatus (i32_to_bytes (ev_wait_status e)))) (\<lambda>_.
      andThen (modify (clear_process_lifecycle_snapshot (ev_child_pid e))) (\<lambda>_. ret (i64_of_nat (ev_child_pid e)))) (?s\<lparr>ts := snd ?pop\<rparr>)"
  proof -
    have "pop_waitable_child_event p target options (process_group_id tp) ?s =
        (Ok (Some (ev_child_pid e, ev_wait_status e)), ?s\<lparr>ts := snd ?pop\<rparr>)"
      unfolding pop_waitable_child_event_def by (subst pop) simp
    then show ?thesis
      unfolding do_wait4_def using assms(1)
      by (simp add: andThen_def[of "task_or NotFound p"] andThen_def[of "modify (upd_task p (upd_signal clear_wait4_block))"]
          andThen_def[of "pop_waitable_child_event p target options g" for g] task_or_def modify_def Let_def
          del: upd_task_others ts_upd_task)
  qed
  ultimately show ?thesis by (intro exI[of _ "?s\<lparr>ts := snd ?pop\<rparr>"]) simp
qed

text \<open>
  C10: the end of a process is reported to its parent exactly once, with its status. When a
  process ends whose parent is not waiting and has no older event of it, the next \<open>wait4\<close> of
  the parent for this child stores the exit code in the upper byte of the status word,
  answers the identifier of the child and takes the event off the queue, where the events of
  other children stay; whatever the services that are called on the way answer.
\<close>

theorem exit_reaches_wait4:
  assumes run: "terminate_process E c code s = (r, s1)" and "r \<noteq> Panic"
    and t: "get_process s c = Some t" "parent_pid t = p" and p: "get_process s p \<noteq> None" "p \<noteq> 0" "p \<noteq> c"
    and free: "peek_wait4_reply s p = None" "\<forall>e \<in> set (events_of (ts s) p). ev_child_pid e \<noteq> c" and "0 < c"
  shows "\<exists>s2. do_wait4 E p (int c) wstatus options rusage s1 =
      andThen (whenM (wstatus \<noteq> 0) (copy_to_user E p wstatus (i32_to_bytes (int (code mod 256) * 256)))) (\<lambda>_.
      andThen (modify (clear_process_lifecycle_snapshot c)) (\<lambda>_. ret (i64_of_nat c))) s2 \<and>
    events_of (ts s2) = events_of (ts s) \<and> get_process s2 c = None"
proof -
  let ?ev = "events_of (ts s)" and ?e = "exit_event c code (process_group_id t)"
  have "quiet p ?ev s" using free(1) p(1) by (simp add: quiet_def)
  then have "quiet p ?ev (upd_task c (set_lifecycle Exiting) s)" by simp
  from terminate_to_tail[where P = "quiet p ?ev", OF run t(1) assms(2) this quiet_close quiet_release] obtain s0 where
    q: "quiet p ?ev s0" and tail: "andThen (drop_process E c) (\<lambda>_. andThen (whenM True (notify_parent E c p (process_group_id t) code)) (\<lambda>_.
      if c = 1 then panic else finish_exit E (active_caller_pid (ipc s0) = Some c))) s0 = (r, s1)"
    using t(2) p(2) by auto
  from quiet_tail[OF tail assms(2) p(3) q] have q1: "quiet p (?ev(p := ?ev p @ [?e])) s1" .
  from exit_tail[OF tail assms(2)] have gone: "get_process s1 c = None" by (simp add: absent_def)
  from q1 obtain tp where tp: "get_process s1 p = Some tp" and ev: "events_of (ts s1) = ?ev(p := ?ev p @ [?e])"
    by (auto simp: quiet_def)
  have "event_matches (int c) options (process_group_id tp) ?e"
    using \<open>0 < c\<close> by (simp add: event_matches_def exit_event_def event_kind_enabled_def matches_wait_target_def)
  moreover have "\<forall>x \<in> set (?ev p). \<not> event_matches (int c) options (process_group_id tp) x"
    using free(2) \<open>0 < c\<close> by (simp add: event_matches_def matches_wait_target_def)
  ultimately obtain s2 where s2: "do_wait4 E p (int c) wstatus options rusage s1 =
      andThen (whenM (wstatus \<noteq> 0) (copy_to_user E p wstatus (i32_to_bytes (ev_wait_status ?e)))) (\<lambda>_.
      andThen (modify (clear_process_lifecycle_snapshot (ev_child_pid ?e))) (\<lambda>_. ret (i64_of_nat (ev_child_pid ?e)))) s2"
    "events_of (ts s2) = ?ev" "\<forall>q. q \<noteq> p \<longrightarrow> get_process s2 q = get_process s1 q"
    using wait4_collects[OF tp ev] by blast
  have "ev_wait_status ?e = int (code mod 256) * 256" "ev_child_pid ?e = c"
    by (simp_all add: exit_event_def encode_wait_status_def)
  with s2 gone p(3) show ?thesis by (intro exI[of _ s2]) simp
qed

section \<open>An instance\<close>

lemma asleep_keeps:
  "keeps (\<lambda>s. async_runtime s = None) (release_cnode E q)" "keeps (\<lambda>s. async_runtime s = None) (drop_process E q)"
proof -
  have t: "keeps (\<lambda>s. async_runtime s = None) (take_wait4_reply q)" "keeps (\<lambda>s. async_runtime s = None) (take_pending_sleep_reply q)"
    "keeps (\<lambda>s. async_runtime s = None) (ledger_take_process q)" for q
    by (auto simp: keeps_def take_wait4_reply_def take_pending_sleep_reply_def ledger_take_process_def Let_def split: prod.splits)
  show "keeps (\<lambda>s. async_runtime s = None) (release_cnode E q)" "keeps (\<lambda>s. async_runtime s = None) (drop_process E q)"
    unfolding release_cnode_def drop_process_def drop_wait4_reply_def drop_pending_sleep_reply_def
      release_process_intermediate_page_tables_def release_pagetable_slot_def
    by (auto intro!: keeps_intro keeps_ext keeps_ext_do keeps_modify t
        simp: remove_host_pid_mapping_def ledger_record_pagetable_free_def remove_process_record_def)
qed

text \<open>The report to a parent that neither waits nor sleeps.\<close>

definition resting :: "usize \<Rightarrow> ('i, 'p, 'w) ape \<Rightarrow> bool" where
  "resting p s \<longleftrightarrow> peek_wait4_reply s p = None \<and> async_runtime s = None"

lemma okay_resting [okay_intro]:
  "okay (resting p) (ext ok_call)" "okay (resting p) (modify (upd_task q f))" "okay (resting p) (gets h)"
  "okay (resting p) (modify (mark_process_exited_snapshot c q g st))" "okay (resting p) (modify (record_child_exit q c st g))"
  "okay (resting p) (try_wake_pending_wait4_reply E p)" "okay (resting p) (interrupt_pending_sleep_reply E q)"
  by (auto simp: okay_def resting_def ext_simps(1) modify_def gets_def mark_process_exited_snapshot_def mark_process_exited_def
      record_child_exit_def ts_record_child_exit_def push_child_event_def peek_wait4_reply_def peek_pending_wait_reply_def
      try_wake_pending_wait4_reply_def interrupt_pending_sleep_reply_def take_pending_sleep_reply_def monad_simps)

lemma okay_notify: "okay (resting p) (notify_parent example_env c p g code)"
  unfolding notify_parent_def Let_def queue_process_signal_def wake_sigsuspend_def
  by (auto intro!: okay_intro split: option.split prod.split)

lemma example_child_exit:
  "\<exists>s'. terminate_process example_env 2 5 (example_ape [example_task 1 0, example_task 2 1]) = (Ok (), s')"
proof -
  let ?t = "example_task 2 1" and ?s = "upd_task 2 (set_lifecycle Exiting) (example_ape [example_task 1 0, example_task 2 1])"
  have pids: "task_pid (example_task 1 0) = 1" "task_pid ?t = 2" by (simp_all add: example_task_def task_struct_new_def)
  have base: "async_runtime ?s = None" "active_caller_pid (ipc ?s) = None" "quiet 1 (\<lambda>_. []) ?s"
    using pids by (simp_all add: quiet_def) (auto simp: example_ape_def ape_new_def quiet_def events_of_def fun_eq_iff bt_get_def
      peek_wait4_reply_def peek_pending_wait_reply_def ts_register_process_def ape_task_state_new_def)
  obtain s1 where s1: "release_cnode example_env 2 ?s = (Ok (), s1)"
    using sure_calm_returns[OF sure_exit_steps(2) calm_example(1)] by auto
  obtain s2 where s2: "drop_process example_env 2 s1 = (Ok (), s2)"
    using sure_calm_returns[OF sure_exit_steps(3) calm_example(2)] by auto
  have "keeps (\<lambda>x. ipc x = ipc ?s) (release_cnode example_env 2)" by (rule keeps_ipc_release)
  from keepsD[OF this refl s1] base(2) have own: "active_caller_pid (ipc s1) = None" by simp
  have "quiet 1 (\<lambda>_. []) s2"
    using keepsD[OF quiet_drop keepsD[OF quiet_release(2) base(3) s1] s2] by simp
  then have "resting 1 s2"
    using keepsD[OF asleep_keeps(2) keepsD[OF asleep_keeps(1) base(1) s1] s2] by (simp add: resting_def quiet_def)
  from okayD[OF okay_notify this, of 2 "process_group_id ?t" 5] obtain s3 where
    s3: "notify_parent example_env 2 1 (process_group_id ?t) 5 s2 = (Ok (), s3)" by auto
  have t: "parent_pid ?t = 1" "bt_keys (fds (task_files ?t)) = []"
    "mapped_pages_of example_mem_params (task_mem ?t) = []" "frame_pages_of example_mem_params (task_mem ?t) = []"
    by (simp_all add: example_task_def task_struct_new_def files_struct_new_def mm_struct_new_def task_mem_def
        mapped_pages_of_def frame_pages_of_def bt_keys_def bt_values_def)
  show ?thesis
    using s1 s2 s3 own pids by (simp add: terminate_process_def t release_memory_def finish_exit_def monad_simps del: One_nat_def)
qed

theorem exit_reaches_wait4_witness:
  "\<exists>s1 s2. terminate_process example_env 2 5 (example_ape [example_task 1 0, example_task 2 1]) = (Ok (), s1) \<and>
     do_wait4 example_env 1 2 0 0 0 s1 = (Ok 2, s2)"
proof -
  let ?s = "example_ape [example_task 1 0, example_task 2 1]"
  obtain s1 where run: "terminate_process example_env 2 5 ?s = (Ok (), s1)" using example_child_exit by blast
  have pids: "task_pid (example_task 1 0) = 1" "task_pid (example_task 2 1) = 2" "parent_pid (example_task 2 1) = 1"
    by (simp_all add: example_task_def task_struct_new_def)
  have g: "get_process ?s 2 = Some (example_task 2 1)" "get_process ?s 1 \<noteq> None" using pids by simp_all
  have "peek_wait4_reply ?s 1 = None" "\<forall>e \<in> set (events_of (ts ?s) 1). ev_child_pid e \<noteq> 2"
    by (simp_all add: example_ape_def ape_new_def events_of_def bt_get_def peek_wait4_reply_def peek_pending_wait_reply_def
        ts_register_process_def ape_task_state_new_def)
  from exit_reaches_wait4[OF run _ g(1) pids(3) g(2) _ _ this, of 0 0 0] run show ?thesis
    by (auto simp: monad_simps i64_of_nat_def)
qed

end
