(* ===== verification/Map_Laws.thy ===== *)
theory Map_Laws
  imports Mm_State
begin

text \<open>
  Laws of the map tables of a process (\<open>src/src/ape/mm.rs\<close>): a table is the function from
  addresses to the map that covers them, and insertion and removal are updates of it.
\<close>

section \<open>A table as a function of addresses\<close>

lemma in_values_iff:
  assumes "maps_ok ms"
  shows "m \<in> set (bt_values ms) \<longleftrightarrow> lookup_in ms (map_vaddr m) = Some m"
proof -
  have "0 < map_size m" if "m \<in> set (bt_values ms)"
    using assms that by (auto simp: maps_ok_def bt_values_def)
  then show ?thesis by (auto simp: lookup_in_exact[OF assms] covers_def)
qed

lemma bt_get_iff:
  assumes "maps_ok ms"
  shows "bt_get ms k = Some m \<longleftrightarrow> lookup_in ms k = Some m \<and> map_vaddr m = k"
proof -
  have "bt_get ms k = Some m \<longleftrightarrow> m \<in> set (bt_values ms) \<and> map_vaddr m = k"
    using assms maps_ok_get(1)[OF assms]
    by (auto simp: bt_values_def maps_ok_def bt_get_in_set) (auto simp: bt_get_in_set intro: rev_image_eqI)
  then show ?thesis using in_values_iff[OF assms] by auto
qed

lemma lookup_bounds:
  assumes "maps_ok ms" and "lookup_in ms a = Some m"
  shows "map_vaddr m \<le> a" "a < map_vaddr m + map_size m" "0 < map_size m"
    "map_vaddr m + map_size m \<le> usize_max" "lookup_in ms (map_vaddr m) = Some m"
proof -
  from assms have m: "m \<in> set (bt_values ms)" "covers m a" by (simp_all add: lookup_in_exact)
  then show "map_vaddr m \<le> a" "a < map_vaddr m + map_size m" "lookup_in ms (map_vaddr m) = Some m"
    using in_values_iff[OF assms(1)] by (simp_all add: covers_def)
  show "0 < map_size m" "map_vaddr m + map_size m \<le> usize_max"
    using m(1) assms(1) by (auto simp: maps_ok_def bt_values_def)
qed

lemma lookup_same:
  assumes "maps_ok ms" and "lookup_in ms a = Some m" and "map_vaddr m \<le> b" and "b < map_vaddr m + map_size m"
  shows "lookup_in ms b = Some m"
  using assms by (simp add: lookup_in_exact covers_def)

lemma apart_iff:
  assumes "maps_ok ms" and "0 < map_size m"
  shows "apart ms m \<longleftrightarrow> (\<forall>a. covers m a \<longrightarrow> lookup_in ms a = None)"
proof
  assume ap: "apart ms m"
  show "\<forall>a. covers m a \<longrightarrow> lookup_in ms a = None"
  proof (intro allI impI, rule ccontr)
    fix a assume c: "covers m a" and "lookup_in ms a \<noteq> None"
    then obtain n where n: "n \<in> set (bt_values ms)" "covers n a" using assms(1) by (auto simp: lookup_in_exact)
    then obtain e where "e \<in> set ms" "snd e = n" by (auto simp: bt_values_def)
    with ap n c assms(1) show False by (fastforce simp: apart_def covers_def maps_ok_def)
  qed
next
  assume free: "\<forall>a. covers m a \<longrightarrow> lookup_in ms a = None"
  show "apart ms m"
    unfolding apart_def
  proof (rule ballI, rule ccontr)
    fix e assume e: "e \<in> set ms"
      and "\<not> (fst e + map_size (snd e) \<le> map_vaddr m \<or> map_vaddr m + map_size m \<le> fst e)"
    with assms have "covers (snd e) (max (fst e) (map_vaddr m))" "covers m (max (fst e) (map_vaddr m))"
      by (auto simp: covers_def maps_ok_def)
    moreover from e have "snd e \<in> set (bt_values ms)" by (simp add: bt_values_def)
    ultimately show False using free assms(1) by (metis lookup_in_exact option.distinct(1))
  qed
qed

text \<open>The two tables of an address space never cover the same address.\<close>

lemma mm_ok_iff:
  "mm_ok st \<longleftrightarrow> maps_ok (memory_maps st) \<and> maps_ok (lazy_memory_maps st) \<and>
     (\<forall>a. lookup_memory_map st a = None \<or> lookup_lazy_memory_map st a = None)"
proof -
  have "(\<forall>e \<in> set ms. \<forall>d \<in> set ls. fst e + map_size (snd e) \<le> fst d \<or> fst d + map_size (snd d) \<le> fst e) \<longleftrightarrow>
      (\<forall>a. lookup_in ms a = None \<or> lookup_in ls a = None)" if ok: "maps_ok ms" "maps_ok ls" for ms ls
  proof -
    have "(\<forall>e \<in> set ms. \<forall>d \<in> set ls. fst e + map_size (snd e) \<le> fst d \<or> fst d + map_size (snd d) \<le> fst e) \<longleftrightarrow>
        (\<forall>d \<in> set (bt_values ls). apart ms d)"
      using ok(2) by (fastforce simp: apart_def bt_values_def maps_ok_def)
    also have "\<dots> \<longleftrightarrow> (\<forall>d \<in> set (bt_values ls). \<forall>a. covers d a \<longrightarrow> lookup_in ms a = None)"
      using apart_iff[OF ok(1)] ok(2) by (fastforce simp: bt_values_def maps_ok_def)
    also have "\<dots> \<longleftrightarrow> (\<forall>a. lookup_in ms a = None \<or> lookup_in ls a = None)"
      using lookup_in_exact[OF ok(2)] by (metis not_None_eq)
    finally show ?thesis .
  qed
  note tables = this[of "memory_maps st" "lazy_memory_maps st"]
  show ?thesis
    unfolding mm_ok_def lookup_memory_map_def lookup_lazy_memory_map_def by (simp cong: conj_cong add: tables)
qed

section \<open>Insertion and removal\<close>

lemma lookup_insert:
  assumes "maps_ok ms" and "apart ms m" and "0 < map_size m" and "map_vaddr m + map_size m \<le> usize_max"
  shows "lookup_in (bt_insert (map_vaddr m) m ms) a = (if covers m a then Some m else lookup_in ms a)"
proof -
  have "covers m (map_vaddr m)" using assms(3) by (simp add: covers_def)
  then have "bt_get ms (map_vaddr m) = None"
    using assms apart_iff[OF assms(1,3)] bt_get_iff[OF assms(1)] by (metis not_None_eq)
  then have vals: "set (bt_values (bt_insert (map_vaddr m) m ms)) = insert m (set (bt_values ms))"
    using assms(1) by (simp add: bt_values_ran maps_ok_def)
  have iff: "lookup_in (bt_insert (map_vaddr m) m ms) a = Some n \<longleftrightarrow> (n = m \<or> n \<in> set (bt_values ms)) \<and> covers n a" for n
    using lookup_in_exact[OF maps_ok_insert[OF assms]] vals by simp
  show ?thesis
  proof (cases "covers m a")
    case False
    then have "lookup_in (bt_insert (map_vaddr m) m ms) a = Some n \<longleftrightarrow> lookup_in ms a = Some n" for n
      using iff lookup_in_exact[OF assms(1)] by auto
    with False show ?thesis by (metis not_None_eq)
  qed (use iff in simp)
qed

lemma maps_ok_remove: "maps_ok ms \<Longrightarrow> maps_ok (bt_remove k ms)"
  by (auto simp: maps_ok_def bt_remove_def sorted_wrt_filter) (metis bt_ok_remove bt_remove_def)

lemma lookup_remove:
  assumes "maps_ok ms"
  shows "lookup_in (bt_remove k ms) a =
    (case lookup_in ms a of Some m \<Rightarrow> if map_vaddr m = k then None else Some m | None \<Rightarrow> None)"
proof -
  have vals: "m \<in> set (bt_values (bt_remove k ms)) \<longleftrightarrow> m \<in> set (bt_values ms) \<and> map_vaddr m \<noteq> k" for m
    using assms by (force simp: bt_values_def bt_remove_def maps_ok_def)
  have "lookup_in (bt_remove k ms) a = Some m \<longleftrightarrow> lookup_in ms a = Some m \<and> map_vaddr m \<noteq> k" for m
    using lookup_in_exact[OF assms] lookup_in_exact[OF maps_ok_remove[OF assms]] vals by auto
  note iff = this
  show ?thesis
  proof (cases "lookup_in (bt_remove k ms) a")
    case None
    then have "lookup_in ms a = Some m \<Longrightarrow> map_vaddr m = k" for m using iff[of m] by simp
    with None show ?thesis by (simp split: option.split)
  next
    case (Some m)
    with iff[of m] show ?thesis by simp
  qed
qed

lemma maps_ok_removes: "maps_ok ms \<Longrightarrow> maps_ok (fold bt_remove ks ms)"
  by (induction ks arbitrary: ms) (simp_all add: maps_ok_remove)

lemma lookup_removes:
  assumes "maps_ok ms"
  shows "lookup_in (fold bt_remove ks ms) a =
    (case lookup_in ms a of Some m \<Rightarrow> if map_vaddr m \<in> set ks then None else Some m | None \<Rightarrow> None)"
  using assms
proof (induction ks arbitrary: ms)
  case (Cons k ks)
  from Cons.IH[OF maps_ok_remove[OF Cons.prems]] lookup_remove[OF Cons.prems] show ?case
    by (simp split: option.split)
qed (simp split: option.split)

text \<open>Many insertions at once: the maps of a list that are apart from the table and from each other.\<close>

definition insert_maps :: "memory_map list \<Rightarrow> (usize, memory_map) btree \<Rightarrow> (usize, memory_map) btree" where
  "insert_maps new ms = fold (\<lambda>m. bt_insert (map_vaddr m) m) new ms"

definition in_row :: "memory_map list \<Rightarrow> bool" where
  "in_row new \<longleftrightarrow> sorted_wrt (\<lambda>x y. map_vaddr x + map_size x \<le> map_vaddr y) new"

lemma insert_maps_laws:
  assumes "maps_ok ms" and "in_row new"
    and "\<And>m. m \<in> set new \<Longrightarrow> apart ms m \<and> 0 < map_size m \<and> map_vaddr m + map_size m \<le> usize_max"
  shows "maps_ok (insert_maps new ms)"
    and "lookup_in (insert_maps new ms) a =
      (case find (\<lambda>m. covers m a) new of Some m \<Rightarrow> Some m | None \<Rightarrow> lookup_in ms a)"
proof -
  have "maps_ok (insert_maps new ms) \<and> lookup_in (insert_maps new ms) a =
      (case find (\<lambda>m. covers m a) new of Some m \<Rightarrow> Some m | None \<Rightarrow> lookup_in ms a)"
    using assms
  proof (induction new arbitrary: ms)
    case (Cons m new)
    let ?ms = "bt_insert (map_vaddr m) m ms"
    have ok: "maps_ok ?ms" using Cons.prems by (intro maps_ok_insert) simp_all
    have "apart ?ms x" if "x \<in> set new" for x
    proof -
      have "map_vaddr m + map_size m \<le> map_vaddr x" using Cons.prems(2) that by (simp add: in_row_def)
      with Cons.prems(3)[of x] that show ?thesis
        using set_bt_insert_subset[of "map_vaddr m" m ms] by (fastforce simp: apart_def)
    qed
    with Cons.prems have IH: "maps_ok (insert_maps new ?ms) \<and> lookup_in (insert_maps new ?ms) a =
        (case find (\<lambda>m. covers m a) new of Some m \<Rightarrow> Some m | None \<Rightarrow> lookup_in ?ms a)"
      by (intro Cons.IH ok) (simp_all add: in_row_def)
    have "find (\<lambda>m. covers m a) new = None" if "covers m a"
      using that Cons.prems(2) by (force simp: find_None_iff in_row_def covers_def)
    moreover have "lookup_in ?ms a = (if covers m a then Some m else lookup_in ms a)"
      using Cons.prems by (intro lookup_insert) simp_all
    ultimately show ?case using IH by (auto simp: insert_maps_def split: option.splits)
  qed (simp add: insert_maps_def)
  then show "maps_ok (insert_maps new ms)" "lookup_in (insert_maps new ms) a =
      (case find (\<lambda>m. covers m a) new of Some m \<Rightarrow> Some m | None \<Rightarrow> lookup_in ms a)" by blast+
qed

section \<open>Changing a map in place\<close>

lemma bt_alter_map: "bt_ok m \<Longrightarrow> bt_alter k f m = map (\<lambda>e. if fst e = k then (k, f (snd e)) else e) m"
proof -
  have ins: "map_of m k = Some v \<Longrightarrow> bt_ok m \<Longrightarrow> bt_insert k x m = map (\<lambda>e. if fst e = k then (k, x) else e) m" for v x
  proof (induction m)
    case (Cons e m)
    obtain a b where e: "e = (a, b)" by fastforce
    show ?case
    proof (cases "a = k")
      case True
      with Cons.prems e have "\<forall>d \<in> set m. fst d \<noteq> k" by (auto simp: bt_ok_Cons)
      then have "map (\<lambda>e. if fst e = k then (k, x) else e) m = m" by (simp add: map_idI)
      with True e show ?thesis by simp
    next
      case False
      with Cons.prems e have "k \<in> fst ` set m" "a < k" "bt_ok m" by (auto simp: bt_ok_Cons dest!: map_of_SomeD) force
      with Cons e False show ?thesis by simp
    qed
  qed simp
  assume ok: "bt_ok m"
  show ?thesis
  proof (cases "bt_get m k")
    case None
    then have "\<forall>e \<in> set m. fst e \<noteq> k" by (auto simp: bt_get_def map_of_eq_None_iff)
    with None show ?thesis by (simp add: bt_alter_def map_idI)
  next
    case (Some v)
    have "f (snd e) = f v" if "e \<in> set m" "fst e = k" for e
      using Some that bt_get_in_set[OF ok, of k "snd e"] by (metis option.inject prod.collapse)
    with Some ins[of v "f v"] ok show ?thesis by (simp add: bt_alter_def bt_get_def)
  qed
qed

text \<open>A change that leaves start and size alone leaves the coverage alone.\<close>

lemma maps_ok_map:
  assumes "maps_ok ms" and "\<And>m. map_vaddr (h m) = map_vaddr m \<and> map_size (h m) = map_size m"
  shows "maps_ok (map (\<lambda>e. (fst e, h (snd e))) ms)"
  using assms by (auto simp: maps_ok_def bt_ok_def sorted_wrt_map comp_def)

lemma alter_laws:
  assumes ok: "maps_ok ms" and f: "\<And>m. map_vaddr (f m) = map_vaddr m \<and> map_size (f m) = map_size m"
  shows "maps_ok (bt_alter k f ms)"
    and "lookup_in (bt_alter k f ms) a = map_option (\<lambda>m. if map_vaddr m = k then f m else m) (lookup_in ms a)"
proof -
  let ?h = "\<lambda>m. if map_vaddr m = k then f m else m"
  have keys: "map_vaddr (snd e) = fst e" if "e \<in> set ms" for e using ok that by (simp add: maps_ok_def)
  have "bt_alter k f ms = map (\<lambda>e. if fst e = k then (k, f (snd e)) else e) ms"
    using ok by (intro bt_alter_map) (simp add: maps_ok_def)
  also have "\<dots> = map (\<lambda>e. (fst e, ?h (snd e))) ms" using keys by (intro map_cong) auto
  finally have alt: "bt_alter k f ms = map (\<lambda>e. (fst e, ?h (snd e))) ms" .
  show ok': "maps_ok (bt_alter k f ms)"
    unfolding alt using f by (intro maps_ok_map[OF ok]) simp
  have vals: "bt_values (bt_alter k f ms) = map ?h (bt_values ms)" by (simp add: alt bt_values_def)
  have cov: "covers (?h m) a = covers m a" for m using f by (simp add: covers_def)
  show "lookup_in (bt_alter k f ms) a = map_option ?h (lookup_in ms a)"
  proof (cases "lookup_in ms a")
    case None
    have "lookup_in (bt_alter k f ms) a \<noteq> Some n" for n
    proof
      assume "lookup_in (bt_alter k f ms) a = Some n"
      then obtain m where "m \<in> set (bt_values ms)" "n = ?h m" "covers n a"
        unfolding lookup_in_exact[OF ok'] vals by auto
      then have "lookup_in ms a = Some m" using cov[of m] by (simp add: lookup_in_exact[OF ok])
      with None show False by simp
    qed
    with None show ?thesis by auto
  next
    case (Some m)
    then have "lookup_in (bt_alter k f ms) a = Some (?h m)"
      using lookup_in_exact[OF ok] lookup_in_exact[OF ok'] cov by (simp add: vals)
    with Some show ?thesis by simp
  qed
qed

text \<open>A table rebuilt from its values.\<close>

lemma rebuild_laws:
  assumes ok: "maps_ok ms" and h: "\<And>m. map_vaddr (h m) = map_vaddr m \<and> map_size (h m) = map_size m"
  shows "maps_ok (insert_maps (map h (bt_values ms)) [])"
    and "lookup_in (insert_maps (map h (bt_values ms)) []) a = map_option h (lookup_in ms a)"
proof -
  have nil: "maps_ok []" by (simp add: maps_ok_def)
  have row: "in_row (map h (bt_values ms))"
  proof -
    have "sorted_wrt (\<lambda>a b. map_vaddr (snd a) + map_size (snd a) \<le> map_vaddr (snd b)) ms"
    proof (rule sorted_wrt_mono_rel)
      show "sorted_wrt (\<lambda>a b. fst a + map_size (snd a) \<le> fst b) ms" using ok by (simp add: maps_ok_def)
      fix x y assume "x \<in> set ms" "y \<in> set ms" and le: "fst x + map_size (snd x) \<le> fst y"
      then have "map_vaddr (snd x) = fst x" "map_vaddr (snd y) = fst y" using ok by (auto simp: maps_ok_def)
      with le show "map_vaddr (snd x) + map_size (snd x) \<le> map_vaddr (snd y)" by simp
    qed
    then show ?thesis by (simp add: in_row_def bt_values_def sorted_wrt_map h)
  qed
  have ap: "apart [] m \<and> 0 < map_size m \<and> map_vaddr m + map_size m \<le> usize_max" if "m \<in> set (map h (bt_values ms))" for m
    using that ok h by (auto simp: apart_def maps_ok_def bt_values_def)
  show "maps_ok (insert_maps (map h (bt_values ms)) [])" by (rule insert_maps_laws(1)[OF nil row]) (rule ap)
  have look: "lookup_in (insert_maps (map h (bt_values ms)) []) a =
      (case find (\<lambda>m. covers m a) (map h (bt_values ms)) of Some m \<Rightarrow> Some m | None \<Rightarrow> lookup_in [] a)"
    by (rule insert_maps_laws(2)[OF nil row]) (rule ap)
  have cov: "covers (h m) a = covers m a" for m using h by (simp add: covers_def)
  show "lookup_in (insert_maps (map h (bt_values ms)) []) a = map_option h (lookup_in ms a)"
  proof (cases "lookup_in ms a")
    case None
    then have "\<not> covers m a" if "m \<in> set (bt_values ms)" for m
      using lookup_in_exact[OF ok, of a m] that by simp
    then have "find (\<lambda>m. covers m a) (map h (bt_values ms)) = None" by (auto simp: find_None_iff cov)
    with None look show ?thesis by (simp add: lookup_in_def bt_last_le_def)
  next
    case (Some m)
    then have m: "m \<in> set (bt_values ms)" "covers m a" by (simp_all add: lookup_in_exact[OF ok])
    then obtain n where n: "find (\<lambda>m. covers m a) (map h (bt_values ms)) = Some n"
      using cov by (cases "find (\<lambda>m. covers m a) (map h (bt_values ms))") (auto simp: find_None_iff)
    then obtain i where "i < length (bt_values ms)" "covers (bt_values ms ! i) a" "n = h (bt_values ms ! i)"
      by (auto simp: find_Some_iff cov)
    moreover from this have "bt_values ms ! i = m" using lookup_in_exact[OF ok, of a "bt_values ms ! i"] Some by simp
    ultimately show ?thesis using look n Some by simp
  qed
qed

section \<open>Entering maps into an address space\<close>

lemma add_map_tables:
  "add_memory_map m (st\<lparr>intermediate_page_tables := X\<rparr>) = (add_memory_map m st)\<lparr>intermediate_page_tables := X\<rparr>"
  by (simp add: add_memory_map_def)

lemma fold_add_tables:
  "fold add_memory_map new (st\<lparr>intermediate_page_tables := X\<rparr>) = (fold add_memory_map new st)\<lparr>intermediate_page_tables := X\<rparr>"
  by (induction new arbitrary: st) (simp_all add: add_map_tables)

lemma add_lazy_tables:
  "add_lazy_memory_map m (st\<lparr>intermediate_page_tables := X\<rparr>) = (add_lazy_memory_map m st)\<lparr>intermediate_page_tables := X\<rparr>"
  by (simp add: add_lazy_memory_map_def)

lemma fold_lazy_tables:
  "fold add_lazy_memory_map new (st\<lparr>intermediate_page_tables := X\<rparr>) = (fold add_lazy_memory_map new st)\<lparr>intermediate_page_tables := X\<rparr>"
  by (induction new arbitrary: st) (simp_all add: add_lazy_tables)

lemma fold_add_maps:
  "memory_maps (fold add_memory_map new st) = insert_maps new (memory_maps st)"
  "lazy_memory_maps (fold add_memory_map new st) = lazy_memory_maps st"
  "mmap_base (fold add_memory_map new st) = mmap_base st" "mmap_next (fold add_memory_map new st) = mmap_next st"
  "mmap_limit (fold add_memory_map new st) = mmap_limit st"
  by (induction new arbitrary: st) (simp_all add: insert_maps_def add_memory_map_def)

lemma fold_lazy_maps:
  "lazy_memory_maps (fold add_lazy_memory_map new st) = insert_maps new (lazy_memory_maps st)"
  "memory_maps (fold add_lazy_memory_map new st) = memory_maps st"
  "mmap_base (fold add_lazy_memory_map new st) = mmap_base st" "mmap_next (fold add_lazy_memory_map new st) = mmap_next st"
  "mmap_limit (fold add_lazy_memory_map new st) = mmap_limit st"
  by (induction new arbitrary: st) (simp_all add: insert_maps_def add_lazy_memory_map_def)

end
