(* ===== verification/Mm_Laws.thy ===== *)
theory Mm_Laws
  imports Mm_Syscalls Map_Laws Example_Runs
begin

text \<open>
  What the memory system calls do to the address space of their caller
  (\<open>src/src/mm/mod.rs\<close>): the maps of every address before and after a call.
\<close>

section \<open>The address space of a process\<close>

text \<open>
  The memory state of process \<open>p\<close>, up to the record of its page tables, beside the other
  processes.
\<close>

definition has_mem ::
  "usize \<Rightarrow> (usize \<Rightarrow> 'i task_struct option) \<Rightarrow> mm_state \<Rightarrow> ('i, 'p, 'w) ape \<Rightarrow> bool" where
  "has_mem p g st s \<longleftrightarrow> (\<forall>q. q \<noteq> p \<longrightarrow> get_process s q = g q) \<and>
     (\<exists>t X. get_process s p = Some t \<and> task_mem t = st\<lparr>intermediate_page_tables := X\<rparr>)"

lemma has_mem_world [simp]: "has_mem p g st (s\<lparr>world := w\<rparr>) = has_mem p g st s"
  by (simp add: has_mem_def)

lemma has_mem_resources [simp]: "has_mem p g st (upd_resources f s) = has_mem p g st s"
  by (simp add: has_mem_def)

lemma has_mem_tables:
  assumes "has_mem p g st s" and "tables_only p s s'"
  shows "has_mem p g st s'"
proof -
  from assms(1) obtain t X where t: "get_process s p = Some t" "task_mem t = st\<lparr>intermediate_page_tables := X\<rparr>"
    by (auto simp: has_mem_def)
  from assms(2) t(1) obtain f where "get_process s' p = Some (upd_mem (intermediate_page_tables_update f) t)"
    by (auto simp: tables_only_def)
  moreover from t(2) have "task_mem (upd_mem (intermediate_page_tables_update f) t) = st\<lparr>intermediate_page_tables := f X\<rparr>"
    by simp
  ultimately show ?thesis using assms by (auto simp: has_mem_def tables_only_def)
qed

lemma keeps_mem_tables:
  assumes "\<And>s. keeps (tables_only p s) m"
  shows "keeps (has_mem p g st) m"
  by (rule keepsI, erule has_mem_tables, rule keeps_state[OF assms]) simp

lemma mem_steps [keeps_intro]:
  "keeps (has_mem p g st) (ext m)" "keeps (has_mem p g st) (ext_do f)"
  "keeps (has_mem p g st) (map_process_frame E p c v prm n)" "keeps (has_mem p g st) (unmap_process_pages E p v n)"
  "keeps (has_mem p g st) (modify (ledger_record_frame_alloc p c n))"
  "keeps (has_mem p g st) (release_shared_frame_cap c)"
  by (auto simp: release_shared_frame_cap_def release_frame_cap_def has_mem_def get_process_def process_def Let_def
      ledger_record_frame_alloc_def keeps_def[of _ "release_shared_frame_cap c"]
      intro: keeps_ext keeps_ext_do keeps_modify keeps_mem_tables map_process_frame_tables unmap_process_pages_tables
      split: prod.splits option.splits if_splits)

lemma mem_release [keeps_intro]: "keeps (has_mem p g st) (release_process_frame_slot E p c n)"
  unfolding release_process_frame_slot_def ledger_record_frame_free_def
  by (auto intro!: keeps_intro keeps_modify)

lemma mem_task: "(\<And>t X. task_mem t = st\<lparr>intermediate_page_tables := X\<rparr> \<Longrightarrow> leads (has_mem p g st) Q (f t)) \<Longrightarrow>
    leads (has_mem p g st) Q (andThen (task_or e p) f)"
  unfolding leads_def andThen_Ok task_or_Ok by (fastforce simp: has_mem_def)

lemma mem_modify:
  assumes "\<And>X. h (st\<lparr>intermediate_page_tables := X\<rparr>) = st'\<lparr>intermediate_page_tables := X\<rparr>"
  shows "leads (has_mem p g st) (\<lambda>_. has_mem p g st') (modify (upd_task p (upd_mem h)))"
  using assms by (auto simp: leads_def modify_def has_mem_def)

section \<open>Splitting a map\<close>

lemma split_loop_mem [keeps_intro]:
  "keeps (has_mem p g st) (split_one_page E p src pages slots i)"
  "keeps (has_mem p g st) (split_pages_loop E p src pages is slots)"
  "keeps (has_mem p g st) (remap_split_loop E p m all idx slots')"
proof -
  show one: "keeps (has_mem p g st) (split_one_page E p src pages slots i)" for slots i
    unfolding split_one_page_def release_temp_frame_slots_def by (auto simp: Let_def intro!: keeps_intro)
  show "keeps (has_mem p g st) (split_pages_loop E p src pages is slots)"
    by (induction "is" arbitrary: slots) (auto intro!: keeps_intro one)
  show "keeps (has_mem p g st) (remap_split_loop E p m all idx slots')"
    by (induction slots' arbitrary: idx) (auto simp: release_temp_frame_slots_def intro!: keeps_intro)
qed

lemma split_loop_length:
  "leads P (\<lambda>xs s. length xs = length slots + length is \<and> P s) (split_pages_loop E p src pages is slots)"
  if "\<And>slots i. keeps P (split_one_page E p src pages slots i)"
  using that
proof (induction "is" arbitrary: slots)
  case (Cons i "is")
  then show ?case by (auto intro!: leads_andThen leads_weaken[OF Cons.IH])
qed (simp add: leads_ret)

text \<open>The maps a split leaves behind: the same memory, one map per page.\<close>

definition splits :: "('i, 'w) env \<Rightarrow> usize \<Rightarrow> mm_state \<Rightarrow> mm_state \<Rightarrow> bool" where
  "splits E v st st' \<longleftrightarrow>
     (\<exists>m. bt_get (memory_maps st) v = Some m \<and>
        (if \<not> is_remappable_user_mapping (mem_type m) \<or> frame_cap m = 0 \<or> map_pages (mp E) m \<le> 1 then st' = st
         else \<exists>slots. length slots = map_pages (mp E) m \<and> st' = replace_map (map_vaddr m) (split_map_entries E m slots) st))"

lemma replace_map_tables:
  "replace_map v new (st\<lparr>intermediate_page_tables := X\<rparr>) = (replace_map v new st)\<lparr>intermediate_page_tables := X\<rparr>"
proof -
  have "replace_map v new st = fold add_memory_map new (remove_map v st)" for st
    by (simp add: replace_map_def remove_map_def)
  moreover have "remove_map v (st\<lparr>intermediate_page_tables := X\<rparr>) = (remove_map v st)\<lparr>intermediate_page_tables := X\<rparr>"
    by (simp add: remove_map_def)
  ultimately show ?thesis by (simp add: fold_add_tables)
qed

lemma split_leads:
  "leads (has_mem p g st) (\<lambda>_ s. \<exists>st'. splits E v st st' \<and> has_mem p g st' s) (split_large_mapping_into_base_pages E p v)"
  unfolding split_large_mapping_into_base_pages_def
proof (rule mem_task, rule leads_lift, unfold Let_def, rule leads_control(2), goal_cases)
  case (1 t X m)
  then show ?case by (auto intro!: leads_ret simp: splits_def)
next
  case (2 t X m)
  show ?case
  proof (rule leads_control(2), goal_cases)
    case 1
    with 2 show ?case by (auto intro!: leads_ret simp: splits_def)
  next
    case 3: 2
    let ?new = "\<lambda>slots. replace_map (map_vaddr m) (split_map_entries E m slots) st"
    have last: "leads (has_mem p g st) (\<lambda>_ s. \<exists>st'. splits E v st st' \<and> has_mem p g st' s)
        (andThen (task_or NotFound p) (\<lambda>_.
         andThen (modify (upd_task p (upd_mem (replace_map (map_vaddr m) (split_map_entries E m slots))))) (\<lambda>_.
         release_process_frame_slot E p (frame_cap m) n)))" if "length slots = map_pages (mp E) m" for slots n
    proof -
      have "splits E v st (?new slots)" using 2 3 that by (auto simp: splits_def)
      then show ?thesis
        by (intro mem_task leads_bind[OF mem_modify[of _ _ "?new slots"]] replace_map_tables
            leads_weaken[OF leads_keeps[OF mem_release]]) blast
    qed
    show ?case
      by (intro leads_bind[OF split_loop_length[OF split_loop_mem(1)]] leads_andThen leads_pure keeps_intro last) simp
  qed
qed

section \<open>Rows of pages\<close>

lemma find_row:
  assumes "0 < pg" and e: "\<And>i. i < n \<Longrightarrow> map_vaddr (e i) = start + i * pg \<and> map_size (e i) = pg"
  shows "in_row (map e [0..<n])"
    and "find (\<lambda>m. covers m a) (map e [0..<n]) =
      (if start \<le> a \<and> a < start + n * pg then Some (e ((a - start) div pg)) else None)"
proof -
  have step: "i * pg + pg \<le> j * pg" if "i < j" for i j
    using mult_le_mono1[of "Suc i" j pg] that by simp
  then show "in_row (map e [0..<n])"
    by (auto simp: in_row_def sorted_wrt_iff_nth_less e)
  have cov: "covers (e i) a \<longleftrightarrow> start \<le> a \<and> (a - start) div pg = i" if "i < n" for i
  proof -
    have "covers (e i) a \<longleftrightarrow> start \<le> a \<and> i * pg \<le> a - start \<and> a - start < Suc i * pg"
      using e[OF that] by (auto simp: covers_def)
    also have "\<dots> \<longleftrightarrow> start \<le> a \<and> (a - start) div pg = i"
      using assms(1) by (metis div_nat_eqI mult.commute div_times_less_eq_dividend dividend_less_div_times
        mult_Suc add.commute)
    finally show ?thesis .
  qed
  show "find (\<lambda>m. covers m a) (map e [0..<n]) =
      (if start \<le> a \<and> a < start + n * pg then Some (e ((a - start) div pg)) else None)"
  proof (cases "start \<le> a \<and> a < start + n * pg")
    case True
    then have i: "(a - start) div pg < n" using assms(1) by (auto simp: div_less_iff_less_mult)
    with True cov show ?thesis
      by (auto simp: find_Some_iff intro!: exI[of _ "(a - start) div pg"])
  next
    case False
    have "\<not> covers (e i) a" if "i < n" for i
      using False cov[OF that] that assms(1) by (auto simp: div_less_iff_less_mult)
    with False show ?thesis by (auto simp: find_None_iff)
  qed
qed

text \<open>A row of pages entered into a part of a table that covers nothing.\<close>

lemma row_insert:
  assumes pos: "0 < pg" and e: "\<And>i. i < n \<Longrightarrow> map_vaddr (e i) = start + i * pg \<and> map_size (e i) = pg"
    and ok: "maps_ok ms" and top: "start + n * pg \<le> usize_max"
    and free: "\<And>a. start \<le> a \<Longrightarrow> a < start + n * pg \<Longrightarrow> lookup_in ms a = None"
  shows "maps_ok (insert_maps (map e [0..<n]) ms)"
    and "lookup_in (insert_maps (map e [0..<n]) ms) a =
      (if start \<le> a \<and> a < start + n * pg then Some (e ((a - start) div pg)) else lookup_in ms a)"
proof -
  have ap: "apart ms x \<and> 0 < map_size x \<and> map_vaddr x + map_size x \<le> usize_max" if "x \<in> set (map e [0..<n])" for x
  proof -
    from that obtain i where i: "i < n" "x = e i" by auto
    have "i * pg + pg \<le> n * pg" using mult_le_mono1[of "Suc i" n pg] i(1) by simp
    with e[OF i(1)] i(2) top pos free show ?thesis by (auto simp: apart_iff[OF ok] covers_def)
  qed
  have row: "in_row (map e [0..<n])" by (rule find_row(1)[OF pos]) (rule e)
  show "maps_ok (insert_maps (map e [0..<n]) ms)" by (rule insert_maps_laws(1)[OF ok row]) (rule ap)
  have "lookup_in (insert_maps (map e [0..<n]) ms) a =
      (case find (\<lambda>x. covers x a) (map e [0..<n]) of Some x \<Rightarrow> Some x | None \<Rightarrow> lookup_in ms a)"
    by (rule insert_maps_laws(2)[OF ok row]) (rule ap)
  then show "lookup_in (insert_maps (map e [0..<n]) ms) a =
      (if start \<le> a \<and> a < start + n * pg then Some (e ((a - start) div pg)) else lookup_in ms a)"
    by (subst (asm) find_row(2)[OF pos e]) auto
qed

section \<open>Address spaces in whole pages\<close>

text \<open>
  The invariant of an address space: maps start and end on page boundaries, below the last
  page of the address range; a map without a frame and a lazy map is one page.
\<close>

definition paged_map :: "mem_params \<Rightarrow> memory_map \<Rightarrow> bool" where
  "paged_map M m \<longleftrightarrow>
     PGSIZE M dvd map_vaddr m \<and> PGSIZE M dvd map_size m \<and> map_vaddr m + map_size m + PGSIZE M \<le> usize_max \<and>
     (is_remappable_user_mapping (mem_type m) \<and> frame_cap m = 0 \<longrightarrow> map_size m = PGSIZE M)"

definition paged :: "mem_params \<Rightarrow> mm_state \<Rightarrow> bool" where
  "paged M st \<longleftrightarrow> mm_ok st \<and>
     (\<forall>a m. lookup_memory_map st a = Some m \<longrightarrow> paged_map M m) \<and>
     (\<forall>a m. lookup_lazy_memory_map st a = Some m \<longrightarrow> PGSIZE M dvd map_vaddr m \<and> map_size m = PGSIZE M) \<and>
     PGSIZE M dvd mmap_base st \<and> PGSIZE M dvd mmap_next st \<and> mmap_limit st + PGSIZE M \<le> usize_max"

text \<open>What a process may do at an address: the permissions, the kind and the sharing of its map.\<close>

definition access :: "mm_state \<Rightarrow> usize \<Rightarrow> (perms \<times> memory_type \<times> bool) option" where
  "access st a = map_option (\<lambda>m. (map_flags m, mem_type m, map_cow m)) (lookup_memory_map st a)"

lemma params_pos: "mem_params_ok M \<Longrightarrow> 0 < PGSIZE M"
  by (simp add: mem_params_ok_def)

lemma align_up_dvd:
  assumes "mem_params_ok M" and "PGSIZE M dvd x" and "x + PGSIZE M \<le> usize_max"
  shows "align_up M x (PGSIZE M) = x"
proof -
  from assms have up: "PGSIZE M dvd align_up M x (PGSIZE M)" "x \<le> align_up M x (PGSIZE M)"
    "align_up M x (PGSIZE M) < x + PGSIZE M" by (auto simp: mem_params_ok_def)
  with assms(2) have "PGSIZE M dvd align_up M x (PGSIZE M) - x" by (simp add: dvd_diff_nat)
  with up show ?thesis using nat_dvd_not_less[of "align_up M x (PGSIZE M) - x" "PGSIZE M"] by fastforce
qed

lemma pages_exact:
  assumes "mem_params_ok M" and "paged_map M m"
  shows "map_pages M m * PGSIZE M = map_size m"
proof -
  have "align_up M (map_size m) (PGSIZE M) = map_size m"
    using assms by (intro align_up_dvd) (auto simp: paged_map_def)
  with assms(2) show ?thesis by (simp add: map_pages_def paged_map_def)
qed

definition split_entry :: "('i, 'w) env \<Rightarrow> memory_map \<Rightarrow> capptr list \<Rightarrow> nat \<Rightarrow> memory_map" where
  "split_entry E m slots idx =
     \<lparr>map_vaddr = wrap_add (map_vaddr m) (wrap_mul idx (PGSIZE (mp E))), map_paddr = 0,
      map_size = PGSIZE (mp E), map_flags = map_flags m, mem_type = mem_type m, map_cow = map_cow m,
      frame_cap = slots ! idx, file_backing_fd = file_backing_fd m,
      file_backing_offset = sat_add (file_backing_offset m) (wrap_mul idx (PGSIZE (mp E)))\<rparr>"

lemma split_entries_row: "split_map_entries E m slots = map (split_entry E m slots) [0..<length slots]"
  by (auto simp: split_map_entries_def split_entry_def intro: nth_equalityI)

lemma replace_map_maps:
  "memory_maps (replace_map v new st) = insert_maps new (bt_remove v (memory_maps st))"
  "lazy_memory_maps (replace_map v new st) = lazy_memory_maps st"
  "mmap_base (replace_map v new st) = mmap_base st" "mmap_next (replace_map v new st) = mmap_next st"
  "mmap_limit (replace_map v new st) = mmap_limit st"
proof -
  have "memory_maps (fold add_memory_map new st) = insert_maps new (memory_maps st) \<and>
      lazy_memory_maps (fold add_memory_map new st) = lazy_memory_maps st \<and>
      mmap_base (fold add_memory_map new st) = mmap_base st \<and> mmap_next (fold add_memory_map new st) = mmap_next st \<and>
      mmap_limit (fold add_memory_map new st) = mmap_limit st" for st
    by (induction new arbitrary: st) (simp_all add: insert_maps_def add_memory_map_def)
  then show "memory_maps (replace_map v new st) = insert_maps new (bt_remove v (memory_maps st))"
    "lazy_memory_maps (replace_map v new st) = lazy_memory_maps st"
    "mmap_base (replace_map v new st) = mmap_base st" "mmap_next (replace_map v new st) = mmap_next st"
    "mmap_limit (replace_map v new st) = mmap_limit st"
    by (simp_all add: replace_map_def)
qed

lemma replace_lookup:
  assumes M: "mem_params_ok (mp E)" and ok: "maps_ok ms" and m: "lookup_in ms (map_vaddr m) = Some m"
    and pm: "paged_map (mp E) m" and n: "length slots = map_pages (mp E) m"
  defines "ms' \<equiv> insert_maps (split_map_entries E m slots) (bt_remove (map_vaddr m) ms)"
  shows "maps_ok ms'"
    and "lookup_in ms' a = (if covers m a then Some (split_entry E m slots ((a - map_vaddr m) div PGSIZE (mp E))) else lookup_in ms a)"
proof -
  let ?pg = "PGSIZE (mp E)" and ?e = "split_entry E m slots" and ?ms = "bt_remove (map_vaddr m) ms"
  note pos = params_pos[OF M] and sz = pages_exact[OF M pm]
  have bound: "i * ?pg + ?pg \<le> map_size m" if "i < length slots" for i
    using mult_le_mono1[of "Suc i" "map_pages (mp E) m" ?pg] that n sz by simp
  have e: "map_vaddr (?e i) = map_vaddr m + i * ?pg \<and> map_size (?e i) = ?pg" if "i < length slots" for i
    using bound[OF that] pm by (simp add: split_entry_def paged_map_def)
  have rm: "lookup_in ?ms b = (if covers m b then None else lookup_in ms b)" for b
  proof (cases "covers m b")
    case True
    then have "lookup_in ms b = Some m" using lookup_same[OF ok m] by (simp add: covers_def)
    with True show ?thesis by (simp add: lookup_remove[OF ok])
  next
    case False
    have "map_vaddr k \<noteq> map_vaddr m" if "lookup_in ms b = Some k" for k
    proof
      assume "map_vaddr k = map_vaddr m"
      with lookup_bounds(5)[OF ok that] m have "k = m" by (metis option.inject)
      with lookup_bounds(1,2)[OF ok that] False show False by (simp add: covers_def)
    qed
    with False show ?thesis by (auto simp: lookup_remove[OF ok] split: option.split)
  qed
  have free: "lookup_in ?ms b = None" if "map_vaddr m \<le> b" "b < map_vaddr m + length slots * ?pg" for b
    using that rm by (simp add: covers_def n sz)
  have top: "map_vaddr m + length slots * ?pg \<le> usize_max" using pm by (simp add: n sz paged_map_def)
  have ins: "maps_ok ms'"
    "lookup_in ms' a = (if map_vaddr m \<le> a \<and> a < map_vaddr m + length slots * ?pg
       then Some (?e ((a - map_vaddr m) div ?pg)) else lookup_in ?ms a)"
    unfolding ms'_def split_entries_row
    by (rule row_insert[OF pos _ maps_ok_remove[OF ok] top], rule e, assumption, rule free, assumption+)+
  show "maps_ok ms'" by (rule ins(1))
  show "lookup_in ms' a = (if covers m a then Some (?e ((a - map_vaddr m) div ?pg)) else lookup_in ms a)"
    unfolding ins(2) by (simp add: rm covers_def n sz)
qed

text \<open>A map that a range may have to be split for.\<close>

definition splittable :: "mem_params \<Rightarrow> memory_map \<Rightarrow> bool" where
  "splittable M m \<longleftrightarrow> is_remappable_user_mapping (mem_type m) \<and> frame_cap m \<noteq> 0 \<and> map_pages M m > 1"

lemma pagedD:
  assumes "paged M st"
  shows "maps_ok (memory_maps st)" "maps_ok (lazy_memory_maps st)"
    "lookup_memory_map st a = Some m \<Longrightarrow> paged_map M m"
    "lookup_lazy_memory_map st a = Some m \<Longrightarrow> PGSIZE M dvd map_vaddr m \<and> map_size m = PGSIZE M"
    "lookup_memory_map st a = None \<or> lookup_lazy_memory_map st a = None"
proof -
  have ok: "mm_ok st" using assms by (simp add: paged_def)
  then show "maps_ok (memory_maps st)" "maps_ok (lazy_memory_maps st)" by (simp_all add: mm_ok_def)
  show "lookup_memory_map st a = None \<or> lookup_lazy_memory_map st a = None" using ok by (simp add: mm_ok_iff)
  show "lookup_memory_map st a = Some m \<Longrightarrow> paged_map M m" using assms by (simp add: paged_def)
  show "lookup_lazy_memory_map st a = Some m \<Longrightarrow> PGSIZE M dvd map_vaddr m \<and> map_size m = PGSIZE M"
    using assms by (simp add: paged_def)
qed

lemma whole_page:
  assumes "x < (n :: nat)" and "pg dvd x" and "pg dvd n"
  shows "x + pg \<le> n"
proof -
  from assms(2,3) obtain i k where "x = pg * i" "n = pg * k" by (auto elim!: dvdE)
  with assms(1) mult_le_mono2[of "Suc i" k pg] show ?thesis by auto
qed

lemma split_entry_paged:
  assumes "mem_params_ok (mp E)" and "paged_map (mp E) m" and "covers m a"
  shows "paged_map (mp E) (split_entry E m slots ((a - map_vaddr m) div PGSIZE (mp E)))"
proof -
  let ?pg = "PGSIZE (mp E)" and ?i = "(a - map_vaddr m) div PGSIZE (mp E)"
  have "?i * ?pg \<le> a - map_vaddr m" by simp
  also have "a - map_vaddr m < map_size m" using assms(3) by (auto simp: covers_def)
  finally have "?i * ?pg + ?pg \<le> map_size m" using assms(2) by (intro whole_page) (simp_all add: paged_map_def)
  with assms(2) show ?thesis by (auto simp: split_entry_def paged_map_def)
qed

lemma same_start:
  assumes ok: "maps_ok ms" and "lookup_in ms v = Some m" "map_vaddr m = v" and k: "lookup_in ms a = Some k" "map_vaddr k = v"
  shows "k = m"
  using assms lookup_bounds(5)[OF ok k(1)] by (metis option.inject)

lemma split_map_laws:
  assumes M: "mem_params_ok (mp E)" and st: "paged (mp E) st" and m: "lookup_in (memory_maps st) (map_vaddr m) = Some m"
    and pm: "paged_map (mp E) m" and n: "length slots = map_pages (mp E) m"
    and st': "st' = replace_map (map_vaddr m) (split_map_entries E m slots) st"
  shows "paged (mp E) st'" and "access st' = access st" and "lazy_memory_maps st' = lazy_memory_maps st"
    and "lookup_memory_map st' a =
      (if covers m a then Some (split_entry E m slots ((a - map_vaddr m) div PGSIZE (mp E))) else lookup_memory_map st a)"
proof -
  note ok = pagedD(1)[OF st]
  let ?e = "\<lambda>a. split_entry E m slots ((a - map_vaddr m) div PGSIZE (mp E))"
  note rl = replace_lookup[OF M ok m pm n]
  have maps: "maps_ok (memory_maps st')" using rl(1) by (simp add: st' replace_map_maps)
  have look: "lookup_memory_map st' a = (if covers m a then Some (?e a) else lookup_memory_map st a)" for a
    by (simp add: lookup_memory_map_def st' replace_map_maps rl(2))
  show "lazy_memory_maps st' = lazy_memory_maps st" by (simp add: st' replace_map_maps)
  then have lazy: "lookup_lazy_memory_map st' = lookup_lazy_memory_map st"
    by (simp add: lookup_lazy_memory_map_def fun_eq_iff)
  have old: "lookup_memory_map st a = Some m" if "covers m a" for a
    using lookup_same[OF ok m] that by (simp add: lookup_memory_map_def covers_def)
  have "mm_ok st'"
  proof (unfold mm_ok_iff, intro conjI allI)
    show "maps_ok (memory_maps st')" "maps_ok (lazy_memory_maps st')"
      using maps pagedD(2)[OF st] by (simp_all add: st' replace_map_maps)
    show "lookup_memory_map st' a = None \<or> lookup_lazy_memory_map st' a = None" for a
      using pagedD(5)[OF st, of a] old[of a] look[of a] lazy by (auto split: if_splits)
  qed
  then show "paged (mp E) st'"
    using st look lazy split_entry_paged[OF M pm] unfolding paged_def by (auto simp: st' replace_map_maps)
  show "access st' = access st" by (auto simp: access_def fun_eq_iff look old split_entry_def)
  show "lookup_memory_map st' a = (if covers m a then Some (?e a) else lookup_memory_map st a)" by (rule look)
qed

lemma splits_laws:
  assumes M: "mem_params_ok (mp E)" and st: "paged (mp E) st" and sp: "splits E v st st'"
  shows "paged (mp E) st'" and "access st' = access st" and "lazy_memory_maps st' = lazy_memory_maps st"
    and "lookup_memory_map st' a = Some k \<Longrightarrow> splittable (mp E) k \<Longrightarrow>
      lookup_memory_map st a = Some k \<and> map_vaddr k \<noteq> v"
proof -
  note ok = pagedD(1)[OF st]
  from sp obtain m where m: "bt_get (memory_maps st) v = Some m"
    and cases: "if \<not> splittable (mp E) m then st' = st
      else \<exists>slots. length slots = map_pages (mp E) m \<and> st' = replace_map (map_vaddr m) (split_map_entries E m slots) st"
    by (auto simp: splits_def splittable_def not_less)
  from m have v: "lookup_in (memory_maps st) (map_vaddr m) = Some m" "map_vaddr m = v"
    by (auto simp: bt_get_iff[OF ok])
  then have pm: "paged_map (mp E) m" using pagedD(3)[OF st] by (simp add: lookup_memory_map_def)
  have "paged (mp E) st' \<and> access st' = access st \<and> lazy_memory_maps st' = lazy_memory_maps st \<and>
    (\<forall>a k. lookup_memory_map st' a = Some k \<longrightarrow> splittable (mp E) k \<longrightarrow> lookup_memory_map st a = Some k \<and> map_vaddr k \<noteq> v)"
  proof (cases "splittable (mp E) m")
    case False
    have "map_vaddr k \<noteq> v" if "lookup_memory_map st a = Some k" "splittable (mp E) k" for a k
      using that False same_start[OF ok v(1)[unfolded v(2)] v(2), of a k] by (auto simp: lookup_memory_map_def)
    with False cases st show ?thesis by simp
  next
    case True
    with cases obtain slots where n: "length slots = map_pages (mp E) m"
      and st': "st' = replace_map (map_vaddr m) (split_map_entries E m slots) st" by auto
    note laws = split_map_laws[OF M st v(1) pm n st']
    have "\<not> splittable (mp E) (split_entry E m slots ((a - map_vaddr m) div PGSIZE (mp E)))" if "covers m a" for a
      using pages_exact[OF M split_entry_paged[OF M pm that]] params_pos[OF M]
      by (simp add: splittable_def split_entry_def)
    moreover have "map_vaddr k \<noteq> v" if "lookup_memory_map st a = Some k" "\<not> covers m a" for a k
      using that same_start[OF ok v(1)[unfolded v(2)] v(2), of a k] lookup_bounds(1,2)[OF ok, of a k]
      by (auto simp: lookup_memory_map_def covers_def)
    ultimately show ?thesis using laws by (auto split: if_splits)
  qed
  then show "paged (mp E) st'" "access st' = access st" "lazy_memory_maps st' = lazy_memory_maps st"
    "lookup_memory_map st' a = Some k \<Longrightarrow> splittable (mp E) k \<Longrightarrow> lookup_memory_map st a = Some k \<and> map_vaddr k \<noteq> v"
    by blast+
qed

section \<open>A range cut out of the maps\<close>

definition partial :: "mem_params \<Rightarrow> usize \<Rightarrow> usize \<Rightarrow> memory_map \<Rightarrow> bool" where
  "partial M start stop m \<longleftrightarrow> splittable M m \<and> start < map_vaddr m + map_size m \<and> map_vaddr m < stop \<and>
     \<not> (start \<le> map_vaddr m \<and> map_vaddr m + map_size m \<le> stop)"

text \<open>The state after the splits: the same accesses, and no map that the range cuts.\<close>

definition uncut :: "mem_params \<Rightarrow> usize \<Rightarrow> usize \<Rightarrow> mm_state \<Rightarrow> mm_state \<Rightarrow> bool" where
  "uncut M start stop st st' \<longleftrightarrow> paged M st' \<and> access st' = access st \<and>
     lazy_memory_maps st' = lazy_memory_maps st \<and>
     (\<forall>a m. lookup_memory_map st' a = Some m \<longrightarrow> \<not> partial M start stop m)"

lemma targets_cover:
  assumes "mem_params_ok M" and "paged M st" and "lookup_memory_map st a = Some m" and "partial M start stop m"
  shows "map_vaddr m \<in> set (split_partial_multi_page_targets M st start stop)"
proof -
  note l = assms(3)[unfolded lookup_memory_map_def]
  have "m \<in> set (bt_values (memory_maps st))"
    using lookup_bounds(5)[OF pagedD(1)[OF assms(2)] l] by (simp add: in_values_iff[OF pagedD(1)[OF assms(2)]])
  moreover have pm: "paged_map M m" by (rule pagedD(3)[OF assms(2,3)])
  ultimately show ?thesis
    using assms(4) pages_exact[OF assms(1) pm]
    by (auto simp: split_partial_multi_page_targets_def List.map_filter_def partial_def splittable_def has_overlap_def
        paged_map_def Let_def not_le intro!: rev_image_eqI[of m])
qed

lemma cut_leads:
  assumes M: "mem_params_ok (mp E)" and st: "paged (mp E) st"
  shows "leads (has_mem p g st) (\<lambda>_ s. \<exists>st'. uncut (mp E) start stop st st' \<and> has_mem p g st' s)
    (ensure_partial_multi_page_ranges_split E p start stop)"
proof -
  let ?I = "\<lambda>rest s. \<exists>st'. (paged (mp E) st' \<and> access st' = access st \<and> lazy_memory_maps st' = lazy_memory_maps st \<and>
      (\<forall>a m. lookup_memory_map st' a = Some m \<longrightarrow> partial (mp E) start stop m \<longrightarrow> map_vaddr m \<in> set rest)) \<and> has_mem p g st' s"
  have step: "leads (?I (x # rest)) (\<lambda>_. ?I rest) (split_large_mapping_into_base_pages E p x)" for x rest
  proof (rule leads_ex, rule leads_pure, rule leads_weaken[OF split_leads], elim exE conjE)
    fix st1 s st2
    assume st1: "paged (mp E) st1" "access st1 = access st" "lazy_memory_maps st1 = lazy_memory_maps st"
      "\<forall>a m. lookup_memory_map st1 a = Some m \<longrightarrow> partial (mp E) start stop m \<longrightarrow> map_vaddr m \<in> set (x # rest)"
      and st2: "splits E x st1 st2" and mem: "has_mem p g st2 s"
    have "map_vaddr m \<in> set rest" if l: "lookup_memory_map st2 a = Some m" and c: "partial (mp E) start stop m" for a m
    proof -
      from c have "splittable (mp E) m" by (simp add: partial_def)
      from splits_laws(4)[OF M st1(1) st2 l this] st1(4) c show ?thesis by auto
    qed
    with mem splits_laws(1-3)[OF M st1(1) st2] st1(2,3) show "?I rest s" by (intro exI[of _ st2]) simp
  qed
  have "leads (?I xs) (\<lambda>_. ?I []) (forM xs (split_large_mapping_into_base_pages E p))" for xs
    by (rule leads_forM[of ?I, OF step])
  note loop = this
  show ?thesis
    unfolding ensure_partial_multi_page_ranges_split_def
  proof (rule mem_task, rule leads_pre, rule leads_weaken[OF loop], goal_cases)
    case (1 t X x s)
    then show ?case by (auto simp: uncut_def)
  next
    case (2 t X s)
    then show ?case
      using st targets_cover[OF M st, of _ _ start stop]
      by (intro exI[of _ st]) (auto simp: split_partial_multi_page_targets_def)
  qed
qed

lemma set_pages_between:
  assumes "0 < PGSIZE M" and "PGSIZE M dvd start" and "PGSIZE M dvd stop"
  shows "set (pages_between M start stop) = {x. start \<le> x \<and> x < stop \<and> PGSIZE M dvd x}"
proof -
  let ?pg = "PGSIZE M"
  from assms(2,3) have "?pg dvd stop - start" by (rule dvd_diff_nat[rotated])
  then obtain k where k: "stop - start = k * ?pg" by (metis dvdE mult.commute)
  have n: "(stop - start + (?pg - 1)) div ?pg = k" using assms(1) by (intro div_nat_eqI) (auto simp: k mult.commute[of k])
  have "x \<in> (\<lambda>i. start + i * ?pg) ` {0..<k} \<longleftrightarrow> start \<le> x \<and> x < stop \<and> ?pg dvd x" for x
  proof
    assume "x \<in> (\<lambda>i. start + i * ?pg) ` {0..<k}"
    then obtain i where i: "i < k" "x = start + i * ?pg" by auto
    then have "i * ?pg < k * ?pg" using assms(1) by simp
    with k have "start + i * ?pg < stop" by linarith
    with i assms(2) show "start \<le> x \<and> x < stop \<and> ?pg dvd x" by simp
  next
    assume x: "start \<le> x \<and> x < stop \<and> ?pg dvd x"
    then have "?pg dvd x - start" using assms(2) by (simp add: dvd_diff_nat)
    then obtain i where i: "x - start = i * ?pg" by (metis dvdE mult.commute)
    with x k have "i * ?pg < k * ?pg" by linarith
    with x i show "x \<in> (\<lambda>i. start + i * ?pg) ` {0..<k}" by (intro rev_image_eqI[of i]) auto
  qed
  then show ?thesis unfolding pages_between_def n by auto
qed

lemma range_keys:
  assumes "maps_ok (memory_maps st)"
  shows "v \<in> set (bt_keys (ranges_to_unmap M st pages)) \<longleftrightarrow>
    v \<in> set pages \<and> (\<exists>m. bt_get (memory_maps st) v = Some m \<and> is_remappable_user_mapping (mem_type m))"
proof -
  let ?f = "\<lambda>page acc. case bt_get (memory_maps st) page of
      Some m \<Rightarrow> if is_remappable_user_mapping (mem_type m)
        then bt_entry (map_vaddr m) (frame_cap m, map_pages M m) (\<lambda>x. x) acc else acc
    | None \<Rightarrow> acc"
  have "v \<in> dom (bt_get (fold ?f pages acc)) \<longleftrightarrow> v \<in> dom (bt_get acc) \<or>
      v \<in> set pages \<and> (\<exists>m. bt_get (memory_maps st) v = Some m \<and> is_remappable_user_mapping (mem_type m))" for acc
  proof (induction pages arbitrary: acc)
    case (Cons page pages)
    have "v \<in> dom (bt_get (?f page acc)) \<longleftrightarrow> v \<in> dom (bt_get acc) \<or>
        v = page \<and> (\<exists>m. bt_get (memory_maps st) v = Some m \<and> is_remappable_user_mapping (mem_type m))"
      using maps_ok_get(1)[OF assms] by (auto split: option.split)
    with Cons.IH[of "?f page acc"] show ?case by auto
  qed simp
  from this[of "[]"] show ?thesis by (simp add: set_bt_keys ranges_to_unmap_def domIff)
qed

text \<open>Maps that a range can remove: those of user mappings.\<close>

definition removable :: "(perms \<times> memory_type \<times> bool) option \<Rightarrow> bool" where
  "removable x = (case x of Some (_, ty, _) \<Rightarrow> is_remappable_user_mapping ty | None \<Rightarrow> False)"

definition unmapped :: "mem_params \<Rightarrow> usize \<Rightarrow> usize \<Rightarrow> mm_state \<Rightarrow> mm_state" where
  "unmapped M start stop st =
     (let pages = pages_between M start stop in drop_ranges pages (ranges_to_unmap M st pages) st)"

lemma removed_iff:
  assumes M: "mem_params_ok M" and u: "uncut M start stop st st'" and l: "lookup_memory_map st' a = Some m"
    and "PGSIZE M dvd start" and "PGSIZE M dvd stop"
  shows "map_vaddr m \<in> set (bt_keys (ranges_to_unmap M st' (pages_between M start stop))) \<longleftrightarrow>
    is_remappable_user_mapping (mem_type m) \<and> start \<le> a \<and> a < stop"
proof -
  from u have pst: "paged M st'" by (simp add: uncut_def)
  note ok = pagedD(1)[OF pst] and l' = l[unfolded lookup_memory_map_def]
  note b = lookup_bounds[OF ok l'] and pm = pagedD(3)[OF pst l]
  have "bt_get (memory_maps st') (map_vaddr m) = Some m" using b(5) by (simp add: bt_get_iff[OF ok])
  then have keys: "map_vaddr m \<in> set (bt_keys (ranges_to_unmap M st' (pages_between M start stop))) \<longleftrightarrow>
      start \<le> map_vaddr m \<and> map_vaddr m < stop \<and> is_remappable_user_mapping (mem_type m)"
    using range_keys[OF ok] set_pages_between[OF params_pos[OF M] assms(4,5)] pm by (auto simp: paged_map_def)
  have "start \<le> map_vaddr m \<and> map_vaddr m < stop \<longleftrightarrow> start \<le> a \<and> a < stop" if "is_remappable_user_mapping (mem_type m)"
  proof -
    have "start \<le> map_vaddr m \<and> map_vaddr m + map_size m \<le> stop"
      if "start < map_vaddr m + map_size m" "map_vaddr m < stop"
    proof (cases "map_size m = PGSIZE M")
      case True
      with that pm assms(4,5) whole_page[of "map_vaddr m" stop "PGSIZE M"] whole_page[of "map_vaddr m" start "PGSIZE M"]
      show ?thesis by (auto simp: paged_map_def not_le[symmetric])
    next
      case False
      with pm \<open>is_remappable_user_mapping (mem_type m)\<close> have "frame_cap m \<noteq> 0" by (auto simp: paged_map_def)
      moreover have "map_pages M m > 1"
        using False pages_exact[OF M pm] b(3) by (cases "map_pages M m"; cases "map_pages M m - 1") auto
      ultimately have "splittable M m" using \<open>is_remappable_user_mapping (mem_type m)\<close> by (simp add: splittable_def)
      moreover have "\<not> partial M start stop m" using u l unfolding uncut_def by blast
      ultimately show ?thesis using that by (simp add: partial_def)
    qed
    with b(1-3) show ?thesis by fastforce
  qed
  with keys show ?thesis by auto
qed

lemma unmapped_laws:
  assumes M: "mem_params_ok M" and u: "uncut M start stop st st'" and "PGSIZE M dvd start" and "PGSIZE M dvd stop"
  shows "paged M (unmapped M start stop st')"
    and "access (unmapped M start stop st') a =
      (if start \<le> a \<and> a < stop \<and> removable (access st a) then None else access st a)"
    and "lookup_lazy_memory_map (unmapped M start stop st') a =
      (if start \<le> a \<and> a < stop then None else lookup_lazy_memory_map st a)"
proof -
  let ?st = "unmapped M start stop st'"
  from u have pst: "paged M st'" and acc: "access st' = access st"
    and lz: "lazy_memory_maps st' = lazy_memory_maps st" by (simp_all add: uncut_def)
  note ok = pagedD(1,2)[OF pst]
  have maps: "maps_ok (memory_maps ?st)" "maps_ok (lazy_memory_maps ?st)"
    using ok by (simp_all add: unmapped_def drop_ranges_def Let_def maps_ok_removes)
  have look: "lookup_memory_map ?st a = (case lookup_memory_map st' a of None \<Rightarrow> None
      | Some m \<Rightarrow> if is_remappable_user_mapping (mem_type m) \<and> start \<le> a \<and> a < stop then None else Some m)" for a
    using removed_iff[OF M u _ assms(3,4), of a]
    by (auto simp: lookup_memory_map_def unmapped_def drop_ranges_def Let_def lookup_removes[OF ok(1)] split: option.split)
  have lazy: "lookup_lazy_memory_map ?st a = (if start \<le> a \<and> a < stop then None else lookup_lazy_memory_map st' a)" for a
  proof (cases "lookup_lazy_memory_map st' a")
    case (Some m)
    note b = lookup_bounds[OF ok(2) Some[unfolded lookup_lazy_memory_map_def]] and pm = pagedD(4)[OF pst Some]
    have "start \<le> map_vaddr m \<and> map_vaddr m < stop \<longleftrightarrow> start \<le> a \<and> a < stop"
      using b(1,2) pm assms(3,4) whole_page[of "map_vaddr m" stop "PGSIZE M"] whole_page[of "map_vaddr m" start "PGSIZE M"]
      by fastforce
    with Some pm show ?thesis
      by (simp add: lookup_lazy_memory_map_def unmapped_def drop_ranges_def Let_def lookup_removes[OF ok(2)]
          set_pages_between[OF params_pos[OF M] assms(3,4)])
  qed (simp add: lookup_lazy_memory_map_def unmapped_def drop_ranges_def Let_def lookup_removes[OF ok(2)])
  have "lookup_memory_map ?st a = None \<or> lookup_lazy_memory_map ?st a = None" for a
    using pagedD(5)[OF pst, of a] look[of a] lazy[of a] by auto
  with maps have "mm_ok ?st" by (simp add: mm_ok_iff)
  moreover have "paged_map M m" if "lookup_memory_map ?st a = Some m" for a m
    using pagedD(3)[OF pst, of a m] that look[of a] by (auto split: option.splits if_splits)
  moreover have "PGSIZE M dvd map_vaddr m \<and> map_size m = PGSIZE M" if "lookup_lazy_memory_map ?st a = Some m" for a m
    using pagedD(4)[OF pst, of a m] that lazy[of a] by (auto split: if_splits)
  ultimately show "paged M ?st"
    using pst unfolding paged_def by (auto simp: unmapped_def drop_ranges_def Let_def)
  show "access ?st a = (if start \<le> a \<and> a < stop \<and> removable (access st a) then None else access st a)"
    unfolding acc[symmetric] by (simp add: access_def look removable_def split: option.split)
  show "lookup_lazy_memory_map ?st a = (if start \<le> a \<and> a < stop then None else lookup_lazy_memory_map st a)"
    unfolding lazy by (simp add: lookup_lazy_memory_map_def lz)
qed

section \<open>munmap\<close>

lemma unmapped_tables:
  "unmapped M start stop (st\<lparr>intermediate_page_tables := X\<rparr>) = (unmapped M start stop st)\<lparr>intermediate_page_tables := X\<rparr>"
  by (simp add: unmapped_def drop_ranges_def ranges_to_unmap_def Let_def)

lemma unmap_ranges_mem [keeps_intro]: "keeps (has_mem p g st) (unmap_ranges E p ranges)"
  unfolding unmap_ranges_def by (auto intro!: keeps_intro)

lemma munmap_leads:
  assumes M: "mem_params_ok (mp E)" and st: "paged (mp E) st" and "addr + align_up (mp E) len (PGSIZE (mp E)) = stop"
  shows "leads (has_mem p g st)
    (\<lambda>_ s. \<exists>st'. uncut (mp E) addr stop st st' \<and> has_mem p g (unmapped (mp E) addr stop st') s) (do_munmap E p addr len)"
  unfolding do_munmap_def
proof (rule leads_control(1,2), rule leads_control(1), unfold Let_def, rule leads_lift, rule leads_bind[OF cut_leads[OF M st]],
    rule leads_ex, rule leads_pure, rule mem_task, goal_cases)
  case (1 e u st' t X)
  let ?pages = "pages_between (mp E) addr stop"
  from 1 assms(3) have e: "e = stop" by (auto simp: ok_or_def checked_add_def split: if_splits)
  have "drop_ranges ?pages (ranges_to_unmap (mp E) (task_mem t) ?pages) = drop_ranges ?pages (ranges_to_unmap (mp E) st' ?pages)"
    using 1 by (simp add: ranges_to_unmap_def)
  note same = this
  show ?case
    unfolding e same
    by (rule leads_bind[OF mem_modify[of _ _ "unmapped (mp E) addr stop st'"]])
      (use 1 e in \<open>auto simp: unmapped_def Let_def drop_ranges_def intro!: leads_andThen keeps_intro leads_ret\<close>)
qed

lemma has_mem_init: "get_process s p = Some t \<Longrightarrow> has_mem p (get_process s) (task_mem t) s"
  by (auto simp: has_mem_def intro!: exI[of _ "intermediate_page_tables (task_mem t)"])

lemma tables_irrelevant [simp]:
  "access (st\<lparr>intermediate_page_tables := X\<rparr>) = access st"
  "lookup_lazy_memory_map (st\<lparr>intermediate_page_tables := X\<rparr>) = lookup_lazy_memory_map st"
  "paged M (st\<lparr>intermediate_page_tables := X\<rparr>) = paged M st"
  by (simp_all add: access_def fun_eq_iff lookup_memory_map_def lookup_lazy_memory_map_def paged_def mm_ok_def)

lemma page_align:
  assumes "mem_params_ok M" and "len + PGSIZE M \<le> usize_max"
  shows "PGSIZE M dvd align_up M len (PGSIZE M)"
  using assms by (simp add: mem_params_ok_def)

text \<open>
  C6: \<open>munmap\<close> removes exactly its range: afterwards no address of the range, rounded up to
  whole pages, is part of a user mapping or of a mapping still to be filled, every other
  address has the permissions, the kind and the sharing it had, also when the range cuts a
  large mapping in two, the address space is still well formed and no other process
  changed.
\<close>

theorem munmap_exact:
  assumes "do_munmap E p addr len s = (Ok r, s')" and "get_process s p = Some t"
    and "mem_params_ok (mp E)" and "paged (mp E) (task_mem t)" and "len + PGSIZE (mp E) \<le> usize_max"
  defines "stop \<equiv> addr + align_up (mp E) len (PGSIZE (mp E))"
  shows "(\<exists>t'. get_process s' p = Some t' \<and> paged (mp E) (task_mem t') \<and>
      (\<forall>a. access (task_mem t') a =
             (if addr \<le> a \<and> a < stop \<and> removable (access (task_mem t) a) then None else access (task_mem t) a) \<and>
           lookup_lazy_memory_map (task_mem t') a =
             (if addr \<le> a \<and> a < stop then None else lookup_lazy_memory_map (task_mem t) a))) \<and>
    (\<forall>q. q \<noteq> p \<longrightarrow> get_process s' q = get_process s q)"
proof -
  from leadsD[OF munmap_leads[OF assms(3,4)] has_mem_init[OF assms(2)] assms(1), of stop] obtain st' where
    u: "uncut (mp E) addr stop (task_mem t) st'" and mem: "has_mem p (get_process s) (unmapped (mp E) addr stop st') s'"
    by (auto simp: stop_def)
  have "PGSIZE (mp E) dvd addr"
    using assms(1) by (auto simp: do_munmap_def throw_def mod_eq_0_iff_dvd split: if_splits)
  moreover from this page_align[OF assms(3,5)] have "PGSIZE (mp E) dvd stop" by (simp add: stop_def)
  ultimately show ?thesis
    using mem unmapped_laws[OF assms(3) u] by (auto simp: has_mem_def)
qed

text \<open>One of two pages is unmapped, the other one stays.\<close>

definition example_mm_task :: "unit task_struct" where
  "example_mm_task = upd_mem (\<lambda>_. example_mm) (example_task 1 0)"

lemma example_mm_task_simps [simp]: "task_pid example_mm_task = 1" "task_mem example_mm_task = example_mm"
  by (simp_all add: example_mm_task_def) (simp add: upd_mem_def example_task_def task_struct_new_def)

lemma example_mm_fields:
  "bt_values (memory_maps example_mm) = [example_map 0x20010000 0x1000, example_map 0x20012000 0x1000]"
  "lazy_memory_maps example_mm = []" "mmap_base example_mm = 0x20010000" "mmap_next example_mm = 0x20010000"
  "mmap_limit example_mm = 0x3dfffF0000"
  by (simp_all add: example_mm_simps bt_values_def)

lemma example_mm_paged: "paged example_mem_params example_mm"
proof -
  have "paged_map example_mem_params m" if "lookup_memory_map example_mm a = Some m" for a m
  proof -
    have "m \<in> set (bt_values (memory_maps example_mm))"
      using that example_mm_ok by (simp add: lookup_memory_map_def mm_ok_def lookup_in_exact)
    then show ?thesis
      by (auto simp: example_mm_fields paged_map_def example_map_def example_mem_params_def usize_max_def)
  qed
  moreover have "lookup_lazy_memory_map example_mm a = None" for a
    by (simp add: lookup_lazy_memory_map_def lookup_in_def bt_last_le_def example_mm_fields)
  ultimately show ?thesis
    using example_mm_ok by (simp add: paged_def example_mm_fields example_mem_params_def usize_max_def)
qed

lemma example_munmap:
  "\<exists>s'. do_munmap example_env 1 0x20012000 0x1000 (example_ape [example_mm_task]) = (Ok 0, s')"
proof -
  let ?M = example_mem_params and ?s = "example_ape [example_mm_task]"
  have len: "align_up ?M 0x1000 (PGSIZE ?M) = 0x1000" "(0x20012000 :: nat) mod PGSIZE ?M = 0"
    by (simp_all add: example_mem_params_def)
  have "split_partial_multi_page_targets ?M example_mm 0x20012000 0x20013000 = []"
    by (simp add: split_partial_multi_page_targets_def example_mm_fields List.map_filter_def map_pages_def example_map_def
        example_mem_params_def)
  then have cut: "ensure_partial_multi_page_ranges_split example_env 1 0x20012000 0x20013000 ?s = (Ok (), ?s)"
    by (simp add: ensure_partial_multi_page_ranges_split_def monad_simps)
  have pages: "pages_between ?M 0x20012000 0x20013000 = [0x20012000]"
    by (simp add: pages_between_def example_mem_params_def)
  have ranges: "ranges_to_unmap ?M example_mm [0x20012000] = [(0x20012000, 1, 1)]"
    by (simp add: ranges_to_unmap_def bt_get_def example_mm_simps is_remappable_user_mapping_def bt_entry_def map_pages_def)
  let ?s1 = "upd_task 1 (upd_mem (drop_ranges [0x20012000] [(0x20012000, 1, 1)])) ?s"
  have "alive 1 ?s1" by (simp add: alive_def)
  from okayD[OF okay_frames(2)[OF serves_example] this, of "0x20012000" 1] obtain s2 where
    "unmap_process_pages example_env 1 0x20012000 1 ?s1 = (Ok (), s2)" "alive 1 s2" by auto
  moreover from okayD[OF okay_frames(3)[OF serves_example] this(2), of 1 1] obtain s3 where
    "release_process_frame_slot example_env 1 1 1 s2 = (Ok (), s3)" by auto
  ultimately show ?thesis
    by (simp add: do_munmap_def monad_simps len cut pages ranges unmap_ranges_def checked_add_def usize_max_def Let_def
        del: One_nat_def)
qed

theorem munmap_exact_witness:
  "\<exists>s' t'. do_munmap example_env 1 0x20012000 0x1000 (example_ape [example_mm_task]) = (Ok 0, s') \<and>
     get_process s' 1 = Some t' \<and> access (task_mem t') 0x20012010 = None \<and>
     access (task_mem t') 0x20010010 = Some ({PERM_READ}, Anonymous, False)"
proof -
  obtain s' where run: "do_munmap example_env 1 0x20012000 0x1000 (example_ape [example_mm_task]) = (Ok 0, s')"
    using example_munmap by blast
  have g: "get_process (example_ape [example_mm_task]) 1 = Some example_mm_task" by simp
  have "access example_mm 0x20010010 = Some ({PERM_READ}, Anonymous, False)"
    "access example_mm 0x20012010 = Some ({PERM_READ}, Anonymous, False)"
    by (simp_all add: access_def lookup_memory_map_def lookup_in_def bt_last_le_def example_mm_simps wrap_add_def usize_max_def)
  then show ?thesis
    using munmap_exact[OF run g] example_mem_params_ok example_mm_paged run
    by (auto simp: usize_max_def example_mem_params_def removable_def is_remappable_user_mapping_def)
qed

end
