(* ===== verification/Mmap_Laws.thy ===== *)
theory Mmap_Laws
  imports Mm_Laws
begin

text \<open>
  What \<open>mmap\<close> does to the address space of its caller (\<open>src/src/mm/mod.rs\<close>): the pages of an
  anonymous mapping are mapped at once, those of a file mapping are entered as lazy maps.
\<close>

section \<open>The pages of a new mapping\<close>

definition anonymous_page :: "('i, 'w) env \<Rightarrow> perms \<Rightarrow> usize \<Rightarrow> capptr list \<Rightarrow> nat \<Rightarrow> memory_map" where
  "anonymous_page E prm start slots i = page_map E (start + i * PGSIZE (mp E)) prm Anonymous (slots ! i) None 0"

definition file_page :: "('i, 'w) env \<Rightarrow> perms \<Rightarrow> usize \<Rightarrow> nat \<Rightarrow> usize \<Rightarrow> nat \<Rightarrow> memory_map" where
  "file_page E prm start fd off i =
     page_map E (start + i * PGSIZE (mp E)) prm FileBacked 0 (Some fd) (off + i * PGSIZE (mp E))"

definition filled :: "('i, 'w) env \<Rightarrow> usize \<Rightarrow> nat \<Rightarrow> perms \<Rightarrow> (nat \<times> usize) option \<Rightarrow> mm_state \<Rightarrow> mm_state \<Rightarrow> bool" where
  "filled E start n prm backing st st' \<longleftrightarrow>
     (case backing of
        None \<Rightarrow> \<exists>slots. length slots = n \<and> st' = fold add_memory_map (map (anonymous_page E prm start slots) [0..<n]) st
      | Some (fd, off) \<Rightarrow> st' = fold add_lazy_memory_map (map (file_page E prm start fd off) [0..<n]) st)"

lemma mem_add: "leads (has_mem p g st) (\<lambda>_. has_mem p g (add_memory_map m st)) (modify (upd_task p (upd_mem (add_memory_map m))))"
  by (rule mem_modify) (rule add_map_tables)

lemma mem_add_then:
  "leads (has_mem p g (add_memory_map m st)) Q k \<Longrightarrow>
   leads (has_mem p g st) Q (andThen (modify (upd_task p (upd_mem (add_memory_map m)))) (\<lambda>_. k))"
  by (rule leads_bind[OF mem_add])

lemma mem_set: "leads (has_mem p g st) (\<lambda>_. has_mem p g st') (modify (upd_task p (upd_mem (\<lambda>_. st'\<lparr>intermediate_page_tables := X\<rparr>))))"
  by (auto simp: leads_def modify_def has_mem_def)

lemma eager_rows:
  "leads (has_mem p g st) (\<lambda>_ s. \<exists>slots. length slots = length pages \<and>
      has_mem p g (fold add_memory_map (map2 (\<lambda>page c. page_map E page prm Anonymous c None 0) pages slots) st) s)
    (eager_loop E p prm pages mapped)"
proof (induction pages arbitrary: st mapped)
  case Nil
  show ?case by (auto intro!: leads_ret)
next
  case (Cons page pages)
  show ?case
    unfolding eager_loop.simps
  proof (rule leads_andThen[OF mem_steps(1)], rule leads_andThen[OF keeps_attempt[OF mem_steps(1)]], rule leads_case_sum,
      goal_cases)
    case (2 slot a u)
    show ?case
    proof (rule leads_andThen[OF mem_steps(5)], rule leads_andThen[OF keeps_attempt[OF mem_steps(3)]], rule leads_case_sum,
        goal_cases)
      case (2 x b v)
      show ?case
      proof (rule mem_add_then, rule leads_weaken[OF Cons.IH], elim exE conjE, goal_cases)
        case (1 y s slots)
        then show ?case by (intro exI[of _ "slot # slots"]) simp
      qed
    qed (intro leads_fails leads_control(1))
  qed (intro leads_fails leads_control(1))
qed

lemma lazy_rows:
  assumes "lazy_file_pages E prm fd off start pages st = (Ok (), st')"
  shows "st' = fold add_lazy_memory_map (map (\<lambda>page. page_map E page prm FileBacked 0 (Some fd) (off + (page - start))) pages) st"
  using assms
  by (induction pages arbitrary: st) (auto simp: checked_add_def split: if_splits option.splits)

lemma pages_row:
  assumes "0 < PGSIZE M" and "stop = start + n * PGSIZE M"
  shows "pages_between M start stop = map (\<lambda>i. start + i * PGSIZE M) [0..<n]"
proof -
  have "(n * PGSIZE M + (PGSIZE M - 1)) div PGSIZE M = n"
    using assms(1) by (intro div_nat_eqI) (auto simp: mult.commute[of n])
  with assms(2) show ?thesis by (simp add: pages_between_def)
qed

lemma fill_leads:
  assumes "0 < PGSIZE (mp E)" and stop: "stop = start + n * PGSIZE (mp E)"
  shows "leads (has_mem p g st) (\<lambda>_ s. \<exists>st'. filled E start n prm backing st st' \<and> has_mem p g st' s)
    (fill_range E p start stop prm backing)"
proof (cases backing)
  case None
  let ?pages = "map (\<lambda>i. start + i * PGSIZE (mp E)) [0..<n]"
  have row: "map2 (\<lambda>page c. page_map E page prm Anonymous c None 0) ?pages slots = map (anonymous_page E prm start slots) [0..<n]"
    if "length slots = n" for slots
    using that by (intro nth_equalityI) (auto simp: anonymous_page_def)
  show ?thesis
    unfolding None fill_range_def map_anonymous_range_eager_def pages_row[OF assms] option.case
  proof (rule leads_weaken[OF eager_rows], elim exE conjE, goal_cases)
    case (1 x s slots)
    then have "length slots = n" by simp
    with 1 row[OF this] show ?case by (auto simp: filled_def)
  qed
next
  case (Some b)
  obtain fd off where b: "b = (fd, off)" by fastforce
  let ?new = "map (file_page E prm start fd off) [0..<n]"
  show ?thesis
    unfolding Some b fill_range_def pages_row[OF assms] option.case prod.case
  proof (rule mem_task, rule leads_control(4), goal_cases)
    case (1 t X r st')
    show ?case
    proof (cases "r = Ok ()")
      case True
      from lazy_rows[OF 1(2)[unfolded True]] have "st' = (fold add_lazy_memory_map ?new st)\<lparr>intermediate_page_tables := X\<rparr>"
        by (simp add: 1(1) fold_lazy_tables file_page_def[abs_def] comp_def)
      with True show ?thesis
        by (simp only:, intro leads_bind[OF mem_set[of p g st "fold add_lazy_memory_map ?new st" X]])
          (simp add: filled_def lift_res_def leads_def)
    next
      case False
      then show ?thesis by (auto simp: leads_def andThen_Ok lift_res_def)
    qed
  qed
qed

lemma page_in_row:
  assumes "0 < (pg :: nat)" and "pg dvd start" and "start \<le> a" and "a < start + n * pg"
  shows "pg dvd start + (a - start) div pg * pg" and "start + (a - start) div pg * pg + pg \<le> start + n * pg"
proof -
  show dvd: "pg dvd start + (a - start) div pg * pg" using assms(2) by (intro dvd_add) simp_all
  have "(a - start) div pg * pg \<le> a - start" by simp
  with assms(3,4) have "start + (a - start) div pg * pg < start + n * pg" by linarith
  with assms(2) show "start + (a - start) div pg * pg + pg \<le> start + n * pg"
    using dvd by (intro whole_page) simp_all
qed

lemma anonymous_laws:
  fixes prm :: perms and slots :: "capptr list"
  assumes M: "mem_params_ok (mp E)" and st: "paged (mp E) st" and start: "PGSIZE (mp E) dvd start"
    and top: "start + n * PGSIZE (mp E) + PGSIZE (mp E) \<le> usize_max"
    and free: "\<And>a. start \<le> a \<Longrightarrow> a < start + n * PGSIZE (mp E) \<Longrightarrow> lookup_memory_map st a = None \<and> lookup_lazy_memory_map st a = None"
  defines "st' \<equiv> fold add_memory_map (map (anonymous_page E prm start slots) [0..<n]) st"
  shows "paged (mp E) st'" and "lookup_lazy_memory_map st' = lookup_lazy_memory_map st"
    and "access st' a = (if start \<le> a \<and> a < start + n * PGSIZE (mp E) then Some (prm, Anonymous, False) else access st a)"
proof -
  let ?pg = "PGSIZE (mp E)" and ?e = "anonymous_page E prm start slots"
  note pos = params_pos[OF M]
  have e: "map_vaddr (?e i) = start + i * ?pg \<and> map_size (?e i) = ?pg" for i
    by (simp add: anonymous_page_def page_map_def)
  have maps: "memory_maps st' = insert_maps (map ?e [0..<n]) (memory_maps st)" by (simp add: st'_def fold_add_maps)
  have ok: "maps_ok (memory_maps st')"
    unfolding maps by (rule row_insert(1)[OF pos e pagedD(1)[OF st]]) (use top free in \<open>auto simp: lookup_memory_map_def\<close>)
  have ins: "lookup_memory_map st' b = (if start \<le> b \<and> b < start + n * ?pg then Some (?e ((b - start) div ?pg)) else lookup_memory_map st b)" for b
    unfolding maps lookup_memory_map_def
    by (rule row_insert(2)[OF pos e pagedD(1)[OF st]]) (use top free in \<open>auto simp: lookup_memory_map_def\<close>)
  show lazy: "lookup_lazy_memory_map st' = lookup_lazy_memory_map st"
    by (simp add: st'_def lookup_lazy_memory_map_def fun_eq_iff fold_add_maps)
  have "mm_ok st'"
    unfolding mm_ok_iff using ok pagedD(2)[OF st] pagedD(5)[OF st] free
    by (auto simp: ins lazy) (simp add: st'_def fold_add_maps)
  moreover have "paged_map (mp E) m" if l: "lookup_memory_map st' b = Some m" for b m
  proof (cases "start \<le> b \<and> b < start + n * ?pg")
    case True
    then have m: "m = ?e ((b - start) div ?pg)" using l by (simp add: ins)
    from page_in_row[OF pos start, of b n] True top show ?thesis
      unfolding m by (auto simp: paged_map_def e)
  qed (use l ins pagedD(3)[OF st] in auto)
  ultimately show "paged (mp E) st'"
    using st unfolding paged_def lazy by (auto simp: st'_def fold_add_maps)
  show "access st' a = (if start \<le> a \<and> a < start + n * ?pg then Some (prm, Anonymous, False) else access st a)"
    by (simp add: access_def ins anonymous_page_def page_map_def)
qed

lemma file_laws:
  fixes prm :: perms and fd :: nat and off :: usize
  assumes M: "mem_params_ok (mp E)" and st: "paged (mp E) st" and start: "PGSIZE (mp E) dvd start"
    and top: "start + n * PGSIZE (mp E) + PGSIZE (mp E) \<le> usize_max"
    and free: "\<And>a. start \<le> a \<Longrightarrow> a < start + n * PGSIZE (mp E) \<Longrightarrow> lookup_memory_map st a = None \<and> lookup_lazy_memory_map st a = None"
  defines "st' \<equiv> fold add_lazy_memory_map (map (file_page E prm start fd off) [0..<n]) st"
  shows "paged (mp E) st'" and "access st' = access st"
    and "lookup_lazy_memory_map st' a = (if start \<le> a \<and> a < start + n * PGSIZE (mp E)
      then Some (file_page E prm start fd off ((a - start) div PGSIZE (mp E))) else lookup_lazy_memory_map st a)"
proof -
  let ?pg = "PGSIZE (mp E)" and ?e = "file_page E prm start fd off"
  note pos = params_pos[OF M]
  have e: "map_vaddr (?e i) = start + i * ?pg \<and> map_size (?e i) = ?pg" for i
    by (simp add: file_page_def page_map_def)
  have maps: "lazy_memory_maps st' = insert_maps (map ?e [0..<n]) (lazy_memory_maps st)" by (simp add: st'_def fold_lazy_maps)
  have ok: "maps_ok (lazy_memory_maps st')"
    unfolding maps by (rule row_insert(1)[OF pos e pagedD(2)[OF st]]) (use top free in \<open>auto simp: lookup_lazy_memory_map_def\<close>)
  have ins: "lookup_lazy_memory_map st' b = (if start \<le> b \<and> b < start + n * ?pg then Some (?e ((b - start) div ?pg)) else lookup_lazy_memory_map st b)" for b
    unfolding maps lookup_lazy_memory_map_def
    by (rule row_insert(2)[OF pos e pagedD(2)[OF st]]) (use top free in \<open>auto simp: lookup_lazy_memory_map_def\<close>)
  have mapped: "lookup_memory_map st' = lookup_memory_map st"
    by (simp add: st'_def lookup_memory_map_def fun_eq_iff fold_lazy_maps)
  then show "access st' = access st" by (simp add: access_def fun_eq_iff)
  have "mm_ok st'"
    unfolding mm_ok_iff using ok pagedD(1)[OF st] pagedD(5)[OF st] free
    by (auto simp: ins mapped) (simp add: st'_def fold_lazy_maps)
  moreover have "?pg dvd map_vaddr m \<and> map_size m = ?pg" if l: "lookup_lazy_memory_map st' b = Some m" for b m
  proof (cases "start \<le> b \<and> b < start + n * ?pg")
    case True
    then have m: "m = ?e ((b - start) div ?pg)" using l by (simp add: ins)
    then show ?thesis using start by (simp add: e)
  qed (use l ins pagedD(4)[OF st] in auto)
  ultimately show "paged (mp E) st'"
    using st unfolding paged_def mapped by (auto simp: st'_def fold_lazy_maps)
  show "lookup_lazy_memory_map st' a = (if start \<le> a \<and> a < start + n * ?pg
      then Some (?e ((a - start) div ?pg)) else lookup_lazy_memory_map st a)" by (rule ins)
qed

section \<open>mmap\<close>

text \<open>The address space with a new mapping in a range, whatever the range held before.\<close>

definition maps_to ::
  "('i, 'w) env \<Rightarrow> usize \<Rightarrow> usize \<Rightarrow> perms \<Rightarrow> (nat \<times> usize) option \<Rightarrow> mm_state \<Rightarrow> mm_state \<Rightarrow> bool" where
  "maps_to E start stop prm backing st st' \<longleftrightarrow> paged (mp E) st' \<and>
     (\<forall>a. if start \<le> a \<and> a < stop
          then (case backing of
              None \<Rightarrow> access st' a = Some (prm, Anonymous, False) \<and> lookup_lazy_memory_map st' a = None
            | Some (fd, off) \<Rightarrow> access st' a = None \<and>
                lookup_lazy_memory_map st' a = Some (file_page E prm start fd off ((a - start) div PGSIZE (mp E))))
          else access st' a = access st a \<and> lookup_lazy_memory_map st' a = lookup_lazy_memory_map st a)"

lemma bump_laws:
  "access (bump_mmap_next e st) = access st"
  "lookup_lazy_memory_map (bump_mmap_next e st) = lookup_lazy_memory_map st"
  "paged M st \<Longrightarrow> PGSIZE M dvd e \<Longrightarrow> paged M (bump_mmap_next e st)"
  by (simp_all add: access_def fun_eq_iff lookup_memory_map_def lookup_lazy_memory_map_def paged_def mm_ok_def
      bump_mmap_next_def max_def)

lemma filled_maps:
  assumes M: "mem_params_ok (mp E)" and st1: "paged (mp E) st1" and "PGSIZE (mp E) dvd start"
    and stop: "stop = start + n * PGSIZE (mp E)" and top: "stop + PGSIZE (mp E) \<le> usize_max"
    and free: "\<And>a. start \<le> a \<Longrightarrow> a < stop \<Longrightarrow> access st1 a = None \<and> lookup_lazy_memory_map st1 a = None"
    and same: "\<And>a. \<not> (start \<le> a \<and> a < stop) \<Longrightarrow>
      access st1 a = access st a \<and> lookup_lazy_memory_map st1 a = lookup_lazy_memory_map st a"
    and f: "filled E start n prm backing st1 st2"
  shows "maps_to E start stop prm backing st (bump_mmap_next stop st2)"
proof -
  let ?pg = "PGSIZE (mp E)"
  have free': "lookup_memory_map st1 a = None \<and> lookup_lazy_memory_map st1 a = None" if "start \<le> a" "a < start + n * ?pg" for a
    using free[of a] that stop by (simp add: access_def)
  note pre = M st1 assms(3) top[unfolded stop] free'
  have "paged (mp E) st2 \<and> (\<forall>a. if start \<le> a \<and> a < stop
      then (case backing of None \<Rightarrow> access st2 a = Some (prm, Anonymous, False) \<and> lookup_lazy_memory_map st2 a = None
          | Some (fd, off) \<Rightarrow> access st2 a = None \<and>
              lookup_lazy_memory_map st2 a = Some (file_page E prm start fd off ((a - start) div ?pg)))
      else access st2 a = access st1 a \<and> lookup_lazy_memory_map st2 a = lookup_lazy_memory_map st1 a)"
  proof (cases backing)
    case None
    with f obtain slots where s2: "st2 = fold add_memory_map (map (anonymous_page E prm start slots) [0..<n]) st1"
      by (auto simp: filled_def)
    show ?thesis
      using anonymous_laws[OF pre, of prm slots] free' None by (simp add: s2 stop)
  next
    case (Some b)
    obtain fd off where b: "b = (fd, off)" by fastforce
    from f have s2: "st2 = fold add_lazy_memory_map (map (file_page E prm start fd off) [0..<n]) st1"
      by (simp add: filled_def Some b)
    show ?thesis
      using file_laws[OF pre, of prm fd off] free' Some b by (simp add: s2 stop access_def)
  qed
  moreover have "?pg dvd stop" using assms(3) stop by simp
  ultimately show ?thesis
    unfolding maps_to_def bump_laws(1,2) using same by (simp add: bump_laws(3))
qed

lemma bump_tables:
  "bump_mmap_next e (st\<lparr>intermediate_page_tables := X\<rparr>) = (bump_mmap_next e st)\<lparr>intermediate_page_tables := X\<rparr>"
  by (simp add: bump_mmap_next_def)

lemma mem_bump: "leads (has_mem p g (bump_mmap_next e st)) Q k \<Longrightarrow>
   leads (has_mem p g st) Q (andThen (modify (upd_task p (upd_mem (bump_mmap_next e)))) (\<lambda>_. k))"
  by (rule leads_bind[OF mem_modify]) (rule bump_tables)

lemma free_range_unmapped:
  assumes "paged M st" and "range_is_free st start stop" and "start \<le> a" and "a < stop"
  shows "access st a = None \<and> lookup_lazy_memory_map st a = None"
proof -
  note ok = pagedD(1,2)[OF assms(1)] and D = range_is_freeD[OF assms(2)]
  have "\<not> covers m a" if "m \<in> set (bt_values ms)" "maps_ok ms" "\<not> has_overlap start stop (map_vaddr m) (map_size m)" for m ms
  proof
    assume "covers m a"
    then have "lookup_in ms a = Some m" using that by (simp add: lookup_in_exact)
    from lookup_bounds[OF that(2) this] that(3) assms(3,4) show False by (simp add: has_overlap_iff)
  qed
  with ok D(6,7) have "lookup_in (memory_maps st) a \<noteq> Some m" "lookup_in (lazy_memory_maps st) a \<noteq> Some m" for m
    by (auto simp: lookup_in_exact)
  then show ?thesis by (auto simp: access_def lookup_memory_map_def lookup_lazy_memory_map_def)
qed

lemma gap_tables:
  "find_gap k M (st\<lparr>intermediate_page_tables := X\<rparr>) len c = find_gap k M st len c"
  "gap_fuel M (st\<lparr>intermediate_page_tables := X\<rparr>) = gap_fuel M st"
proof -
  have "range_is_free (st\<lparr>intermediate_page_tables := X\<rparr>) = range_is_free st"
    by (simp add: fun_eq_iff range_is_free_def)
  then show "find_gap k M (st\<lparr>intermediate_page_tables := X\<rparr>) len c = find_gap k M st len c"
    by (induction k arbitrary: c) (simp_all split: option.split)
qed (simp add: gap_fuel_def)

lemma anywhere_leads:
  assumes M: "mem_params_ok (mp E)" and st: "paged (mp E) st" and len: "len = n * PGSIZE (mp E)"
  shows "leads (has_mem p g st)
    (\<lambda>start s. PGSIZE (mp E) dvd start \<and> range_is_free st start (start + len) \<and>
       (\<exists>st'. maps_to E start (start + len) prm backing st st' \<and> has_mem p g st' s))
    (mmap_anywhere E p addr len prm backing)"
  unfolding mmap_anywhere_def Let_def
proof (rule mem_task, rule leads_lift, goal_cases)
  case (1 t X start)
  let ?pg = "PGSIZE (mp E)"
  let ?c = "max (if addr \<noteq> 0 then align_down (mp E) addr ?pg else mmap_next st) (mmap_base st)"
  from 1 have "find_gap (gap_fuel (mp E) st) (mp E) st len ?c = Some start"
    by (auto simp: gap_tables ok_or_def split: option.splits)
  from find_gap_Some[OF this] obtain k where k: "start = ?c + k * ?pg" and free: "range_is_free st start (start + len)" by blast
  have "?pg dvd ?c" using st M by (auto simp: paged_def mem_params_ok_def max_def)
  then have start: "?pg dvd start" by (simp add: k)
  have top: "start + len + ?pg \<le> usize_max" using range_is_freeD(2)[OF free] st by (simp add: paged_def)
  then have stop: "wrap_add start len = start + len" by simp
  have maps: "maps_to E start (start + len) prm backing st (bump_mmap_next (start + len) st2)"
    if "filled E start n prm backing st st2" for st2
    by (rule filled_maps[OF M st start _ top free_range_unmapped[OF st free] _ that]) (simp_all add: len)
  show ?case
    unfolding stop
  proof (rule leads_bind[OF fill_leads[where n = n, OF params_pos[OF M]]], goal_cases)
    case (2 x)
    show ?case
      by (rule leads_ex, rule leads_pure, rule mem_task, rule mem_bump, rule leads_ret) (use start free maps in blast)
  qed (simp add: len)
qed

text \<open>The fixed mapping first removes what its range holds; it is refused over anything that is not a user mapping.\<close>

lemma accepted_unmapped:
  assumes M: "mem_params_ok M" and u: "uncut M start stop st st1" and "PGSIZE M dvd start" "PGSIZE M dvd stop"
    and ok: "fixed_refused st1 start stop = None" and a: "start \<le> a" "a < stop"
  shows "access (unmapped M start stop st1) a = None"
proof -
  from u have st1: "paged M st1" and acc: "access st1 = access st" by (simp_all add: uncut_def)
  have "removable (access st1 a)" if "access st1 a \<noteq> None"
  proof -
    from that obtain m where m: "lookup_memory_map st1 a = Some m" by (auto simp: access_def)
    note l = m[unfolded lookup_memory_map_def] and ms = pagedD(1)[OF st1]
    note b = lookup_bounds[OF ms l]
    have "m \<in> set (bt_values (memory_maps st1))" using b(5) by (simp add: in_values_iff[OF ms])
    moreover have "has_overlap start stop (map_vaddr m) (map_size m)" using b a by (simp add: has_overlap_iff)
    ultimately have "is_remappable_user_mapping (mem_type m)"
      using ok by (auto simp: fixed_refused_def split: if_splits)
    with m show ?thesis by (simp add: access_def removable_def)
  qed
  with a acc unmapped_laws(2)[OF M u assms(3,4), of a] show ?thesis by (cases "access st a = None") simp_all
qed

lemma refused_tables: "fixed_refused (st\<lparr>intermediate_page_tables := X\<rparr>) = fixed_refused st"
  by (simp add: fun_eq_iff fixed_refused_def)

lemma fixed_leads:
  assumes M: "mem_params_ok (mp E)" and st: "paged (mp E) st" and len: "len = n * PGSIZE (mp E)"
  shows "leads (has_mem p g st)
    (\<lambda>r s. r = start \<and> PGSIZE (mp E) dvd start \<and>
       (\<exists>st'. maps_to E start (start + len) prm backing st st' \<and> has_mem p g st' s))
    (mmap_fixed E p start len prm backing)"
  unfolding mmap_fixed_def
proof (rule leads_control(2), rule leads_control(1), rule leads_lift, rule leads_bind[OF cut_leads[OF M st]],
    rule leads_ex, rule leads_pure, rule mem_task, rule leads_case_option, goal_cases)
  case (1 stop u st1 t X)
  let ?pg = "PGSIZE (mp E)" and ?pages = "pages_between (mp E) start stop"
  from 1 have start: "?pg dvd start" and stop: "stop = start + len"
    by (auto simp: ok_or_def checked_add_def mod_eq_0_iff_dvd split: if_splits)
  then have dvd: "?pg dvd stop" by (simp add: len)
  have refused: "fixed_refused st1 start stop = None" using 1 by (simp add: refused_tables)
  then have "stop \<le> mmap_limit st1" by (auto simp: fixed_refused_def split: if_splits)
  with 1 have top: "stop + ?pg \<le> usize_max" by (simp add: uncut_def paged_def)
  have u: "uncut (mp E) start stop st st1" using 1 by simp
  let ?st = "unmapped (mp E) start stop st1"
  note laws = unmapped_laws[OF M u start dvd]
  have maps: "maps_to E start (start + len) prm backing st (bump_mmap_next stop st2)"
    if "filled E start n prm backing ?st st2" for st2
    unfolding stop[symmetric]
    by (rule filled_maps[OF M laws(1) start _ top _ _ that])
      (use laws(2,3) accepted_unmapped[OF M u start dvd refused] in \<open>auto simp: stop len\<close>)
  have same: "drop_ranges ?pages (ranges_to_unmap (mp E) (task_mem t) ?pages) =
      drop_ranges ?pages (ranges_to_unmap (mp E) st1 ?pages)"
    using 1 by (simp add: ranges_to_unmap_def)
  show ?case
    unfolding Let_def same
  proof (rule leads_bind[OF mem_modify[of _ _ ?st]], goal_cases)
    case (1 X)
    show ?case by (simp add: unmapped_def Let_def drop_ranges_def)
  next
    case (2 x)
    show ?case
    proof (rule leads_andThen[OF unmap_ranges_mem], rule leads_bind[OF fill_leads[where n = n, OF params_pos[OF M]]], goal_cases)
      case (2 y z)
      show ?case
        by (rule leads_ex, rule leads_pure, rule mem_bump, rule leads_ret) (use start maps in blast)
    qed (simp add: stop len)
  qed
qed (rule leads_control(1))

lemma page_offset:
  assumes "start \<le> (a :: nat)"
  shows "off + (a - start) div pg * pg + (a - (start + (a - start) div pg * pg)) = off + (a - start)"
proof -
  have "(a - start) div pg * pg \<le> a - start" by simp
  with assms show ?thesis by linarith
qed

lemma backing_leads:
  "leads (has_mem p g st) (\<lambda>b s. b = (if flags AND MAP_ANONYMOUS \<noteq> 0 then None else Some (fd, off)) \<and> has_mem p g st s)
     (mmap_backing p flags fd off)"
  unfolding mmap_backing_def
proof (rule leads_control(2), goal_cases)
  case 2
  then show ?case
    by (intro leads_lift mem_task) (auto intro!: leads_ret simp: u32_try_from_def ok_or_def split: if_splits file_type.split)
qed (simp add: leads_ret)

text \<open>
  C7: \<open>mmap\<close> installs exactly the mapping it was asked for: the address it returns is on a page
  boundary, is the requested one for a fixed mapping and starts a free range otherwise;
  afterwards every address of the range has the permissions of the call, for an anonymous
  mapping at once and for a file mapping as a page to be filled from the byte of the file
  that belongs to the address; every other address is as it was, the address space is still
  well formed and no other process changed.
\<close>

theorem mmap_exact:
  assumes "do_mmap E p addr len prot flags fd off s = (Ok start, s')" and "get_process s p = Some t"
    and "mem_params_ok (mp E)" and "paged (mp E) (task_mem t)" and "len + PGSIZE (mp E) \<le> usize_max"
  defines "stop \<equiv> start + align_up (mp E) len (PGSIZE (mp E))"
  shows "\<exists>t'. get_process s' p = Some t' \<and> paged (mp E) (task_mem t') \<and> PGSIZE (mp E) dvd start \<and>
    (if flags AND MAP_FIXED \<noteq> 0 then start = addr else range_is_free (task_mem t) start stop) \<and>
    (\<forall>a. start \<le> a \<and> a < stop \<longrightarrow>
       (if flags AND MAP_ANONYMOUS \<noteq> 0 then access (task_mem t') a = Some (prot_to_perms prot, Anonymous, False)
        else \<exists>m. lookup_lazy_memory_map (task_mem t') a = Some m \<and> map_flags m = prot_to_perms prot \<and>
          file_backing_fd m = Some fd \<and> file_backing_offset m + (a - map_vaddr m) = off + (a - start))) \<and>
    (\<forall>a. \<not> (start \<le> a \<and> a < stop) \<longrightarrow> access (task_mem t') a = access (task_mem t) a \<and>
       lookup_lazy_memory_map (task_mem t') a = lookup_lazy_memory_map (task_mem t) a) \<and>
    (\<forall>q. q \<noteq> p \<longrightarrow> get_process s' q = get_process s q)"
proof -
  let ?pg = "PGSIZE (mp E)" and ?b = "if flags AND MAP_ANONYMOUS \<noteq> 0 then None else Some (fd, off)"
  let ?len = "align_up (mp E) len ?pg" and ?g = "get_process s" and ?st = "task_mem t"
  from page_align[OF assms(3,5)] obtain n where n: "?len = n * ?pg" by (metis dvdE mult.commute)
  let ?Q = "\<lambda>r s'. ?pg dvd r \<and> (if flags AND MAP_FIXED \<noteq> 0 then r = addr else range_is_free ?st r (r + ?len)) \<and>
      (\<exists>st'. maps_to E r (r + ?len) (prot_to_perms prot) ?b ?st st' \<and> has_mem p ?g st' s')"
  have "leads (has_mem p ?g ?st) ?Q (do_mmap E p addr len prot flags fd off)"
    unfolding do_mmap_def
    by (intro leads_control(1,2) leads_bind[OF backing_leads] leads_pure)
      (auto simp: Let_def intro!: leads_weaken[OF fixed_leads[OF assms(3,4) n]] leads_weaken[OF anywhere_leads[OF assms(3,4) n]])
  from leadsD[OF this has_mem_init[OF assms(2)] assms(1)] obtain st' where
    start: "?pg dvd start" "if flags AND MAP_FIXED \<noteq> 0 then start = addr else range_is_free ?st start stop"
    and maps: "maps_to E start stop (prot_to_perms prot) ?b ?st st'" and mem: "has_mem p ?g st' s'"
    by (auto simp: stop_def)
  from mem obtain t' X where t': "get_process s' p = Some t'" "task_mem t' = st'\<lparr>intermediate_page_tables := X\<rparr>"
    and others: "\<forall>q. q \<noteq> p \<longrightarrow> get_process s' q = get_process s q" by (auto simp: has_mem_def)
  have new: "if flags AND MAP_ANONYMOUS \<noteq> 0 then access st' a = Some (prot_to_perms prot, Anonymous, False)
      else \<exists>m. lookup_lazy_memory_map st' a = Some m \<and> map_flags m = prot_to_perms prot \<and>
        file_backing_fd m = Some fd \<and> file_backing_offset m + (a - map_vaddr m) = off + (a - start)"
    if "start \<le> a \<and> a < stop" for a
    using maps that page_offset[OF that[THEN conjunct1], of off ?pg] by (auto simp: maps_to_def file_page_def page_map_def split: if_splits)
  show ?thesis
    using t' start others maps new by (intro exI[of _ t']) (auto simp: maps_to_def)
qed

text \<open>One anonymous page goes into the gap between the two pages of the example.\<close>

lemma example_gap: "find_gap (gap_fuel example_mem_params example_mm) example_mem_params example_mm 0x1000 0x20010000 = Some 0x20011000"
proof -
  obtain k where k: "gap_fuel example_mem_params example_mm = Suc (Suc k)"
    by (metis gap_fuel_def add_2_eq_Suc')
  have "range_is_free example_mm 0x20011000 0x20012000" "\<not> range_is_free example_mm 0x20010000 0x20011000"
    by (simp_all add: range_is_free_def has_overlap_def example_mm_fields)
      (simp_all add: example_mm_simps has_overlap_def sat_add_def sat_sub_def usize_max_def bt_values_def)
  then show ?thesis
    by (simp add: k checked_add_def usize_max_def example_mm_fields sat_add_def) (simp add: example_mem_params_def)
qed

lemma okay_eager: "okay (alive p) (eager_loop example_env p prm pages mapped)"
  by (induction pages arbitrary: mapped) (auto intro!: okay_intro okay_frames[OF serves_example])

lemma example_mmap:
  "\<exists>s'. do_mmap example_env 1 0 0x1000 (PROT_READ OR PROT_WRITE) (MAP_PRIVATE OR MAP_ANONYMOUS) 0 0
     (example_ape [example_mm_task]) = (Ok 0x20011000, s')"
proof -
  let ?s = "example_ape [example_mm_task]" and ?prm = "prot_to_perms (PROT_READ OR PROT_WRITE)"
  have "alive 1 ?s" by (simp add: alive_def)
  from okayD[OF okay_eager this, of ?prm "pages_between example_mem_params 0x20011000 0x20012000" "[]"] obtain s1 where
    "fill_range example_env 1 0x20011000 0x20012000 ?prm None ?s = (Ok (), s1)" "alive 1 s1"
    by (auto simp: fill_range_def map_anonymous_range_eager_def)
  moreover have "align_up example_mem_params 0x1000 (PGSIZE example_mem_params) = 0x1000"
    by (simp add: example_mem_params_def)
  ultimately show ?thesis
    by (auto simp: do_mmap_def mmap_backing_def mmap_anywhere_def monad_simps Let_def example_gap example_mm_fields
        wrap_add_def usize_max_def alive_def simp del: One_nat_def)
qed

theorem mmap_exact_witness:
  "\<exists>s' t'. do_mmap example_env 1 0 0x1000 (PROT_READ OR PROT_WRITE) (MAP_PRIVATE OR MAP_ANONYMOUS) 0 0
       (example_ape [example_mm_task]) = (Ok 0x20011000, s') \<and>
     get_process s' 1 = Some t' \<and>
     access (task_mem t') 0x20011800 = Some ({PERM_READ, PERM_WRITE}, Anonymous, False) \<and>
     access (task_mem t') 0x20010010 = access example_mm 0x20010010"
proof -
  obtain s' where run: "do_mmap example_env 1 0 0x1000 (PROT_READ OR PROT_WRITE) (MAP_PRIVATE OR MAP_ANONYMOUS) 0 0
      (example_ape [example_mm_task]) = (Ok 0x20011000, s')"
    using example_mmap by blast
  have g: "get_process (example_ape [example_mm_task]) 1 = Some example_mm_task" by simp
  have M: "mem_params_ok (mp example_env)" "paged (mp example_env) (task_mem example_mm_task)"
    "0x1000 + PGSIZE (mp example_env) \<le> usize_max" "align_up (mp example_env) 0x1000 (PGSIZE (mp example_env)) = 0x1000"
    using example_mem_params_ok example_mm_paged by (simp_all add: usize_max_def example_mem_params_def)
  have flags: "((MAP_PRIVATE OR MAP_ANONYMOUS) AND MAP_ANONYMOUS :: 32 word) \<noteq> 0"
    "prot_to_perms (PROT_READ OR PROT_WRITE) = {PERM_READ, PERM_WRITE}"
    by (simp_all add: prot_to_perms_def insert_commute)
  from mmap_exact[OF run g M(1-3)] run show ?thesis
    unfolding M(4) flags(2) using flags(1) by auto
qed

end
