(* ===== verification/Fork_Laws.thy ===== *)
theory Fork_Laws
  imports Lifecycle Map_Laws Example_Runs
begin

text \<open>
  What \<open>fork\<close> shares (\<open>src/src/task/lifecycle.rs\<close>): the maps of parent and child at every
  address, the owners of the frames, and what the child takes over.
\<close>

section \<open>Parent and child\<close>

abbreviation with_tables :: "(usize \<times> usize, capptr) btree \<Rightarrow> 'i task_struct \<Rightarrow> 'i task_struct" where
  "with_tables X \<equiv> upd_mem (\<lambda>m. m\<lparr>intermediate_page_tables := X\<rparr>)"

text \<open>The records of the two processes, up to their page tables, and the counters of shared frames.\<close>

definition has_pair ::
  "usize \<Rightarrow> usize \<Rightarrow> (usize \<Rightarrow> 'i task_struct option) \<Rightarrow> 'i task_struct \<Rightarrow> 'i task_struct \<Rightarrow> (capptr, usize) btree \<Rightarrow>
   ('i, 'p, 'w) ape \<Rightarrow> bool" where
  "has_pair p c g tp tc R s \<longleftrightarrow>
     (\<forall>q. q \<noteq> p \<longrightarrow> q \<noteq> c \<longrightarrow> get_process s q = g q) \<and>
     (\<exists>X. get_process s p = Some (with_tables X tp)) \<and> (\<exists>X. get_process s c = Some (with_tables X tc)) \<and>
     frame_cap_refs (ts s) = R"

lemma has_pair_world [simp]: "has_pair p c g tp tc R (s\<lparr>world := w\<rparr>) = has_pair p c g tp tc R s"
  by (simp add: has_pair_def)

lemma has_pair_tables:
  assumes "p \<noteq> c" and "has_pair p c g tp tc R s" and "tables_only q s s'" and "q = p \<or> q = c"
  shows "has_pair p c g tp tc R s'"
proof -
  from assms(2) obtain X Y where x: "get_process s p = Some (with_tables X tp)" "get_process s c = Some (with_tables Y tc)"
    by (auto simp: has_pair_def)
  from assms(3) obtain f where f: "get_process s' q = map_option (upd_mem (intermediate_page_tables_update f)) (get_process s q)"
    and o: "\<And>r. r \<noteq> q \<Longrightarrow> get_process s' r = get_process s r"
    and ts: "(ts s')\<lparr>tasks := []\<rparr> = (ts s)\<lparr>tasks := []\<rparr>" by (auto simp: tables_only_def)
  have "frame_cap_refs (ts s') = frame_cap_refs (ts s)" using arg_cong[OF ts, of frame_cap_refs] by simp
  moreover have "get_process s' p = Some (with_tables (if q = p then f X else X) tp)"
    using f o[of p] x(1) by (cases "q = p") (simp_all add: comp_def)
  moreover have "get_process s' c = Some (with_tables (if q = c then f Y else Y) tc)"
    using f o[of c] x(2) by (cases "q = c") (simp_all add: comp_def)
  moreover have "get_process s' r = g r" if "r \<noteq> p" "r \<noteq> c" for r
    using that assms(2,4) o[of r] by (auto simp: has_pair_def)
  ultimately show ?thesis using assms(2) unfolding has_pair_def by blast
qed

lemma keeps_pair_tables:
  assumes "p \<noteq> c" and "q = p \<or> q = c" and "\<And>s. keeps (tables_only q s) m"
  shows "keeps (has_pair p c g tp tc R) m"
  by (rule keepsI, erule has_pair_tables[OF assms(1) _ _ assms(2)], rule keeps_state[OF assms(3)]) simp

lemma pair_steps:
  assumes "p \<noteq> c"
  shows "keeps (has_pair p c g tp tc R) (ext m)" "keeps (has_pair p c g tp tc R) (ext_do f)"
    "q = p \<or> q = c \<Longrightarrow> keeps (has_pair p c g tp tc R) (map_process_frame E q fr v prm n)"
    "q = p \<or> q = c \<Longrightarrow> keeps (has_pair p c g tp tc R) (unmap_process_pages E q v n)"
  using assms
  by (auto intro: keeps_ext keeps_ext_do keeps_pair_tables map_process_frame_tables unmap_process_pages_tables)

lemma pair_mem:
  assumes "p \<noteq> c" and "\<And>X m. h (m\<lparr>intermediate_page_tables := X\<rparr>) = (h m)\<lparr>intermediate_page_tables := X\<rparr>"
  shows "leads (has_pair p c g tp tc R) (\<lambda>_. has_pair p c g (upd_mem h tp) tc R) (modify (upd_task p (upd_mem h)))"
  using assms by (auto simp: leads_def modify_def has_pair_def)

lemma pair_retain:
  "leads (has_pair p c g tp tc R) (\<lambda>_. has_pair p c g tp tc (bt_entry f 1 (\<lambda>n. sat_add n 1) R)) (modify (retain_shared_frame_cap f))"
  by (auto simp: leads_def modify_def has_pair_def retain_shared_frame_cap_def retain_frame_cap_def get_process_def process_def)

section \<open>Sharing the maps\<close>

definition shares :: "mem_params \<Rightarrow> memory_map \<Rightarrow> bool" where
  "shares M m \<longleftrightarrow> frame_cap m \<noteq> 0 \<and> map_pages M m \<noteq> 0"

definition cow_marked :: "mem_params \<Rightarrow> memory_map \<Rightarrow> memory_map" where
  "cow_marked M m = (if shares M m \<and> PERM_WRITE \<in> map_flags m then m\<lparr>map_cow := True\<rparr> else m)"

definition mark_map :: "mem_params \<Rightarrow> memory_map \<Rightarrow> mm_state \<Rightarrow> mm_state" where
  "mark_map M m st =
     (if shares M m \<and> PERM_WRITE \<in> map_flags m then upd_map (map_vaddr m) (\<lambda>x. x\<lparr>map_cow := True\<rparr>) st else st)"

fun retain_all :: "mem_params \<Rightarrow> capptr set \<Rightarrow> memory_map list \<Rightarrow> (capptr, usize) btree \<Rightarrow> (capptr, usize) btree" where
  "retain_all M K [] R = R"
| "retain_all M K (m # ms) R =
     retain_all M (if shares M m then insert (frame_cap m) K else K) ms
       (if shares M m \<and> frame_cap m \<notin> K then bt_entry (frame_cap m) 1 (\<lambda>n. sat_add n 1) R else R)"

lemma upd_map_tables:
  "upd_map v f (m\<lparr>intermediate_page_tables := X\<rparr>) = (upd_map v f m)\<lparr>intermediate_page_tables := X\<rparr>"
  by (simp add: upd_map_def)

lemma share_map_leads:
  assumes ne: "p \<noteq> c"
  shows "leads (has_pair p c g tp tc R)
    (\<lambda>r s. r = (cow_marked (mp E) m, if shares (mp E) m then insert (frame_cap m) K else K) \<and>
       has_pair p c g (upd_mem (mark_map (mp E) m) tp) tc
         (if shares (mp E) m \<and> frame_cap m \<notin> K then bt_entry (frame_cap m) 1 (\<lambda>n. sat_add n 1) R else R) s)
    (share_map E p c K m)"
proof (cases "shares (mp E) m")
  case False
  then have same: "mark_map (mp E) m = (\<lambda>st. st)" "cow_marked (mp E) m = m"
    by (simp_all add: fun_eq_iff mark_map_def cow_marked_def)
  have none: "frame_cap m = 0 \<or> map_pages (mp E) m = 0" using False by (simp add: shares_def)
  show ?thesis
    unfolding share_map_def Let_def if_P[OF none] using False same by (simp add: leads_ret)
next
  case True
  let ?R = "if frame_cap m \<notin> K then bt_entry (frame_cap m) 1 (\<lambda>n. sat_add n 1) R else R"
  have sh: "\<not> (frame_cap m = 0 \<or> map_pages (mp E) m = 0)" using True by (simp add: shares_def)
  show ?thesis
    unfolding share_map_def Let_def if_not_P[OF sh]
  proof (rule leads_andThen[OF pair_steps(3)[OF ne]], simp, rule leads_andThen, goal_cases)
    case 1
    show ?case by (auto intro!: keeps_intro pair_steps[OF ne])
  next
    case 2
    show ?case
    proof (rule leads_bind[where R = "\<lambda>_. has_pair p c g tp tc ?R"], goal_cases)
      case 1
      show ?case by (auto simp: whenM_def simp del: One_nat_def intro!: pair_retain leads_ret)
    next
      case 2
      show ?case
      proof (cases "PERM_WRITE \<in> map_flags m")
        case w: True
        have "mark_map (mp E) m = upd_map (map_vaddr m) (\<lambda>x. x\<lparr>map_cow := True\<rparr>)"
          using True w by (simp add: fun_eq_iff mark_map_def)
        with True w show ?thesis
          by (auto simp: cow_marked_def intro!: leads_bind[OF pair_mem[OF ne upd_map_tables]] leads_ret)
      next
        case w: False
        then have "mark_map (mp E) m = (\<lambda>st. st)" by (simp add: fun_eq_iff mark_map_def)
        with True w show ?thesis by (auto simp: cow_marked_def intro!: leads_ret)
      qed
    qed
  qed
qed

lemma mark_map_tables:
  "mark_map M m (st\<lparr>intermediate_page_tables := X\<rparr>) = (mark_map M m st)\<lparr>intermediate_page_tables := X\<rparr>"
  by (simp add: mark_map_def upd_map_tables)

lemma share_maps_leads:
  assumes ne: "p \<noteq> c"
  shows "leads (has_pair p c g tp tc R)
    (\<lambda>r s. r = map (cow_marked (mp E)) ms \<and>
       has_pair p c g (upd_mem (fold (mark_map (mp E)) ms) tp) tc (retain_all (mp E) K ms R) s)
    (share_maps E p c K ms)"
proof (induction ms arbitrary: tp K R)
  case Nil
  show ?case by (simp add: leads_ret)
next
  case (Cons m ms)
  show ?case
    unfolding share_maps.simps
  proof (rule leads_bind[OF share_map_leads[OF ne]], rule leads_pure, rule leads_control(4), goal_cases)
    case (1 r m' K')
    then have eq: "m' = cow_marked (mp E) m" "K' = (if shares (mp E) m then insert (frame_cap m) K else K)" by simp_all
    show ?case
      unfolding eq
      by (rule leads_bind[OF Cons.IH], rule leads_pure, rule leads_ret) (simp add: comp_def)
  qed
qed

text \<open>The number of owners of a frame: one when it has no counter.\<close>

definition owners :: "(capptr, usize) btree \<Rightarrow> capptr \<Rightarrow> usize" where
  "owners R f = (case bt_get R f of None \<Rightarrow> 1 | Some n \<Rightarrow> n)"

lemma cap_refs_owners: "cap_refs st f = owners (frame_cap_refs st) f"
  by (simp add: cap_refs_def owners_def)

lemma retain_all_owners:
  "owners (retain_all M K ms R) f =
     (if f \<notin> K \<and> (\<exists>m \<in> set ms. shares M m \<and> frame_cap m = f) then sat_add (owners R f) 1 else owners R f)"
proof (induction ms arbitrary: K R)
  case (Cons m ms)
  show ?case unfolding retain_all.simps Cons.IH by (auto simp: owners_def simp del: One_nat_def)
qed simp

lemma marked_maps:
  assumes "maps_ok (memory_maps st)"
  shows "maps_ok (memory_maps (fold (mark_map M) xs st)) \<and> lazy_memory_maps (fold (mark_map M) xs st) = lazy_memory_maps st \<and>
    lookup_memory_map (fold (mark_map M) xs st) a =
      map_option (\<lambda>m. if \<exists>x \<in> set xs. map_vaddr x = map_vaddr m \<and> shares M x \<and> PERM_WRITE \<in> map_flags x
        then m\<lparr>map_cow := True\<rparr> else m) (lookup_memory_map st a)"
  using assms
proof (induction xs arbitrary: st)
  case Nil
  then show ?case by (simp add: option.map_ident)
next
  case (Cons x xs)
  show ?case
  proof (cases "shares M x \<and> PERM_WRITE \<in> map_flags x")
    case False
    with Cons show ?thesis by (auto simp: mark_map_def)
  next
    case True
    let ?st = "upd_map (map_vaddr x) (\<lambda>m. m\<lparr>map_cow := True\<rparr>) st"
    have a: "maps_ok (memory_maps ?st)" "lazy_memory_maps ?st = lazy_memory_maps st"
      "lookup_memory_map ?st a = map_option (\<lambda>m. if map_vaddr m = map_vaddr x then m\<lparr>map_cow := True\<rparr> else m) (lookup_memory_map st a)"
      using alter_laws[OF Cons.prems, of "\<lambda>m. m\<lparr>map_cow := True\<rparr>"] by (simp_all add: upd_map_def lookup_memory_map_def)
    have "mark_map M x st = ?st" using True by (simp add: mark_map_def)
    with Cons.IH[OF a(1)] a(2,3) True show ?thesis
      by (cases "lookup_memory_map st a") auto
  qed
qed

lemma fork_lookup:
  assumes "maps_ok (memory_maps st)"
  shows "lookup_memory_map (fold (mark_map M) (bt_values (memory_maps st)) st) a = map_option (cow_marked M) (lookup_memory_map st a)"
proof (cases "lookup_memory_map st a")
  case (Some m)
  note l = lookup_bounds(5)[OF assms Some[unfolded lookup_memory_map_def]]
  have "(\<exists>x \<in> set (bt_values (memory_maps st)). map_vaddr x = map_vaddr m \<and> shares M x \<and> PERM_WRITE \<in> map_flags x) \<longleftrightarrow>
      shares M m \<and> PERM_WRITE \<in> map_flags m"
    using l in_values_iff[OF assms] by (metis option.inject)
  with marked_maps[OF assms, of M "bt_values (memory_maps st)" a] Some show ?thesis by (simp add: cow_marked_def)
qed (use marked_maps[OF assms, of M "bt_values (memory_maps st)" a] in simp)

section \<open>Fork\<close>

definition procs_are :: "(usize \<Rightarrow> 'i task_struct option) \<Rightarrow> (capptr, usize) btree \<Rightarrow> ('i, 'p, 'w) ape \<Rightarrow> bool" where
  "procs_are G R s \<longleftrightarrow> get_process s = G \<and> frame_cap_refs (ts s) = R"

lemma procs_are_world [simp]: "procs_are G R (s\<lparr>world := w\<rparr>) = procs_are G R s"
  by (simp add: procs_are_def get_process_def fun_eq_iff)

lemma procs_ext [keeps_intro]: "keeps (procs_are G R) (ext m)"
  by (rule keeps_ext) simp

lemma procs_ledger [keeps_intro]: "keeps (procs_are G R) (ledger_take_process p)"
  by (auto simp: keeps_def ledger_take_process_def procs_are_def get_process_def fun_eq_iff split: prod.split)

lemma alloc_leads:
  "leads (\<lambda>s. procs_are G R s \<and> next_pid (ts s) = n) (\<lambda>r s. r = n \<and> procs_are G R s)
     (\<lambda>s. let (p, t) = alloc_pid (ts s) in (Ok p, s\<lparr>ts := t\<rparr>))"
  by (auto simp: leads_def alloc_pid_def procs_are_def get_process_def process_def fun_eq_iff)

lemma insert_leads:
  "leads (procs_are G R) (\<lambda>_. procs_are (G(n \<mapsto> t)) R) (modify (upd_ts (ts_register_process n host t)))"
  by (auto simp: leads_def modify_def ts_register_process_def procs_are_def get_process_def process_def fun_eq_iff)

lemma register_leads:
  "leads (\<lambda>s. procs_are G R s \<and> next_pid (ts s) = n)
     (\<lambda>r s. r = n \<and> procs_are (G(n \<mapsto> new_task E n parent cnode)) R s) (register_process E parent host cnode)"
  unfolding register_process_def
proof (rule leads_bind[OF alloc_leads], rule leads_pure, goal_cases)
  case (1 r)
  show ?case
    unfolding 1
    by (rule leads_andThen[OF keeps_gets], rule leads_andThen[OF keeps_ignore[OF procs_ext]], rule leads_bind[OF insert_leads],
        rule leads_andThen[OF procs_ledger], rule leads_andThen[OF keeps_ignore[OF procs_ext]], rule leads_ret) simp
qed

text \<open>The address space of the child, and the rest of its record.\<close>

definition inherited_mem :: "mm_state \<Rightarrow> memory_map list \<Rightarrow> mm_state \<Rightarrow> mm_state" where
  "inherited_mem pm maps m =
     fold add_lazy_memory_map (bt_values (lazy_memory_maps pm))
       (fold add_memory_map maps
         (m\<lparr>stack_bottom := stack_bottom pm, stack_size := stack_size pm,
            max_stack_size := max_stack_size pm, heap_start := heap_start pm,
            heap_brk := heap_brk pm, heap_limit := heap_limit pm, mmap_base := mmap_base pm,
            mmap_next := mmap_next pm, mmap_limit := mmap_limit pm, memory_maps := [],
            lazy_memory_maps := []\<rparr>))"

lemma inherited_mem_tables:
  "inherited_mem pm maps (m\<lparr>intermediate_page_tables := Y\<rparr>) = (inherited_mem pm maps m)\<lparr>intermediate_page_tables := Y\<rparr>"
proof -
  let ?b = "\<lambda>m. m\<lparr>stack_bottom := stack_bottom pm, stack_size := stack_size pm,
            max_stack_size := max_stack_size pm, heap_start := heap_start pm,
            heap_brk := heap_brk pm, heap_limit := heap_limit pm, mmap_base := mmap_base pm,
            mmap_next := mmap_next pm, mmap_limit := mmap_limit pm, memory_maps := [],
            lazy_memory_maps := []\<rparr>"
  have "?b (m\<lparr>intermediate_page_tables := Y\<rparr>) = (?b m)\<lparr>intermediate_page_tables := Y\<rparr>" by simp
  then show ?thesis unfolding inherited_mem_def by (simp only: fold_add_tables fold_lazy_tables)
qed

lemma inherited_maps:
  "memory_maps (inherited_mem pm maps m) = insert_maps maps []"
  "lazy_memory_maps (inherited_mem pm maps m) = insert_maps (bt_values (lazy_memory_maps pm)) []"
  by (simp_all add: inherited_mem_def fold_add_maps fold_lazy_maps)

lemma inherit_mem: "task_mem (inherit t maps c) = inherited_mem (task_mem t) maps (task_mem c)"
  by (simp add: inherit_def Let_def inherited_mem_def mark_stopped_def mark_running_def set_lifecycle_def task_mem_def upd_mem_def)

lemma inherit_rest:
  "task_files (inherit t maps c) = task_files t" "parent_pid (inherit t maps c) = parent_pid c"
  "task_fs (inherit t maps c) = task_fs t" "task_cred (inherit t maps c) = task_cred t"
  "task_sighand (inherit t maps c) = task_sighand t" "signal_pending (task_signal (inherit t maps c)) = 0"
  "process_group_id (inherit t maps c) = process_group_id t" "session_id (inherit t maps c) = session_id t"
  by (simp_all add: inherit_def Let_def mark_stopped_def mark_running_def set_lifecycle_def task_mem_def upd_mem_def)

lemma inherit_tables:
  "inherit (with_tables X t) maps (with_tables Y c) = with_tables Y (inherit t maps c)"
proof -
  have "inherit (with_tables X t) maps c' = inherit t maps c'" for c'
    by (simp add: inherit_def Let_def is_stopped_def upd_mem_def task_mem_def)
  moreover have "inherit t maps (with_tables Y c) = with_tables Y (inherit t maps c)"
    unfolding inherit_def Let_def inherited_mem_def[symmetric]
    by (simp add: mark_stopped_def mark_running_def set_lifecycle_def task_mem_def upd_mem_def inherited_mem_tables)
  ultimately show ?thesis by simp
qed

lemma pair_of_procs:
  assumes "procs_are G R s" and "G p = Some t" and "G c = Some u"
  shows "has_pair p c G t u R s"
proof -
  have id: "with_tables (intermediate_page_tables (task_mem x)) x = x" for x :: "'a task_struct"
    by (simp add: upd_mem_def task_mem_def)
  show ?thesis using assms id[of t] id[of u] unfolding has_pair_def procs_are_def by metis
qed

lemma pair_inherit:
  assumes "p \<noteq> c"
  shows "leads (has_pair p c g tp tc R) (\<lambda>_. has_pair p c g tp (inherit t maps tc) R) (modify (upd_task c (inherit t maps)))"
proof -
  have t: "with_tables (intermediate_page_tables (task_mem t)) t = t" by (simp add: upd_mem_def task_mem_def)
  have "inherit t maps (with_tables Y tc) = with_tables Y (inherit t maps tc)" for Y
    using inherit_tables[of "intermediate_page_tables (task_mem t)" t maps Y tc] unfolding t .
  then show ?thesis using assms by (auto simp: leads_def modify_def has_pair_def)
qed

lemma procs_task_or:
  "G p = Some t \<Longrightarrow> leads (procs_are G R) (\<lambda>r s. r = t \<and> procs_are G R s) (task_or e p)"
  by (auto simp: leads_def task_or_Ok procs_are_def)

lemma procs_new: "keeps (\<lambda>s. procs_are G R s \<and> next_pid (ts s) = n) (ext m)"
  by (rule keeps_ext) simp

lemma start_pair: "p \<noteq> c \<Longrightarrow> keeps (has_pair p c g tp tc R) (start_child E p c)"
  unfolding start_child_def by (auto intro!: keeps_intro pair_steps)

lemma fork_leads:
  assumes t: "G p = Some t" and new: "G n = None"
  shows "leads (\<lambda>s. procs_are G R s \<and> next_pid (ts s) = n)
    (\<lambda>r s. r = n \<and> (\<exists>cnode. has_pair p n G
       (upd_mem (fold (mark_map (mp E)) (bt_values (memory_maps (task_mem t)))) t)
       (inherit t (map (cow_marked (mp E)) (bt_values (memory_maps (task_mem t)))) (new_task E n p cnode))
       (retain_all (mp E) {} (bt_values (memory_maps (task_mem t))) R) s))
    (do_fork E p)"
proof -
  have ne: "p \<noteq> n" using assms by auto
  have pair: "has_pair p n G t u R s" if "procs_are (G(n \<mapsto> u)) R s" for u and s :: "('a, 'b, 'c) ape"
    using pair_of_procs[OF that, of p t n u] t ne by (simp add: has_pair_def)
  show ?thesis
    unfolding do_fork_def
  proof (rule leads_andThen[OF procs_new], rule leads_andThen[OF procs_new], rule leads_andThen[OF procs_new],
      rule leads_bind[OF register_leads], rule leads_pure, goal_cases)
    case (1 host slot cnode child)
    have G: "(G(n \<mapsto> new_task E n p cnode)) p = Some t" using t ne by simp
    show ?case
      unfolding 1
    proof (rule leads_bind[OF procs_task_or[where G = "G(n \<mapsto> new_task E n p cnode)" and p = p and t = t, OF G]], rule leads_pure,
        rule leads_pre[where R = "has_pair p n G t (new_task E n p cnode) R"], goal_cases)
      case (1 parent)
      show ?case
        unfolding 1
        by (rule leads_bind[OF share_maps_leads[OF ne]], rule leads_pure, rule leads_andThen[OF keeps_task_or],
            rule leads_bind[OF pair_inherit[OF ne]], rule leads_andThen[OF keeps_ignore[OF pair_steps(1)[OF ne]]],
            rule leads_andThen[OF start_pair[OF ne]], rule leads_ret) auto
    next
      case 2
      then show ?case by (simp add: pair)
    qed
  qed
qed

lemma cow_marked_place: "map_vaddr (cow_marked M m) = map_vaddr m \<and> map_size (cow_marked M m) = map_size m"
  by (simp add: cow_marked_def)

lemma values_lookup:
  assumes "maps_ok ms"
  shows "(\<exists>m \<in> set (bt_values ms). Q m) \<longleftrightarrow> (\<exists>a m. lookup_in ms a = Some m \<and> Q m)"
  using in_values_iff[OF assms] lookup_in_exact[OF assms] by blast

lemma with_tables_mem [simp]:
  "task_mem (with_tables X t) = (task_mem t)\<lparr>intermediate_page_tables := X\<rparr>"
  "lookup_memory_map (m\<lparr>intermediate_page_tables := X\<rparr>) a = lookup_memory_map m a"
  "lookup_lazy_memory_map (m\<lparr>intermediate_page_tables := X\<rparr>) a = lookup_lazy_memory_map m a"
  by (simp_all add: lookup_memory_map_def lookup_lazy_memory_map_def)

lemma upd_mem_rest:
  "task_files (upd_mem f t) = task_files t" "parent_pid (upd_mem f t) = parent_pid t"
  "task_fs (upd_mem f t) = task_fs t" "task_cred (upd_mem f t) = task_cred t"
  by (simp_all add: upd_mem_def)

lemma parent_new_task [simp]: "parent_pid (new_task E n p cnode) = p"
  by (simp add: new_task_def seed_initial_pagetable_paths_def upd_mem_def task_struct_new_def)

text \<open>
  C8: \<open>fork\<close> shares memory copy-on-write. The child is a new process with the next identifier,
  whose parent is the caller, with the caller's descriptors, directories and identity. Both
  address spaces hold, at every address, the map the caller had there, marked copy-on-write
  in both when it is writable and has frames; mappings that have no frames yet are in both
  too. Every frame of a shared map has exactly one owner more, the others as many as before,
  and no other process changes.
\<close>

theorem fork_shares_copy_on_write:
  assumes run: "do_fork E p s = (Ok child, s')" and t: "get_process s p = Some t" and ok: "mm_ok (task_mem t)"
    and new: "get_process s (next_pid (ts s)) = None"
  shows "child = next_pid (ts s) \<and>
    (\<exists>t' c. get_process s' p = Some t' \<and> get_process s' child = Some c \<and> task_files t' = task_files t \<and>
       parent_pid c = p \<and> task_files c = task_files t \<and> task_fs c = task_fs t \<and> task_cred c = task_cred t \<and>
       (\<forall>a. lookup_memory_map (task_mem t') a = map_option (cow_marked (mp E)) (lookup_memory_map (task_mem t) a) \<and>
            lookup_memory_map (task_mem c) a = lookup_memory_map (task_mem t') a \<and>
            lookup_lazy_memory_map (task_mem t') a = lookup_lazy_memory_map (task_mem t) a \<and>
            lookup_lazy_memory_map (task_mem c) a = lookup_lazy_memory_map (task_mem t) a)) \<and>
    (\<forall>f. cap_refs (ts s') f =
       (if \<exists>a m. lookup_memory_map (task_mem t) a = Some m \<and> shares (mp E) m \<and> frame_cap m = f
        then sat_add (cap_refs (ts s) f) 1 else cap_refs (ts s) f)) \<and>
    (\<forall>q. q \<noteq> p \<longrightarrow> q \<noteq> child \<longrightarrow> get_process s' q = get_process s q)"
proof -
  let ?M = "mp E" and ?ms = "bt_values (memory_maps (task_mem t))"
  have maps: "maps_ok (memory_maps (task_mem t))" "maps_ok (lazy_memory_maps (task_mem t))" using ok by (simp_all add: mm_ok_def)
  have "procs_are (get_process s) (frame_cap_refs (ts s)) s \<and> next_pid (ts s) = next_pid (ts s)" by (simp add: procs_are_def)
  from leadsD[OF fork_leads[where G = "get_process s", OF t new] this run] obtain cnode X Y where
    n: "child = next_pid (ts s)" and t': "get_process s' p = Some (with_tables X (upd_mem (fold (mark_map ?M) ?ms) t))"
    and c: "get_process s' child = Some (with_tables Y (inherit t (map (cow_marked ?M) ?ms) (new_task E child p cnode)))"
    and refs: "frame_cap_refs (ts s') = retain_all ?M {} ?ms (frame_cap_refs (ts s))"
    and others: "\<forall>q. q \<noteq> p \<longrightarrow> q \<noteq> child \<longrightarrow> get_process s' q = get_process s q"
    by (auto simp: has_pair_def)
  have parent: "lookup_memory_map (fold (mark_map ?M) ?ms (task_mem t)) a = map_option (cow_marked ?M) (lookup_memory_map (task_mem t) a)"
    "lookup_lazy_memory_map (fold (mark_map ?M) ?ms (task_mem t)) a = lookup_lazy_memory_map (task_mem t) a" for a
    using fork_lookup[OF maps(1)] marked_maps[OF maps(1)] by (simp_all add: lookup_lazy_memory_map_def)
  have "lookup_memory_map (inherited_mem (task_mem t) (map (cow_marked ?M) ?ms) m) a = map_option (cow_marked ?M) (lookup_memory_map (task_mem t) a)"
    "lookup_lazy_memory_map (inherited_mem (task_mem t) (map (cow_marked ?M) ?ms) m) a = lookup_lazy_memory_map (task_mem t) a" for a m
    using rebuild_laws(2)[OF maps(1) cow_marked_place] rebuild_laws(2)[OF maps(2), of "\<lambda>m. m"]
    by (simp_all add: lookup_memory_map_def lookup_lazy_memory_map_def inherited_maps option.map_ident)
  note child = this[of "task_mem (new_task E child p cnode)"]
  have "cap_refs (ts s') f =
       (if \<exists>a m. lookup_memory_map (task_mem t) a = Some m \<and> shares ?M m \<and> frame_cap m = f
        then sat_add (cap_refs (ts s) f) 1 else cap_refs (ts s) f)" for f
    unfolding cap_refs_owners by (simp add: refs retain_all_owners values_lookup[OF maps(1)] lookup_memory_map_def del: One_nat_def)
  then show ?thesis
    using n t' c parent child others by (simp add: inherit_rest inherit_mem upd_mem_rest del: One_nat_def)
qed

section \<open>A fork that succeeds\<close>

definition both :: "usize \<Rightarrow> usize \<Rightarrow> ('i, 'p, 'w) ape \<Rightarrow> bool" where
  "both p c s \<longleftrightarrow> alive p s \<and> alive c s"

lemma okay_both:
  assumes "q = p \<or> q = c" and "okay (alive q) m" and "\<And>s. keeps (tables_only q s) m"
  shows "okay (both p c) m"
  unfolding okay_def
proof (intro allI impI)
  fix s :: "('a, 'b, 'c) ape"
  assume b: "both p c s"
  then obtain x s' where r: "m s = (Ok x, s')" "alive q s'" using okayD[OF assms(2), of s] assms(1) by (auto simp: both_def)
  from keeps_state[OF assms(3), of s s] r(1) have "tables_only q s s'" by simp
  then have "get_process s' r = get_process s r" if "r \<noteq> q" for r using that by (simp add: tables_only_def)
  then have "alive r s'" if "alive r s" for r using that r(2) by (cases "r = q") (simp_all add: alive_def)
  with b r show "\<exists>x s'. m s = (Ok x, s') \<and> both p c s'" by (auto simp: both_def)
qed

lemma okay_both_steps:
  assumes "serves E"
  shows "okay (both p c) (map_process_frame E p fr v prm n)" "okay (both p c) (map_process_frame E c fr v prm n)"
    "okay (both p c) (unmap_process_pages E p v n)" "okay (both p c) (modify (upd_task q h))"
    "okay (both p c) (modify (retain_shared_frame_cap fr))" "okay (both p c) (task_or e p)" "okay (both p c) (task_or e c)"
proof -
  show "okay (both p c) (modify (upd_task q h))" "okay (both p c) (modify (retain_shared_frame_cap fr))"
    "okay (both p c) (task_or e p)" "okay (both p c) (task_or e c)"
    by (auto simp: okay_def modify_def both_def alive_def task_or_def retain_shared_frame_cap_def retain_frame_cap_def
        get_process_def process_def)
qed (rule okay_both[OF _ okay_frames(1)[OF assms] map_process_frame_tables], simp,
     rule okay_both[OF _ okay_frames(1)[OF assms] map_process_frame_tables], simp,
     rule okay_both[OF _ okay_frames(2)[OF assms] unmap_process_pages_tables], simp)

lemma okay_share: "serves E \<Longrightarrow> okay (both p c) (share_maps E p c K ms)"
proof (induction ms arbitrary: K)
  case (Cons m ms)
  have "okay (both p c) (share_map E p c K m)"
    unfolding share_map_def Let_def by (auto intro!: okay_intro okay_both_steps[OF Cons.prems])
  with Cons show ?case by (auto intro!: okay_intro)
qed (simp add: okay_ret)

definition fork_rest :: "(unit, nat) env \<Rightarrow> usize \<Rightarrow> usize \<Rightarrow> (unit, 'p, nat, usize) ape_prog" where
  "fork_rest E p child =
     andThen (task_or NotFound p) (\<lambda>parent.
     andThen (share_maps E p child {} (bt_values (memory_maps (task_mem parent)))) (\<lambda>maps.
     andThen (task_or NotFound child) (\<lambda>_.
     andThen (modify (upd_task child (inherit parent maps))) (\<lambda>_.
     andThen (ignore (ext (auth_set_identity (procs E) child (task_cred parent)))) (\<lambda>_.
     andThen (start_child E p child) (\<lambda>_.
     ret child))))))"

lemma okay_both_ext: "okay (both p c) (ext ok_call)"
  by (simp add: okay_def ext_simps(1))

lemma okay_rest: "okay (both p c) (fork_rest example_env p c)"
  unfolding fork_rest_def start_child_def
  by (auto intro!: okay_intro okay_share[OF serves_example] okay_both_steps[OF serves_example] okay_both_ext)

lemma register_returns:
  assumes "get_process s p = Some t"
  shows "\<exists>s1. register_process example_env p host cnode s = (Ok (next_pid (ts s)), s1) \<and> both p (next_pid (ts s)) s1"
  using assms
  by (auto simp: register_process_def monad_simps ext_simps Let_def both_def alive_def alloc_pid_def ledger_take_process_def
      ts_register_process_def get_process_def process_def split: prod.split)

lemma fork_returns:
  assumes t: "get_process s p = Some t"
  shows "\<exists>r s'. do_fork example_env p s = (Ok r, s')"
proof -
  let ?s = "s\<lparr>world := Suc (Suc (world s))\<rparr>"
  have "get_process ?s p = Some t" using t by simp
  from register_returns[OF this] obtain s1 where
    s1: "register_process example_env p (world s) (Suc (world s)) ?s = (Ok (next_pid (ts s)), s1)" "both p (next_pid (ts s)) s1"
    by auto
  have "do_fork example_env p s = fork_rest example_env p (next_pid (ts s)) s1"
    unfolding do_fork_def fork_rest_def[symmetric] using s1(1) by (simp add: andThen_def ext_simps(2))
  then show ?thesis using okayD[OF okay_rest s1(2)] by auto
qed

text \<open>A process with one writable page.\<close>

definition fork_map :: memory_map where
  "fork_map = (example_map 0x20010000 0x1000)\<lparr>map_flags := {PERM_READ, PERM_WRITE}\<rparr>"

definition fork_task :: "unit task_struct" where
  "fork_task = upd_mem (\<lambda>_. (mm (mm_struct_new example_mem_params 7))\<lparr>memory_maps := [(0x20010000, fork_map)]\<rparr>) (example_task 1 0)"

lemma fork_task_mem:
  "memory_maps (task_mem fork_task) = [(0x20010000, fork_map)]" "lazy_memory_maps (task_mem fork_task) = []" "task_pid fork_task = 1"
  by (simp_all add: fork_task_def mm_struct_new_def) (simp add: upd_mem_def example_task_def task_struct_new_def)

theorem fork_shares_copy_on_write_witness:
  "\<exists>s' t' c. do_fork example_env 1 (example_ape [fork_task]) = (Ok 2, s') \<and>
     get_process s' 1 = Some t' \<and> get_process s' 2 = Some c \<and> parent_pid c = 1 \<and>
     lookup_memory_map (task_mem t') 0x20010010 = Some (fork_map\<lparr>map_cow := True\<rparr>) \<and>
     lookup_memory_map (task_mem c) 0x20010010 = Some (fork_map\<lparr>map_cow := True\<rparr>) \<and>
     cap_refs (ts s') 1 = 2"
proof -
  let ?s = "example_ape [fork_task]"
  have g: "get_process ?s 1 = Some fork_task" by (simp add: fork_task_mem)
  have n: "next_pid (ts ?s) = 2" "frame_cap_refs (ts ?s) = []"
    by (simp_all add: example_ape_def ts_register_process_def ape_task_state_new_def)
  then have new: "get_process ?s (next_pid (ts ?s)) = None" by (simp add: fork_task_mem)
  have ok: "mm_ok (task_mem fork_task)"
    by (simp add: mm_ok_def maps_ok_def fork_task_mem bt_ok_def fork_map_def example_map_def usize_max_def)
  have here: "lookup_memory_map (task_mem fork_task) 0x20010010 = Some fork_map"
    by (simp add: lookup_memory_map_def lookup_in_def bt_last_le_def fork_task_mem fork_map_def example_map_def wrap_add_def usize_max_def)
  have marked: "cow_marked example_mem_params fork_map = fork_map\<lparr>map_cow := True\<rparr>" "shares example_mem_params fork_map"
    by (simp_all add: cow_marked_def shares_def map_pages_def fork_map_def example_map_def example_mem_params_def)
  obtain r s' where run: "do_fork example_env 1 ?s = (Ok r, s')" using fork_returns[OF g] by blast
  note fork = fork_shares_copy_on_write[OF run g ok new]
  have "\<exists>a m. lookup_memory_map (task_mem fork_task) a = Some m \<and> shares (mp example_env) m \<and> frame_cap m = 1"
    using here marked(2) by (intro exI[of _ "0x20010010"] exI[of _ fork_map]) (simp add: fork_map_def example_map_def)
  with fork have "cap_refs (ts s') 1 = 2"
    by (simp add: n cap_refs_def bt_get_def sat_add_def usize_max_def del: One_nat_def)
  with fork run n here marked(1) show ?thesis by (auto simp del: One_nat_def)
qed

end
