(* ===== verification/Cow_Laws.thy ===== *)
theory Cow_Laws
  imports Fault Fork_Laws Mm_Laws Access_Steps
begin

text \<open>
  The other half of copy-on-write (\<open>src/src/ape/fault.rs\<close>): what a store to a shared page
  does to the maps of the process that makes it and to the owners of the frame.
\<close>

section \<open>Address space and owners together\<close>

definition mem_refs ::
  "usize \<Rightarrow> (usize \<Rightarrow> 'i task_struct option) \<Rightarrow> mm_state \<Rightarrow> (capptr, usize) btree \<Rightarrow> ('i, 'p, 'w) ape \<Rightarrow> bool" where
  "mem_refs p g st R s \<longleftrightarrow> has_mem p g st s \<and> frame_cap_refs (ts s) = R"

lemma keeps_refs_tables:
  assumes "\<And>s. keeps (tables_only p s) m"
  shows "keeps (mem_refs p g st R) m"
proof (rule keepsI)
  fix s :: "('a, 'b, 'c) ape"
  assume r: "mem_refs p g st R s"
  have t: "tables_only p s (snd (m s))" by (rule keeps_state[OF assms]) simp
  then have ts: "(ts (snd (m s)))\<lparr>tasks := []\<rparr> = (ts s)\<lparr>tasks := []\<rparr>" by (simp add: tables_only_def)
  from r has_mem_tables[OF _ t] arg_cong[OF ts, of frame_cap_refs] show "mem_refs p g st R (snd (m s))"
    by (simp add: mem_refs_def)
qed

lemma mem_refs_steps [keeps_intro]:
  "keeps (mem_refs p g st R) (ext m)" "keeps (mem_refs p g st R) (ext_do f)"
  "keeps (mem_refs p g st R) (map_process_frame E p c v prm n)" "keeps (mem_refs p g st R) (unmap_process_pages E p v n)"
  "keeps (mem_refs p g st R) (modify (ledger_record_frame_alloc p c n))"
  "keeps (mem_refs p g st R) (modify (ledger_record_frame_free p c n))"
  by (auto simp: mem_refs_def ledger_record_frame_alloc_def ledger_record_frame_free_def
      intro!: keeps_ext keeps_ext_do keeps_modify keeps_refs_tables map_process_frame_tables unmap_process_pages_tables)

lemma refs_modify:
  assumes "\<And>X. h (st\<lparr>intermediate_page_tables := X\<rparr>) = (h st)\<lparr>intermediate_page_tables := X\<rparr>"
  shows "leads (mem_refs p g st R) (\<lambda>_. mem_refs p g (h st) R) (modify (upd_task p (upd_mem h)))"
  using leadsD[OF mem_modify[of h st "h st", OF assms]] by (auto simp: leads_def mem_refs_def modify_def)

text \<open>The counters after one owner has let go.\<close>

definition less_refs :: "capptr \<Rightarrow> (capptr, usize) btree \<Rightarrow> (capptr, usize) btree" where
  "less_refs c R =
     (case bt_get R c of None \<Rightarrow> R | Some n \<Rightarrow> if n > 1 then bt_insert c (n - 1) R else bt_remove c R)"

lemma release_frame_cap_refs: "snd (release_frame_cap c st) = st\<lparr>frame_cap_refs := less_refs c (frame_cap_refs st)\<rparr>"
  by (simp add: release_frame_cap_def less_refs_def split: option.split)

lemma owners_less: "owners (less_refs c R) f = (if f = c then max 1 (owners R f - 1) else owners R f)"
  by (auto simp: less_refs_def owners_def bt_get_remove split: option.splits)

lemma refs_drop: "leads (mem_refs p g st R) (\<lambda>_. mem_refs p g st (less_refs c R)) (release_shared_frame_cap c)"
proof -
  have "release_shared_frame_cap c s = (Ok (fst (release_frame_cap c (ts s))),
      s\<lparr>ts := (ts s)\<lparr>frame_cap_refs := less_refs c (frame_cap_refs (ts s))\<rparr>\<rparr>)" for s :: "('a, 'b, 'c) ape"
    by (simp add: release_shared_frame_cap_def release_frame_cap_refs[symmetric] split: prod.split)
  then show ?thesis by (auto simp: leads_def mem_refs_def has_mem_def get_process_def process_def)
qed

lemma refs_release:
  "leads (mem_refs p g st R) (\<lambda>_. mem_refs p g st (less_refs c R)) (release_process_frame_slot E p c n)"
  unfolding release_process_frame_slot_def
  by (rule leads_bind[OF refs_drop], rule leads_keeps) (auto intro!: keeps_intro)

text \<open>The map after the fault.\<close>

definition own_frame :: "capptr \<Rightarrow> perms \<Rightarrow> memory_map \<Rightarrow> memory_map" where
  "own_frame slot prm m = m\<lparr>frame_cap := slot, map_cow := False, map_flags := prm\<rparr>"

text \<open>
  The new frame: a slot fresh from the capability space, a page of the resource service
  behind it, and in the page the bytes of the old frame, copied through two scratch
  mappings.  The world is \<open>w\<close> before and \<open>w'\<close> after.
\<close>

definition copied_frame :: "('i, 'w) env \<Rightarrow> capptr \<Rightarrow> 'w \<Rightarrow> capptr \<Rightarrow> 'w \<Rightarrow> bool" where
  "copied_frame E old w slot w' \<longleftrightarrow>
     (\<exists>w1 w2 src w3 dst w4. cspace_alloc (caps E) w = (Ok slot, w1) \<and> res_alloc (caps E) CapPage 1 slot w1 = (Ok (), w2) \<and>
        vm_map_scratch (vm E) old {PERM_READ} 1 w2 = (Ok src, w3) \<and>
        vm_map_scratch (vm E) slot {PERM_READ, PERM_WRITE} 1 w3 = (Ok dst, w4) \<and> w' = copy_page E src dst w4)"

text \<open>What is left to do with the new frame.\<close>

definition switch_frame ::
  "('i, 'w) env \<Rightarrow> usize \<Rightarrow> usize \<Rightarrow> capptr \<Rightarrow> perms \<Rightarrow> capptr \<Rightarrow> usize \<Rightarrow> usize \<Rightarrow> ('i, 'p, 'w, unit) ape_prog" where
  "switch_frame E p page old prm slot src dst =
     andThen (ignore (ext (vm_unmap (vm E) src 1))) (\<lambda>_.
     andThen (ignore (ext (vm_unmap (vm E) dst 1))) (\<lambda>_.
     andThen (ignore (unmap_process_pages E p page 1)) (\<lambda>_.
     andThen (map_process_frame E p slot page prm 1) (\<lambda>_.
     andThen (modify (upd_task p (upd_mem (upd_map page (own_frame slot prm))))) (\<lambda>_.
     release_process_frame_slot E p old 1)))))"

lemma cow_fault_split:
  "resolve_cow_fault E p page old prm =
     (if PERM_WRITE \<notin> prm then throw PermissionDenied
      else
        andThen (ext (cspace_alloc (caps E))) (\<lambda>slot.
        andThen (ext (res_alloc (caps E) CapPage 1 slot)) (\<lambda>_.
        andThen (modify (ledger_record_frame_alloc p slot 1)) (\<lambda>_.
        andThen (ext (vm_map_scratch (vm E) old {PERM_READ} 1)) (\<lambda>src.
        andThen (attempt (ext (vm_map_scratch (vm E) slot {PERM_READ, PERM_WRITE} 1))) (\<lambda>d.
        case d of
          Inl e \<Rightarrow> andThen (ignore (ext (vm_unmap (vm E) src 1))) (\<lambda>_. throw e)
        | Inr dst \<Rightarrow>
            andThen (ext_do (copy_page E src dst)) (\<lambda>_. switch_frame E p page old prm slot src dst)))))))"
  unfolding resolve_cow_fault_def switch_frame_def own_frame_def ..

lemma cow_fault_copies:
  fixes s :: "('i, 'p, 'w) ape"
  assumes "resolve_cow_fault E p page old prm s = (Ok (), s')"
  shows "\<exists>slot w src dst. copied_frame E old (world s) slot w \<and>
    switch_frame E p page old prm slot src dst ((ledger_record_frame_alloc p slot 1 s)\<lparr>world := w\<rparr>) = (Ok (), s')"
proof -
  have world: "(ledger_record_frame_alloc p c n (s\<lparr>world := w\<rparr>))\<lparr>world := w'\<rparr> = (ledger_record_frame_alloc p c n s)\<lparr>world := w'\<rparr>"
    "world (ledger_record_frame_alloc p c n (s\<lparr>world := w\<rparr>)) = w" for c n w w'
    by (simp_all add: ledger_record_frame_alloc_def upd_resources_def)
  from assms obtain slot w1 w2 src w3 dst w4 where
    calls: "cspace_alloc (caps E) (world s) = (Ok slot, w1)" "res_alloc (caps E) CapPage 1 slot w1 = (Ok (), w2)"
    "vm_map_scratch (vm E) old {PERM_READ} 1 w2 = (Ok src, w3)"
    "vm_map_scratch (vm E) slot {PERM_READ, PERM_WRITE} 1 w3 = (Ok dst, w4)"
    and rest: "switch_frame E p page old prm slot src dst
      ((ledger_record_frame_alloc p slot 1 s)\<lparr>world := copy_page E src dst w4\<rparr>) = (Ok (), s')"
    unfolding cow_fault_split
    by (auto simp: ok_iff world simp del: One_nat_def split: if_splits)
  from calls have "copied_frame E old (world s) slot (copy_page E src dst w4)"
    unfolding copied_frame_def by blast
  with rest show ?thesis by blast
qed

lemma switch_frame_leads:
  "leads (mem_refs p g st R) (\<lambda>_. mem_refs p g (upd_map page (own_frame slot prm) st) (less_refs old R))
     (switch_frame E p page old prm slot src dst)"
  unfolding switch_frame_def
  by (rule leads_andThen[OF keeps_ignore[OF mem_refs_steps(1)]], rule leads_andThen[OF keeps_ignore[OF mem_refs_steps(1)]],
      rule leads_andThen[OF keeps_ignore[OF mem_refs_steps(4)]], rule leads_andThen[OF mem_refs_steps(3)],
      rule leads_bind[OF refs_modify[OF upd_map_tables]], rule refs_release)

lemma switch_frame_calls: "keeps (\<lambda>s. (memory_call E)\<^sup>*\<^sup>* w0 (world s)) (switch_frame E p page old prm slot src dst)"
proof -
  let ?P = "\<lambda>s. (memory_call E)\<^sup>*\<^sup>* w0 (world s)"
  have "keeps ?P (release_shared_frame_cap old)"
    by (rule keepsI) (simp add: release_shared_frame_cap_def split: prod.split)
  moreover have "keeps ?P (modify (upd_task p f))" "keeps ?P (modify (ledger_record_frame_free p old 1))" for f
    by (rule keeps_modify, simp add: upd_task_def upd_ts_def ledger_record_frame_free_def upd_resources_def)+
  ultimately show ?thesis
    unfolding switch_frame_def release_process_frame_slot_def
    by (intro keeps_intro called.calls called.map_frame called.unmap_pages)
qed

text \<open>
  C9: a store to a page that is shared copy-on-write gives the process a frame of its own.
  When the fault is resolved, the map of the page has the frame in the slot that the
  capability space gave out for it, which was filled with the bytes of the old frame; after
  the copy only slots, tables and mappings are managed, so no byte is written again.  The
  map keeps its permissions and is no longer marked; the maps of all other addresses, the
  lazy maps and the other processes are as they were, and the old frame has one owner less.
  The map is one page long: a longer one would also get a frame of one page only.
\<close>

theorem store_fault_unshares:
  assumes run: "page_fault E p addr pc STORE_PAGE_FAULT s = (Ok (), s')" and t: "get_process s p = Some t"
    and ok: "mm_ok (task_mem t)" and m: "lookup_memory_map (task_mem t) addr = Some m"
    and cow: "map_cow m" "PERM_WRITE \<in> map_flags m" and one: "map_size m = PGSIZE (mp E)"
  shows "\<exists>t' slot w. get_process s' p = Some t' \<and>
      copied_frame E (frame_cap m) (world s) slot w \<and> (memory_call E)\<^sup>*\<^sup>* w (world s') \<and>
      (\<forall>a. lookup_memory_map (task_mem t') a =
         (if map_vaddr m \<le> a \<and> a < map_vaddr m + PGSIZE (mp E) then Some (m\<lparr>frame_cap := slot, map_cow := False\<rparr>)
          else lookup_memory_map (task_mem t) a) \<and>
       lookup_lazy_memory_map (task_mem t') a = lookup_lazy_memory_map (task_mem t) a) \<and>
      (\<forall>f. cap_refs (ts s') f = (if f = frame_cap m then max 1 (cap_refs (ts s) f - 1) else cap_refs (ts s) f)) \<and>
      (\<forall>q. q \<noteq> p \<longrightarrow> get_process s' q = get_process s q)"
proof -
  let ?st = "task_mem t"
  have maps: "maps_ok (memory_maps ?st)" using ok by (simp add: mm_ok_def)
  have here: "map_vaddr m \<le> a \<and> a < map_vaddr m + PGSIZE (mp E) \<longleftrightarrow> covers m a" for a
    by (simp add: covers_def one)
  have "resolve_cow_fault E p (map_vaddr m) (frame_cap m) (map_flags m) s = (Ok (), s')"
    using run t m cow by (simp add: page_fault_def Let_def fault_on_map_def andThen_def[of "task_or NotFound p"] task_or_def)
  from cow_fault_copies[OF this] obtain slot w src dst where copied: "copied_frame E (frame_cap m) (world s) slot w"
    and rest: "switch_frame E p (map_vaddr m) (frame_cap m) (map_flags m) slot src dst
      ((ledger_record_frame_alloc p slot 1 s)\<lparr>world := w\<rparr>) = (Ok (), s')" by blast
  let ?s1 = "(ledger_record_frame_alloc p slot 1 s)\<lparr>world := w\<rparr>"
  have later: "(memory_call E)\<^sup>*\<^sup>* w (world s')" by (rule keepsD[OF switch_frame_calls _ rest]) simp
  have same: "get_process ?s1 = get_process s" "frame_cap_refs (ts ?s1) = frame_cap_refs (ts s)"
    by (auto simp: ledger_record_frame_alloc_def upd_resources_def get_process_def)
  have "?st = ?st\<lparr>intermediate_page_tables := intermediate_page_tables ?st\<rparr>" by simp
  then have pre: "mem_refs p (get_process s) ?st (frame_cap_refs (ts s)) ?s1"
    using t unfolding mem_refs_def has_mem_def same by blast
  from leadsD[OF switch_frame_leads pre rest] obtain t' X where
    t': "get_process s' p = Some t'" "task_mem t' = (upd_map (map_vaddr m) (own_frame slot (map_flags m)) ?st)\<lparr>intermediate_page_tables := X\<rparr>"
    and refs: "frame_cap_refs (ts s') = less_refs (frame_cap m) (frame_cap_refs (ts s))"
    and others: "\<forall>q. q \<noteq> p \<longrightarrow> get_process s' q = get_process s q"
    by (auto simp: mem_refs_def has_mem_def)
  have place: "map_vaddr (own_frame slot (map_flags m) x) = map_vaddr x \<and> map_size (own_frame slot (map_flags m) x) = map_size x" for x
    by (simp add: own_frame_def)
  have "lookup_memory_map (task_mem t') a =
      (if covers m a then Some (m\<lparr>frame_cap := slot, map_cow := False\<rparr>) else lookup_memory_map ?st a)" for a
  proof -
    have look: "lookup_memory_map (task_mem t') a =
        map_option (\<lambda>x. if map_vaddr x = map_vaddr m then own_frame slot (map_flags m) x else x) (lookup_memory_map ?st a)"
      using alter_laws(2)[OF maps place] by (simp add: t'(2)) (simp add: lookup_memory_map_def upd_map_def)
    have own: "own_frame slot (map_flags m) m = m\<lparr>frame_cap := slot, map_cow := False\<rparr>" by (simp add: own_frame_def)
    have same: "lookup_memory_map ?st a = Some m" if "covers m a"
      using that m lookup_same[OF maps, of addr m a] by (simp add: lookup_memory_map_def covers_def)
    have "covers m a" if "lookup_memory_map ?st a = Some x" "map_vaddr x = map_vaddr m" for x
      using that m lookup_bounds[OF maps] by (metis covers_def lookup_memory_map_def option.inject)
    with look same own show ?thesis by (cases "lookup_memory_map ?st a") auto
  qed
  moreover have "lookup_lazy_memory_map (task_mem t') a = lookup_lazy_memory_map ?st a" for a
    by (simp add: t'(2)) (simp add: lookup_lazy_memory_map_def upd_map_def)
  moreover have "cap_refs (ts s') f = (if f = frame_cap m then max 1 (cap_refs (ts s) f - 1) else cap_refs (ts s) f)" for f
    unfolding cap_refs_owners refs owners_less ..
  ultimately show ?thesis unfolding here using t'(1) others copied later by blast
qed

section \<open>An instance\<close>

definition cow_task :: "unit task_struct" where
  "cow_task = upd_mem (upd_map 0x20010000 (\<lambda>m. m\<lparr>map_cow := True\<rparr>)) fork_task"

lemma cow_task_mem:
  "memory_maps (task_mem cow_task) = [(0x20010000, fork_map\<lparr>map_cow := True\<rparr>)]" "lazy_memory_maps (task_mem cow_task) = []"
  "task_pid cow_task = 1"
proof -
  have "task_pid cow_task = task_pid fork_task" by (simp add: cow_task_def upd_mem_def)
  then show "memory_maps (task_mem cow_task) = [(0x20010000, fork_map\<lparr>map_cow := True\<rparr>)]" "lazy_memory_maps (task_mem cow_task) = []"
    "task_pid cow_task = 1"
    by (simp_all add: cow_task_def upd_map_def fork_task_mem bt_alter_def bt_get_def)
qed

lemma okay_cow: "PERM_WRITE \<in> prm \<Longrightarrow> okay (alive p) (resolve_cow_fault example_env p page old prm)"
  unfolding resolve_cow_fault_def by (auto intro!: okay_intro okay_frames[OF serves_example])

theorem store_fault_unshares_witness:
  "\<exists>s' t'. page_fault example_env 1 0x20010010 0 STORE_PAGE_FAULT (example_ape [cow_task]) = (Ok (), s') \<and>
     get_process s' 1 = Some t' \<and> lookup_memory_map (task_mem t') 0x20010010 = Some (fork_map\<lparr>frame_cap := 100\<rparr>)"
proof -
  let ?s = "example_ape [cow_task]" and ?m = "fork_map\<lparr>map_cow := True\<rparr>"
  have g: "get_process ?s 1 = Some cow_task" by (simp add: cow_task_mem)
  have ok: "mm_ok (task_mem cow_task)"
    by (simp add: mm_ok_def maps_ok_def cow_task_mem bt_ok_def fork_map_def example_map_def usize_max_def)
  have here: "lookup_memory_map (task_mem cow_task) 0x20010010 = Some ?m"
    by (simp add: lookup_memory_map_def lookup_in_def bt_last_le_def cow_task_mem fork_map_def example_map_def wrap_add_def usize_max_def)
  have m: "map_cow ?m" "PERM_WRITE \<in> map_flags ?m" "covers ?m 0x20010010"
    by (simp_all add: fork_map_def example_map_def covers_def)
  from okayD[OF okay_cow[OF m(2)], of 1 ?s "map_vaddr ?m" "frame_cap ?m"] g obtain s' where
    "resolve_cow_fault example_env 1 (map_vaddr ?m) (frame_cap ?m) (map_flags ?m) ?s = (Ok (), s')"
    by (auto simp: alive_def)
  then have run: "page_fault example_env 1 0x20010010 0 STORE_PAGE_FAULT ?s = (Ok (), s')"
    using g here m by (simp add: page_fault_def Let_def fault_on_map_def andThen_def[of "task_or NotFound 1"] task_or_def del: One_nat_def)
  have own: "fork_map\<lparr>frame_cap := c, map_cow := False\<rparr> = fork_map\<lparr>frame_cap := c\<rparr>" for c
    by (simp add: fork_map_def example_map_def)
  have one: "map_size ?m = PGSIZE (mp example_env)" by (simp add: fork_map_def example_map_def example_mem_params_def)
  have slot: "c = 100" if "copied_frame example_env f (world ?s) c w" for f c w
    using that by (simp add: copied_frame_def example_ape_def ape_new_def)
  from store_fault_unshares[OF run g ok here m(1,2) one] obtain t' c w where
    t': "get_process s' 1 = Some t'" "copied_frame example_env (frame_cap ?m) (world ?s) c w"
    and look: "\<forall>a. lookup_memory_map (task_mem t') a =
      (if map_vaddr ?m \<le> a \<and> a < map_vaddr ?m + PGSIZE (mp example_env) then Some (?m\<lparr>frame_cap := c, map_cow := False\<rparr>)
       else lookup_memory_map (task_mem cow_task) a)" by blast
  have "lookup_memory_map (task_mem t') 0x20010010 = Some (fork_map\<lparr>frame_cap := c\<rparr>)"
    using spec[OF look, of "0x20010010"] m(3) one own by (simp add: covers_def)
  with t'(1) slot[OF t'(2)] run show ?thesis by blast
qed

end
