(* ===== verification/Region_Laws.thy ===== *)
theory Region_Laws
  imports Fd
begin

text \<open>
  The pool of regions for asynchronous I/O (\<open>src/src/ape/manager.rs\<close>) and the file handles
  that hold them (\<open>src/src/fs/fd.rs\<close>): over any sequence of the calls that make, copy and
  close descriptors, in any processes, two descriptors never hold the same region.
\<close>

section \<open>The pool\<close>

text \<open>
  \<open>used\<close>: the regions that are given out. A region is not both free and given out, its
  identifier is its index, and the regions occupy separate address ranges.
\<close>

definition regions_ok :: "ape_fs_state \<Rightarrow> usize set \<Rightarrow> bool" where
  "regions_ok f used \<longleftrightarrow>
     distinct (async_free f) \<and> set (async_free f) \<inter> used = {} \<and>
     (\<forall>i \<in> set (async_free f) \<union> used. i < length (async_regions f)) \<and>
     (\<forall>i < length (async_regions f). reg_id (async_regions f ! i) = i) \<and>
     sorted_wrt (\<lambda>a b. reg_vaddr a + reg_size a \<le> reg_vaddr b) (async_regions f) \<and>
     (\<forall>r \<in> set (async_regions f). reg_vaddr r + reg_size r \<le> next_async_vaddr f)"

lemma regions_ok_reuse:
  assumes "regions_ok f used" and "try_reuse_region f = (Some r, f')"
  shows "reg_id r \<notin> used \<and> regions_ok f' (insert (reg_id r) used)"
proof -
  let ?i = "last (async_free f)"
  from assms(2) have ne: "async_free f \<noteq> []" and r: "r = async_regions f ! ?i" "?i < length (async_regions f)"
    and f': "f' = f\<lparr>async_free := butlast (async_free f)\<rparr>"
    by (auto simp: try_reuse_region_def Let_def split: if_splits)
  from assms(1) r have id: "reg_id r = ?i" by (simp add: regions_ok_def)
  have free: "async_free f = butlast (async_free f) @ [?i]" using ne by simp
  from assms(1) have "?i \<notin> set (butlast (async_free f))" "distinct (butlast (async_free f))"
    using free by (metis distinct_append not_distinct_conv_prefix regions_ok_def, metis distinct_butlast regions_ok_def)
  moreover have "set (butlast (async_free f)) \<subseteq> set (async_free f)" by (auto dest: in_set_butlastD)
  moreover have "?i \<in> set (async_free f)" using ne by simp
  ultimately show ?thesis
    using assms(1) id f' r(2) by (auto simp: regions_ok_def)
qed

lemma regions_ok_push:
  assumes "regions_ok f used" and "reserve_async_vaddr sz f = (Some v, f1)"
  shows "length (async_regions f) \<notin> used \<and>
    regions_ok (push_region \<lparr>reg_id = length (async_regions f), reg_frame_slot = c, reg_vaddr = v,
        reg_size = sz\<rparr> f1) (insert (length (async_regions f)) used)"
proof -
  from assms(2) have "v = next_async_vaddr f" "f1 = f\<lparr>next_async_vaddr := v + sz\<rparr>"
    by (auto simp: reserve_async_vaddr_def checked_add_def split: if_splits)
  with assms(1) show ?thesis
    by (auto simp: regions_ok_def push_region_def sorted_wrt_append nth_append less_Suc_eq)
qed

lemma regions_ok_recycle:
  assumes "regions_ok f used" and "i \<in> used"
  shows "regions_ok (recycle_region i f) (used - {i})"
  using assms by (auto simp: regions_ok_def recycle_region_def)

lemma allocate_new_region_fs:
  assumes "allocate_new_region E p sz s = (Ok r, s')"
  obtains v f1 c where "reserve_async_vaddr sz (fs_sub s) = (Some v, f1)"
    and "r = \<lparr>reg_id = length (async_regions (fs_sub s)), reg_frame_slot = c, reg_vaddr = v, reg_size = sz\<rparr>"
    and "fs_sub s' = push_region r f1"
proof -
  have len: "length (async_regions (snd (reserve_async_vaddr sz f))) = length (async_regions f)" for f
    by (simp add: reserve_async_vaddr_def split: option.split)
  from assms len[of "fs_sub s"] show thesis
    unfolding allocate_new_region_def
    by (auto simp: ok_iff Let_def upd_resources_def upd_fs_sub_def region_count_def intro!: that)
qed

text \<open>
  An allocation that succeeds, whether it reuses a recycled region or maps a new one,
  returns a region outside the held ones; recycling makes a held region free.
\<close>

lemma allocate_region_outside:
  assumes "regions_ok (fs_sub s) used"
  shows "(\<forall>r s'. allocate_fs_async_region E p sz s = (Ok r, s') \<longrightarrow>
            reg_id r \<notin> used \<and> regions_ok (fs_sub s') (insert (reg_id r) used)) \<and>
         (\<forall>i \<in> used. regions_ok (fs_sub (recycle_fs_async_region i s)) (used - {i}))"
proof (intro conjI allI impI ballI)
  fix i assume "i \<in> used"
  with assms show "regions_ok (fs_sub (recycle_fs_async_region i s)) (used - {i})"
    by (simp add: recycle_fs_async_region_def upd_fs_sub_def regions_ok_recycle)
next
  fix r s' assume run: "allocate_fs_async_region E p sz s = (Ok r, s')"
  obtain x f' where reuse: "try_reuse_region (fs_sub s) = (x, f')" by fastforce
  have "reg_id r \<notin> used \<and> regions_ok (fs_sub s') (insert (reg_id r) used)"
  proof (cases x)
    case (Some r')
    with run reuse have "r = r'" and "fs_sub s' = f'"
      by (auto simp: allocate_fs_async_region_def ok_iff upd_resources_def)
    with regions_ok_reuse[OF assms] reuse Some show ?thesis by simp
  next
    case None
    have f': "regions_ok f' used"
    proof (cases "async_free (fs_sub s) = []")
      case True
      with reuse assms show ?thesis by (simp add: try_reuse_region_def)
    next
      case False
      then have "last (async_free (fs_sub s)) < length (async_regions (fs_sub s))"
        using assms by (simp add: regions_ok_def)
      with reuse None False show ?thesis by (simp add: try_reuse_region_def Let_def)
    qed
    from run reuse None
    have "allocate_new_region E p (align_up (mp E) sz (PGSIZE (mp E))) (s\<lparr>fs_sub := f'\<rparr>) = (Ok r, s')"
      by (auto simp: allocate_fs_async_region_def ok_iff Let_def split: if_splits)
    then obtain v f1 c where
      "reserve_async_vaddr (align_up (mp E) sz (PGSIZE (mp E))) f' = (Some v, f1)"
      "r = \<lparr>reg_id = length (async_regions f'), reg_frame_slot = c, reg_vaddr = v,
             reg_size = align_up (mp E) sz (PGSIZE (mp E))\<rparr>"
      "fs_sub s' = push_region r f1" by (rule allocate_new_region_fs) simp
    with regions_ok_push[OF f'] show ?thesis by simp
  qed
  then show "reg_id r \<notin> used" "regions_ok (fs_sub s') (insert (reg_id r) used)" by blast+
qed

section \<open>The regions that descriptors hold\<close>

definition region_of :: "fd_handle \<Rightarrow> usize option" where
  "region_of h = (case file_type h of Normal n \<Rightarrow> map_option aio_region_id (nf_async_io n))"

definition holds :: "('i, 'p, 'w) ape \<Rightarrow> usize \<Rightarrow> nat \<Rightarrow> usize \<Rightarrow> bool" where
  "holds s p fd i \<longleftrightarrow>
     (\<exists>t h. get_process s p = Some t \<and> bt_get (fds (task_files t)) fd = Some h \<and> region_of h = Some i)"

definition held :: "('i, 'p, 'w) ape \<Rightarrow> usize set" where
  "held s = {i. \<exists>p fd. holds s p fd i}"

definition pool_ok :: "('i, 'p, 'w) ape \<Rightarrow> bool" where
  "pool_ok s \<longleftrightarrow>
     regions_ok (fs_sub s) (held s) \<and> (\<forall>p fd q gd i. holds s p fd i \<and> holds s q gd i \<longrightarrow> p = q \<and> fd = gd)"

lemma regions_ok_subset: "regions_ok f u \<Longrightarrow> v \<subseteq> u \<Longrightarrow> regions_ok f v"
  unfolding regions_ok_def by blast

lemma pool_ok_shrink:
  assumes "pool_ok s" and "fs_sub s' = fs_sub s" and "\<And>p fd i. holds s' p fd i \<Longrightarrow> holds s p fd i"
  shows "pool_ok s'"
proof -
  have "held s' \<subseteq> held s" unfolding held_def using assms(3) by blast
  with assms show ?thesis unfolding pool_ok_def using regions_ok_subset by metis
qed

lemma holds_same: "get_process s' = get_process s \<Longrightarrow> holds s' = holds s"
  by (intro ext) (simp add: holds_def)

lemma pool_ok_updates [simp]:
  "pool_ok (s\<lparr>world := w\<rparr>) = pool_ok s" "pool_ok (upd_resources f s) = pool_ok s"
proof -
  have w: "holds (s\<lparr>world := w\<rparr>) = holds s" and r: "holds (upd_resources f s) = holds s"
    by (rule holds_same, rule ext, simp)+
  from w show "pool_ok (s\<lparr>world := w\<rparr>) = pool_ok s" by (simp add: pool_ok_def held_def)
  from r show "pool_ok (upd_resources f s) = pool_ok s" by (simp add: pool_ok_def held_def upd_resources_def)
qed

lemma pool_ok_mem:
  assumes "pool_ok s" and "mem_only p s s'"
  shows "pool_ok s'"
proof (rule pool_ok_shrink[OF assms(1)])
  fix q fd i assume h: "holds s' q fd i"
  from assms(2) obtain f where "get_process s' p = map_option (upd_mem f) (get_process s p)"
    and "q \<noteq> p \<Longrightarrow> get_process s' q = get_process s q" by (auto simp: mem_only_def)
  with h show "holds s q fd i"
    by (cases "q = p") (auto simp: holds_def upd_mem_def)
qed (use assms(2) in \<open>simp add: mem_only_def\<close>)

lemma keeps_pool_mem: "(\<And>s. keeps (mem_only p s) m) \<Longrightarrow> keeps pool_ok m"
  by (rule keepsI, erule pool_ok_mem, rule keeps_state) auto

lemma keeps_pool_steps:
  "keeps pool_ok (ext m)" "keeps pool_ok (ext_do f)" "keeps pool_ok (modify (ledger_record_fd_open p))"
  "keeps pool_ok (modify (ledger_record_fd_close p))"
  by (auto simp: ledger_record_fd_open_def ledger_record_fd_close_def intro!: keeps_ext keeps_ext_do keeps_modify)

lemma holds_upd_files:
  "holds (upd_task p (upd_files F) s) q fd i \<longleftrightarrow>
     (if q = p then \<exists>t h. get_process s p = Some t \<and> bt_get (fds (F (task_files t))) fd = Some h \<and> region_of h = Some i
      else holds s q fd i)"
  by (auto simp: holds_def)

text \<open>A change of the table that adds no handle with a region.\<close>

lemma keeps_pool_files:
  assumes "\<And>f fd h. bt_get (fds (F f)) fd = Some h \<Longrightarrow> region_of h \<noteq> None \<Longrightarrow> bt_get (fds f) fd = Some h"
  shows "keeps pool_ok (modify (upd_task p (upd_files F)))"
proof (rule keeps_modify, erule pool_ok_shrink)
  fix s q fd i
  show "fs_sub (upd_task p (upd_files F) s) = fs_sub s" by (simp add: upd_task_def upd_ts_def)
  assume "holds (upd_task p (upd_files F) s) q fd i"
  then show "holds s q fd i"
  proof (cases "q = p")
    case True
    with \<open>holds (upd_task p (upd_files F) s) q fd i\<close> obtain t h where
      h: "get_process s p = Some t" "bt_get (fds (F (task_files t))) fd = Some h" "region_of h = Some i"
      unfolding holds_upd_files by auto
    from assms[OF h(2)] h(3) have "bt_get (fds (task_files t)) fd = Some h" by simp
    with h True show ?thesis unfolding holds_def by blast
  qed (simp add: holds_upd_files)
qed

lemma region_of_new [simp]:
  "region_of (new_handle c None) = None" "region_of (duplicate_handle h) = None"
  "region_of (new_handle c (Some a)) = Some (aio_region_id a)"
  by (auto simp: region_of_def new_handle_def duplicate_handle_def duplicate_normal_handle_def split: file_type.split)

section \<open>Opening\<close>

lemma allocate_new_region_fails:
  assumes "allocate_new_region E p sz s = (r, s')" and "\<And>x. r \<noteq> Ok x"
  shows "fs_sub s' = fs_sub s \<or> fs_sub s' = snd (reserve_async_vaddr sz (fs_sub s))"
  using assms
  by (auto simp: allocate_new_region_def monad_simps ext_def upd_resources_def Let_def
      split: prod.splits res.splits option.splits)

lemma regions_ok_reserve: "regions_ok f used \<Longrightarrow> regions_ok (snd (reserve_async_vaddr sz f)) used"
  by (fastforce simp: regions_ok_def reserve_async_vaddr_def checked_add_def split: option.split)

lemma reuse_any: "regions_ok f used \<Longrightarrow> regions_ok (snd (try_reuse_region f)) used"
proof (cases "try_reuse_region f")
  case (Pair x f')
  assume ok: "regions_ok f used"
  show ?thesis
  proof (cases x)
    case None
    with Pair ok show ?thesis
      by (cases "async_free f") (auto simp: try_reuse_region_def Let_def regions_ok_def split: if_splits)
  next
    case (Some y)
    with regions_ok_reuse[OF ok] Pair have "regions_ok f' (insert (reg_id y) used)" by blast
    with Pair show ?thesis using regions_ok_subset by fastforce
  qed
qed

lemma allocate_fails:
  assumes "regions_ok (fs_sub s) used" and "allocate_fs_async_region E p sz s = (r, s')" and "\<And>x. r \<noteq> Ok x"
  shows "regions_ok (fs_sub s') used"
proof -
  obtain x f' where reuse: "try_reuse_region (fs_sub s) = (x, f')" by fastforce
  with reuse_any[OF assms(1)] have f': "regions_ok f' used" by simp
  show ?thesis
  proof (cases x)
    case (Some y)
    with assms(2,3) reuse show ?thesis
      by (auto simp: allocate_fs_async_region_def monad_simps Let_def)
  next
    case None
    let ?sz = "align_up (mp E) sz (PGSIZE (mp E))"
    have "s' = s\<lparr>fs_sub := f'\<rparr> \<or> allocate_new_region E p ?sz (s\<lparr>fs_sub := f'\<rparr>) = (r, s')"
      using assms(2) reuse None by (auto simp: allocate_fs_async_region_def monad_simps Let_def split: if_splits)
    then show ?thesis
      using allocate_new_region_fails[of E p ?sz "s\<lparr>fs_sub := f'\<rparr>" r s'] assms(3) f' regions_ok_reserve[OF f', of ?sz] by auto
  qed
qed

lemma regions_ok_marks [simp]:
  "regions_ok (mark_iouring_supported f) used = regions_ok f used"
  "regions_ok (mark_iouring_unsupported f) used = regions_ok f used"
  by (simp_all add: regions_ok_def mark_iouring_supported_def mark_iouring_unsupported_def)

text \<open>What an open has got from the pool: a region that nobody holds, or nothing.\<close>

definition pool_gives :: "async_io_state option res \<Rightarrow> usize set \<Rightarrow> ape_fs_state \<Rightarrow> bool" where
  "pool_gives r used f \<longleftrightarrow>
     regions_ok f used \<and>
     (\<forall>a. r = Ok (Some a) \<longrightarrow> aio_region_id a \<notin> used \<and> regions_ok f (insert (aio_region_id a) used))"

lemma setup_region_gives:
  assumes "regions_ok (fs_sub s) (insert (reg_id x) used)" and "reg_id x \<notin> used" and "setup_region E c x s = (r, s')"
  shows "pool_gives r used (fs_sub s')"
proof -
  have sub: "regions_ok (fs_sub s) used" using regions_ok_subset[OF assms(1)] by blast
  have freed: "regions_ok (recycle_region (reg_id x) f) used" if "regions_ok f (insert (reg_id x) used)" for f
    using regions_ok_recycle[OF that, of "reg_id x"] assms(2) by simp
  show ?thesis
    using assms sub freed[of "mark_iouring_supported (fs_sub s)"] freed[of "mark_iouring_unsupported (fs_sub s)"] freed[of "fs_sub s"]
    by (auto simp: pool_gives_def setup_region_def monad_simps ext_def upd_fs_sub_def recycle_fs_async_region_def Let_def
        split: prod.splits res.splits if_splits)
qed

lemma open_async_io_gives:
  assumes "regions_ok (fs_sub s) used" and "open_async_io E p c s = (r, s')"
  shows "pool_gives r used (fs_sub s')"
proof (cases "should_try_fs_iouring s")
  case True
  obtain x s1 where alloc: "allocate_fs_async_region E p FS_ASYNC_REGION_SIZE s = (x, s1)" by fastforce
  show ?thesis
  proof (cases x)
    case (Ok y)
    with allocate_region_outside[OF assms(1)] alloc
    have "reg_id y \<notin> used" "regions_ok (fs_sub s1) (insert (reg_id y) used)" by blast+
    moreover have "setup_region E c y s1 = (r, s')"
      using assms(2) True alloc Ok by (simp add: open_async_io_def ENABLE_FS_ASYNC_IO_def monad_simps)
    ultimately show ?thesis using setup_region_gives by blast
  next
    case (Err e)
    then have "regions_ok (fs_sub s1) used" using allocate_fails[OF assms(1) alloc] by simp
    with assms(2) True alloc Err show ?thesis
      by (auto simp: open_async_io_def ENABLE_FS_ASYNC_IO_def monad_simps pool_gives_def)
  next
    case Panic
    then have "regions_ok (fs_sub s1) used" using allocate_fails[OF assms(1) alloc] by simp
    with assms(2) True alloc Panic show ?thesis
      by (auto simp: open_async_io_def ENABLE_FS_ASYNC_IO_def monad_simps pool_gives_def)
  qed
next
  case False
  with assms show ?thesis by (auto simp: open_async_io_def monad_simps pool_gives_def)
qed

text \<open>A region that is given out and that no descriptor holds.\<close>

definition spare :: "usize \<Rightarrow> ('i, 'p, 'w) ape \<Rightarrow> bool" where
  "spare i s \<longleftrightarrow> i \<notin> held s \<and> regions_ok (fs_sub s) (insert i (held s))"

lemma spare_world [simp]: "spare i (s\<lparr>world := w\<rparr>) = spare i s"
proof -
  have "holds (s\<lparr>world := w\<rparr>) = holds s" by (rule holds_same, rule ext) simp
  then show ?thesis by (simp add: spare_def held_def)
qed

lemma pool_ok_install:
  assumes "pool_ok s" and "get_process s p = Some t" and "\<And>a. aio = Some a \<Longrightarrow> spare (aio_region_id a) s"
    and "install_fd (new_handle c aio) path (task_files t) = (fd, f)"
  shows "pool_ok (upd_task p (upd_files (\<lambda>_. f)) s)"
proof -
  let ?s = "upd_task p (upd_files (\<lambda>_. f)) s"
  have f: "bt_get (fds f) gd = (if gd = fd then Some (new_handle c aio) else bt_get (fds (task_files t)) gd)" for gd
    using assms(4) by (auto simp: install_fd_def Let_def)
  have old: "holds s q gd i" if "holds ?s q gd i" "(q, gd) \<noteq> (p, fd)" for q gd i
    using that assms(2) by (auto simp: holds_upd_files f holds_def split: if_splits)
  have new: "\<exists>a. aio = Some a \<and> i = aio_region_id a" if "holds ?s p fd i" for i
    using that by (cases aio) (auto simp: holds_upd_files f)
  have sub: "fs_sub ?s = fs_sub s" by (simp add: upd_task_def upd_ts_def)
  show ?thesis
  proof (cases aio)
    case None
    then show ?thesis using old new by (intro pool_ok_shrink[OF assms(1) sub]) (metis option.distinct(1) prod.inject)
  next
    case (Some a)
    let ?i = "aio_region_id a"
    from assms(3)[OF Some] have i: "?i \<notin> held s" "regions_ok (fs_sub s) (insert ?i (held s))" by (simp_all add: spare_def)
    have "held ?s \<subseteq> insert ?i (held s)"
      using old new Some unfolding held_def by fastforce
    with i(2) have "regions_ok (fs_sub ?s) (held ?s)" unfolding sub by (rule regions_ok_subset)
    moreover have "q = q' \<and> gd = gd'" if h: "holds ?s q gd j" "holds ?s q' gd' j" for q gd q' gd' j
    proof (cases "(q, gd) = (p, fd) \<or> (q', gd') = (p, fd)")
      case True
      with h new Some have "j = ?i" by blast
      with i(1) old h show ?thesis unfolding held_def by blast
    next
      case False
      with h old assms(1) show ?thesis unfolding pool_ok_def by blast
    qed
    ultimately show ?thesis unfolding pool_ok_def by blast
  qed
qed

lemma keeps_pool_open_slot: "keeps pool_ok (open_slot E c path fl md)"
  unfolding open_slot_def by (intro keeps_intro keeps_pool_steps)

lemma keeps_pool_open: "keeps pool_ok (open_via_nexus_fs E p path flags mode)"
  unfolding open_via_nexus_fs_def
proof (rule keeps_andThen[OF keeps_pool_open_slot], rule keepsI)
  fix c and s :: "('a, 'b, 'c) ape"
  let ?rest = "\<lambda>aio. andThen (task_or NotFound p) (\<lambda>t.
      case install_fd (new_handle c aio) path (task_files t) of (fd, f) \<Rightarrow>
        andThen (modify (upd_task p (upd_files (\<lambda>_. f)))) (\<lambda>_.
        andThen (modify (ledger_record_fd_open p)) (\<lambda>_. ret (i64_of_nat fd))))"
  assume ok: "pool_ok s"
  obtain x s1 where run: "open_async_io E p c s = (x, s1)" by fastforce
  have "get_process s1 q = get_process s q" for q by (rule keepsD[OF open_async_io_processes refl run])
  then have "get_process s1 = get_process s" by (rule ext)
  then have hs: "holds s1 = holds s" by (rule holds_same)
  then have same: "holds s1 = holds s" "held s1 = held s" by (simp_all add: held_def)
  from ok have gives: "pool_gives x (held s) (fs_sub s1)" unfolding pool_ok_def using open_async_io_gives[OF _ run] by blast
  with ok same have ok1: "pool_ok s1" by (simp add: pool_ok_def pool_gives_def)
  have "pool_ok (snd (?rest aio s1))" if "x = Ok aio" for aio
  proof (cases "get_process s1 p")
    case None
    with ok1 show ?thesis by (simp add: andThen_def task_or_def)
  next
    case (Some t)
    obtain fd f where inst: "install_fd (new_handle c aio) path (task_files t) = (fd, f)" by fastforce
    have "pool_ok (upd_task p (upd_files (\<lambda>_. f)) s1)"
      by (rule pool_ok_install[OF ok1 Some _ inst])
        (use gives that same in \<open>auto simp: pool_gives_def spare_def\<close>)
    with Some inst show ?thesis by (simp add: andThen_def task_or_def modify_def ret_def ledger_record_fd_open_def)
  qed
  with ok1 run show "pool_ok (snd (andThen (open_async_io E p c) ?rest s))"
    by (cases x) (simp_all add: andThen_def)
qed

lemma keeps_pool_openat: "keeps pool_ok (do_openat E p dirfd name flags mode)"
  unfolding do_openat_def resolve_path_for_process_def
  by (intro keeps_intro keeps_pool_open keeps_pool_mem[where p = p] user_access_mem)

section \<open>Closing\<close>

lemma close_handle_pool:
  assumes "pool_ok s" and "\<And>i. region_of h = Some i \<Longrightarrow> spare i s"
  shows "pool_ok (snd (close_handle E h s))"
proof -
  obtain n where n: "file_type h = Normal n" by (cases "file_type h")
  let ?P = "\<lambda>s :: ('a, 'b, 'c) ape. pool_ok s \<and> (\<forall>i. region_of h = Some i \<longrightarrow> spare i s)"
  let ?first = "andThen (gets (\<lambda>s. slot_in_use s (nf_fs_ep_slot n))) (\<lambda>shared. whenM (\<not> shared) (
      andThen (ignore (ext (fs_close (fss E) (nf_fs_client n)))) (\<lambda>_.
      whenM (nf_fs_ep_slot n \<noteq> 0) (
        andThen (ignore (ext (cap_delete (caps E) (nf_fs_ep_slot n)))) (\<lambda>_.
        ext_do (cspace_free (caps E) (nf_fs_ep_slot n)))))))"
  have split: "close_handle E h = andThen ?first (\<lambda>_. case nf_async_io n of None \<Rightarrow> ret ()
      | Some a \<Rightarrow> modify (recycle_fs_async_region (aio_region_id a)))"
    by (rule ext) (simp add: close_handle_def n andThen_def gets_def)
  have k: "keeps ?P ?first"
    by (intro keeps_intro) (auto intro!: keeps_ext keeps_ext_do)
  obtain x s1 where run: "?first s = (x, s1)" by (cases "?first s")
  from keepsD[OF k _ run] assms have P: "?P s1" by blast
  have "pool_ok (recycle_fs_async_region (aio_region_id a) s1)" if a: "nf_async_io n = Some a" for a
  proof -
    let ?i = "aio_region_id a" and ?s = "recycle_fs_async_region (aio_region_id a) s1"
    have "spare ?i s1" using P a n by (simp add: region_of_def)
    then have "regions_ok (recycle_region ?i (fs_sub s1)) (held s1)"
      using regions_ok_recycle[of "fs_sub s1" "insert ?i (held s1)" ?i] by (simp add: spare_def)
    moreover have "holds ?s = holds s1"
      by (rule holds_same, rule ext) (simp add: recycle_fs_async_region_def)
    ultimately show ?thesis
      using P by (simp add: pool_ok_def held_def recycle_fs_async_region_def upd_fs_sub_def)
  qed
  with P run show ?thesis unfolding split by (cases x; cases "nf_async_io n") (simp_all add: andThen_def ret_def modify_def)
qed

lemma keeps_pool_close: "keeps pool_ok (do_close E p fd0)"
  unfolding do_close_def
proof (rule keeps_andThen[OF keeps_lift_res], rule keepsI)
  fix fd and s :: "('a, 'b, 'c) ape"
  let ?s = "upd_task p (upd_files (\<lambda>f. snd (drop_fd fd f))) s"
  assume ok: "pool_ok s"
  have drop: "bt_get (fds (snd (drop_fd fd f))) gd = (if gd = fd then None else bt_get (fds f) gd)" for f gd
    by (simp add: drop_fd_def bt_get_remove)
  have "keeps pool_ok (modify (upd_task p (upd_files (\<lambda>f. snd (drop_fd fd f)))) :: ('a, 'b, 'c, unit) ape_prog)"
    by (rule keeps_pool_files) (simp add: drop split: if_splits)
  from keeps_state[OF this ok] have ok1: "pool_ok ?s" by (simp add: modify_def)
  have spare: "spare i ?s" if "get_process s p = Some t" "fst (drop_fd fd (task_files t)) = Some h" "region_of h = Some i" for t h i
  proof -
    have here: "holds s p fd i" using that by (auto simp: holds_def drop_fd_def)
    have gone: "holds ?s q gd j \<longleftrightarrow> holds s q gd j \<and> (q, gd) \<noteq> (p, fd)" for q gd j
      by (auto simp: holds_upd_files drop holds_def split: if_splits)
    have "i \<notin> held ?s" using here gone ok unfolding held_def pool_ok_def by blast
    moreover have "insert i (held ?s) \<subseteq> held s" using here gone unfolding held_def by blast
    ultimately show ?thesis
      using ok regions_ok_subset[of "fs_sub s" "held s" "insert i (held ?s)"] by (simp add: spare_def pool_ok_def)
  qed
  show "pool_ok (snd (andThen (task_or NotFound p) (\<lambda>t.
      andThen (modify (upd_task p (upd_files (\<lambda>f. snd (drop_fd fd f))))) (\<lambda>_.
      andThen (lift_res (ok_or (fst (drop_fd fd (task_files t))) InvalidSlot)) (\<lambda>h.
      andThen (close_handle E h) (\<lambda>_.
      andThen (modify (ledger_record_fd_close p)) (\<lambda>_. ret 0))))) s))"
  proof (cases "get_process s p")
    case None
    with ok show ?thesis by (simp add: andThen_def task_or_def)
  next
    case t: (Some t)
    show ?thesis
    proof (cases "fst (drop_fd fd (task_files t))")
      case None
      with t ok1 show ?thesis by (simp add: andThen_def task_or_def modify_def lift_res_def)
    next
      case (Some h)
      have "pool_ok (snd (close_handle E h ?s))" by (rule close_handle_pool[OF ok1 spare[OF t Some]])
      with t Some show ?thesis
        by (cases "close_handle E h ?s"; cases "fst (close_handle E h ?s)")
          (simp_all add: andThen_def task_or_def modify_def lift_res_def ret_def ledger_record_fd_close_def)
    qed
  qed
qed

section \<open>Copying and pipes\<close>

lemma dup_into_fds: "fds (dup_into fd new h path c f) = bt_insert new h (fds f)"
  by (simp add: dup_into_def Let_def split: option.split)

lemma keeps_pool_dup_into:
  "keeps pool_ok (modify (upd_task p (upd_files (dup_into fd new (duplicate_handle h) path c))))"
  by (rule keeps_pool_files) (auto simp: dup_into_fds split: if_splits)

lemma keeps_pool_fcntl: "keeps pool_ok (do_fcntl E p fd cmd arg)"
  unfolding do_fcntl_def fcntl_dup_def
  by (intro keeps_intro keeps_pool_dup_into keeps_pool_steps keeps_pool_files) simp

lemma keeps_pool_dup3: "keeps pool_ok (do_dup3 E p old new flags)"
  unfolding do_dup3_def
  by (intro keeps_intro keeps_pool_dup_into keeps_pool_steps keeps_pool_close)

lemma keeps_pool_ends: "keeps pool_ok (open_both_ends E n)" "keeps pool_ok (create_pipe_id E)" "keeps pool_ok (close_removed E h)"
  unfolding open_both_ends_def open_pipe_end_via_pipefs_def create_pipe_id_def close_removed_def drop_slot_def
  by (auto intro!: keeps_intro keeps_pool_steps keeps_pool_open_slot split: file_type.split)

lemma keeps_pool_pipe2: "keeps pool_ok (do_pipe2 E p ptr flags)"
proof -
  have i: "keeps pool_ok (modify (upd_task p (upd_files (install_pipe r w a b c))))"
    and u: "keeps pool_ok (modify (upd_task p (upd_files (uninstall_pipe r w))))" for r w a b c
    by (rule keeps_pool_files, auto simp: install_pipe_def uninstall_pipe_def bt_get_remove split: if_splits)+
  show ?thesis
    unfolding do_pipe2_def
    by (intro keeps_intro keeps_pool_ends keeps_pool_steps i u keeps_pool_mem[where p = p] user_access_mem)
qed

section \<open>Any sequence of calls\<close>

text \<open>The calls that make, copy and close descriptors, of any process and with any outcome.\<close>

inductive fd_call :: "('i, 'w) env \<Rightarrow> ('i, 'p, 'w) ape \<Rightarrow> ('i, 'p, 'w) ape \<Rightarrow> bool" for E where
  call_openat: "do_openat E p dirfd name flags mode s = (r, s') \<Longrightarrow> fd_call E s s'"
| call_open: "open_via_nexus_fs E p path flags mode s = (r, s') \<Longrightarrow> fd_call E s s'"
| call_close: "do_close E p fd s = (r, s') \<Longrightarrow> fd_call E s s'"
| call_fcntl: "do_fcntl E p fd cmd arg s = (r, s') \<Longrightarrow> fd_call E s s'"
| call_dup3: "do_dup3 E p old new fl s = (r, s') \<Longrightarrow> fd_call E s s'"
| call_pipe2: "do_pipe2 E p ptr fl s = (r, s') \<Longrightarrow> fd_call E s s'"

lemma fd_call_pool: "fd_call E s s' \<Longrightarrow> pool_ok s \<Longrightarrow> pool_ok s'"
  by (erule fd_call.cases)
    (blast intro: keepsD[OF keeps_pool_openat] keepsD[OF keeps_pool_open] keepsD[OF keeps_pool_close]
      keepsD[OF keeps_pool_fcntl] keepsD[OF keeps_pool_dup3] keepsD[OF keeps_pool_pipe2])+

lemma fd_calls_pool: "(fd_call E)\<^sup>*\<^sup>* s s' \<Longrightarrow> pool_ok s \<Longrightarrow> pool_ok s'"
  by (induction rule: rtranclp_induct) (auto intro: fd_call_pool)

text \<open>A manager whose pool has given out nothing.\<close>

definition fresh_pool :: "('i, 'p, 'w) ape \<Rightarrow> bool" where
  "fresh_pool s \<longleftrightarrow> async_regions (fs_sub s) = [] \<and> async_free (fs_sub s) = [] \<and> held s = {}"

lemma fresh_pool_ok: "fresh_pool s \<Longrightarrow> pool_ok s"
  by (auto simp: fresh_pool_def pool_ok_def regions_ok_def held_def)

lemma regions_apart:
  assumes "regions_ok f used" and "i < length (async_regions f)" and "j < length (async_regions f)" and "i \<noteq> j"
  shows "reg_vaddr (async_regions f ! i) + reg_size (async_regions f ! i) \<le> reg_vaddr (async_regions f ! j) \<or>
    reg_vaddr (async_regions f ! j) + reg_size (async_regions f ! j) \<le> reg_vaddr (async_regions f ! i)"
proof -
  have "sorted_wrt (\<lambda>a b. reg_vaddr a + reg_size a \<le> reg_vaddr b) (async_regions f)"
    using assms(1) by (simp add: regions_ok_def)
  with assms(2-4) show ?thesis by (cases "i < j") (auto simp: sorted_wrt_iff_nth_less)
qed

text \<open>
  C25: the regions for asynchronous I/O are not shared.  From a manager whose pool is fresh,
  after any sequence of opens, closes, duplications and pipe creations of any processes,
  successful or not, two different descriptors hold two different regions, whose addresses
  do not overlap, and a region that a descriptor holds is not on the free list, so that the
  next allocation cannot hand it out.  Fork is not among the calls: it copies the handles
  with their regions.
\<close>

theorem descriptors_never_share_region:
  assumes "fresh_pool s" and "(fd_call E)\<^sup>*\<^sup>* s s'" and "holds s' p fd i" and "holds s' q gd j" and "(p, fd) \<noteq> (q, gd)"
  shows "i \<noteq> j \<and> i \<notin> set (async_free (fs_sub s')) \<and> i < length (async_regions (fs_sub s')) \<and>
    (let a = async_regions (fs_sub s') ! i; b = async_regions (fs_sub s') ! j
     in reg_vaddr a + reg_size a \<le> reg_vaddr b \<or> reg_vaddr b + reg_size b \<le> reg_vaddr a)"
proof -
  have ok: "pool_ok s'" by (rule fd_calls_pool[OF assms(2) fresh_pool_ok[OF assms(1)]])
  then have reg: "regions_ok (fs_sub s') (held s')" by (simp add: pool_ok_def)
  have ne: "i \<noteq> j" using ok assms(3-5) unfolding pool_ok_def by blast
  have "i \<in> held s'" "j \<in> held s'" using assms(3,4) unfolding held_def by blast+
  with reg have "i \<notin> set (async_free (fs_sub s'))" and len: "i < length (async_regions (fs_sub s'))" "j < length (async_regions (fs_sub s'))"
    unfolding regions_ok_def by blast+
  with ne regions_apart[OF reg len ne] show ?thesis by (simp add: Let_def)
qed

section \<open>Two files opened\<close>

text \<open>A pool with room and without free regions, as two opens of the example find it.\<close>

definition roomy :: "nat \<Rightarrow> usize \<Rightarrow> ape_fs_state \<Rightarrow> bool" where
  "roomy n v f \<longleftrightarrow>
     iouring_supported f \<noteq> Some False \<and> async_free f = [] \<and> length (async_regions f) = n \<and>
     n < FS_ASYNC_POOL_MAX_REGIONS \<and> next_async_vaddr f = v \<and> v + 16384 \<le> usize_max"

lemma example_async_io:
  assumes "roomy n v (fs_sub s)"
  shows "\<exists>a s'. open_async_io example_env 1 c s = (Ok (Some a), s') \<and> aio_region_id a = n \<and> world s' = Suc (world s) \<and>
    async_free (fs_sub s') = [] \<and> length (async_regions (fs_sub s')) = Suc n \<and>
    next_async_vaddr (fs_sub s') = v + 16384 \<and> iouring_supported (fs_sub s') = Some True"
proof -
  have sz: "align_up example_mem_params FS_ASYNC_REGION_SIZE (PGSIZE example_mem_params) = 16384"
    by (simp add: FS_ASYNC_REGION_SIZE_def example_mem_params_def)
  have "try_reuse_region (fs_sub s) = (None, fs_sub s)" "\<not> n \<ge> FS_ASYNC_POOL_MAX_REGIONS"
    using assms by (simp_all add: try_reuse_region_def roomy_def)
  with assms show ?thesis
    by (simp add: open_async_io_def allocate_fs_async_region_def sz allocate_new_region_def setup_region_def monad_simps ext_simps
        should_try_fs_iouring_def should_try_iouring_def roomy_def region_count_def reserve_async_vaddr_def
        checked_add_def ENABLE_FS_ASYNC_IO_def upd_resources_def upd_fs_sub_def mark_iouring_supported_def push_region_def
        FS_ASYNC_DATA_OFFSET_def FS_ASYNC_RING_SIZE_def wrap_add_def usize_max_def Let_def)
qed

lemma example_open:
  assumes "roomy n v (fs_sub s)" and "get_process s 1 = Some t" and "next_fd (task_files t) < u32_max"
  shows "\<exists>c r s' t' a. open_via_nexus_fs example_env 1 path 0 0 s = (r, s') \<and> get_process s' 1 = Some t' \<and>
    fds (task_files t') = bt_insert (next_fd (task_files t)) (new_handle c (Some a)) (fds (task_files t)) \<and>
    next_fd (task_files t') = Suc (next_fd (task_files t)) \<and> aio_region_id a = n \<and>
    async_free (fs_sub s') = [] \<and> length (async_regions (fs_sub s')) = Suc n \<and>
    next_async_vaddr (fs_sub s') = v + 16384 \<and> iouring_supported (fs_sub s') = Some True"
proof -
  let ?s = "s\<lparr>world := Suc (world s)\<rparr>"
  have sl: "open_slot example_env c path fl md s = (Ok (world s), ?s)" for c fl md
    by (simp add: open_slot_def monad_simps ext_simps)
  obtain a s1 where io: "open_async_io example_env 1 (world s) ?s = (Ok (Some a), s1)" "aio_region_id a = n"
    "async_free (fs_sub s1) = []" "length (async_regions (fs_sub s1)) = Suc n" "next_async_vaddr (fs_sub s1) = v + 16384"
    "iouring_supported (fs_sub s1) = Some True"
    using example_async_io[of n v ?s "world s"] assms(1) by auto
  have t: "get_process s1 1 = Some t"
    using keepsD[OF open_async_io_processes refl io(1)] assms(2) by simp
  obtain fd f where inst: "install_fd (new_handle (world s) (Some a)) path (task_files t) = (fd, f)" by fastforce
  then have f: "fds f = bt_insert (next_fd (task_files t)) (new_handle (world s) (Some a)) (fds (task_files t))"
    "next_fd f = Suc (next_fd (task_files t))"
    using assms(3) by (auto simp: install_fd_def Let_def u32_wrap_add_def u32_max_def)
  let ?s2 = "ledger_record_fd_open 1 (upd_task 1 (upd_files (\<lambda>_. f)) s1)"
  have "open_via_nexus_fs example_env 1 path 0 0 s = (Ok (i64_of_nat fd), ?s2)"
    unfolding open_via_nexus_fs_def
    by (simp add: andThen_def sl io(1) task_or_def t inst modify_def ret_def del: One_nat_def)
  moreover have "get_process ?s2 1 = Some (upd_files (\<lambda>_. f) t)" "fs_sub ?s2 = fs_sub s1"
    using t by (simp_all add: ledger_record_fd_open_def)
  ultimately show ?thesis using f io by auto
qed

theorem descriptors_never_share_region_witness:
  "\<exists>s'. (fd_call example_env)\<^sup>*\<^sup>* (example_ape [example_fd_task]) s' \<and> holds s' 1 1 0 \<and> holds s' 1 2 1 \<and>
     0 \<notin> set (async_free (fs_sub s'))"
proof -
  let ?s = "example_ape [example_fd_task]"
  have f: "fs_sub ?s = ape_fs_state_new FS_ASYNC_POOL_BASE_VADDR 0x10000" by (simp add: example_ape_def ape_new_def)
  have fresh: "fresh_pool ?s"
    by (auto simp: fresh_pool_def f ape_fs_state_new_def held_def holds_def bt_get_def split: if_splits)
  have "roomy 0 FS_ASYNC_POOL_BASE_VADDR (fs_sub ?s)"
    by (simp add: f roomy_def ape_fs_state_new_def FS_ASYNC_POOL_MAX_REGIONS_def FS_ASYNC_POOL_BASE_VADDR_def usize_max_def)
  from example_open[OF this, of example_fd_task "''/a''"] obtain c1 r1 s1 t1 a1 where
    one: "open_via_nexus_fs example_env 1 ''/a'' 0 0 ?s = (r1, s1)" "get_process s1 1 = Some t1"
    "fds (task_files t1) = bt_insert 1 (new_handle c1 (Some a1)) [(0, new_handle 7 None)]" "next_fd (task_files t1) = 2"
    "aio_region_id a1 = 0" and "roomy 1 (FS_ASYNC_POOL_BASE_VADDR + 16384) (fs_sub s1)"
    by (auto simp: roomy_def u32_max_def FS_ASYNC_POOL_MAX_REGIONS_def FS_ASYNC_POOL_BASE_VADDR_def usize_max_def)
  from example_open[OF this(6) this(2), of "''/b''"] one(4) obtain c2 r2 s2 t2 a2 where
    two: "open_via_nexus_fs example_env 1 ''/b'' 0 0 s1 = (r2, s2)" "get_process s2 1 = Some t2"
    "fds (task_files t2) = bt_insert 2 (new_handle c2 (Some a2)) (fds (task_files t1))" "aio_region_id a2 = 1"
    by (auto simp: u32_max_def)
  have runs: "(fd_call example_env)\<^sup>*\<^sup>* ?s s2"
    using call_open[OF one(1)] call_open[OF two(1)] by (meson converse_rtranclp_into_rtranclp r_into_rtranclp)
  have h: "holds s2 1 1 0" "holds s2 1 2 1"
    using two(2-4) one(3,5) by (simp_all add: holds_def bt_get_def)
  from descriptors_never_share_region[OF fresh runs h] runs h show ?thesis by auto
qed

end
