(* ===== verification/Spec2Isabelle.thy ===== *)
theory Spec2Isabelle
  imports Strace Entry Exec_Files Wait_Laws Mmap_Laws Cow_Laws Region_Laws
begin

text \<open>
  \<^bold>\<open>The program.\<close> APE is the ANSI/POSIX environment of the Glenda microkernel: a service
  that gives Linux programs their system calls. The kernel sends it a message for every
  system call and every fault of a program; the service changes its tables, calls the other
  services of the system (memory, capabilities, files, terminals, time) and replies. Its own
  state is one \<open>ApeManager\<close>: the table of processes with their address spaces, descriptor
  tables and signals, the ledger of resources, the pool of regions for asynchronous I/O, and
  the deferred replies of callers that wait. Beside it run workers for the file systems the
  service provides itself (devices, pipes) with the terminal behind \<open>/dev/tty\<close>.

  \<^bold>\<open>How code becomes definitions.\<close> A function of the source is a definition of the same name.
  A function that may fail, or that changes state, is a program \<open>'s \<Rightarrow> 'a res \<times> 's\<close>
  (theory \<open>Prelude\<close>): \<open>Ok\<close> is the value, \<open>Err\<close> an error of the interface,
  \<open>Panic\<close> a panic or a read outside a buffer; \<open>andThen\<close> is the question mark operator,
  \<open>attempt\<close> a match on the result, \<open>ignore\<close> the assignment to an unused name. A
  \<open>struct\<close> is a record, an \<open>enum\<close> a datatype, a \<open>BTreeMap\<close> the ordered association list
  of theory \<open>Btree\<close>. \<open>usize\<close> is \<open>nat\<close> with the wrap-around of the release build, the
  saturation or the check written out where the source has it (\<open>wrap_add\<close>, \<open>sat_add\<close>,
  \<open>checked_add\<close>); \<open>isize\<close> is \<open>int\<close>, with \<open>i64_of_nat\<close> for the cast; bit masks are
  words. A capability slot is a number, null is 0.

  \<^bold>\<open>What is not in the repository.\<close> The kernel library, the other services and the parser
  crates are arguments of the definitions that use them: the records \<open>env\<close> (memory
  parameters, capabilities, page tables, processes and time, files, paths, the libraries of
  constants), \<open>host_env\<close> (start-up and shutdown), \<open>term_env\<close> (the host terminal and the
  escape parser) and \<open>ipc_env\<close> (receive and reply). Their operations are arbitrary
  programs on a world \<open>'w\<close>, so a theorem without a hypothesis on them holds for every
  behaviour of those services, failures included. Hypotheses, where a theorem needs them,
  have a name (\<open>mem_params_ok\<close>, \<open>serves_file\<close>: positional reads of a file; \<open>shows_output\<close>: the host
  terminal refuses a message or accepts at least one byte of it; \<open>ticking_env\<close>: a clock that
  advances by what is slept) and a witness on the concrete environment \<open>example_env\<close>. A byte list
  that a read returns is the buffer up to the count the client reports.

  \<^bold>\<open>Sharing and concurrency.\<close> The source has one dispatcher thread (\<open>APE_DISPATCHER_COUNT\<close>
  is 1) and takes the lock of the manager for a whole handler, so a handler is one step;
  the workers of the file systems hold the lock of their registry for one operation, so an
  interleaving of clients is a sequence of operations (the step relation of theory
  \<open>Pipe\<close>). Reference-counted frames and handles are values; what is shared, the frame
  capabilities and file endpoints, is shared by its slot number, as in the source.

  \<^bold>\<open>The theories,\<close> in the order of the code, and what their lemmas show.

  \<^item> \<open>Prelude\<close>, \<open>Btree\<close>, \<open>Linux_Abi\<close>, \<open>Linux_Io_Abi\<close>: programs and their calculus of kept
    predicates, machine arithmetic, ordered maps (locale \<open>ordered_map\<close>), the numbers of the
    Linux interface.
  \<^item> \<open>Vfs_Base\<close>, \<open>Pipe\<close> (\<open>vfs/pipe.rs\<close>, \<open>vfs/server.rs\<close>): the contract of a file handle
    (locale \<open>file_handle\<close>) and pipes: over every interleaving the counts of a pipe are
    the numbers of its open ends, no end dangles, and bytes leave in the order they entered.
  \<^item> \<open>Page_Policy\<close> (\<open>ape/policy\<close>): the replacement policy of the scratch pages, its interface
    as a locale and the least-recently-used queue.
  \<^item> \<open>Tty_Ldisc\<close>, \<open>Tty_Ansi\<close>, \<open>Tty_Driver\<close> (\<open>ape/tty\<close>, \<open>drivers/tty.rs\<close>): the line discipline
    implements a line editor, input may arrive in any pieces, the cursor stays on the
    screen, a write shows exactly the transformed bytes without cursor queries or ends with
    the error of a refused message, settings read back as they were set.
  \<^item> \<open>Devtmpfs\<close> (\<open>vfs/devtmpfs.rs\<close>, \<open>tmpfs.rs\<close>, \<open>worker.rs\<close>): the device table and the handles
    of devices, an instance of \<open>file_handle\<close>.
  \<^item> \<open>Signal_State\<close>, \<open>Sys_Signal\<close> (\<open>ape/signal.rs\<close>, \<open>system/signal.rs\<close>): pending and blocked
    signals as a state machine, delivery, and the signal calls.
  \<^item> \<open>Mm_State\<close>, \<open>Vspace\<close>, \<open>Mm_Syscalls\<close>, \<open>Fault\<close> (\<open>ape/mm.rs\<close>, \<open>mm/mod.rs\<close>,
    \<open>ape/fault.rs\<close>): the maps of a process stay disjoint and aligned, look-ups and searches are exact,
    page tables are complete before a page is mapped; the memory calls and the faults.
  \<^item> \<open>Map_Laws\<close>, \<open>Mm_Laws\<close>, \<open>Mmap_Laws\<close>: the tables of maps as functions of addresses, and what
    \<open>munmap\<close> and \<open>mmap\<close> do to every address of a process, splits of large maps included.
  \<^item> \<open>Task_State\<close>, \<open>Ape_State\<close>, \<open>Manager\<close> (\<open>ape/state.rs\<close>, \<open>ape/task.rs\<close>, \<open>ape/mod.rs\<close>): the
    process table, the counters of shared frames (locale \<open>shared_caps\<close>), the pool of
    regions for asynchronous I/O.
  \<^item> \<open>User_Access\<close> (\<open>ape/user.rs\<close>): copies from and to a process stay inside maps that permit
    them and touch no other process.
  \<^item> \<open>Access_Steps\<close>: the steps that mapping frames and reading user memory are made of, and the
    locale \<open>access_frame\<close> that carries a predicate through them; the tracer and the
    copy-on-write fault rest on it.
  \<^item> \<open>Async_Sleep\<close>, \<open>Sys_Misc\<close> (\<open>ape/async_runtime.rs\<close>, \<open>system/time.rs\<close>, \<open>poll.rs\<close>,
    \<open>misc.rs\<close>): sleeps, clocks, polling and the small calls.
  \<^item> \<open>Fd\<close>, \<open>File_Io\<close>, \<open>Meta\<close> (\<open>fs/fd.rs\<close>, \<open>io/file.rs\<close>, \<open>fs/meta.rs\<close>, \<open>system/fsctx.rs\<close>):
    descriptors, reading and writing, names and directories; an endpoint is closed by its
    last holder, a read delivers the bytes of the file, errors leave the tables as they were.
  \<^item> \<open>Region_Laws\<close>: over any sequence of opens, closes, duplications and pipe creations two
    descriptors never hold the same region. Fork is left out: it copies handles with their
    regions, and the close of one copy recycles the region of the other.
  \<^item> \<open>Elf\<close>, \<open>Exec\<close>, \<open>Lifecycle\<close>, \<open>Job\<close>, \<open>Process_Exit\<close> (\<open>elf.rs\<close>, \<open>task\<close>): program loading,
    fork, exit, wait and job control; the image and the initial stack byte by byte, and
    that nothing is left of a process that ends.
  \<^item> \<open>Prog_Laws\<close>, \<open>Example_Runs\<close>: what a program establishes when it returns, and runs in an
    environment whose services succeed, for the instances of the properties.
  \<^item> \<open>Fork_Laws\<close>, \<open>Cow_Laws\<close>: copy-on-write from both sides: what \<open>fork\<close> shares between parent and
    child at every address and how many owners a frame has, and the store that unshares a page:
    which frame the map gets, that it holds the old bytes, and who owns the old one.
  \<^item> \<open>Wait_Laws\<close>: the exit of a process composed with the \<open>wait4\<close> of its parent.
  \<^item> \<open>Exec_Files\<close>: the descriptors a program inherits across \<open>execve\<close>.
  \<^item> \<open>Syscalls\<close>, \<open>Dispatch\<close>, \<open>Bootstrap\<close>, \<open>Server\<close>, \<open>Answers\<close> (\<open>syscall\<close>, \<open>ape/bootstrap.rs\<close>,
    \<open>ape/server.rs\<close>): the table of the calls, start-up, the message loop; a value that a
    handler returns is a machine word, and a power-off ends the loop.
  \<^item> \<open>Strace_Format\<close>, \<open>Strace\<close> (\<open>ape/utils/strace.rs\<close>, the hooks in \<open>ape/fault.rs\<close>): the text of a
    traced call; the escaped bytes determine the buffer, and the tracer changes no answer and
    does nothing but read user memory and write its line.
  \<^item> \<open>Entry\<close> (\<open>main.rs\<close>): the endpoints, the manager and the order of the start-up.

  \<^bold>\<open>Fuel.\<close> Loops that wait for something outside take a number of rounds and return an
  option; \<open>None\<close> means still waiting: \<open>ppoll\<close>, \<open>rt_sigtimedwait\<close>, the reads and writes of
  the terminal and the message loop. Where such a loop is claimed to end, the theorem says
  how many rounds are enough (\<open>sigtimedwait_returns\<close>: the time limit in units of the
  sleep; \<open>tty_write_shows\<close>: one round per byte). All other loops are total functions.

  \<^bold>\<open>Not modelled.\<close> The log lines other than those of the tracer. The register layout of
  \<open>arch/x86.rs\<close>: the registers of a system call are those of \<open>arch/riscv.rs\<close>. The contents of memory behind a
  capability belong to the world of the environment.
\<close>

end
